(* ===== verification/Errors.thy ===== *)
theory Errors
  imports Main
begin

text \<open>
  The error values of the program (\<^verbatim>\<open>packages/kernel/src/errors.ts\<close>). Every failed precondition of the
  code throws a \<^verbatim>\<open>DomainError\<close> with a stable code; the union of the codes is split here into the
  groups that the source separates by comments, one datatype each, and \<open>js_error\<close> wraps them together
  with the two built-in JavaScript errors the modelled code raises. The human-readable message and the
  details object of an error carry no decision of the program and are not part of the model.
\<close>

section \<open>Error codes\<close>

text \<open>Codes for money, ledger, idempotency, identity.\<close>

datatype (plugins del: "quickcheck") core_code =
    INVALID_AMOUNT | INVALID_AMOUNT_PRECISION | INVALID_RATE
  | CURRENCY_MISMATCH | NEGATIVE_AMOUNT | UNBALANCED_JOURNAL
  | EMPTY_JOURNAL | DUPLICATE_POSTING_KEY | JOURNAL_ALREADY_REVERSED
  | REVERSAL_OF_REVERSAL | JOURNAL_NOT_FOUND | IDEMPOTENCY_KEY_REQUIRED
  | IDEMPOTENCY_KEY_REUSED | IDEMPOTENCY_IN_PROGRESS | UNAUTHENTICATED
  | FORBIDDEN | MFA_ENROLLMENT_REQUIRED | MFA_VERIFICATION_REQUIRED
  | STEP_UP_REQUIRED | SECOND_APPROVER_REQUIRED | SESSION_SURFACE_MISMATCH
  | SESSION_IDLE_TIMEOUT | LOCK_ORDER_VIOLATION | INVALID_ARGUMENT
  | NOT_FOUND

text \<open>Codes for arguments and reference data.\<close>

datatype (plugins del: "quickcheck") reference_code =
    INVALID_TRANSITION | STALE_VERSION | CLIENT_NOT_ACTIVE
  | DUPLICATE_DESTINATION | INVALID_ADDRESS | ACCOUNT_NOT_ACTIVE
  | CAPACITY_INSUFFICIENT | RESERVATION_NOT_ACTIVE | ROUTE_INACTIVE
  | ROUTE_SETTLEMENT_MODEL_UNSUPPORTED | ROUTE_DIRECTION_MISMATCH | ROUTE_RATE_MISSING
  | WALLET_NOT_ACTIVE | RECEIPT_HASH_MISMATCH | DUPLICATE_STATEMENT
  | CUSTODY_CAPABILITY_UNSUPPORTED | CUSTODY_CAPABILITY_MISMATCH | DEPOSIT_ADDRESS_UNAVAILABLE
  | DEPOSIT_ASSIGNMENT_EXISTS | RATE_LIMITED

text \<open>Codes for requests, quotes, one-time codes.\<close>

datatype (plugins del: "quickcheck") quoting_code =
    REQUEST_NOT_OPEN | AMOUNT_ABOVE_LIMIT | DIRECTION_DISABLED
  | DESTINATION_INVALID | DESTINATION_CHANGED | ROUTE_RATE_STALE
  | NEGATIVE_MARGIN_NOT_PERMITTED | CONCURRENT_QUOTE | QUOTE_NOT_SENT
  | QUOTE_EXPIRED | QUOTE_ALREADY_ACCEPTED | QUOTE_VALIDITY_INVALID
  | LINK_VALIDITY_TOO_SHORT | LINK_NOT_FOUND | LINK_EXISTS
  | NOT_AUTHORIZED_TO_ACCEPT | KYC_NOT_VERIFIED | OTP_INVALID
  | OTP_EXPIRED | OTP_ATTEMPTS_EXCEEDED | OTP_SEND_LIMIT
  | OTP_RECIPIENT_INVALID | TREASURY_INSUFFICIENT

text \<open>Codes for Phase 4: settlement, route obligations, corrections.\<close>

datatype (plugins del: "quickcheck") settlement_code =
    TRADE_ON_HOLD | OVER_ALLOCATION | ROUTE_OVER_ALLOCATION
  | ROUTE_PAYER_NOT_ALLOWED | ROUTE_NOT_USABLE | ROUTE_DIRECT_PAYOUT_MISMATCH
  | ROUTE_OBLIGATION_SETTLED | TREASURY_WALLET_NOT_ACTIVE | TRANSFER_NOT_CONFIRMED
  | UTR_REQUIRED | DUPLICATE_UTR | DUPLICATE_TX_HASH
  | FUNDS_ALREADY_RECEIVED | PAYOUT_IN_FLIGHT | PAYOUT_ALREADY_CONFIRMED
  | REFUND_INCOMPLETE | REFUND_IN_PROGRESS | TRANSFER_ALREADY_CONFIRMED
  | STALE_TRADE_VERSION | INCOMING_FIAT_UNCONFIRMED

text \<open>Codes for Phase 5: chain monitoring.\<close>

datatype (plugins del: "quickcheck") chain_code =
    CHAIN_PROVIDER_ERROR | CHAIN_PROVIDER_DISAGREEMENT | CHAIN_EVIDENCE_INVALID
  | CHAIN_MONITORING_UNCONFIGURED | INSUFFICIENT_PROVIDER_QUORUM | TX_NOT_FINAL
  | TX_ORPHANED | SCANNER_CURSOR_CONFLICT

text \<open>Codes for traders, the shared reserve address, a client opening its own account.\<close>

datatype (plugins del: "quickcheck") trader_code =
    DEPOSIT_ASSIGNMENT_CLOSED | TRADER_EXISTS | TRADER_NOT_APPROVED
  | TRADER_PAUSED | TRADER_OFFLINE | TRADER_ACTION_NOT_PERMITTED
  | TRADER_PROGRAM_NOT_CONFIGURED | TRADER_RESERVE_NOT_SET | TRADER_RESERVE_SHORT
  | TRADER_DESTINATION_INVALID | TRADER_DESTINATION_UNVERIFIED | TRADER_ORDERS_OPEN
  | OWNERSHIP_NOT_CONFIRMED | EXCHANGE_NOT_ENABLED | TRADER_LIMIT_EXCEEDED
  | TRADER_CAPACITY_BELOW_RESERVED | TRADER_BLOCK_INCOMPLETE | TRADER_ROUTE_MANAGED
  | TRADER_NOT_ELIGIBLE | TRADER_NONE_ELIGIBLE | TRADER_ORDER_NOT_LIVE
  | TRADER_ORDER_EXPIRED | TRADER_ORDER_REQUIRED | TRADER_ORDER_MISMATCH
  | TRADER_ORDER_HOLD_EXPIRED | TRADER_ACTION_NOT_DUE | TRADER_WITHDRAWAL_OPEN
  | TRADER_WITHDRAWAL_EXCEEDS_AVAILABLE | TRADER_RESERVE_ADDRESS_UNAVAILABLE | TRADER_DEPOSIT_NOT_FOUND
  | TRADER_DEPOSIT_NOT_YOURS | ACCOUNT_EXISTS | TRADER_REWARD_EXCEEDS_PAYABLE
  | TRADER_REWARD_NOT_COVERED

text \<open>Codes for counterparty-funded execution, holds, stores and keys.\<close>

datatype (plugins del: "quickcheck") funding_code =
    FUNDING_NOT_CONFIRMED | FUNDING_INSUFFICIENT | FUNDING_LOCATION_MISMATCH
  | COUNTERPARTY_NOT_DELIVERED | CUSTODY_OBSERVATION_STALE | CUSTODY_BALANCE_INSUFFICIENT
  | NEW_BUSINESS_PAUSED | PAYOUTS_HELD | OBJECT_STORE_UNAVAILABLE
  | OBJECT_STORE_REFUSED | OBJECT_STORE_CONFLICT | OBJECT_STORE_NOT_CONFIGURED
  | KMS_UNAVAILABLE | KMS_REFUSED | FIELD_PROTECTION_MISCONFIGURED

text \<open>Codes for USDT TRC20 rails.\<close>

datatype (plugins del: "quickcheck") rails_code =
    CUSTODY_SIGNER_CLOSED | CUSTODY_SIGNER_UNAVAILABLE | CUSTODY_PATH_REFUSED
  | CUSTODY_TX_MISMATCH | CUSTODY_MISCONFIGURED | CUSTODY_TRX_INSUFFICIENT
  | NETWORK_FEES_UNKNOWN | NETWORK_BUDGET_INSUFFICIENT | NETWORK_DEPOSIT_NOT_FOUND
  | NETWORK_DEPOSIT_NOT_YOURS | NETWORK_WITHDRAWAL_OPEN | NETWORK_WITHDRAWAL_EXCEEDS_AVAILABLE
  | QUOTE_UNPROFITABLE | QUOTE_NETWORK_FEE_MISSING | CHAIN_SEND_IN_FLIGHT
  | CHAIN_SEND_UNRESOLVED | AUTO_SEND_DISABLED

text \<open>Codes for clean INR, P2P escrow, desks, disputes and unwinds.\<close>

datatype (plugins del: "quickcheck") desk_code =
    INVALID_UTR | NO_COLLECTION | NOTHING_OWED
  | NOT_OWN_ACCOUNT | INR_SENDER_NOT_VERIFIED | ESCROW_NOT_FUNDED
  | NOT_THE_PAYEE | DESK_EXISTS | DESK_HANDLE_TAKEN
  | DESK_HANDLE_INVALID | DESK_NOT_LIVE | DESK_CLIENT_BLOCKED
  | DESK_LINK_UNAVAILABLE | ALREADY_MEMBER | INVITE_UNAVAILABLE
  | TEAM_SELF_CHANGE | DISPUTE_EXISTS | NOT_THE_PAYER
  | NOT_DUE | SENDER_NOT_SHOWN | P2P_PAYMENT_WINDOW_CLOSED
  | INR_UNEXPECTED_SENDER

section \<open>Thrown values\<close>

datatype js_error =
    CoreError core_code
  | ReferenceError reference_code
  | QuotingError quoting_code
  | SettlementError settlement_code
  | ChainError chain_code
  | TraderError trader_code
  | FundingError funding_code
  | RailsError rails_code
  | DeskError desk_code
  | RangeError
  | TypeError
  | DatabaseError
  | DatabaseInputError
  | NoResultError

text \<open>\<open>DatabaseError\<close> is the error of the driver when a constraint of the database refuses a row, \<open>DatabaseInputError\<close> the one
  when a value is not a literal of its column's type, \<open>NoResultError\<close> the query builder's error when \<^verbatim>\<open>executeTakeFirstOrThrow\<close>
  finds no row.\<close>

text \<open>\<open>isDomainError(err, code)\<close>: the code argument is optional.\<close>

definition is_domain_error :: "js_error \<Rightarrow> bool" where
  "is_domain_error e \<longleftrightarrow> e \<notin> {RangeError, TypeError, DatabaseError, DatabaseInputError, NoResultError}"

definition isDomainError :: "js_error \<Rightarrow> js_error option \<Rightarrow> bool" where
  "isDomainError e code \<longleftrightarrow> is_domain_error e \<and> (case code of None \<Rightarrow> True | Some c \<Rightarrow> e = c)"

end
