(* ===== verification/Prelude.thy ===== *)
theory Prelude
  imports Errors
begin

text \<open>
  Generic material shared by every component: the result type of fallible code, commands that read and
  write the database inside one transaction, the list idioms that stand for SQL statements, and the
  collections of rewrite rules the component proofs use.
  \<^item> \<open>'a result\<close> is the value of a function that may throw: \<open>Inl e\<close> is a thrown error, \<open>Inr x\<close> a return.
  \<^item> \<open>('s, 'a) cmd\<close> is a function running inside a transaction on a state \<open>'s\<close>. A thrown error carries no
    state, because every throw rolls the transaction back (\<^verbatim>\<open>packages/db/src/transaction.ts\<close>).
  \<^item> A table is a list of rows; \<open>update_where\<close> is \<^verbatim>\<open>UPDATE ... WHERE\<close>, \<open>filter\<close> is \<^verbatim>\<open>SELECT ... WHERE\<close> and
    \<open>List.find\<close> is \<^verbatim>\<open>executeTakeFirst\<close>.
\<close>

named_theorems cmd_simps \<open>equations that run a command on a state\<close>
named_theorems inv_intros \<open>a command keeps an invariant of the state\<close>

section \<open>Functions that may throw\<close>

type_synonym 'a result = "js_error + 'a"

definition bindR :: "'a result \<Rightarrow> ('a \<Rightarrow> 'b result) \<Rightarrow> 'b result" where
  "bindR m f = (case m of Inl e \<Rightarrow> Inl e | Inr x \<Rightarrow> f x)"

definition throwUnless :: "bool \<Rightarrow> js_error \<Rightarrow> unit result" where
  "throwUnless ok e = (if ok then Inr () else Inl e)"

fun mapR :: "('a \<Rightarrow> 'b result) \<Rightarrow> 'a list \<Rightarrow> 'b list result" where
  "mapR f [] = Inr []"
| "mapR f (x # xs) = bindR (f x) (\<lambda>y. bindR (mapR f xs) (\<lambda>ys. Inr (y # ys)))"

lemma bindR_simps [simp]:
  "bindR (Inl e) f = Inl e"
  "bindR (Inr x) f = f x"
  by (simp_all add: bindR_def)

lemma bindR_Inr_iff [simp]: "bindR m f = Inr y \<longleftrightarrow> (\<exists>x. m = Inr x \<and> f x = Inr y)"
  by (cases m) simp_all

lemma bindR_Inl_iff: "bindR m f = Inl e \<longleftrightarrow> m = Inl e \<or> (\<exists>x. m = Inr x \<and> f x = Inl e)"
  by (cases m) simp_all

lemma bindR_assoc: "bindR (bindR m f) g = bindR m (\<lambda>x. bindR (f x) g)"
  by (cases m) simp_all

lemma throwUnless_simps [simp]:
  "throwUnless True e = Inr ()"
  "throwUnless False e = Inl e"
  by (simp_all add: throwUnless_def)

lemma throwUnless_Inr_iff [simp]: "throwUnless ok e = Inr u \<longleftrightarrow> ok"
  by (simp add: throwUnless_def)

lemma throwUnless_Inl_iff [simp]: "throwUnless ok e = Inl e' \<longleftrightarrow> \<not> ok \<and> e' = e"
  by (auto simp: throwUnless_def)

lemma mapR_Inr_iff: "mapR f xs = Inr ys \<longleftrightarrow> list_all2 (\<lambda>x y. f x = Inr y) xs ys"
  by (induction xs arbitrary: ys) (auto simp: list_all2_Cons1)

lemma mapR_length: "mapR f xs = Inr ys \<Longrightarrow> length ys = length xs"
  by (simp add: mapR_Inr_iff list_all2_lengthD)

section \<open>Commands in a transaction\<close>

type_synonym ('s, 'a) cmd = "'s \<Rightarrow> js_error + 'a \<times> 's"

definition returnC :: "'a \<Rightarrow> ('s, 'a) cmd" where
  "returnC x = (\<lambda>s. Inr (x, s))"

definition bindC :: "('s, 'a) cmd \<Rightarrow> ('a \<Rightarrow> ('s, 'b) cmd) \<Rightarrow> ('s, 'b) cmd" where
  "bindC m f = (\<lambda>s. case m s of Inl e \<Rightarrow> Inl e | Inr (x, s') \<Rightarrow> f x s')"

definition throwC :: "js_error \<Rightarrow> ('s, 'a) cmd" where
  "throwC e = (\<lambda>s. Inl e)"

definition unlessC :: "bool \<Rightarrow> js_error \<Rightarrow> ('s, unit) cmd" where
  "unlessC ok e = (if ok then returnC () else throwC e)"

definition whenC :: "bool \<Rightarrow> ('s, unit) cmd \<Rightarrow> ('s, unit) cmd" where
  "whenC b m = (if b then m else returnC ())"

definition liftC :: "'a result \<Rightarrow> ('s, 'a) cmd" where
  "liftC r = (\<lambda>s. case r of Inl e \<Rightarrow> Inl e | Inr x \<Rightarrow> Inr (x, s))"

definition readC :: "('s \<Rightarrow> 'a) \<Rightarrow> ('s, 'a) cmd" where
  "readC q = (\<lambda>s. Inr (q s, s))"

definition writeC :: "('s \<Rightarrow> 's) \<Rightarrow> ('s, unit) cmd" where
  "writeC f = (\<lambda>s. Inr ((), f s))"

definition foundC :: "js_error \<Rightarrow> 'a option \<Rightarrow> ('s, 'a) cmd" where
  "foundC e x = (case x of None \<Rightarrow> throwC e | Some y \<Rightarrow> returnC y)"

fun forC :: "'a list \<Rightarrow> ('a \<Rightarrow> ('s, unit) cmd) \<Rightarrow> ('s, unit) cmd" where
  "forC [] f = returnC ()"
| "forC (x # xs) f = bindC (f x) (\<lambda>_. forC xs f)"

text \<open>Running a command, keeping the old state when it throws: the transaction boundary.\<close>

definition runTx :: "('s, 'a) cmd \<Rightarrow> 's \<Rightarrow> 'a result \<times> 's" where
  "runTx m s = (case m s of Inl e \<Rightarrow> (Inl e, s) | Inr (x, s') \<Rightarrow> (Inr x, s'))"

lemma cmd_run_simps [simp, cmd_simps]:
  "returnC x s = Inr (x, s)"
  "throwC e s = Inl e"
  "readC q s = Inr (q s, s)"
  "writeC f s = Inr ((), f s)"
  "unlessC ok e s = (if ok then Inr ((), s) else Inl e)"
  "whenC b m s = (if b then m s else Inr ((), s))"
  "liftC (Inl e) s = Inl e"
  "liftC (Inr x) s = Inr (x, s)"
  "foundC e None s = Inl e"
  "foundC e (Some y) s = Inr (y, s)"
  by (simp_all add: returnC_def throwC_def readC_def writeC_def unlessC_def whenC_def liftC_def foundC_def)

lemma bindC_simps [simp, cmd_simps]:
  "m s = Inl e \<Longrightarrow> bindC m f s = Inl e"
  "m s = Inr (x, s') \<Longrightarrow> bindC m f s = f x s'"
  by (simp_all add: bindC_def)

lemma bindC_run [cmd_simps]: "bindC m f s = (case m s of Inl e \<Rightarrow> Inl e | Inr (x, s') \<Rightarrow> f x s')"
  by (simp add: bindC_def)

lemma bindC_Inr_iff [simp]:
  "bindC m f s = Inr (y, t) \<longleftrightarrow> (\<exists>x s'. m s = Inr (x, s') \<and> f x s' = Inr (y, t))"
  by (auto simp: bindC_def split: sum.splits)

lemma bindC_Inl_iff:
  "bindC m f s = Inl e \<longleftrightarrow> m s = Inl e \<or> (\<exists>x s'. m s = Inr (x, s') \<and> f x s' = Inl e)"
  by (auto simp: bindC_def split: sum.splits)

lemma bindC_assoc: "bindC (bindC m f) g = bindC m (\<lambda>x. bindC (f x) g)"
  by (rule ext) (auto simp: bindC_def split: sum.splits)

lemma liftC_Inr_iff [simp]: "liftC r s = Inr (x, t) \<longleftrightarrow> r = Inr x \<and> t = s"
  by (auto simp: liftC_def split: sum.splits)

lemma liftC_Inl_iff [simp]: "liftC r s = Inl e \<longleftrightarrow> r = Inl e"
  by (auto simp: liftC_def split: sum.splits)

lemma foundC_Inr_iff [simp]: "foundC e x s = Inr (y, t) \<longleftrightarrow> x = Some y \<and> t = s"
  by (auto simp: foundC_def split: option.splits)

lemma foundC_Inl_iff [simp]: "foundC e x s = Inl e' \<longleftrightarrow> x = None \<and> e' = e"
  by (auto simp: foundC_def split: option.splits)

lemma runTx_error_keeps_state: "fst (runTx m s) = Inl e \<Longrightarrow> snd (runTx m s) = s"
  by (auto simp: runTx_def split: sum.splits prod.splits)

lemma runTx_ok: "runTx m s = (Inr x, t) \<longleftrightarrow> m s = Inr (x, t)"
  by (auto simp: runTx_def split: sum.splits prod.splits)

section \<open>Invariants of commands\<close>

text \<open>\<open>keeps I m\<close>: whenever \<open>m\<close> succeeds from a state with \<open>I\<close>, the new state has \<open>I\<close>.\<close>

definition keeps :: "('s \<Rightarrow> bool) \<Rightarrow> ('s, 'a) cmd \<Rightarrow> bool" where
  "keeps I m \<longleftrightarrow> (\<forall>s x s'. I s \<longrightarrow> m s = Inr (x, s') \<longrightarrow> I s')"

lemma keepsI: "(\<And>s x s'. I s \<Longrightarrow> m s = Inr (x, s') \<Longrightarrow> I s') \<Longrightarrow> keeps I m"
  by (simp add: keeps_def)

lemma keepsD: "keeps I m \<Longrightarrow> I s \<Longrightarrow> m s = Inr (x, s') \<Longrightarrow> I s'"
  by (simp add: keeps_def)

lemma keeps_basic [inv_intros]:
  "keeps I (returnC x)" "keeps I (throwC e)" "keeps I (readC q)" "keeps I (unlessC ok e)"
  "keeps I (liftC r)" "keeps I (foundC e z)"
  by (auto simp: keeps_def split: if_splits)

lemma keeps_write [inv_intros]: "(\<And>s. I s \<Longrightarrow> I (f s)) \<Longrightarrow> keeps I (writeC f)"
  by (auto simp: keeps_def)

lemma keeps_bind [inv_intros]: "keeps I m \<Longrightarrow> (\<And>x. keeps I (f x)) \<Longrightarrow> keeps I (bindC m f)"
  by (rule keepsI) (auto dest: keepsD)

lemma keeps_when [inv_intros]: "(b \<Longrightarrow> keeps I m) \<Longrightarrow> keeps I (whenC b m)"
  by (auto simp: keeps_def split: if_splits)

lemma keeps_if [inv_intros]:
  "(b \<Longrightarrow> keeps I m) \<Longrightarrow> (\<not> b \<Longrightarrow> keeps I n) \<Longrightarrow> keeps I (if b then m else n)"
  by simp

lemma keeps_forC [inv_intros]: "(\<And>x. x \<in> set xs \<Longrightarrow> keeps I (f x)) \<Longrightarrow> keeps I (forC xs f)"
  by (induction xs) (auto intro!: inv_intros)

section \<open>Tables\<close>

definition update_where :: "('r \<Rightarrow> bool) \<Rightarrow> ('r \<Rightarrow> 'r) \<Rightarrow> 'r list \<Rightarrow> 'r list" where
  "update_where p f rows = map (\<lambda>r. if p r then f r else r) rows"

lemma length_update_where [simp]: "length (update_where p f rows) = length rows"
  by (simp add: update_where_def)

lemma update_where_Nil [simp]: "update_where p f [] = []"
  by (simp add: update_where_def)

lemma update_where_Cons [simp]: "update_where p f (r # rs) = (if p r then f r else r) # update_where p f rs"
  by (simp add: update_where_def)

lemma set_update_where: "set (update_where p f rows) = (\<lambda>r. if p r then f r else r) ` set rows"
  by (simp add: update_where_def)

lemma map_update_where [simp]: "(\<And>r. p r \<Longrightarrow> g (f r) = g r) \<Longrightarrow> map g (update_where p f rows) = map g rows"
  by (simp add: update_where_def)

lemma update_where_append [simp]:
  "update_where p f (xs @ ys) = update_where p f xs @ update_where p f ys"
  by (simp add: update_where_def)

lemma find_Some_mem: "List.find p xs = Some x \<Longrightarrow> x \<in> set xs \<and> p x"
  by (induction xs) (auto split: if_splits)

lemma find_None_not_mem: "List.find p xs = None \<longleftrightarrow> (\<forall>x \<in> set xs. \<not> p x)"
  by (induction xs) auto

lemma find_unique: "distinct (map k xs) \<Longrightarrow> x \<in> set xs \<Longrightarrow> List.find (\<lambda>y. k y = k x) xs = Some x"
  by (induction xs) (auto simp: rev_image_eqI)

lemma sum_list_filter_le: "(\<And>x. x \<in> set xs \<Longrightarrow> 0 \<le> (f x :: int)) \<Longrightarrow> sum_list (map f (filter p xs)) \<le> sum_list (map f xs)"
  by (induction xs) (auto intro: add_increasing)

lemma sum_list_nonneg_map: "(\<And>x. x \<in> set xs \<Longrightarrow> 0 \<le> (f x :: int)) \<Longrightarrow> 0 \<le> sum_list (map f xs)"
  by (induction xs) (auto intro: add_nonneg_nonneg)

lemma guard_Inr: "(if b then Inr x else Inl e) = Inr y \<longleftrightarrow> b \<and> y = x"
  by auto

end
