(* ===== verification/Kernel_Numbers.thy ===== *)
theory Kernel_Numbers
  imports Prelude
begin

text \<open>
  Exact money (\<^verbatim>\<open>packages/kernel/src\<close>: \<^verbatim>\<open>currency.ts\<close>, \<^verbatim>\<open>decimal.ts\<close>, \<^verbatim>\<open>rounding.ts\<close>, \<^verbatim>\<open>money.ts\<close>, \<^verbatim>\<open>rate.ts\<close>,
  \<^verbatim>\<open>conversion.ts\<close>, \<^verbatim>\<open>trx.ts\<close>). A \<^verbatim>\<open>bigint\<close> is an \<open>int\<close>; a JavaScript \<^verbatim>\<open>number\<close> used as an exponent or as
  basis points is an \<open>int\<close> too (the code only passes whole numbers). JavaScript's \<open>bigint\<close> division truncates
  towards zero; every division below has a non-negative numerator and a positive denominator, where it agrees
  with \<open>div\<close> and \<open>mod\<close>.
\<close>

section \<open>Currencies\<close>

datatype currency = USDT | INR

definition exponentOf :: "currency \<Rightarrow> int" where
  "exponentOf c = (case c of USDT \<Rightarrow> 6 | INR \<Rightarrow> 2)"

definition currency_code :: "currency \<Rightarrow> string" where
  "currency_code c = (case c of USDT \<Rightarrow> ''USDT'' | INR \<Rightarrow> ''INR'')"

definition isCurrencyCode :: "string \<Rightarrow> bool" where
  "isCurrencyCode s \<longleftrightarrow> s \<in> {''USDT'', ''INR''}"

definition RATE_EXPONENT :: int where
  "RATE_EXPONENT = 6"

definition pow10 :: "int \<Rightarrow> int result" where
  "pow10 e = (if e < 0 then Inl RangeError else Inr (10 ^ nat e))"

section \<open>Decimal strings\<close>

definition isDigit :: "char \<Rightarrow> bool" where
  "isDigit c \<longleftrightarrow> 48 \<le> (of_char c :: nat) \<and> (of_char c :: nat) \<le> 57"

definition digit_value :: "char \<Rightarrow> int" where
  "digit_value c = int (of_char c) - 48"

definition digit_char :: "int \<Rightarrow> char" where
  "digit_char d = char_of (48 + nat d)"

text \<open>\<^verbatim>\<open>BigInt(s)\<close> on a string of digits, and \<^verbatim>\<open>toString\<close> of a non-negative bigint.\<close>

definition bigint_of :: "string \<Rightarrow> int" where
  "bigint_of s = foldl (\<lambda>a c. 10 * a + digit_value c) 0 s"

function digits_of :: "int \<Rightarrow> string" where
  "digits_of n = (if n < 10 then [digit_char (if n < 0 then 0 else n)] else digits_of (n div 10) @ [digit_char (n mod 10)])"
  by pat_completeness auto
termination by (relation "measure nat") auto

declare digits_of.simps [simp del]

text \<open>The groups of \<^verbatim>\<open>DECIMAL_RE = /^(-)?(0|[1-9]\d*)(?:\.(\d+))?$/\<close>: sign, whole part, fraction (empty when absent).\<close>

definition DECIMAL_RE :: "string \<Rightarrow> (bool \<times> string \<times> string) option" where
  "DECIMAL_RE input =
     (let sign = (case input of c # _ \<Rightarrow> c = CHR ''-'' | [] \<Rightarrow> False);
          body = (if sign then tl input else input);
          whole = takeWhile isDigit body;
          rest = dropWhile isDigit body
      in if whole = [] \<or> (hd whole = CHR ''0'' \<and> whole \<noteq> ''0'') then None
         else case rest of
             [] \<Rightarrow> Some (sign, whole, [])
           | c # frac \<Rightarrow>
               if c = CHR ''.'' \<and> frac \<noteq> [] \<and> list_all isDigit frac then Some (sign, whole, frac) else None)"

definition padEnd :: "string \<Rightarrow> int \<Rightarrow> string" where
  "padEnd s n = s @ replicate (nat (n - int (length s))) (CHR ''0'')"

definition padStart :: "string \<Rightarrow> int \<Rightarrow> string" where
  "padStart s n = replicate (nat (n - int (length s))) (CHR ''0'') @ s"

definition parseDecimalToMinor :: "string \<Rightarrow> int \<Rightarrow> int result" where
  "parseDecimalToMinor input e =
     (case DECIMAL_RE input of
        None \<Rightarrow> Inl (CoreError INVALID_AMOUNT)
      | Some (sign, whole, frac) \<Rightarrow>
          if int (length frac) > e then Inl (CoreError INVALID_AMOUNT_PRECISION)
          else bindR (pow10 e) (\<lambda>p.
            let padded = padEnd frac e;
                minor = bigint_of whole * p + bigint_of (if padded = [] then ''0'' else padded)
            in Inr (if sign then - minor else minor)))"

definition formatMinorToDecimal :: "int \<Rightarrow> int \<Rightarrow> string result" where
  "formatMinorToDecimal m e =
     (let negative = m < 0; a = (if negative then - m else m)
      in bindR (pow10 e) (\<lambda>scale.
        let whole = a div scale;
            frac = a mod scale;
            body = (if e = 0 then digits_of whole else digits_of whole @ ''.'' @ padStart (digits_of frac) e)
        in Inr (if negative then ''-'' @ body else body)))"

section \<open>Rounding division\<close>

datatype rounding_mode = DOWN | UP | HALF_EVEN

definition divRound :: "int \<Rightarrow> int \<Rightarrow> rounding_mode \<Rightarrow> int result" where
  "divRound numerator denominator mode =
     (if denominator \<le> 0 then Inl (CoreError INVALID_ARGUMENT)
      else if numerator < 0 then Inl (CoreError NEGATIVE_AMOUNT)
      else
        let q = numerator div denominator; r = numerator mod denominator
        in if r = 0 then Inr q
           else case mode of
               DOWN \<Rightarrow> Inr q
             | UP \<Rightarrow> Inr (q + 1)
             | HALF_EVEN \<Rightarrow>
                 let twice = r * 2
                 in if twice > denominator then Inr (q + 1)
                    else if twice < denominator then Inr q
                    else Inr (if q mod 2 = 0 then q else q + 1))"

section \<open>Money and rates\<close>

record money =
  minor :: int
  currency :: currency

definition ofMinor :: "int \<Rightarrow> currency \<Rightarrow> money" where
  "ofMinor m c = \<lparr>minor = m, currency = c\<rparr>"

definition Money_parse :: "string \<Rightarrow> currency \<Rightarrow> money result" where
  "Money_parse d c = bindR (parseDecimalToMinor d (exponentOf c)) (\<lambda>m. Inr (ofMinor m c))"

definition Money_zero :: "currency \<Rightarrow> money" where
  "Money_zero c = ofMinor 0 c"

definition Money_same :: "money \<Rightarrow> money \<Rightarrow> unit result" where
  "Money_same a b = (if currency b \<noteq> currency a then Inl (CoreError CURRENCY_MISMATCH) else Inr ())"

definition Money_add :: "money \<Rightarrow> money \<Rightarrow> money result" where
  "Money_add a b = bindR (Money_same a b) (\<lambda>_. Inr (ofMinor (minor a + minor b) (currency a)))"

definition Money_sub :: "money \<Rightarrow> money \<Rightarrow> money result" where
  "Money_sub a b = bindR (Money_same a b) (\<lambda>_. Inr (ofMinor (minor a - minor b) (currency a)))"

definition Money_negate :: "money \<Rightarrow> money" where
  "Money_negate a = ofMinor (- minor a) (currency a)"

definition Money_compare :: "money \<Rightarrow> money \<Rightarrow> int result" where
  "Money_compare a b =
     bindR (Money_same a b) (\<lambda>_. Inr (if minor a < minor b then - 1 else if minor a > minor b then 1 else 0))"

definition Money_equals :: "money \<Rightarrow> money \<Rightarrow> bool" where
  "Money_equals a b \<longleftrightarrow> currency b = currency a \<and> minor b = minor a"

definition isZero :: "money \<Rightarrow> bool" where "isZero a \<longleftrightarrow> minor a = 0"
definition isPositive :: "money \<Rightarrow> bool" where "isPositive a \<longleftrightarrow> minor a > 0"
definition isNegative :: "money \<Rightarrow> bool" where "isNegative a \<longleftrightarrow> minor a < 0"

definition Money_toDecimalString :: "money \<Rightarrow> string result" where
  "Money_toDecimalString a = formatMinorToDecimal (minor a) (exponentOf (currency a))"

definition Money_toString :: "money \<Rightarrow> string result" where
  "Money_toString a = bindR (Money_toDecimalString a) (\<lambda>d. Inr (d @ '' '' @ currency_code (currency a)))"

datatype rate_kind = CLIENT_RATE | ROUTE_RATE | REFERENCE_RATE

record rate =
  micro :: int
  rkind :: rate_kind

definition Rate_ofMicro :: "int \<Rightarrow> rate_kind \<Rightarrow> rate result" where
  "Rate_ofMicro m k = (if m \<le> 0 then Inl (CoreError INVALID_RATE) else Inr \<lparr>micro = m, rkind = k\<rparr>)"

definition Rate_parse :: "string \<Rightarrow> rate_kind \<Rightarrow> rate result" where
  "Rate_parse d k = bindR (parseDecimalToMinor d RATE_EXPONENT) (\<lambda>m. Rate_ofMicro m k)"

definition Rate_toDecimalString :: "rate \<Rightarrow> string result" where
  "Rate_toDecimalString r = formatMinorToDecimal (micro r) RATE_EXPONENT"

text \<open>A rate the constructors can have made.\<close>

definition wf_rate :: "rate \<Rightarrow> bool" where
  "wf_rate r \<longleftrightarrow> 0 < micro r"

section \<open>Conversions\<close>

text \<open>\<^verbatim>\<open>SCALE = pow10(exponentOf('USDT') + RATE_EXPONENT - exponentOf('INR'))\<close>, a module constant.\<close>

definition SCALE :: int where
  "SCALE = 10 ^ nat (exponentOf USDT + RATE_EXPONENT - exponentOf INR)"

definition usdtToInr :: "money \<Rightarrow> rate \<Rightarrow> rounding_mode \<Rightarrow> money result" where
  "usdtToInr usdt r mode =
     (if currency usdt \<noteq> USDT then Inl (CoreError CURRENCY_MISMATCH)
      else if isNegative usdt then Inl (CoreError NEGATIVE_AMOUNT)
      else bindR (divRound (minor usdt * micro r) SCALE mode) (\<lambda>m. Inr (ofMinor m INR)))"

definition inrToUsdt :: "money \<Rightarrow> rate \<Rightarrow> rounding_mode \<Rightarrow> money result" where
  "inrToUsdt inr r mode =
     (if currency inr \<noteq> INR then Inl (CoreError CURRENCY_MISMATCH)
      else if isNegative inr then Inl (CoreError NEGATIVE_AMOUNT)
      else bindR (divRound (minor inr * SCALE) (micro r) mode) (\<lambda>m. Inr (ofMinor m USDT)))"

section \<open>TRX\<close>

definition TRX_EXPONENT :: int where
  "TRX_EXPONENT = 6"

definition parseTrx :: "string \<Rightarrow> int result" where
  "parseTrx d = bindR (parseDecimalToMinor d TRX_EXPONENT)
     (\<lambda>sun. if sun < 0 then Inl (CoreError INVALID_AMOUNT) else Inr sun)"

definition formatTrx :: "int \<Rightarrow> string result" where
  "formatTrx sun = formatMinorToDecimal sun TRX_EXPONENT"

definition trxToInrMinor :: "int \<Rightarrow> int \<Rightarrow> int \<Rightarrow> rounding_mode \<Rightarrow> int result" where
  "trxToInrMinor sun usdtPerTrxMicro inrPerUsdtMicro mode =
     (if sun < 0 \<or> usdtPerTrxMicro \<le> 0 \<or> inrPerUsdtMicro \<le> 0 then Inl (CoreError INVALID_ARGUMENT)
      else bindR (pow10 16) (\<lambda>d. divRound (sun * usdtPerTrxMicro * inrPerUsdtMicro) d mode))"

definition trxToUsdtMinor :: "int \<Rightarrow> int \<Rightarrow> rounding_mode \<Rightarrow> int result" where
  "trxToUsdtMinor sun usdtPerTrxMicro mode =
     (if sun < 0 \<or> usdtPerTrxMicro \<le> 0 then Inl (CoreError INVALID_ARGUMENT)
      else bindR (pow10 6) (\<lambda>d. divRound (sun * usdtPerTrxMicro) d mode))"


section \<open>Lemmas: digits\<close>

lemma digit_char_code: "0 \<le> d \<Longrightarrow> d < 10 \<Longrightarrow> (of_char (digit_char d) :: nat) = 48 + nat d"
  by (simp add: digit_char_def)

lemma isDigit_digit_char [simp]: "0 \<le> d \<Longrightarrow> d < 10 \<Longrightarrow> isDigit (digit_char d)"
  by (simp add: isDigit_def digit_char_code)

lemma digit_value_digit_char [simp]: "0 \<le> d \<Longrightarrow> d < 10 \<Longrightarrow> digit_value (digit_char d) = d"
  by (simp add: digit_value_def digit_char_code)

lemma digit_value_bounds: "isDigit c \<Longrightarrow> 0 \<le> digit_value c \<and> digit_value c \<le> 9"
  by (auto simp: isDigit_def digit_value_def)

lemma digit_char_0: "digit_char 0 = CHR ''0''"
  using char_of_char[where 'a = nat, of "CHR ''0''"] by (simp add: digit_char_def del: char_of_char)

lemma digit_char_eq_0 [simp]:
  assumes "0 \<le> d" "d < 10"
  shows "digit_char d = CHR ''0'' \<longleftrightarrow> d = 0"
proof
  assume "digit_char d = CHR ''0''"
  then have "digit_value (digit_char d) = digit_value (CHR ''0'')" by simp
  then show "d = 0" using assms by (simp add: digit_value_def[of "CHR ''0''"])
qed (simp add: digit_char_0)

lemma bigint_of_snoc: "bigint_of (s @ [c]) = 10 * bigint_of s + digit_value c"
  by (simp add: bigint_of_def)

lemma bigint_of_Nil [simp]: "bigint_of [] = 0"
  by (simp add: bigint_of_def)

lemma bigint_of_append: "bigint_of (s @ t) = bigint_of s * 10 ^ length t + bigint_of t"
proof (induction t rule: rev_induct)
  case (snoc c t)
  have "bigint_of (s @ t @ [c]) = 10 * bigint_of (s @ t) + digit_value c"
    using bigint_of_snoc[of "s @ t" c] by simp
  then show ?case by (simp add: snoc bigint_of_snoc algebra_simps)
qed simp

lemma bigint_of_zeros [simp]: "bigint_of (replicate k (CHR ''0'')) = 0"
proof (induction k)
  case (Suc k)
  have "bigint_of (replicate k (CHR ''0'') @ [CHR ''0'']) = 10 * 0 + digit_value (CHR ''0'')"
    by (simp only: bigint_of_snoc Suc)
  then show ?case by (simp add: replicate_append_same digit_value_def)
qed simp

lemma bigint_of_padEnd: "bigint_of (padEnd s n) = bigint_of s * 10 ^ nat (n - int (length s))"
  by (simp add: padEnd_def bigint_of_append)

lemma bigint_of_padStart [simp]: "bigint_of (padStart s n) = bigint_of s"
  by (simp add: padStart_def bigint_of_append)

lemma length_padStart: "int (length s) \<le> n \<Longrightarrow> int (length (padStart s n)) = n"
  by (simp add: padStart_def)

lemma length_padEnd: "int (length s) \<le> n \<Longrightarrow> int (length (padEnd s n)) = n"
  by (simp add: padEnd_def)

lemma bigint_of_bounds: "list_all isDigit s \<Longrightarrow> 0 \<le> bigint_of s \<and> bigint_of s < 10 ^ length s"
proof (induction s rule: rev_induct)
  case (snoc c s)
  then have "0 \<le> bigint_of s" "bigint_of s < 10 ^ length s" "0 \<le> digit_value c" "digit_value c \<le> 9"
    using digit_value_bounds[of c] by auto
  then show ?case by (simp add: bigint_of_snoc)
qed simp

lemma digits_of_value: "0 \<le> n \<Longrightarrow> bigint_of (digits_of n) = n"
proof (induction n rule: digits_of.induct)
  case (1 n)
  show ?case
  proof (cases "n < 10")
    case True
    with 1(2) show ?thesis by (simp add: digits_of.simps[of n] bigint_of_def)
  next
    case False
    with 1 have "bigint_of (digits_of (n div 10)) = n div 10" by simp
    with False show ?thesis by (simp add: digits_of.simps[of n] bigint_of_snoc)
  qed
qed

lemma digits_of_digits: "list_all isDigit (digits_of n)"
proof (induction n rule: digits_of.induct)
  case (1 n)
  then show ?case by (cases "n < 10") (simp_all add: digits_of.simps[of n])
qed

lemma digits_of_nonempty [simp]: "digits_of n \<noteq> []"
  by (subst digits_of.simps) simp

lemma hd_digits_of: "0 < n \<Longrightarrow> hd (digits_of n) \<noteq> CHR ''0''"
proof (induction n rule: digits_of.induct)
  case (1 n)
  show ?case
  proof (cases "n < 10")
    case True
    with 1(2) show ?thesis by (simp add: digits_of.simps[of n])
  next
    case False
    then have "0 < n div 10" by (simp add: pos_imp_zdiv_pos_iff)
    with 1(1) False have "hd (digits_of (n div 10)) \<noteq> CHR ''0''" by simp
    with False show ?thesis by (simp add: digits_of.simps[of n] hd_append)
  qed
qed

lemma digits_of_0 [simp]: "digits_of 0 = ''0''"
  by (simp add: digits_of.simps[of 0])

lemma digits_of_length: "0 \<le> n \<Longrightarrow> n < 10 ^ Suc k \<Longrightarrow> length (digits_of n) \<le> Suc k"
proof (induction k arbitrary: n)
  case 0
  then show ?case by (simp add: digits_of.simps[of n])
next
  case (Suc k)
  show ?case
  proof (cases "n < 10")
    case False
    with Suc have "length (digits_of (n div 10)) \<le> Suc k" by simp
    with False show ?thesis by (simp add: digits_of.simps[of n])
  qed (simp add: digits_of.simps[of n])
qed

lemma not_isDigit_dot [simp]: "\<not> isDigit (CHR ''.'')" and not_isDigit_minus [simp]: "\<not> isDigit (CHR ''-'')"
  by (simp_all add: isDigit_def)


section \<open>Lemmas: decimal strings\<close>

text \<open>The strings \<open>DECIMAL_RE\<close> matches are exactly the renderings of a sign, a whole part and a fraction.\<close>

definition decimal_parts :: "string \<Rightarrow> string \<Rightarrow> bool" where
  "decimal_parts w f \<longleftrightarrow> list_all isDigit w \<and> w \<noteq> [] \<and> (hd w = CHR ''0'' \<longrightarrow> w = ''0'') \<and> list_all isDigit f"

definition render_decimal :: "bool \<Rightarrow> string \<Rightarrow> string \<Rightarrow> string" where
  "render_decimal neg w f = (if neg then ''-'' else []) @ w @ (if f = [] then [] else CHR ''.'' # f)"

lemma takeWhile_digits: "list_all isDigit w \<Longrightarrow> takeWhile isDigit (w @ CHR ''.'' # f) = w"
  by (induction w) auto

lemma dropWhile_digits: "list_all isDigit w \<Longrightarrow> dropWhile isDigit (w @ CHR ''.'' # f) = CHR ''.'' # f"
  by (induction w) auto

lemma takeWhile_all_digits: "list_all isDigit w \<Longrightarrow> takeWhile isDigit w = w \<and> dropWhile isDigit w = []"
  by (induction w) auto

lemma DECIMAL_RE_render:
  assumes "decimal_parts w f"
  shows "DECIMAL_RE (render_decimal neg w f) = Some (neg, w, f)"
proof -
  from assms obtain c w' where w: "w = c # w'" "isDigit c" "list_all isDigit w"
    by (cases w) (auto simp: decimal_parts_def)
  then have "c \<noteq> CHR ''-''" by auto
  then show ?thesis using assms w
    by (cases neg; cases "f = []")
      (auto simp: DECIMAL_RE_def render_decimal_def Let_def decimal_parts_def takeWhile_all_digits
        takeWhile_digits[of "c # w'", simplified] dropWhile_digits[of "c # w'", simplified] list_all_iff)
qed

lemma DECIMAL_RE_Some:
  assumes "DECIMAL_RE s = Some (neg, w, f)"
  shows "s = render_decimal neg w f \<and> decimal_parts w f"
proof -
  define body where "body = (if neg then tl s else s)"
  from assms have neg: "neg = (case s of c # _ \<Rightarrow> c = CHR ''-'' | [] \<Rightarrow> False)"
    and w: "w = takeWhile isDigit body" "w \<noteq> []" "hd w = CHR ''0'' \<longrightarrow> w = ''0''"
    and f: "dropWhile isDigit body = (if f = [] then [] else CHR ''.'' # f)" "list_all isDigit f"
    by (auto simp: DECIMAL_RE_def Let_def body_def split: if_splits list.splits)
  have s: "s = (if neg then ''-'' else []) @ body"
    using neg by (auto simp: body_def split: list.splits)
  have "body = w @ (if f = [] then [] else CHR ''.'' # f)"
    using w f takeWhile_dropWhile_id[of isDigit body] by metis
  moreover have "list_all isDigit w"
    by (simp add: w(1) list_all_iff) (meson set_takeWhileD)
  ultimately show ?thesis using s w f by (simp add: render_decimal_def decimal_parts_def)
qed

lemma pow10_nonneg [simp]: "0 \<le> e \<Longrightarrow> pow10 e = Inr (10 ^ nat e)"
  by (simp add: pow10_def)

lemma parse_render:
  assumes "decimal_parts w f" "int (length f) \<le> e"
  shows "parseDecimalToMinor (render_decimal neg w f) e =
     Inr ((if neg then - 1 else 1) * (bigint_of (w @ f) * 10 ^ nat (e - int (length f))))"
proof -
  have e: "0 \<le> e" "nat e = length f + nat (e - int (length f))" using assms(2) by auto
  have pad: "bigint_of (if padEnd f e = [] then ''0'' else padEnd f e) = bigint_of f * 10 ^ nat (e - int (length f))"
    using bigint_of_padEnd[of f e] by (auto simp: bigint_of_def digit_value_def)
  show ?thesis using assms e
    by (simp add: parseDecimalToMinor_def DECIMAL_RE_render Let_def pad bigint_of_append power_add algebra_simps)
qed

text \<open>Parsing a decimal string succeeds exactly on the plain decimals with at most \<open>e\<close> fraction
  digits, and then the value is exact: the digits read as one integer, times the power of ten of the missing
  digits. Nothing is ever rounded (\<^verbatim>\<open>decimal.ts\<close>, FINANCIAL\_INVARIANTS 1.1).\<close>

theorem parse_never_rounds:
  "parseDecimalToMinor s e = Inr m \<longleftrightarrow>
     (\<exists>neg w f. s = render_decimal neg w f \<and> decimal_parts w f \<and> int (length f) \<le> e \<and>
        m = (if neg then - 1 else 1) * (bigint_of (w @ f) * 10 ^ nat (e - int (length f))))"
proof
  assume h: "parseDecimalToMinor s e = Inr m"
  then obtain neg w f where re: "DECIMAL_RE s = Some (neg, w, f)" and len: "int (length f) \<le> e"
    by (auto simp: parseDecimalToMinor_def split: option.splits if_splits)
  note r = DECIMAL_RE_Some[OF re]
  from h r parse_render[of w f e neg] len show "\<exists>neg w f. s = render_decimal neg w f \<and> decimal_parts w f \<and>
      int (length f) \<le> e \<and> m = (if neg then - 1 else 1) * (bigint_of (w @ f) * 10 ^ nat (e - int (length f)))"
    by (intro exI[of _ neg] exI[of _ w] exI[of _ f]) simp
qed (auto simp: parse_render)

lemma format_is_render:
  assumes "0 \<le> e"
  obtains w f where "formatMinorToDecimal m e = Inr (render_decimal (m < 0) w f)" "decimal_parts w f"
    "int (length f) = e" "bigint_of (w @ f) = \<bar>m\<bar>"
proof -
  let ?p = "10 ^ nat e :: int"
  let ?w = "digits_of (\<bar>m\<bar> div ?p)"
  let ?f = "if e = 0 then [] else padStart (digits_of (\<bar>m\<bar> mod ?p)) e"
  have p: "0 < ?p" by simp
  have len: "int (length (digits_of (\<bar>m\<bar> mod ?p))) \<le> e" if "e \<noteq> 0"
  proof -
    from that assms obtain k where k: "nat e = Suc k" by (cases "nat e") auto
    with digits_of_length[of "\<bar>m\<bar> mod ?p" k] assms show ?thesis by simp
  qed
  have lenf: "int (length ?f) = e" using len assms by (simp add: length_padStart)
  have whole: "0 \<le> \<bar>m\<bar> div ?p" by (simp add: pos_imp_zdiv_nonneg_iff)
  have parts: "decimal_parts ?w ?f"
    using whole hd_digits_of[of "\<bar>m\<bar> div ?p"] digits_of_digits
    by (cases "\<bar>m\<bar> div ?p = 0") (auto simp: decimal_parts_def padStart_def list_all_iff isDigit_def)
  have ne: "?f \<noteq> []" if "e \<noteq> 0" using that lenf by (cases ?f) auto
  have fmt: "formatMinorToDecimal m e = Inr (render_decimal (m < 0) ?w ?f)"
    using assms ne by (cases "e = 0"; cases "m < 0") (simp_all add: formatMinorToDecimal_def Let_def render_decimal_def)
  have "bigint_of (?w @ ?f) = \<bar>m\<bar> div ?p * 10 ^ nat e + (if e = 0 then 0 else \<bar>m\<bar> mod ?p)"
    using lenf whole by (auto simp: bigint_of_append digits_of_value)
  then have "bigint_of (?w @ ?f) = \<bar>m\<bar>"
    using div_mult_mod_eq[of "\<bar>m\<bar>" ?p] by (cases "e = 0") (simp, metis)
  with that fmt parts lenf show ?thesis by blast
qed

lemma parse_format:
  assumes "0 \<le> e"
  shows "bindR (formatMinorToDecimal m e) (\<lambda>s. parseDecimalToMinor s e) = Inr m"
proof -
  from assms obtain w f where "formatMinorToDecimal m e = Inr (render_decimal (m < 0) w f)"
    "decimal_parts w f" "int (length f) = e" "bigint_of (w @ f) = \<bar>m\<bar>"
    by (rule format_is_render)
  with assms parse_render[of w f e "m < 0"] show ?thesis by auto
qed

lemma exponentOf_nonneg [simp]: "0 \<le> exponentOf c"
  by (simp add: exponentOf_def split: currency.splits)

lemma ofMinor_simps [simp]: "minor (ofMinor m c) = m" "currency (ofMinor m c) = c"
  by (simp_all add: ofMinor_def)

lemma ofMinor_eta [simp]: "ofMinor (minor a) (currency a) = a"
  by (simp add: ofMinor_def)

text \<open>C38: every amount, of either currency and of either sign, is read back unchanged from its own
  decimal string (\<^verbatim>\<open>Money.toDecimalString\<close> then \<^verbatim>\<open>Money.parse\<close>): the JSON form of money loses nothing.\<close>

theorem money_string_roundtrip:
  "bindR (Money_toDecimalString a) (\<lambda>d. Money_parse d (currency a)) = Inr a"
proof -
  from parse_format[OF exponentOf_nonneg, of "minor a" "currency a"]
  obtain d where "Money_toDecimalString a = Inr d" "parseDecimalToMinor d (exponentOf (currency a)) = Inr (minor a)"
    by (auto simp: Money_toDecimalString_def)
  then show ?thesis by (simp add: Money_parse_def)
qed

lemma rate_string_roundtrip:
  assumes "wf_rate r"
  shows "bindR (Rate_toDecimalString r) (\<lambda>d. Rate_parse d (rkind r)) = Inr r"
proof -
  from parse_format[of RATE_EXPONENT "micro r"]
  obtain d where "Rate_toDecimalString r = Inr d" "parseDecimalToMinor d RATE_EXPONENT = Inr (micro r)"
    by (auto simp: Rate_toDecimalString_def RATE_EXPONENT_def)
  with assms show ?thesis by (simp add: Rate_parse_def Rate_ofMicro_def wf_rate_def)
qed

section \<open>Lemmas: rounding and conversion\<close>

text \<open>What one rounding step means: the integer next to the exact quotient on the chosen side.\<close>

definition rounds_to :: "int \<Rightarrow> int \<Rightarrow> rounding_mode \<Rightarrow> int \<Rightarrow> bool" where
  "rounds_to n d mode q \<longleftrightarrow>
     (case mode of
        DOWN \<Rightarrow> q * d \<le> n \<and> n < (q + 1) * d
      | UP \<Rightarrow> n \<le> q * d \<and> (q - 1) * d < n
      | HALF_EVEN \<Rightarrow> 2 * \<bar>n - q * d\<bar> \<le> d \<and> (2 * \<bar>n - q * d\<bar> = d \<longrightarrow> even q))"

lemma divRound_ok_iff: "(\<exists>q. divRound n d mode = Inr q) \<longleftrightarrow> 0 < d \<and> 0 \<le> n"
  by (auto simp: divRound_def Let_def split: rounding_mode.splits)

lemma rounds_to_core:
  assumes "0 \<le> (R :: int)" "R < d"
    and "if R = 0 then q = Q else case mode of DOWN \<Rightarrow> q = Q | UP \<Rightarrow> q = Q + 1
      | HALF_EVEN \<Rightarrow> q = (if d < R * 2 then Q + 1 else if R * 2 < d then Q else if even Q then Q else Q + 1)"
  shows "rounds_to (Q * d + R) d mode q"
  using assms
  by (cases mode) (auto simp: rounds_to_def algebra_simps abs_if split: if_splits)

lemma divRound_rounds:
  assumes "divRound n d mode = Inr q"
  shows "rounds_to n d mode q"
proof -
  have d: "0 < d" "0 \<le> n" using divRound_ok_iff[of n d mode] assms by auto
  with assms have "if n mod d = 0 then q = n div d else case mode of DOWN \<Rightarrow> q = n div d | UP \<Rightarrow> q = n div d + 1
      | HALF_EVEN \<Rightarrow> q = (if d < n mod d * 2 then n div d + 1 else if n mod d * 2 < d then n div d
          else if even (n div d) then n div d else n div d + 1)"
    by (auto simp: divRound_def Let_def even_iff_mod_2_eq_zero split: rounding_mode.splits if_splits)
  with d have "rounds_to (n div d * d + n mod d) d mode q" by (intro rounds_to_core) simp_all
  then show ?thesis by simp
qed

lemma mult_strip: "(0::int) < d \<Longrightarrow> a * d \<le> n \<Longrightarrow> n < (b + 1) * d \<Longrightarrow> a \<le> b"
  by (meson le_less_trans mult_right_less_imp_less less_imp_le zless_add1_eq zle_add1_eq_le)

lemma half_even_le:
  assumes "0 < d" "rounds_to n d HALF_EVEN q" "rounds_to n d HALF_EVEN q'"
  shows "q' \<le> q"
proof (rule ccontr)
  assume "\<not> q' \<le> q"
  define a b where "a = n - q * d" and "b = n - q' * d"
  from \<open>\<not> q' \<le> q\<close> have "d \<le> (q' - q) * d" using assms(1) by simp
  then have gap: "d \<le> a - b" by (simp add: a_def b_def left_diff_distrib)
  from assms have le: "2 * \<bar>a\<bar> \<le> d" "2 * \<bar>b\<bar> \<le> d" by (simp_all add: rounds_to_def a_def b_def)
  with gap assms(1) have tie: "2 * \<bar>a\<bar> = d" "2 * \<bar>b\<bar> = d" "a - b = d" by (auto simp: abs_if split: if_splits)
  with assms have "even q" "even q'" by (simp_all add: rounds_to_def a_def b_def)
  moreover have "(q' - q) * d = 1 * d" using tie(3) by (simp add: a_def b_def left_diff_distrib)
  then have "q' - q = 1" using assms(1) by (simp only: mult_cancel_right) simp
  then have "q' = q + 1" by simp
  ultimately show False by simp
qed

lemma rounds_to_unique:
  assumes "0 < d" "rounds_to n d mode q" "rounds_to n d mode q'"
  shows "q = q'"
proof (cases mode)
  case DOWN
  with assms show ?thesis by (auto simp: rounds_to_def intro: antisym mult_strip)
next
  case UP
  with assms have "(q - 1) * d \<le> n - 1" "n - 1 < (q' - 1 + 1) * d" "(q' - 1) * d \<le> n - 1" "n - 1 < (q - 1 + 1) * d"
    by (auto simp: rounds_to_def)
  with assms(1) mult_strip[of d "q - 1" "n - 1" "q' - 1"] mult_strip[of d "q' - 1" "n - 1" "q - 1"] show ?thesis by linarith
next
  case HALF_EVEN
  with assms half_even_le show ?thesis by (metis antisym)
qed

text \<open>The rounding division succeeds exactly on a non-negative numerator and a positive
  denominator, and returns the one integer the mode asks for: the floor (DOWN), the ceiling (UP), the nearest
  integer with ties to even (HALF\_EVEN). The error of the first two is less than one unit.\<close>

theorem divRound_correct:
  "divRound n d mode = Inr q \<longleftrightarrow> 0 < d \<and> 0 \<le> n \<and> rounds_to n d mode q"
  using divRound_ok_iff[of n d mode] divRound_rounds[of n d mode] rounds_to_unique[of d n mode] by blast

text \<open>The same facts in the form the conversions use.\<close>

lemma divRound_DOWN: "0 < d \<Longrightarrow> 0 \<le> n \<Longrightarrow> divRound n d DOWN = Inr (n div d)"
  by (simp add: divRound_def Let_def)

lemma divRound_UP: "0 < d \<Longrightarrow> 0 \<le> n \<Longrightarrow> divRound n d UP = Inr ((n + d - 1) div d)"
proof -
  assume d: "0 < d" "0 \<le> n"
  let ?q = "(n + d - 1) div d"
  have "n + d - 1 = ?q * d + (n + d - 1) mod d" "0 \<le> (n + d - 1) mod d" "(n + d - 1) mod d < d" using d by simp_all
  then have "n \<le> ?q * d" "?q * d - d < n" by linarith+
  then have "rounds_to n d UP ?q" unfolding rounds_to_def by (simp only: rounding_mode.case left_diff_distrib mult_1)
  moreover obtain q where "divRound n d UP = Inr q" using d divRound_ok_iff[of n d UP] by blast
  ultimately show ?thesis using d rounds_to_unique[of d n UP] divRound_rounds[of n d UP q] by auto
qed

lemma divRound_nonneg: "divRound n d mode = Inr q \<Longrightarrow> 0 \<le> q"
  by (auto simp: divRound_def Let_def pos_imp_zdiv_nonneg_iff split: if_splits rounding_mode.splits)

lemma SCALE_value [simp]: "SCALE = 10000000000"
  by (simp add: SCALE_def exponentOf_def RATE_EXPONENT_def)

lemma usdtToInr_Inr:
  "usdtToInr u r mode = Inr m \<longleftrightarrow>
     currency u = USDT \<and> 0 \<le> minor u \<and> currency m = INR \<and> divRound (minor u * micro r) SCALE mode = Inr (minor m)"
  by (cases m) (auto simp: usdtToInr_def isNegative_def ofMinor_def)

lemma inrToUsdt_Inr:
  "inrToUsdt u r mode = Inr m \<longleftrightarrow>
     currency u = INR \<and> 0 \<le> minor u \<and> currency m = USDT \<and> divRound (minor u * SCALE) (micro r) mode = Inr (minor m)"
  by (cases m) (auto simp: inrToUsdt_def isNegative_def ofMinor_def)

end
