(* ===== verification/Kernel_Economics.thy ===== *)
theory Kernel_Economics
  imports Kernel_Numbers
begin

text \<open>
  Quote economics (\<^verbatim>\<open>packages/kernel/src/economics.ts\<close>): from an amount, a fixed side and two rates to the
  amounts every later step freezes and posts. The three optional fields of \<open>trade_economics\<close> are present on
  P2P trades (the trader's USDT and the margin in USDT) and on a desk's deals (the platform's fee).
\<close>

section \<open>Types\<close>

datatype direction = SELL_USDT | BUY_USDT
datatype fixed_side = BASE | QUOTE

record economics_input =
  ei_direction :: direction
  ei_fixedSide :: fixed_side
  ei_amount :: money
  ei_clientRate :: rate
  ei_routeRate :: rate

record trade_economics =
  te_direction :: direction
  te_fixedSide :: fixed_side
  te_base :: money
  te_clientInr :: money
  te_routeInr :: money
  te_grossMargin :: money
  te_routeBase :: "money option"
  te_grossMarginBase :: "money option"
  te_platformFeeBase :: "money option"

record desk_economics_input =
  di_direction :: direction
  di_fixedSide :: fixed_side
  di_amount :: money
  di_clientRate :: rate
  di_feeBps :: int

section \<open>Operations\<close>

definition assertPriceable :: "money \<Rightarrow> money \<Rightarrow> money \<Rightarrow> unit result" where
  "assertPriceable b clientInr routeInr =
     (if \<not> isPositive b \<or> \<not> isPositive clientInr \<or> \<not> isPositive routeInr
      then Inl (CoreError INVALID_AMOUNT) else Inr ())"

definition computeTradeEconomics :: "economics_input \<Rightarrow> trade_economics result" where
  "computeTradeEconomics i =
     (if \<not> isPositive (ei_amount i) then Inl (CoreError INVALID_AMOUNT)
      else if ei_direction i = SELL_USDT then
        bindR (if ei_fixedSide i = BASE
               then bindR (usdtToInr (ei_amount i) (ei_clientRate i) DOWN) (\<lambda>inr. Inr (ei_amount i, inr))
               else bindR (inrToUsdt (ei_amount i) (ei_clientRate i) UP) (\<lambda>b. Inr (b, ei_amount i)))
          (\<lambda>(b, clientInr).
        bindR (usdtToInr b (ei_routeRate i) DOWN) (\<lambda>routeInr.
        bindR (assertPriceable b clientInr routeInr) (\<lambda>_.
        bindR (Money_sub routeInr clientInr) (\<lambda>margin.
        Inr \<lparr>te_direction = ei_direction i, te_fixedSide = ei_fixedSide i, te_base = b, te_clientInr = clientInr,
             te_routeInr = routeInr, te_grossMargin = margin,
             te_routeBase = None, te_grossMarginBase = None, te_platformFeeBase = None\<rparr>))))
      else
        bindR (if ei_fixedSide i = BASE
               then bindR (usdtToInr (ei_amount i) (ei_clientRate i) UP) (\<lambda>inr. Inr (ei_amount i, inr))
               else bindR (inrToUsdt (ei_amount i) (ei_clientRate i) DOWN) (\<lambda>b. Inr (b, ei_amount i)))
          (\<lambda>(b, clientInr).
        bindR (usdtToInr b (ei_routeRate i) UP) (\<lambda>routeInr.
        bindR (assertPriceable b clientInr routeInr) (\<lambda>_.
        bindR (Money_sub clientInr routeInr) (\<lambda>margin.
        Inr \<lparr>te_direction = ei_direction i, te_fixedSide = ei_fixedSide i, te_base = b, te_clientInr = clientInr,
             te_routeInr = routeInr, te_grossMargin = margin,
             te_routeBase = None, te_grossMarginBase = None, te_platformFeeBase = None\<rparr>)))))"

definition computeP2pEconomics :: "economics_input \<Rightarrow> trade_economics result" where
  "computeP2pEconomics i =
     (let buy = ei_direction i = BUY_USDT
      in if \<not> isPositive (ei_amount i) then Inl (CoreError INVALID_AMOUNT)
         else
        bindR (if ei_fixedSide i = BASE
               then bindR (usdtToInr (ei_amount i) (ei_clientRate i) (if buy then UP else DOWN)) (\<lambda>inr. Inr (ei_amount i, inr))
               else bindR (inrToUsdt (ei_amount i) (ei_clientRate i) (if buy then DOWN else UP)) (\<lambda>b. Inr (b, ei_amount i)))
          (\<lambda>(b, inr).
        bindR (inrToUsdt inr (ei_routeRate i) (if buy then UP else DOWN)) (\<lambda>routeBase.
        bindR (assertPriceable b inr inr) (\<lambda>_.
        if \<not> isPositive routeBase then Inl (CoreError INVALID_AMOUNT)
        else
        bindR (if buy then Money_sub routeBase b else Money_sub b routeBase) (\<lambda>grossMarginBase.
        bindR (Money_sub inr inr) (\<lambda>zero.
        Inr \<lparr>te_direction = ei_direction i, te_fixedSide = ei_fixedSide i, te_base = b, te_clientInr = inr,
             te_routeInr = inr, te_grossMargin = zero,
             te_routeBase = Some routeBase, te_grossMarginBase = Some grossMarginBase, te_platformFeeBase = None\<rparr>))))))"

definition platformFeeOf :: "money \<Rightarrow> int \<Rightarrow> money result" where
  "platformFeeOf b bps =
     (if bps < 0 \<or> bps > 1000 then Inl (CoreError INVALID_ARGUMENT)
      else if isNegative b then Inl (CoreError INVALID_AMOUNT)
      else Inr (ofMinor ((minor b * bps + 9999) div 10000) USDT))"

definition computeDeskEconomics :: "desk_economics_input \<Rightarrow> trade_economics result" where
  "computeDeskEconomics i =
     (let buy = di_direction i = BUY_USDT
      in if \<not> isPositive (di_amount i) then Inl (CoreError INVALID_AMOUNT)
         else
        bindR (if di_fixedSide i = BASE
               then bindR (usdtToInr (di_amount i) (di_clientRate i) (if buy then UP else DOWN)) (\<lambda>inr. Inr (di_amount i, inr))
               else bindR (inrToUsdt (di_amount i) (di_clientRate i) (if buy then DOWN else UP)) (\<lambda>b. Inr (b, di_amount i)))
          (\<lambda>(b, inr).
        bindR (assertPriceable b inr inr) (\<lambda>_.
        bindR (platformFeeOf b (di_feeBps i)) (\<lambda>fee.
        bindR (if buy then Money_add b fee else Money_sub b fee) (\<lambda>routeBase.
        if \<not> isPositive routeBase then Inl (CoreError INVALID_AMOUNT)
        else
        bindR (Money_sub inr inr) (\<lambda>zero.
        Inr \<lparr>te_direction = di_direction i, te_fixedSide = di_fixedSide i, te_base = b, te_clientInr = inr,
             te_routeInr = inr, te_grossMargin = zero,
             te_routeBase = Some routeBase, te_grossMarginBase = Some fee, te_platformFeeBase = Some fee\<rparr>))))))"

section \<open>Well-formed economics\<close>

text \<open>What every later step relies on: both rupee amounts and the base are positive amounts of their own currency,
  and the margin is derived from them, never a free figure (FI-02).\<close>

definition wf_economics :: "trade_economics \<Rightarrow> bool" where
  "wf_economics e \<longleftrightarrow>
     currency (te_base e) = USDT \<and> currency (te_clientInr e) = INR \<and> currency (te_routeInr e) = INR \<and>
     currency (te_grossMargin e) = INR \<and>
     0 < minor (te_base e) \<and> 0 < minor (te_clientInr e) \<and> 0 < minor (te_routeInr e) \<and>
     minor (te_grossMargin e) =
       (if te_direction e = SELL_USDT then minor (te_routeInr e) - minor (te_clientInr e)
        else minor (te_clientInr e) - minor (te_routeInr e)) \<and>
     (case te_routeBase e of
        None \<Rightarrow> te_grossMarginBase e = None \<and> te_platformFeeBase e = None
      | Some rb \<Rightarrow> currency rb = USDT \<and> 0 < minor rb \<and> te_routeInr e = te_clientInr e \<and>
          (\<exists>m. te_grossMarginBase e = Some m \<and> currency m = USDT \<and>
             minor m = (if te_direction e = SELL_USDT then minor (te_base e) - minor rb else minor rb - minor (te_base e))))"

lemma Money_sub_Inr [simp]:
  "Money_sub a b = Inr c \<longleftrightarrow> currency b = currency a \<and> c = ofMinor (minor a - minor b) (currency a)"
  by (auto simp: Money_sub_def Money_same_def)

lemma Money_add_Inr [simp]:
  "Money_add a b = Inr c \<longleftrightarrow> currency b = currency a \<and> c = ofMinor (minor a + minor b) (currency a)"
  by (auto simp: Money_add_def Money_same_def)

lemma assertPriceable_Inr [simp]:
  "assertPriceable b c r = Inr u \<longleftrightarrow> 0 < minor b \<and> 0 < minor c \<and> 0 < minor r"
  by (auto simp: assertPriceable_def isPositive_def)

lemma platformFeeOf_Inr:
  "platformFeeOf b bps = Inr f \<longleftrightarrow>
     0 \<le> bps \<and> bps \<le> 1000 \<and> 0 \<le> minor b \<and> f = ofMinor ((minor b * bps + 9999) div 10000) USDT"
  by (auto simp: platformFeeOf_def isNegative_def)

text \<open>How the amounts of each computation follow from the input, one equation per direction and fixed side.\<close>

lemma computeTradeEconomics_cases:
  assumes "computeTradeEconomics i = Inr e"
  shows "te_direction e = ei_direction i \<and> te_fixedSide e = ei_fixedSide i \<and> wf_economics e \<and>
    te_routeBase e = None \<and>
    (if ei_fixedSide i = BASE then te_base e = ei_amount i else te_clientInr e = ei_amount i) \<and>
    (let p = (if ei_direction i = SELL_USDT then DOWN else UP); q = (if ei_direction i = SELL_USDT then UP else DOWN)
     in usdtToInr (te_base e) (ei_routeRate i) p = Inr (te_routeInr e) \<and>
        (if ei_fixedSide i = BASE then usdtToInr (te_base e) (ei_clientRate i) p = Inr (te_clientInr e)
         else inrToUsdt (te_clientInr e) (ei_clientRate i) q = Inr (te_base e)))"
  using assms
  by (cases "ei_direction i"; cases "ei_fixedSide i")
    (auto simp: computeTradeEconomics_def wf_economics_def usdtToInr_Inr inrToUsdt_Inr isPositive_def
       split: if_splits)

lemma computeP2pEconomics_cases:
  assumes "computeP2pEconomics i = Inr e"
  shows "te_direction e = ei_direction i \<and> te_fixedSide e = ei_fixedSide i \<and> wf_economics e \<and>
    te_platformFeeBase e = None \<and>
    (if ei_fixedSide i = BASE then te_base e = ei_amount i else te_clientInr e = ei_amount i) \<and>
    (let p = (if ei_direction i = SELL_USDT then DOWN else UP); q = (if ei_direction i = SELL_USDT then UP else DOWN)
     in (\<exists>rb. te_routeBase e = Some rb \<and> inrToUsdt (te_clientInr e) (ei_routeRate i) p = Inr rb) \<and>
        (if ei_fixedSide i = BASE then usdtToInr (te_base e) (ei_clientRate i) p = Inr (te_clientInr e)
         else inrToUsdt (te_clientInr e) (ei_clientRate i) q = Inr (te_base e)))"
  using assms
  by (cases "ei_direction i"; cases "ei_fixedSide i")
    (auto simp: computeP2pEconomics_def wf_economics_def usdtToInr_Inr inrToUsdt_Inr isPositive_def Let_def
       split: if_splits)

lemma computeDeskEconomics_cases:
  assumes "computeDeskEconomics i = Inr e"
  shows "te_direction e = di_direction i \<and> te_fixedSide e = di_fixedSide i \<and> wf_economics e \<and>
    (if di_fixedSide i = BASE then te_base e = di_amount i else te_clientInr e = di_amount i) \<and>
    (\<exists>fee rb. platformFeeOf (te_base e) (di_feeBps i) = Inr fee \<and> te_platformFeeBase e = Some fee \<and>
       te_grossMarginBase e = Some fee \<and> te_routeBase e = Some rb \<and>
       minor rb = (if di_direction i = BUY_USDT then minor (te_base e) + minor fee else minor (te_base e) - minor fee)) \<and>
    (let p = (if di_direction i = SELL_USDT then DOWN else UP); q = (if di_direction i = SELL_USDT then UP else DOWN)
     in (if di_fixedSide i = BASE then usdtToInr (te_base e) (di_clientRate i) p = Inr (te_clientInr e)
         else inrToUsdt (te_clientInr e) (di_clientRate i) q = Inr (te_base e)))"
  using assms
  by (cases "di_direction i"; cases "di_fixedSide i")
    (auto simp: computeDeskEconomics_def wf_economics_def usdtToInr_Inr inrToUsdt_Inr isPositive_def platformFeeOf_Inr Let_def
       split: if_splits)


section \<open>Prices, margins and who bears the rounding\<close>

lemma rounds_DOWN: "rounds_to n d DOWN q \<longleftrightarrow> q * d \<le> n \<and> n < (q + 1) * d"
  and rounds_UP: "rounds_to n d UP q \<longleftrightarrow> n \<le> q * d \<and> (q - 1) * d < n"
  by (simp_all add: rounds_to_def)

lemma usdtToInr_rounds: "usdtToInr u r mode = Inr m \<Longrightarrow> rounds_to (minor u * micro r) SCALE mode (minor m)"
  by (auto simp: usdtToInr_Inr dest: divRound_rounds)

lemma inrToUsdt_rounds: "inrToUsdt u r mode = Inr m \<Longrightarrow> rounds_to (minor u * SCALE) (micro r) mode (minor m) \<and> 0 < micro r"
  using divRound_ok_iff[of "minor u * SCALE" "micro r" mode] by (auto simp: inrToUsdt_Inr dest: divRound_rounds)

text \<open>The client's side of a price: selling, the client gets at most the value of its USDT at its rate; buying, it
  pays at least that value; and the difference is less than one paisa, or than the price of one micro-USDT.\<close>

definition client_price_ok :: "direction \<Rightarrow> fixed_side \<Rightarrow> int \<Rightarrow> int \<Rightarrow> int \<Rightarrow> bool" where
  "client_price_ok d f b c rate_micro \<longleftrightarrow>
     (let gap = (if d = SELL_USDT then b * rate_micro - c * SCALE else c * SCALE - b * rate_micro)
      in 0 \<le> gap \<and> gap < (if f = BASE then SCALE else rate_micro))"

lemma client_price_sell:
  "rounds_to (b * k) SCALE DOWN c \<Longrightarrow> client_price_ok SELL_USDT BASE b c k"
  "rounds_to (c * SCALE) k UP b \<Longrightarrow> client_price_ok SELL_USDT QUOTE b c k"
  by (auto simp: client_price_ok_def rounds_DOWN rounds_UP Let_def algebra_simps)

lemma client_price_buy:
  "rounds_to (b * k) SCALE UP c \<Longrightarrow> client_price_ok BUY_USDT BASE b c k"
  "rounds_to (c * SCALE) k DOWN b \<Longrightarrow> client_price_ok BUY_USDT QUOTE b c k"
  by (auto simp: client_price_ok_def rounds_DOWN rounds_UP Let_def algebra_simps)

lemma client_price_of_conversions:
  assumes "let p = (if d = SELL_USDT then DOWN else UP); q = (if d = SELL_USDT then UP else DOWN)
     in if f = BASE then usdtToInr b r p = Inr c else inrToUsdt c r q = Inr b"
  shows "client_price_ok d f (minor b) (minor c) (micro r)"
  using assms
  by (cases d; cases f)
    (auto simp: Let_def intro: client_price_sell client_price_buy dest: usdtToInr_rounds inrToUsdt_rounds)

text \<open>On every one of the three kinds of trade the client's rupees are the exact value of its USDT at
  the client rate, rounded once and always against the client by less than one minor unit: selling, it never
  receives more than that value, and buying, it never pays less (FINANCIAL\_INVARIANTS 1.2, 1.3).\<close>

theorem client_price_exact:
  "(computeTradeEconomics i = Inr e \<or> computeP2pEconomics i = Inr e \<longrightarrow>
      client_price_ok (ei_direction i) (ei_fixedSide i) (minor (te_base e)) (minor (te_clientInr e)) (micro (ei_clientRate i))) \<and>
   (computeDeskEconomics j = Inr e \<longrightarrow>
      client_price_ok (di_direction j) (di_fixedSide j) (minor (te_base e)) (minor (te_clientInr e)) (micro (di_clientRate j)))"
  using computeTradeEconomics_cases[of i e] computeP2pEconomics_cases[of i e] computeDeskEconomics_cases[of j e]
  by (auto simp: Let_def intro!: client_price_of_conversions)

lemma mult_le_rate: "0 < (b::int) \<Longrightarrow> k \<le> l \<Longrightarrow> b * k \<le> b * l"
  by simp

text \<open>C37: when the route's rate is no worse than the client's (selling: client rate at most the route
  rate; buying: at least), the exchange's gross margin is never negative, whatever the amount and whichever side
  is fixed: the two roundings together cannot turn a priced margin into a loss.\<close>

theorem margin_never_negative_when_rates_ordered:
  assumes e: "computeTradeEconomics i = Inr e"
    and ordered: "if ei_direction i = SELL_USDT then micro (ei_clientRate i) \<le> micro (ei_routeRate i)
                  else micro (ei_routeRate i) \<le> micro (ei_clientRate i)"
  shows "0 \<le> minor (te_grossMargin e)"
proof -
  let ?b = "minor (te_base e)" and ?c = "minor (te_clientInr e)" and ?r = "minor (te_routeInr e)"
  let ?cr = "micro (ei_clientRate i)" and ?rr = "micro (ei_routeRate i)"
  from computeTradeEconomics_cases[OF e] have wf: "wf_economics e" and d: "te_direction e = ei_direction i"
    and route: "rounds_to (?b * ?rr) SCALE (if ei_direction i = SELL_USDT then DOWN else UP) ?r"
    by (auto simp: Let_def dest: usdtToInr_rounds)
  from wf have b: "0 < ?b" by (simp add: wf_economics_def)
  have client: "client_price_ok (ei_direction i) (ei_fixedSide i) ?b ?c ?cr"
    using computeTradeEconomics_cases[OF e] by (intro client_price_of_conversions) (auto simp: Let_def)
  show ?thesis
  proof (cases "ei_direction i")
    case SELL_USDT
    with client route have "?c * SCALE \<le> ?b * ?cr" "?b * ?rr < (?r + 1) * SCALE"
      by (auto simp: client_price_ok_def rounds_DOWN Let_def)
    moreover have "?b * ?cr \<le> ?b * ?rr" using SELL_USDT ordered b by simp
    ultimately have "?c \<le> ?r" using mult_strip[of SCALE ?c "?b * ?rr" ?r] by simp
    with wf d SELL_USDT show ?thesis by (simp add: wf_economics_def)
  next
    case BUY_USDT
    with client route have "?b * ?cr \<le> ?c * SCALE" "(?r - 1) * SCALE < ?b * ?rr"
      by (auto simp: client_price_ok_def rounds_UP Let_def)
    moreover have "?b * ?rr \<le> ?b * ?cr" using BUY_USDT ordered b by simp
    ultimately have "(?r - 1) * SCALE < ?c * SCALE" by linarith
    then have "?r \<le> ?c" by simp
    with wf d BUY_USDT show ?thesis by (simp add: wf_economics_def)
  qed
qed

definition sample_input :: economics_input where
  "sample_input = \<lparr>ei_direction = SELL_USDT, ei_fixedSide = BASE, ei_amount = ofMinor 100000000000 USDT,
     ei_clientRate = \<lparr>micro = 102000000, rkind = CLIENT_RATE\<rparr>, ei_routeRate = \<lparr>micro = 104200000, rkind = ROUTE_RATE\<rparr>\<rparr>"

definition sample_economics :: trade_economics where
  "sample_economics = \<lparr>te_direction = SELL_USDT, te_fixedSide = BASE, te_base = ofMinor 100000000000 USDT,
     te_clientInr = ofMinor 1020000000 INR, te_routeInr = ofMinor 1042000000 INR, te_grossMargin = ofMinor 22000000 INR,
     te_routeBase = None, te_grossMarginBase = None, te_platformFeeBase = None\<rparr>"

text \<open>The worked example of FINANCIAL\_INVARIANTS 1.4.\<close>

lemma sample_computation: "computeTradeEconomics sample_input = Inr sample_economics"
  by (simp add: computeTradeEconomics_def sample_input_def sample_economics_def isPositive_def isNegative_def usdtToInr_def
      divRound_DOWN assertPriceable_def Money_sub_def Money_same_def)

theorem margin_never_negative_witness:
  "computeTradeEconomics sample_input = Inr sample_economics \<and> 0 \<le> minor (te_grossMargin sample_economics)"
  using margin_never_negative_when_rates_ordered[OF sample_computation] sample_computation
  by (simp add: sample_input_def)

text \<open>The same on a P2P trade, where the margin is the USDT between the client's amount and the trader's: with
  the rates in order the exchange never gives the trader more than the client sent (selling), nor hands the client
  more than the trader delivered (buying) (ADR 0019, FI-97).\<close>

theorem p2p_margin_never_negative:
  assumes e: "computeP2pEconomics i = Inr e"
    and ordered: "if ei_direction i = SELL_USDT then micro (ei_clientRate i) \<le> micro (ei_routeRate i)
                  else micro (ei_routeRate i) \<le> micro (ei_clientRate i)"
  shows "\<exists>m. te_grossMarginBase e = Some m \<and> 0 \<le> minor m \<and> minor (te_grossMargin e) = 0"
proof -
  let ?b = "minor (te_base e)" and ?c = "minor (te_clientInr e)"
  let ?cr = "micro (ei_clientRate i)" and ?rr = "micro (ei_routeRate i)"
  from computeP2pEconomics_cases[OF e] obtain rb where wf: "wf_economics e" and d: "te_direction e = ei_direction i"
    and rb: "te_routeBase e = Some rb"
    and route: "rounds_to (?c * SCALE) ?rr (if ei_direction i = SELL_USDT then DOWN else UP) (minor rb)" "0 < ?rr"
    by (auto simp: Let_def dest: inrToUsdt_rounds)
  have client: "client_price_ok (ei_direction i) (ei_fixedSide i) ?b ?c ?cr"
    using computeP2pEconomics_cases[OF e] by (intro client_price_of_conversions) (auto simp: Let_def)
  from wf rb have pos: "0 < ?b" "0 < minor rb" by (simp_all add: wf_economics_def)
  have "if ei_direction i = SELL_USDT then minor rb \<le> ?b else ?b \<le> minor rb"
  proof (cases "ei_direction i")
    case SELL_USDT
    with client route have "?c * SCALE \<le> ?b * ?cr" "minor rb * ?rr \<le> ?c * SCALE"
      by (auto simp: client_price_ok_def rounds_DOWN Let_def)
    moreover have "?b * ?cr \<le> ?b * ?rr" using SELL_USDT ordered pos by simp
    ultimately have "minor rb * ?rr \<le> ?b * ?rr" by linarith
    with route(2) SELL_USDT show ?thesis by simp
  next
    case BUY_USDT
    with client route have "?b * ?cr \<le> ?c * SCALE" "?c * SCALE \<le> minor rb * ?rr"
      by (auto simp: client_price_ok_def rounds_UP Let_def)
    moreover have "minor rb * ?rr \<le> minor rb * ?cr" using BUY_USDT ordered pos by simp
    ultimately have "?b * ?cr \<le> minor rb * ?cr" by linarith
    moreover have "0 < ?cr" using route(2) BUY_USDT ordered by simp
    ultimately show ?thesis using BUY_USDT by simp
  qed
  with wf rb d show ?thesis by (auto simp: wf_economics_def split: if_splits)
qed

theorem p2p_margin_never_negative_witness:
  "\<exists>e m. computeP2pEconomics sample_input = Inr e \<and> te_grossMarginBase e = Some m \<and> 0 \<le> minor m \<and> minor (te_grossMargin e) = 0"
proof -
  have "\<exists>e. computeP2pEconomics sample_input = Inr e"
    by (simp add: computeP2pEconomics_def sample_input_def isPositive_def isNegative_def usdtToInr_def inrToUsdt_def
        divRound_DOWN assertPriceable_def Money_sub_def Money_same_def Let_def)
  then obtain e where "computeP2pEconomics sample_input = Inr e" ..
  with p2p_margin_never_negative[OF this] show ?thesis by (auto simp: sample_input_def)
qed

text \<open>A desk's deal conserves USDT: what enters the escrow is what leaves it plus the platform's fee, in both
  directions; the fee is the exact basis points of the deal rounded up by less than one micro-USDT, at most a tenth
  of the deal (and one unit), and is the deal's whole margin (ADR 0020, FI-99).\<close>

theorem platform_fee_conserved:
  assumes e: "computeDeskEconomics i = Inr e"
  shows "\<exists>fee rb. te_platformFeeBase e = Some fee \<and> te_grossMarginBase e = Some fee \<and> te_routeBase e = Some rb \<and>
     (if di_direction i = BUY_USDT then minor rb = minor (te_base e) + minor fee else minor (te_base e) = minor rb + minor fee) \<and>
     0 < minor rb \<and>
     divRound (minor (te_base e) * di_feeBps i) 10000 UP = Inr (minor fee) \<and>
     0 \<le> minor fee \<and> 10 * minor fee < minor (te_base e) + 10"
proof -
  let ?b = "minor (te_base e)" and ?k = "di_feeBps i"
  from computeDeskEconomics_cases[OF e] obtain fee rb where
    fee: "platformFeeOf (te_base e) ?k = Inr fee" "te_platformFeeBase e = Some fee" "te_grossMarginBase e = Some fee"
    and rb: "te_routeBase e = Some rb"
      "minor rb = (if di_direction i = BUY_USDT then ?b + minor fee else ?b - minor fee)"
    and wf: "wf_economics e" by auto
  from wf rb(1) have pos: "0 < ?b" "0 < minor rb" by (simp_all add: wf_economics_def)
  from fee(1) have k: "0 \<le> ?k" "?k \<le> 1000" and f: "minor fee = (?b * ?k + 9999) div 10000"
    by (auto simp: platformFeeOf_Inr)
  have prod: "0 \<le> ?b * ?k" "?b * ?k \<le> ?b * 1000" using pos k by simp_all
  have up: "divRound (?b * ?k) 10000 UP = Inr (minor fee)"
    using divRound_UP[of 10000 "?b * ?k"] prod f by simp
  moreover have "10 * minor fee < ?b + 10" using prod f by linarith
  moreover have "0 \<le> minor fee" using up by (rule divRound_nonneg)
  ultimately show ?thesis using fee rb pos by auto
qed

definition sample_desk_input :: desk_economics_input where
  "sample_desk_input = \<lparr>di_direction = BUY_USDT, di_fixedSide = BASE, di_amount = ofMinor 100000001 USDT,
     di_clientRate = \<lparr>micro = 90000000, rkind = CLIENT_RATE\<rparr>, di_feeBps = 25\<rparr>"

theorem platform_fee_conserved_witness:
  "\<exists>e fee rb. computeDeskEconomics sample_desk_input = Inr e \<and> te_platformFeeBase e = Some fee \<and> te_routeBase e = Some rb \<and>
     minor rb = minor (te_base e) + minor fee"
proof -
  have "\<exists>e. computeDeskEconomics sample_desk_input = Inr e"
    by (simp add: computeDeskEconomics_def sample_desk_input_def isPositive_def isNegative_def usdtToInr_def
        divRound_UP assertPriceable_def Money_sub_def Money_add_def Money_same_def platformFeeOf_def Let_def)
  then obtain e where e: "computeDeskEconomics sample_desk_input = Inr e" ..
  with platform_fee_conserved[OF e] show ?thesis by (auto simp: sample_desk_input_def)
qed

theorem client_price_exact_witness:
  "computeTradeEconomics sample_input = Inr sample_economics \<and>
   client_price_ok SELL_USDT BASE (minor (te_base sample_economics)) (minor (te_clientInr sample_economics))
     (micro (ei_clientRate sample_input))"
  using client_price_exact[of sample_input sample_economics] sample_computation by (simp add: sample_input_def)

end
