(* ===== verification/Database.thy ===== *)
theory Database
  imports Kernel_Economics
begin

text \<open>
  What every command works on: the JSON values of audit and outbox payloads, the transaction context, the shared
  part of the database state, the global lock order (\<^verbatim>\<open>packages/db/src/transaction.ts\<close>, \<^verbatim>\<open>context.ts\<close>) and the
  audit log with its redaction and seals (\<^verbatim>\<open>packages/audit/src\<close>). The state is an extensible record: each
  component adds its own tables to it.
\<close>

section \<open>JSON values\<close>

text \<open>
  A JavaScript value as the audit and command code inspects it. \<open>JDate\<close> carries the two renderings the code can
  ask for (\<^verbatim>\<open>toISOString()\<close> and \<^verbatim>\<open>String(date)\<close>); \<open>JToJSON\<close> is an object with a \<^verbatim>\<open>toJSON\<close> method: the value the
  method returns and the object's \<^verbatim>\<open>String(...)\<close> rendering. Strings are byte strings (UTF-8).
\<close>

datatype js =
    JUndefined | JNull | JBool bool | JNum int | JBig int | is_JStr: JStr string
  | JDate string string
  | JToJSON js string
  | JArr "js list"
  | JObj "(string \<times> js) list"

definition toLower :: "string \<Rightarrow> string" where
  "toLower = map (\<lambda>c. let n = of_char c :: nat in if 65 \<le> n \<and> n \<le> 90 then char_of (n + 32) else c)"

definition toUpper :: "string \<Rightarrow> string" where
  "toUpper = map (\<lambda>c. let n = of_char c :: nat in if 97 \<le> n \<and> n \<le> 122 then char_of (n - 32) else c)"

text \<open>The same on the bits of a character, which is how samples evaluate it.\<close>

definition lower_char :: "char \<Rightarrow> char" where
  "lower_char c = (let n = of_char c :: nat in if 65 \<le> n \<and> n \<le> 90 then char_of (n + 32) else c)"

lemma of_char_bits: "(of_char (Char b0 b1 b2 b3 b4 b5 b6 b7) :: nat) = of_bool b0 + 2 * of_bool b1 + 4 * of_bool b2 + 8 * of_bool b3 +
    16 * of_bool b4 + 32 * of_bool b5 + 64 * of_bool b6 + 128 * of_bool b7"
  by (simp add: of_char_def)

lemma lower_char_code [code]:
  "lower_char (Char b0 b1 b2 b3 b4 b5 b6 b7) = (if \<not> b7 \<and> b6 \<and> \<not> b5 \<and> (b0 \<or> b1 \<or> b2 \<or> b3 \<or> b4) \<and> \<not> (b4 \<and> b3 \<and> (b2 \<or> b1 \<and> b0))
     then Char b0 b1 b2 b3 b4 True b6 b7 else Char b0 b1 b2 b3 b4 b5 b6 b7)"
  unfolding lower_char_def Let_def of_char_bits
  by (cases b7; cases b6; cases b5; cases b4; cases b3; cases b2; cases b1; cases b0) (simp_all add: char_of_def bit_Suc_0_iff)

lemma toLower_code [code]: "toLower = map lower_char"
  by (rule ext) (simp add: toLower_def lower_char_def)

definition int_to_string :: "int \<Rightarrow> string" where
  "int_to_string n = (if n < 0 then ''-'' @ digits_of (- n) else digits_of n)"

fun join_with :: "string \<Rightarrow> string list \<Rightarrow> string" where
  "join_with sep [] = []"
| "join_with sep [x] = x"
| "join_with sep (x # y # xs) = x @ sep @ join_with sep (y # xs)"

text \<open>\<^verbatim>\<open>String(v)\<close>.\<close>

fun js_String :: "js \<Rightarrow> string" where
  "js_String JUndefined = ''undefined''"
| "js_String JNull = ''null''"
| "js_String (JBool b) = (if b then ''true'' else ''false'')"
| "js_String (JNum n) = int_to_string n"
| "js_String (JBig n) = int_to_string n"
| "js_String (JStr s) = s"
| "js_String (JDate t shown) = shown"
| "js_String (JToJSON v shown) = shown"
| "js_String (JArr vs) = join_with '','' (map (\<lambda>v. if v = JNull \<or> v = JUndefined then [] else js_String v) vs)"
| "js_String (JObj fs) = ''[object Object]''"

section \<open>Redaction\<close>

definition DROP_KEYS :: "string list" where
  "DROP_KEYS = [''password'', ''password_hash'', ''secret'', ''totp_secret'', ''backup_codes'', ''otp'', ''code'', ''token'',
     ''session_token'', ''access_token'', ''refresh_token'', ''id_token'', ''private_key'', ''mnemonic'', ''seed'']"

definition LAST4_KEYS :: "string list" where
  "LAST4_KEYS = [''account_number'', ''accountnumber'', ''bank_account_number'', ''utr'', ''utr_normalized'', ''card_number'',
     ''phone'', ''phone_number'', ''whatsapp_number'']"

definition EMAIL_KEYS :: "string list" where
  "EMAIL_KEYS = [''email'', ''contact_email'']"

text \<open>The tests of the case-insensitive, anchored patterns.\<close>

definition is_drop_key :: "string \<Rightarrow> bool" where "is_drop_key k \<longleftrightarrow> toLower k \<in> set DROP_KEYS"
definition is_last4_key :: "string \<Rightarrow> bool" where "is_last4_key k \<longleftrightarrow> toLower k \<in> set LAST4_KEYS"
definition is_email_key :: "string \<Rightarrow> bool" where "is_email_key k \<longleftrightarrow> toLower k \<in> set EMAIL_KEYS"

definition REDACTED :: string where
  "REDACTED = ''[REDACTED]''"

text \<open>The bullet U+2022 in UTF-8.\<close>

definition bullet :: string where
  "bullet = [char_of (226::nat), char_of (128::nat), char_of (162::nat)]"

definition maskLast4 :: "string \<Rightarrow> string" where
  "maskLast4 s = (let mask = bullet @ bullet @ bullet @ bullet
     in if length s \<le> 4 then mask else mask @ drop (length s - 4) s)"

text \<open>The first two pieces of \<^verbatim>\<open>value.split('@')\<close>: up to the first sign, and from there to the second.\<close>

definition maskEmail :: "string \<Rightarrow> string" where
  "maskEmail s =
     (let local = takeWhile (\<lambda>c. c \<noteq> CHR ''@'') s;
          domain = takeWhile (\<lambda>c. c \<noteq> CHR ''@'') (tl (dropWhile (\<lambda>c. c \<noteq> CHR ''@'') s))
      in if domain = [] then REDACTED
         else take 1 local @ bullet @ bullet @ bullet @ ''@'' @ domain)"

lemma size_field [termination_simp]: "(k, v) \<in> set fs \<Longrightarrow> size v < Suc (size_list (size_prod (\<lambda>_. 0) size) fs)"
  by (induction fs) auto

definition past_depth :: "nat \<Rightarrow> js \<Rightarrow> js" where
  "past_depth depth v = (if depth > 20 then JStr REDACTED else v)"

fun redact :: "js \<Rightarrow> nat \<Rightarrow> js" where
  "redact JUndefined depth = past_depth depth JNull"
| "redact JNull depth = past_depth depth JNull"
| "redact (JBig n) depth = past_depth depth (JStr (int_to_string n))"
| "redact (JArr vs) depth = past_depth depth (JArr (map (\<lambda>x. redact x (depth + 1)) vs))"
| "redact (JDate t shown) depth = past_depth depth (JStr t)"
| "redact (JToJSON x shown) depth = past_depth depth (redact x (depth + 1))"
| "redact (JObj fs) depth = past_depth depth (JObj (map (\<lambda>(k, x).
     (k, if is_drop_key k then JStr REDACTED
         else if is_last4_key k \<and> x \<noteq> JNull \<and> x \<noteq> JUndefined then JStr (maskLast4 (js_String x))
         else if is_email_key k \<and> is_JStr x then JStr (maskEmail (js_String x))
         else redact x (depth + 1))) fs))"
| "redact (JBool b) depth = past_depth depth (JBool b)"
| "redact (JNum n) depth = past_depth depth (JNum n)"
| "redact (JStr t) depth = past_depth depth (JStr t)"


section \<open>The transaction context\<close>

datatype actor_type = USER | SYSTEM | CLIENT_LINK
datatype surface = OPERATOR_SURFACE | CLIENT_SURFACE | PUBLIC_SURFACE | SYSTEM_SURFACE

record actor_ref =
  actor_type :: actor_type
  actor_id :: "string option"
  actor_surface :: surface
  actor_session :: "string option"

record tx_ctx =
  ctx_actor :: actor_ref
  ctx_correlation :: string
  ctx_idempotencyKey :: "string option"
  ctx_commandName :: string

definition actor_or_system :: "tx_ctx \<Rightarrow> string" where
  "actor_or_system ctx = (case actor_id (ctx_actor ctx) of Some i \<Rightarrow> i | None \<Rightarrow> ''SYSTEM'')"

definition actor_or_command :: "tx_ctx \<Rightarrow> string" where
  "actor_or_command ctx = (case actor_id (ctx_actor ctx) of Some i \<Rightarrow> i | None \<Rightarrow> ''SYSTEM:'' @ ctx_commandName ctx)"

section \<open>The shared tables\<close>

record audit_row =
  ae_seq :: int
  ae_at :: int
  ae_actor_type :: actor_type
  ae_actor_id :: "string option"
  ae_surface :: surface
  ae_action :: string
  ae_entity_type :: string
  ae_entity_id :: "string option"
  ae_before :: "js option"
  ae_after :: "js option"
  ae_correlation :: string
  ae_idempotency :: "string option"
  ae_session :: "string option"

record audit_seal_row =
  seal_from :: int
  seal_to :: int
  seal_count :: int
  seal_prev :: "string option"
  seal_hash :: string

record outbox_row =
  ob_id :: string
  ob_type :: string
  ob_aggregate_type :: "string option"
  ob_aggregate_id :: "string option"
  ob_payload :: js
  ob_correlation :: string
  ob_created :: int
  ob_attempts :: int
  ob_dispatched_at :: "int option"
  ob_failed_at :: "int option"
  ob_last_error :: "string option"

record delivery_row =
  dl_event :: string
  dl_handler :: string

text \<open>
  \<open>clock\<close> is database time (\<^verbatim>\<open>statement_timestamp()\<close>) in seconds; \<open>uuidv7\<close> is PostgreSQL's identifier function, the
  \<open>n\<close>-th identifier it gives out, and \<open>uuids\<close> how many it has given; \<open>tx_rank\<close> is the highest lock rank of the
  running transaction (\<^verbatim>\<open>highestRank\<close>).
\<close>

record core_db =
  clock :: int
  uuidv7 :: "nat \<Rightarrow> string"
  uuids :: nat
  tx_rank :: int
  audit_event :: "audit_row list"
  audit_seal :: "audit_seal_row list"
  outbox_event :: "outbox_row list"
  outbox_delivery :: "delivery_row list"

definition freshId :: "('x core_db_scheme, string) cmd" where
  "freshId = (\<lambda>s. Inr (uuidv7 s (uuids s), s\<lparr>uuids := Suc (uuids s)\<rparr>))"

lemma freshId_run [simp, cmd_simps]: "freshId s = Inr (uuidv7 s (uuids s), s\<lparr>uuids := Suc (uuids s)\<rparr>)"
  by (simp add: freshId_def)

section \<open>The audit log\<close>

definition js_arg :: "js \<Rightarrow> js option" where
  "js_arg v = (if v = JUndefined then None else Some (redact v 0))"

definition next_seq :: "audit_row list \<Rightarrow> int" where
  "next_seq rows = (if rows = [] then 1 else ae_seq (last rows) + 1)"

definition audit_row_of :: "tx_ctx \<Rightarrow> string \<Rightarrow> string \<Rightarrow> string option \<Rightarrow> js \<Rightarrow> js \<Rightarrow> 'x core_db_scheme \<Rightarrow> audit_row" where
  "audit_row_of ctx action entityType entityId before after s =
     \<lparr>ae_seq = next_seq (audit_event s), ae_at = clock s, ae_actor_type = actor_type (ctx_actor ctx),
      ae_actor_id = actor_id (ctx_actor ctx), ae_surface = actor_surface (ctx_actor ctx),
      ae_action = action, ae_entity_type = entityType, ae_entity_id = entityId,
      ae_before = js_arg before, ae_after = js_arg after,
      ae_correlation = ctx_correlation ctx, ae_idempotency = ctx_idempotencyKey ctx,
      ae_session = actor_session (ctx_actor ctx)\<rparr>"

definition appendAudit :: "tx_ctx \<Rightarrow> string \<Rightarrow> string \<Rightarrow> string option \<Rightarrow> js \<Rightarrow> js \<Rightarrow> ('x core_db_scheme, unit) cmd" where
  "appendAudit ctx action entityType entityId before after =
     (\<lambda>s. Inr ((), s\<lparr>audit_event := audit_event s @ [audit_row_of ctx action entityType entityId before after s]\<rparr>))"

lemma appendAudit_run [simp, cmd_simps]:
  "appendAudit ctx action ty i before after s =
     Inr ((), s\<lparr>audit_event := audit_event s @ [audit_row_of ctx action ty i before after s]\<rparr>)"
  by (simp add: appendAudit_def)

definition appendAuditDirect ::
    "actor_ref \<Rightarrow> string \<Rightarrow> string \<Rightarrow> string option \<Rightarrow> js \<Rightarrow> string \<Rightarrow> ('x core_db_scheme, unit) cmd" where
  "appendAuditDirect a action entityType entityId after correlation =
     (\<lambda>s. Inr ((), s\<lparr>audit_event := audit_event s @
       [\<lparr>ae_seq = next_seq (audit_event s), ae_at = clock s, ae_actor_type = actor_type a, ae_actor_id = actor_id a,
         ae_surface = actor_surface a, ae_action = action, ae_entity_type = entityType, ae_entity_id = entityId,
         ae_before = None, ae_after = js_arg after, ae_correlation = correlation, ae_idempotency = None,
         ae_session = actor_session a\<rparr>]\<rparr>))"

text \<open>
  \<^verbatim>\<open>sealAudit\<close>. \<open>H\<close> stands for the hash the database computes over the previous seal's hash and the rows of a range
  (\<^verbatim>\<open>inrp2p_audit_range_hash\<close>, SHA-256 over their text). Seals are kept in the order of \<open>seal_to\<close>.
\<close>

definition rows_between :: "int \<Rightarrow> int \<Rightarrow> audit_row list \<Rightarrow> audit_row list" where
  "rows_between a b rows = filter (\<lambda>r. a \<le> ae_seq r \<and> ae_seq r \<le> b) rows"

definition sealAudit ::
    "(string option \<Rightarrow> audit_row list \<Rightarrow> string) \<Rightarrow> int \<Rightarrow> ('x core_db_scheme, audit_seal_row option) cmd" where
  "sealAudit H settle = (\<lambda>s.
     let lastSeal = (if audit_seal s = [] then None else Some (last (audit_seal s)));
         fromSeq = (case lastSeal of None \<Rightarrow> 0 | Some l \<Rightarrow> seal_to l) + 1;
         due = filter (\<lambda>r. fromSeq \<le> ae_seq r \<and> ae_at r < clock s - settle) (audit_event s)
     in if due = [] then Inr (None, s)
        else let toSeq = Max (ae_seq ` set due);
                 prev = map_option seal_hash lastSeal;
                 rows = rows_between fromSeq toSeq (audit_event s);
                 seal = \<lparr>seal_from = fromSeq, seal_to = toSeq, seal_count = int (length rows), seal_prev = prev,
                         seal_hash = H prev rows\<rparr>
             in Inr (Some seal, s\<lparr>audit_seal := audit_seal s @ [seal]\<rparr>))"

definition seal_valid :: "(string option \<Rightarrow> audit_row list \<Rightarrow> string) \<Rightarrow> audit_row list \<Rightarrow> audit_seal_row \<Rightarrow> bool" where
  "seal_valid H rows l \<longleftrightarrow>
     H (seal_prev l) (rows_between (seal_from l) (seal_to l) rows) = seal_hash l \<and>
     int (length (rows_between (seal_from l) (seal_to l) rows)) = seal_count l"

text \<open>\<^verbatim>\<open>verifyAuditSeals\<close>: the first seal that does not recompute, if any, and how many were checked.\<close>

definition verifyAuditSeals :: "(string option \<Rightarrow> audit_row list \<Rightarrow> string) \<Rightarrow> 'x core_db_scheme \<Rightarrow> audit_seal_row option \<times> nat" where
  "verifyAuditSeals H s =
     (List.find (\<lambda>l. \<not> seal_valid H (audit_event s) l) (audit_seal s), length (audit_seal s))"

section \<open>The lock order\<close>

datatype lock_resource =
    L_trade_request | L_quote | L_acceptance_challenge | L_trader_profile | L_trader_order | L_trader_block | L_trade
  | L_route_obligation | L_settlement_leg | L_route_settlement | L_movement | L_inr_account_day | L_treasury_wallet
  | L_deposit_address

definition LOCK_ORDER :: "lock_resource list" where
  "LOCK_ORDER = [L_trade_request, L_quote, L_acceptance_challenge, L_trader_profile, L_trader_order, L_trader_block, L_trade,
     L_route_obligation, L_settlement_leg, L_route_settlement, L_movement, L_inr_account_day, L_treasury_wallet,
     L_deposit_address]"

fun index_of :: "'a \<Rightarrow> 'a list \<Rightarrow> int" where
  "index_of x [] = - 1"
| "index_of x (y # ys) = (if x = y then 0 else let i = index_of x ys in if i < 0 then i else i + 1)"

definition lock_rank :: "lock_resource \<Rightarrow> int" where
  "lock_rank r = index_of r LOCK_ORDER"

definition assertLockOrder :: "lock_resource \<Rightarrow> ('x core_db_scheme, unit) cmd" where
  "assertLockOrder r = (\<lambda>s. if lock_rank r < tx_rank s then Inl (CoreError LOCK_ORDER_VIOLATION)
                            else Inr ((), s\<lparr>tx_rank := lock_rank r\<rparr>))"

lemma assertLockOrder_Inr [simp]:
  "assertLockOrder r s = Inr (u, t) \<longleftrightarrow> tx_rank s \<le> lock_rank r \<and> t = s\<lparr>tx_rank := lock_rank r\<rparr>"
  by (auto simp: assertLockOrder_def)


section \<open>Lemmas: redaction\<close>

text \<open>What the log may hold: plain JSON in which no field with a secret's name holds anything but the marker, and no
  field with a number's name holds more than four of its characters.\<close>

fun redacted :: "js \<Rightarrow> bool" where
  "redacted JUndefined = False"
| "redacted (JBig n) = False"
| "redacted (JDate t shown) = False"
| "redacted (JToJSON v shown) = False"
| "redacted (JArr vs) = list_all redacted vs"
| "redacted (JObj fs) = list_all (\<lambda>(k, x). redacted x \<and> (is_drop_key k \<longrightarrow> x = JStr REDACTED) \<and>
     (is_last4_key k \<longrightarrow> x = JNull \<or> x = JStr REDACTED \<or> (\<exists>t. x = JStr (maskLast4 t)))) fs"
| "redacted v = True"

lemma redacted_past_depth [simp]: "redacted (past_depth d v) \<longleftrightarrow> d > 20 \<or> redacted v"
  by (simp add: past_depth_def)

lemma redact_null: "redact JNull d = JNull \<or> redact JNull d = JStr REDACTED"
  "redact JUndefined d = JNull \<or> redact JUndefined d = JStr REDACTED"
  by (simp_all add: past_depth_def)

lemma redact_redacted: "redacted (redact v d)"
proof (induction v d rule: redact.induct)
  case (7 fs d)
  have "(case (case f of (k, x) \<Rightarrow> (k, if is_drop_key k then JStr REDACTED
         else if is_last4_key k \<and> x \<noteq> JNull \<and> x \<noteq> JUndefined then JStr (maskLast4 (js_String x))
         else if is_email_key k \<and> is_JStr x then JStr (maskEmail (js_String x))
         else redact x (d + 1))) of (k, x) \<Rightarrow> redacted x \<and> (is_drop_key k \<longrightarrow> x = JStr REDACTED) \<and>
       (is_last4_key k \<longrightarrow> x = JNull \<or> x = JStr REDACTED \<or> (\<exists>t. x = JStr (maskLast4 t))))"
    if "f \<in> set fs" for f
    using 7[OF that] redact_null[of "Suc d"] by (cases f) auto
  then show ?case by (auto simp: list_all_iff)
qed (simp_all add: list_all_iff)

text \<open>What a mask can show of the number it stands for.\<close>

lemma maskLast4_shows: "\<exists>shown. maskLast4 s = bullet @ bullet @ bullet @ bullet @ shown \<and> length shown \<le> 4 \<and> (\<exists>p. s = p @ shown \<or> shown = [])"
  by (cases "length s \<le> 4")
    (auto simp: maskLast4_def Let_def intro: exI[of _ "take (length s - 4) s"] append_take_drop_id[symmetric])

definition audit_clean :: "'x core_db_scheme \<Rightarrow> bool" where
  "audit_clean s \<longleftrightarrow> (\<forall>r \<in> set (audit_event s).
     (\<forall>v. ae_before r = Some v \<longrightarrow> redacted v) \<and> (\<forall>v. ae_after r = Some v \<longrightarrow> redacted v))"

lemma js_arg_redacted: "js_arg v = Some w \<Longrightarrow> redacted w"
  by (auto simp: js_arg_def redact_redacted split: if_splits)

lemma audit_clean_append [inv_intros]: "keeps audit_clean (appendAudit ctx action ty i before after)"
  by (auto simp: keeps_def audit_clean_def audit_row_of_def js_arg_redacted)

lemma audit_clean_direct [inv_intros]: "keeps audit_clean (appendAuditDirect a action ty i after c)"
  by (auto simp: keeps_def audit_clean_def appendAuditDirect_def js_arg_redacted)

text \<open>No secret reaches the audit log: whatever objects a command passes as before and after, the row it appends
  holds only the redacted forms, in which every field named like a secret is the marker, every account number, UTR
  or phone number is cut to its last four characters, and no bigint, date or method survives, at any depth.\<close>

theorem audit_never_holds_secrets:
  assumes "audit_clean s" and "appendAudit ctx action ty i before after s = Inr ((), s')"
  shows "audit_clean s' \<and> audit_event s' = audit_event s @ [audit_row_of ctx action ty i before after s] \<and>
    redacted (redact before 0) \<and> redacted (redact after 0)"
  using assms keepsD[OF audit_clean_append assms(1,2)] by (auto simp: redact_redacted)

definition sample_core :: core_db where
  "sample_core = \<lparr>clock = 1000, uuidv7 = (\<lambda>n. ''id-'' @ digits_of (int n)), uuids = 0, tx_rank = - 1,
     audit_event = [], audit_seal = [], outbox_event = [], outbox_delivery = []\<rparr>"

definition sample_ctx :: tx_ctx where
  "sample_ctx = \<lparr>ctx_actor = \<lparr>actor_type = USER, actor_id = Some ''u1'', actor_surface = OPERATOR_SURFACE, actor_session = None\<rparr>,
     ctx_correlation = ''c1'', ctx_idempotencyKey = Some ''k1'', ctx_commandName = ''test''\<rparr>"

theorem audit_never_holds_secrets_witness:
  "\<exists>s'. appendAudit sample_ctx ''a'' ''t'' None JUndefined (JObj [(''utr'', JStr ''HDFC0123456789'')]) sample_core = Inr ((), s')
     \<and> audit_clean s'"
proof -
  have "audit_clean sample_core" by (simp add: audit_clean_def sample_core_def)
  from audit_never_holds_secrets[OF this appendAudit_run] show ?thesis by (auto simp: appendAudit_run)
qed

section \<open>Lemmas: seals\<close>

text \<open>The seals cover the log from its first row without gaps, each chained to the one before, each over rows that
  exist; the rows are numbered in increasing order.\<close>

fun seals_chain :: "int \<Rightarrow> string option \<Rightarrow> audit_seal_row list \<Rightarrow> bool" where
  "seals_chain u prev [] = True"
| "seals_chain u prev (l # ls) \<longleftrightarrow>
     seal_from l = u + 1 \<and> seal_from l \<le> seal_to l \<and> seal_prev l = prev \<and> seals_chain (seal_to l) (Some (seal_hash l)) ls"

definition sealed_upto :: "audit_seal_row list \<Rightarrow> int" where
  "sealed_upto ls = (if ls = [] then 0 else seal_to (last ls))"

definition audit_inv :: "(string option \<Rightarrow> audit_row list \<Rightarrow> string) \<Rightarrow> 'x core_db_scheme \<Rightarrow> bool" where
  "audit_inv H s \<longleftrightarrow>
     sorted_wrt (<) (map ae_seq (audit_event s)) \<and> (\<forall>r \<in> set (audit_event s). 1 \<le> ae_seq r) \<and>
     seals_chain 0 None (audit_seal s) \<and>
     (audit_seal s \<noteq> [] \<longrightarrow> sealed_upto (audit_seal s) \<in> ae_seq ` set (audit_event s)) \<and>
     (\<forall>l \<in> set (audit_seal s). seal_valid H (audit_event s) l)"

lemma seals_chain_snoc:
  "seals_chain u p (ls @ [l]) \<longleftrightarrow> seals_chain u p ls \<and>
     seal_from l = (if ls = [] then u else seal_to (last ls)) + 1 \<and> seal_from l \<le> seal_to l \<and>
     seal_prev l = (if ls = [] then p else Some (seal_hash (last ls)))"
  by (induction ls arbitrary: u p) auto

lemma seals_chain_bounds: "seals_chain u p ls \<Longrightarrow> l \<in> set ls \<Longrightarrow> u < seal_from l \<and> seal_from l \<le> seal_to l"
  by (induction ls arbitrary: u p) fastforce+

lemma seals_chain_last: "seals_chain u p ls \<Longrightarrow> l \<in> set ls \<Longrightarrow> seal_to l \<le> seal_to (last ls)"
proof (induction ls arbitrary: u p)
  case (Cons a ls)
  then have chain: "seals_chain (seal_to a) (Some (seal_hash a)) ls" by simp
  show ?case
  proof (cases "ls = []")
    case False
    then have "seal_to a \<le> seal_to (last ls)"
      using seals_chain_bounds[OF chain, of "last ls"] by simp
    with Cons.IH[OF chain] Cons.prems(2) False show ?thesis by auto
  qed (use Cons.prems in auto)
qed simp

lemma seq_le_last: "sorted_wrt (<) (map ae_seq rows) \<Longrightarrow> r \<in> set rows \<Longrightarrow> ae_seq r \<le> ae_seq (last rows)"
  by (induction rows) (auto simp: less_imp_le)

lemma seq_lt_next: "sorted_wrt (<) (map ae_seq rows) \<Longrightarrow> r \<in> set rows \<Longrightarrow> ae_seq r < next_seq rows"
  using seq_le_last[of rows r] by (auto simp: next_seq_def)

lemma audit_inv_extend:
  assumes inv: "audit_inv H s" and row: "ae_seq r = next_seq (audit_event s)"
  shows "audit_inv H (s\<lparr>audit_event := audit_event s @ [r]\<rparr>)"
proof -
  let ?rows = "audit_event s"
  from inv have sorted: "sorted_wrt (<) (map ae_seq ?rows)" by (simp add: audit_inv_def)
  note lt = seq_lt_next[OF sorted]
  have "1 \<le> ae_seq r" using inv row last_in_set[of "audit_event s"] by (fastforce simp: audit_inv_def next_seq_def)
  moreover have "rows_between (seal_from l) (seal_to l) (?rows @ [r]) = rows_between (seal_from l) (seal_to l) ?rows"
    if "l \<in> set (audit_seal s)" for l
  proof -
    from that inv have "seal_to l \<le> sealed_upto (audit_seal s)" "sealed_upto (audit_seal s) \<in> ae_seq ` set ?rows"
      using seals_chain_last[of 0 None "audit_seal s" l] by (auto simp: audit_inv_def sealed_upto_def)
    then have "seal_to l < ae_seq r" using lt row by (auto intro: le_less_trans)
    then show ?thesis by (simp add: rows_between_def)
  qed
  ultimately show ?thesis using inv lt row by (auto simp: audit_inv_def sorted_wrt_append seal_valid_def)
qed

lemma audit_inv_append [inv_intros]: "keeps (audit_inv H) (appendAudit ctx action ty i before after)"
  by (rule keepsI) (auto intro: audit_inv_extend simp: audit_row_of_def)

lemma audit_inv_direct [inv_intros]: "keeps (audit_inv H) (appendAuditDirect a action ty i after c)"
  by (rule keepsI) (auto intro: audit_inv_extend simp: appendAuditDirect_def)

lemma audit_inv_seal [inv_intros]: "keeps (audit_inv H) (sealAudit H settle)"
proof (rule keepsI)
  fix s :: "'x core_db_scheme" and x s'
  assume inv: "audit_inv H s" and run: "sealAudit H settle s = Inr (x, s')"
  let ?prev = "if audit_seal s = [] then None else Some (seal_hash (last (audit_seal s)))"
  define u where "u = sealed_upto (audit_seal s)"
  define due where "due = filter (\<lambda>r. u + 1 \<le> ae_seq r \<and> ae_at r < clock s - settle) (audit_event s)"
  define rows where "rows = rows_between (u + 1) (Max (ae_seq ` set due)) (audit_event s)"
  define seal where "seal = \<lparr>seal_from = u + 1, seal_to = Max (ae_seq ` set due), seal_count = int (length rows),
    seal_prev = ?prev, seal_hash = H ?prev rows\<rparr>"
  have step: "s' = (if due = [] then s else s\<lparr>audit_seal := audit_seal s @ [seal]\<rparr>)"
    using run unfolding sealAudit_def due_def rows_def seal_def u_def
    by (cases "audit_seal s = []") (auto simp: Let_def sealed_upto_def split: if_splits)
  show "audit_inv H s'"
  proof (cases "due = []")
    case False
    then have max: "Max (ae_seq ` set due) \<in> ae_seq ` set due" by (intro Max_in) auto
    then have "u + 1 \<le> seal_to seal" "seal_to seal \<in> ae_seq ` set (audit_event s)"
      by (auto simp: seal_def due_def)
    moreover have "seal_valid H (audit_event s) seal" by (simp add: seal_valid_def seal_def rows_def)
    ultimately show ?thesis using inv step False
      by (auto simp: audit_inv_def seals_chain_snoc seal_def u_def sealed_upto_def)
  qed (use inv step in simp)
qed

lemma find_None_valid: "fst (verifyAuditSeals H s) = None \<longleftrightarrow> (\<forall>l \<in> set (audit_seal s). seal_valid H (audit_event s) l)"
  by (auto simp: verifyAuditSeals_def find_None_not_mem)


definition sample_hash :: "string option \<Rightarrow> audit_row list \<Rightarrow> string" where
  "sample_hash prev rows = digits_of (int (length rows))"

definition sample_logged :: core_db where
  "sample_logged = (case (bindC (appendAudit sample_ctx ''a'' ''t'' None JNull JNull) (\<lambda>_. sealAudit sample_hash (- 1))) sample_core
     of Inr (x, s) \<Rightarrow> s | Inl e \<Rightarrow> sample_core)"

lemma sample_core_inv: "audit_inv H sample_core"
  by (simp add: audit_inv_def sample_core_def)


section \<open>Lemmas: lock order\<close>

lemma lock_rank_values [simp]:
  "lock_rank L_trade_request = 0" "lock_rank L_quote = 1" "lock_rank L_acceptance_challenge = 2"
  "lock_rank L_trader_profile = 3" "lock_rank L_trader_order = 4" "lock_rank L_trader_block = 5" "lock_rank L_trade = 6"
  "lock_rank L_route_obligation = 7" "lock_rank L_settlement_leg = 8" "lock_rank L_route_settlement = 9"
  "lock_rank L_movement = 10" "lock_rank L_inr_account_day = 11" "lock_rank L_treasury_wallet = 12"
  "lock_rank L_deposit_address = 13"
  by (simp_all add: lock_rank_def LOCK_ORDER_def)

text \<open>A transaction that asks for a sequence of locks gets through exactly when the resources come in the global
  order, starting from what it already holds, and then holds the rank of the last one; any other sequence is refused
  with the lock-order violation. Two transactions therefore never wait for each other on resources of different
  ranks.\<close>

theorem locks_follow_global_order:
  "forC rs assertLockOrder s =
    (if sorted (tx_rank s # map lock_rank rs) then Inr ((), s\<lparr>tx_rank := last (tx_rank s # map lock_rank rs)\<rparr>)
     else Inl (CoreError LOCK_ORDER_VIOLATION))"
proof (induction rs arbitrary: s)
  case (Cons r rs)
  show ?case
  proof (cases "tx_rank s \<le> lock_rank r")
    case True
    then show ?thesis using Cons.IH[of "s\<lparr>tx_rank := lock_rank r\<rparr>"] by (auto simp: assertLockOrder_def bindC_run intro: order_trans)
  qed (auto simp: assertLockOrder_def bindC_run)
qed simp

end
