(* ===== verification/Pipeline.thy ===== *)
theory Pipeline
  imports Database "HOL-Library.List_Lexorder" "HOL-Library.Char_ord"
begin

text \<open>
  The command pipeline (\<^verbatim>\<open>packages/commands/src/pipeline.ts\<close>): one transaction that claims an idempotency key,
  authorizes, runs the handler and stores the result, and the rate limiter (\<^verbatim>\<open>rate-limit.ts\<close>) that counts in a
  transaction of its own. SHA-256 is a parameter. The locale \<open>command_handler\<close> is the contract between the
  pipeline and a command: what a command may touch so that a retry of the same request is a replay.
\<close>

section \<open>Canonical JSON\<close>

text \<open>
  What \<^verbatim>\<open>JSON.stringify\<close> with the replacer of \<^verbatim>\<open>canonicalJson\<close> writes, as a JSON tree: \<open>None\<close> is a value that is left out.
  \<^verbatim>\<open>toJSON\<close> runs before the replacer, a bigint becomes a tagged object, and the keys of an object are sorted.
\<close>

definition omit_none :: "js option \<Rightarrow> js" where
  "omit_none v = (case v of None \<Rightarrow> JNull | Some w \<Rightarrow> w)"

fun present_fields :: "(string \<times> js option) list \<Rightarrow> (string \<times> js) list" where
  "present_fields [] = []"
| "present_fields ((k, None) # fs) = present_fields fs"
| "present_fields ((k, Some v) # fs) = (k, v) # present_fields fs"

fun canonical :: "js \<Rightarrow> js option" where
  "canonical JUndefined = None"
| "canonical JNull = Some JNull"
| "canonical (JBool b) = Some (JBool b)"
| "canonical (JNum n) = Some (JNum n)"
| "canonical (JBig n) = Some (JObj [(''$bigint'', JStr (int_to_string n))])"
| "canonical (JStr t) = Some (JStr t)"
| "canonical (JDate t shown) = Some (JStr t)"
| "canonical (JToJSON v shown) = canonical v"
| "canonical (JArr vs) = Some (JArr (map (\<lambda>v. omit_none (canonical v)) vs))"
| "canonical (JObj fs) = Some (JObj (sort_key fst (present_fields (map (\<lambda>(k, v). (k, canonical v)) fs))))"

definition hex_digit :: "nat \<Rightarrow> char" where
  "hex_digit n = (if n < 10 then char_of (48 + n) else char_of (87 + n))"

definition json_char :: "char \<Rightarrow> string" where
  "json_char c =
     (let n = of_char c :: nat
      in if n = 34 then [char_of (92::nat), c]
         else if n = 92 then [c, c]
         else if n = 8 then [char_of (92::nat), CHR ''b''] else if n = 12 then [char_of (92::nat), CHR ''f'']
         else if n = 10 then [char_of (92::nat), CHR ''n''] else if n = 13 then [char_of (92::nat), CHR ''r'']
         else if n = 9 then [char_of (92::nat), CHR ''t'']
         else if n < 32 then [char_of (92::nat), CHR ''u'', CHR ''0'', CHR ''0'', hex_digit (n div 16), hex_digit (n mod 16)]
         else [c])"

definition json_string :: "string \<Rightarrow> string" where
  "json_string s = char_of (34::nat) # concat (map json_char s) @ [char_of (34::nat)]"

text \<open>The text of a JSON tree.\<close>

fun json_text :: "js \<Rightarrow> string" where
  "json_text (JBool b) = (if b then ''true'' else ''false'')"
| "json_text (JNum n) = int_to_string n"
| "json_text (JStr t) = json_string t"
| "json_text (JArr vs) = ''['' @ join_with '','' (map json_text vs) @ '']''"
| "json_text (JObj fs) = ''{'' @ join_with '','' (map (\<lambda>(k, v). json_string k @ '':'' @ json_text v) fs) @ ''}''"
| "json_text v = ''null''"

definition canonicalJson :: "js \<Rightarrow> string option" where
  "canonicalJson v = map_option json_text (canonical v)"

definition surface_name :: "surface \<Rightarrow> string" where
  "surface_name x = (case x of OPERATOR_SURFACE \<Rightarrow> ''OPERATOR'' | CLIENT_SURFACE \<Rightarrow> ''CLIENT'' | PUBLIC_SURFACE \<Rightarrow> ''PUBLIC''
     | SYSTEM_SURFACE \<Rightarrow> ''SYSTEM'')"

definition js_opt :: "string option \<Rightarrow> js" where
  "js_opt x = (case x of None \<Rightarrow> JNull | Some t \<Rightarrow> JStr t)"

definition request_object :: "string \<Rightarrow> actor_ref \<Rightarrow> js \<Rightarrow> js" where
  "request_object name a payload =
     JObj [(''name'', JStr name), (''actor'', js_opt (actor_id a)), (''surface'', JStr (surface_name (actor_surface a))),
           (''payload'', payload)]"

definition requestHash :: "(string \<Rightarrow> string) \<Rightarrow> string \<Rightarrow> actor_ref \<Rightarrow> js \<Rightarrow> string" where
  "requestHash sha256 name a payload =
     (case canonicalJson (request_object name a payload) of None \<Rightarrow> sha256 [] | Some t \<Rightarrow> sha256 t)"

text \<open>\<^verbatim>\<open>bigintReviver\<close>, applied bottom-up by \<^verbatim>\<open>JSON.parse\<close>.\<close>

definition bigint_of_text :: "string \<Rightarrow> int" where
  "bigint_of_text t = (case t of c # cs \<Rightarrow> if c = CHR ''-'' then - bigint_of cs else bigint_of t | [] \<Rightarrow> 0)"

definition untag :: "(string \<times> js) list \<Rightarrow> js" where
  "untag fs = (case map_of fs ''$bigint'' of Some v \<Rightarrow> JBig (bigint_of_text (js_String v)) | None \<Rightarrow> JObj fs)"

fun revive :: "js \<Rightarrow> js" where
  "revive (JArr vs) = JArr (map revive vs)"
| "revive (JObj fs) = untag (map (\<lambda>(k, v). (k, revive v)) fs)"
| "revive v = v"

section \<open>The idempotency table and the pipeline\<close>

datatype idem_status = PENDING | COMPLETED

record idem_row =
  ik_scope :: string
  ik_key :: string
  ik_hash :: string
  ik_actor :: "string option"
  ik_status :: idem_status
  ik_response :: "js option"
  ik_completed_at :: "int option"

record rate_row =
  rl_bucket :: string
  rl_window :: int
  rl_hits :: int

record pipeline_db = core_db +
  idempotency_key :: "idem_row list"
  rate_limit_counter :: "rate_row list"

record command_request =
  cr_name :: string
  cr_actor :: actor_ref
  cr_payload :: js
  cr_key :: "string option"
  cr_correlation :: string
  cr_financial :: bool

record command_outcome =
  co_result :: js
  co_replayed :: bool
  co_correlation :: string

definition findIdem :: "string \<Rightarrow> string \<Rightarrow> 'x pipeline_db_scheme \<Rightarrow> idem_row option" where
  "findIdem scope key s = List.find (\<lambda>r. ik_scope r = scope \<and> ik_key r = key) (idempotency_key s)"

definition withTransaction :: "('x core_db_scheme, 'a) cmd \<Rightarrow> 'x core_db_scheme \<Rightarrow> 'a result \<times> 'x core_db_scheme" where
  "withTransaction m s =
     (case m (s\<lparr>tx_rank := - 1\<rparr>) of Inl e \<Rightarrow> (Inl e, s) | Inr (x, s') \<Rightarrow> (Inr x, s'))"

definition stored_response :: "js \<Rightarrow> js" where
  "stored_response r = omit_none (canonical (JObj [(''result'', r)]))"

definition read_result :: "js \<Rightarrow> js" where
  "read_result v = (case revive v of JObj fs \<Rightarrow> (case map_of fs ''result'' of Some r \<Rightarrow> r | None \<Rightarrow> JUndefined) | _ \<Rightarrow> JUndefined)"

definition request_ctx :: "command_request \<Rightarrow> tx_ctx" where
  "request_ctx req = \<lparr>ctx_actor = cr_actor req, ctx_correlation = cr_correlation req, ctx_idempotencyKey = cr_key req,
     ctx_commandName = cr_name req\<rparr>"

text \<open>The row an \<^verbatim>\<open>INSERT ... ON CONFLICT DO NOTHING\<close> adds, or \<open>False\<close> when the key is taken.\<close>

definition claimKey :: "command_request \<Rightarrow> string \<Rightarrow> string \<Rightarrow> ('x pipeline_db_scheme, bool) cmd" where
  "claimKey req key hash = (\<lambda>s.
     case findIdem (cr_name req) key s of
       Some r \<Rightarrow> Inr (False, s)
     | None \<Rightarrow> Inr (True, s\<lparr>idempotency_key := idempotency_key s @
         [\<lparr>ik_scope = cr_name req, ik_key = key, ik_hash = hash, ik_actor = actor_id (cr_actor req), ik_status = PENDING,
           ik_response = None, ik_completed_at = None\<rparr>]\<rparr>))"

definition completeKey :: "command_request \<Rightarrow> string \<Rightarrow> js \<Rightarrow> ('x pipeline_db_scheme, unit) cmd" where
  "completeKey req key result = (\<lambda>s. Inr ((), s\<lparr>idempotency_key :=
     update_where (\<lambda>r. ik_scope r = cr_name req \<and> ik_key r = key)
       (\<lambda>r. r\<lparr>ik_status := COMPLETED, ik_response := Some (stored_response result), ik_completed_at := Some (clock s)\<rparr>)
       (idempotency_key s)\<rparr>))"

text \<open>\<^verbatim>\<open>if (key)\<close>: an empty string counts as no key.\<close>

definition truthy_key :: "command_request \<Rightarrow> string option" where
  "truthy_key req = (case cr_key req of None \<Rightarrow> None | Some k \<Rightarrow> if k = [] then None else Some k)"

definition runHandler ::
  "(tx_ctx \<Rightarrow> js \<Rightarrow> ('x pipeline_db_scheme, unit) cmd) \<Rightarrow> (tx_ctx \<Rightarrow> js \<Rightarrow> ('x pipeline_db_scheme, js) cmd) \<Rightarrow>
   command_request \<Rightarrow> ('x pipeline_db_scheme, command_outcome) cmd" where
  "runHandler auth handle req =
     bindC (auth (request_ctx req) (cr_payload req)) (\<lambda>_.
     bindC (handle (request_ctx req) (cr_payload req)) (\<lambda>result.
     bindC (case truthy_key req of None \<Rightarrow> returnC () | Some key \<Rightarrow> completeKey req key result) (\<lambda>_.
     returnC \<lparr>co_result = result, co_replayed = False, co_correlation = cr_correlation req\<rparr>)))"

definition replay ::
  "(tx_ctx \<Rightarrow> js \<Rightarrow> ('x pipeline_db_scheme, unit) cmd) \<Rightarrow> command_request \<Rightarrow> string \<Rightarrow> idem_row \<Rightarrow>
   ('x pipeline_db_scheme, command_outcome) cmd" where
  "replay auth req hash existing =
     bindC (unlessC (ik_hash existing = hash) (CoreError IDEMPOTENCY_KEY_REUSED)) (\<lambda>_.
     bindC (unlessC (ik_status existing = COMPLETED) (CoreError IDEMPOTENCY_IN_PROGRESS)) (\<lambda>_.
     bindC (auth (request_ctx req) (cr_payload req)) (\<lambda>_.
     returnC \<lparr>co_result = read_result (case ik_response existing of Some v \<Rightarrow> v | None \<Rightarrow> JNull), co_replayed = True,
              co_correlation = cr_correlation req\<rparr>)))"

definition executeCommand ::
  "(string \<Rightarrow> string) \<Rightarrow> (tx_ctx \<Rightarrow> js \<Rightarrow> ('x pipeline_db_scheme, unit) cmd) \<Rightarrow>
   (tx_ctx \<Rightarrow> js \<Rightarrow> ('x pipeline_db_scheme, js) cmd) \<Rightarrow> command_request \<Rightarrow> 'x pipeline_db_scheme \<Rightarrow>
   command_outcome result \<times> 'x pipeline_db_scheme" where
  "executeCommand sha256 auth handle req s =
     (if cr_financial req \<and> truthy_key req = None then (Inl (CoreError IDEMPOTENCY_KEY_REQUIRED), s)
      else let hash = requestHash sha256 (cr_name req) (cr_actor req) (cr_payload req)
        in withTransaction
          (case truthy_key req of
             None \<Rightarrow> runHandler auth handle req
           | Some key \<Rightarrow>
               bindC (claimKey req key hash) (\<lambda>claimed.
               if claimed then runHandler auth handle req
               else bindC (readC (findIdem (cr_name req) key)) (\<lambda>row.
                    bindC (foundC NoResultError row) (\<lambda>existing. replay auth req hash existing)))) s)"

section \<open>The rate limiter\<close>

text \<open>\<^verbatim>\<open>hitRateLimit\<close> runs in its own transaction and commits even when it refuses: the result and the new state are
  separate. The subject is hashed into the bucket key.\<close>

definition window_start :: "int \<Rightarrow> int \<Rightarrow> int" where
  "window_start now window = (now div window) * window"

definition hitRateLimit ::
  "(string \<Rightarrow> string) \<Rightarrow> string \<Rightarrow> string \<Rightarrow> int \<Rightarrow> int \<Rightarrow> 'x pipeline_db_scheme \<Rightarrow> unit result \<times> 'x pipeline_db_scheme" where
  "hitRateLimit sha256 bucket subject limit windowSeconds s =
     (let key = bucket @ '':'' @ sha256 subject;
          w = window_start (clock s) windowSeconds;
          mine = (\<lambda>r. rl_bucket r = key \<and> rl_window r = w)
      in case List.find mine (rate_limit_counter s) of
           None \<Rightarrow> (if 1 > limit then Inl (ReferenceError RATE_LIMITED) else Inr (),
                   s\<lparr>rate_limit_counter := rate_limit_counter s @ [\<lparr>rl_bucket = key, rl_window = w, rl_hits = 1\<rparr>]\<rparr>)
         | Some r \<Rightarrow> (if rl_hits r + 1 > limit then Inl (ReferenceError RATE_LIMITED) else Inr (),
                   s\<lparr>rate_limit_counter := update_where mine (\<lambda>r. r\<lparr>rl_hits := rl_hits r + 1\<rparr>) (rate_limit_counter s)\<rparr>))"

definition pruneRateLimitCounters :: "'x pipeline_db_scheme \<Rightarrow> nat \<times> 'x pipeline_db_scheme" where
  "pruneRateLimitCounters s =
     (let old = (\<lambda>r. rl_window r < clock s - 86400)
      in (length (filter old (rate_limit_counter s)),
          s\<lparr>rate_limit_counter := filter (\<lambda>r. \<not> old r) (rate_limit_counter s)\<rparr>))"

definition FINANCIAL_MUTATIONS_PER_USER_PER_MINUTE :: int where
  "FINANCIAL_MUTATIONS_PER_USER_PER_MINUTE = 60"

definition limitFinancialMutations ::
  "(string \<Rightarrow> string) \<Rightarrow> actor_ref \<Rightarrow> 'x pipeline_db_scheme \<Rightarrow> unit result \<times> 'x pipeline_db_scheme" where
  "limitFinancialMutations sha256 a s =
     (if actor_type a \<noteq> USER \<or> actor_id a = None \<or> actor_id a = Some [] then (Inr (), s)
      else hitRateLimit sha256 ''financial_user'' (the (actor_id a)) FINANCIAL_MUTATIONS_PER_USER_PER_MINUTE 60 s)"

section \<open>Lemmas: stored results\<close>

lemma int_to_string_value: "bigint_of_text (int_to_string n) = n"
proof (cases "n < 0")
  case False
  then have "list_all isDigit (digits_of n)" by (simp add: digits_of_digits)
  moreover obtain c cs where "digits_of n = c # cs" using digits_of_nonempty[of n] by (cases "digits_of n") auto
  moreover from calculation have "c \<noteq> CHR ''-''" by auto
  ultimately show ?thesis using False digits_of_value[of n] by (simp add: int_to_string_def bigint_of_text_def)
qed (simp add: int_to_string_def bigint_of_text_def digits_of_value)

text \<open>A result a handler may return: JSON with bigints, no omitted fields, keys in order and none of them the tag.\<close>

fun plain_result :: "js \<Rightarrow> bool" where
  "plain_result JUndefined = False"
| "plain_result (JDate t shown) = False"
| "plain_result (JToJSON v shown) = False"
| "plain_result (JArr vs) = list_all plain_result vs"
| "plain_result (JObj fs) \<longleftrightarrow> list_all (\<lambda>(k, v). plain_result v \<and> k \<noteq> ''$bigint'') fs \<and> sorted (map fst fs)"
| "plain_result v = True"

lemma present_fields_all: "\<forall>f \<in> set fs. c (snd f) = Some (d (snd f)) \<Longrightarrow>
    present_fields (map (\<lambda>(k, v). (k, c v)) fs) = map (\<lambda>(k, v). (k, d v)) fs"
  by (induction fs) auto

lemma canonical_revive: "plain_result r \<Longrightarrow> \<exists>c. canonical r = Some c \<and> revive c = r"
proof (induction r rule: plain_result.induct)
  case (4 vs)
  then have "\<forall>v \<in> set vs. revive (omit_none (canonical v)) = v"
    by (fastforce simp: list_all_iff omit_none_def)
  then show ?case by (simp add: map_idI)
next
  case (5 fs)
  define d where "d v = omit_none (canonical v)" for v
  have each: "canonical v = Some (d v)" "revive (d v) = v" "k \<noteq> ''$bigint''" if "(k, v) \<in> set fs" for k v
    using 5 that by (fastforce simp: list_all_iff d_def omit_none_def)+
  let ?cs = "map (\<lambda>(k, v). (k, d v)) fs"
  have fst: "map fst ?cs = map fst fs" by auto
  have "present_fields (map (\<lambda>(k, v). (k, canonical v)) fs) = ?cs"
    using each(1) by (intro present_fields_all) auto
  moreover have "sort_key fst ?cs = ?cs" using 5(2) by (intro sort_key_id_if_sorted) (simp only: fst, simp)
  moreover have "map (\<lambda>(k, v). (k, revive v)) ?cs = fs"
    using each(2) by (auto intro!: map_idI)
  moreover have "map_of fs ''$bigint'' = None" using each(3) by (force simp: map_of_eq_None_iff)
  ultimately show ?case by (simp add: untag_def)
qed (simp_all add: untag_def int_to_string_value)

lemma read_stored:
  assumes "plain_result r"
  shows "read_result (stored_response r) = r"
proof -
  obtain c where c: "canonical r = Some c" "revive c = r" using canonical_revive[OF assms] by blast
  then have "stored_response r = JObj [(''result'', c)]" by (simp add: stored_response_def omit_none_def)
  with c show ?thesis by (simp add: read_result_def untag_def)
qed


section \<open>Lemmas: claims and completions\<close>

lemma find_update_unique:
  assumes "List.find P rows = None" "P r" "P (f r)"
  shows "List.find P (update_where P f (rows @ [r])) = Some (f r)"
proof -
  have "\<forall>x \<in> set rows. \<not> P x" using assms(1) by (simp add: find_None_not_mem)
  then have "update_where P f rows = rows" by (simp add: update_where_def map_idI)
  moreover have "List.find P (rows @ [f r]) = Some (f r)"
    using \<open>\<forall>x \<in> set rows. \<not> P x\<close> assms(3) by (induction rows) auto
  ultimately show ?thesis using assms(2) by simp
qed

lemma find_append_unique: "List.find P rows = None \<Longrightarrow> P r \<Longrightarrow> List.find P (rows @ [r]) = Some r"
  by (induction rows) (auto split: if_splits)

text \<open>What the pipeline relies on from a command: neither its authorization nor its handler touches the idempotency table,
  and what the handler returns is plain JSON.\<close>

locale command_handler =
  fixes auth :: "tx_ctx \<Rightarrow> js \<Rightarrow> ('x pipeline_db_scheme, unit) cmd"
    and handle :: "tx_ctx \<Rightarrow> js \<Rightarrow> ('x pipeline_db_scheme, js) cmd"
  assumes auth_frame: "auth c p s = Inr (u, t) \<Longrightarrow> idempotency_key t = idempotency_key s"
    and handle_frame: "handle c p s = Inr (r, t) \<Longrightarrow> idempotency_key t = idempotency_key s"
    and handle_plain: "handle c p s = Inr (r, t) \<Longrightarrow> plain_result r"
begin

lemma first_run:
  assumes key: "truthy_key req = Some key"
    and run: "executeCommand sha256 auth handle req s = (Inr out, s')" and fresh: "\<not> co_replayed out"
  shows "\<exists>row. findIdem (cr_name req) key s' = Some row \<and> ik_status row = COMPLETED \<and>
    ik_hash row = requestHash sha256 (cr_name req) (cr_actor req) (cr_payload req) \<and>
    ik_response row = Some (stored_response (co_result out)) \<and> plain_result (co_result out)"
proof (cases "findIdem (cr_name req) key (s\<lparr>tx_rank := - 1\<rparr>)")
  case None
  let ?P = "\<lambda>r. ik_scope r = cr_name req \<and> ik_key r = key"
  from run key None obtain a t where h: "handle (request_ctx req) (cr_payload req) a = Inr (co_result out, t)"
    and rows: "idempotency_key a = idempotency_key s @ [\<lparr>ik_scope = cr_name req, ik_key = key,
       ik_hash = requestHash sha256 (cr_name req) (cr_actor req) (cr_payload req), ik_actor = actor_id (cr_actor req),
       ik_status = PENDING, ik_response = None, ik_completed_at = None\<rparr>]"
    and s': "completeKey req key (co_result out) t = Inr ((), s')"
    by (auto simp: executeCommand_def Let_def withTransaction_def claimKey_def runHandler_def bindC_def
        split: sum.splits prod.splits if_splits dest: auth_frame)
  from None have none: "List.find ?P (idempotency_key s) = None" by (simp add: findIdem_def)
  from s' handle_frame[OF h] rows
  have "findIdem (cr_name req) key s' = Some (\<lparr>ik_scope = cr_name req, ik_key = key,
       ik_hash = requestHash sha256 (cr_name req) (cr_actor req) (cr_payload req), ik_actor = actor_id (cr_actor req),
       ik_status = COMPLETED, ik_response = Some (stored_response (co_result out)), ik_completed_at = Some (clock t)\<rparr>)"
    by (auto simp: completeKey_def findIdem_def find_update_unique[OF none] simp del: update_where_append)
  then show ?thesis using handle_plain[OF h] by simp
next
  case (Some r)
  with run key fresh show ?thesis
    by (auto simp: executeCommand_def Let_def withTransaction_def claimKey_def replay_def bindC_def
        split: sum.splits prod.splits if_splits)
qed

lemma replays:
  assumes key: "truthy_key req' = Some key"
    and row: "findIdem (cr_name req') key t = Some row" "ik_status row = COMPLETED"
      "ik_hash row = requestHash sha256 (cr_name req') (cr_actor req') (cr_payload req')"
      "ik_response row = Some (stored_response r)" "plain_result r"
  shows "executeCommand sha256 auth handle req' t =
    (case auth (request_ctx req') (cr_payload req') (t\<lparr>tx_rank := - 1\<rparr>) of
       Inl e \<Rightarrow> (Inl e, t)
     | Inr (u, t') \<Rightarrow> (Inr \<lparr>co_result = r, co_replayed = True, co_correlation = cr_correlation req'\<rparr>, t'))"
proof -
  have find: "findIdem (cr_name req') key (t\<lparr>tx_rank := - 1\<rparr>) = Some row" using row(1) by (simp add: findIdem_def)
  show ?thesis using key row(2-5) find
    by (auto simp: executeCommand_def Let_def withTransaction_def claimKey_def replay_def bindC_def read_stored
        split: sum.splits)
qed

lemma replay_of_first_run:
  assumes "truthy_key req = Some key" "executeCommand sha256 auth handle req s = (Inr out, s')" "\<not> co_replayed out"
    and same: "truthy_key req' = Some key" "cr_name req' = cr_name req" "cr_actor req' = cr_actor req" "cr_payload req' = cr_payload req"
    and kept: "findIdem (cr_name req) key t = findIdem (cr_name req) key s'"
  shows "executeCommand sha256 auth handle req' t =
    (case auth (request_ctx req') (cr_payload req') (t\<lparr>tx_rank := - 1\<rparr>) of
       Inl e \<Rightarrow> (Inl e, t)
     | Inr (u, t') \<Rightarrow> (Inr \<lparr>co_result = co_result out, co_replayed = True, co_correlation = cr_correlation req'\<rparr>, t'))"
proof -
  obtain row where "findIdem (cr_name req') key t = Some row" "ik_status row = COMPLETED"
      "ik_hash row = requestHash sha256 (cr_name req') (cr_actor req') (cr_payload req')"
      "ik_response row = Some (stored_response (co_result out))" "plain_result (co_result out)"
    using first_run[OF assms(1-3)] kept same(2-4) by auto
  from replays[OF same(1) this] show ?thesis .
qed

end

text \<open>C2: a command runs at most once per idempotency key: after it succeeded, the same request under the same key
  (same command, caller and payload; any number of times, in any later state that kept the key's row) is authorized
  again and then returns the very result of the first run, marked as replayed, without running the handler; and if
  the caller is no longer authorized it gets that error and nothing else (FI-50, C2).\<close>

theorem command_replay:
  assumes "command_handler auth handle"
    and "truthy_key req = Some key" "executeCommand sha256 auth handle req s = (Inr out, s')" "\<not> co_replayed out"
    and "truthy_key req' = Some key" "cr_name req' = cr_name req" "cr_actor req' = cr_actor req" "cr_payload req' = cr_payload req"
    and "findIdem (cr_name req) key t = findIdem (cr_name req) key s'"
  shows "executeCommand sha256 auth handle req' t =
    (case auth (request_ctx req') (cr_payload req') (t\<lparr>tx_rank := - 1\<rparr>) of
       Inl e \<Rightarrow> (Inl e, t)
     | Inr (u, t') \<Rightarrow> (Inr \<lparr>co_result = co_result out, co_replayed = True, co_correlation = cr_correlation req'\<rparr>, t'))"
  using assms by (intro command_handler.replay_of_first_run)

text \<open>C36: no failing request changes anything: a financial command without a key, a key that belongs to another request,
  a key whose first run has not finished, and any error of the authorization or of the handler all leave the
  database as it was, the claim of the key included.\<close>

theorem command_refusals:
  "(cr_financial req \<and> truthy_key req = None \<longrightarrow>
      executeCommand sha256 auth handle req s = (Inl (CoreError IDEMPOTENCY_KEY_REQUIRED), s)) \<and>
   (\<forall>key row. truthy_key req = Some key \<and> findIdem (cr_name req) key s = Some row \<longrightarrow>
      (ik_hash row \<noteq> requestHash sha256 (cr_name req) (cr_actor req) (cr_payload req) \<longrightarrow>
         executeCommand sha256 auth handle req s = (Inl (CoreError IDEMPOTENCY_KEY_REUSED), s)) \<and>
      (ik_hash row = requestHash sha256 (cr_name req) (cr_actor req) (cr_payload req) \<and> ik_status row = PENDING \<longrightarrow>
         executeCommand sha256 auth handle req s = (Inl (CoreError IDEMPOTENCY_IN_PROGRESS), s))) \<and>
   (\<forall>e. fst (executeCommand sha256 auth handle req s) = Inl e \<longrightarrow> snd (executeCommand sha256 auth handle req s) = s)"
proof (intro conjI allI impI)
  show "executeCommand sha256 auth handle req s = (Inl (CoreError IDEMPOTENCY_KEY_REQUIRED), s)"
    if "cr_financial req \<and> truthy_key req = None"
    using that by (simp add: executeCommand_def)
  fix key row assume h: "truthy_key req = Some key \<and> findIdem (cr_name req) key s = Some row"
  then have find: "findIdem (cr_name req) key (s\<lparr>tx_rank := - 1\<rparr>) = Some row" by (simp add: findIdem_def)
  let ?h = "requestHash sha256 (cr_name req) (cr_actor req) (cr_payload req)"
  show "executeCommand sha256 auth handle req s = (Inl (CoreError IDEMPOTENCY_KEY_REUSED), s)" if "ik_hash row \<noteq> ?h"
    using h that find by (simp add: executeCommand_def Let_def withTransaction_def claimKey_def replay_def bindC_def)
  show "executeCommand sha256 auth handle req s = (Inl (CoreError IDEMPOTENCY_IN_PROGRESS), s)"
    if "ik_hash row = ?h \<and> ik_status row = PENDING"
    using h that find by (simp add: executeCommand_def Let_def withTransaction_def claimKey_def replay_def bindC_def)
next
  fix e assume "fst (executeCommand sha256 auth handle req s) = Inl e"
  then show "snd (executeCommand sha256 auth handle req s) = s"
    by (auto simp: executeCommand_def Let_def withTransaction_def split: sum.splits prod.splits if_splits)
qed

section \<open>Lemmas: the rate limiter\<close>

text \<open>The row that counts a subject's attempts in the window that contains \<open>now\<close>, and one more attempt.\<close>

definition rate_of :: "(string \<Rightarrow> string) \<Rightarrow> string \<Rightarrow> string \<Rightarrow> int \<Rightarrow> 'x pipeline_db_scheme \<Rightarrow> rate_row option" where
  "rate_of sha256 b x w s =
     List.find (\<lambda>r. rl_bucket r = b @ '':'' @ sha256 x \<and> rl_window r = window_start (clock s) w) (rate_limit_counter s)"

definition after_hits :: "(string \<Rightarrow> string) \<Rightarrow> string \<Rightarrow> string \<Rightarrow> int \<Rightarrow> int \<Rightarrow> nat \<Rightarrow> 'x pipeline_db_scheme \<Rightarrow> 'x pipeline_db_scheme" where
  "after_hits sha256 b x limit w n s = ((\<lambda>t. snd (hitRateLimit sha256 b x limit w t)) ^^ n) s"

lemma find_update_Some:
  assumes "List.find P rows = Some r" "\<And>x. P (f x) = P x"
  shows "List.find P (update_where P f rows) = Some (f r)"
  using assms by (induction rows) (auto split: if_splits)

lemma hit_clock [simp]: "clock (snd (hitRateLimit sha256 b x limit w s)) = clock s"
  by (simp add: hitRateLimit_def Let_def split: option.splits)

lemma hit_first:
  "rate_of sha256 b x w s = None \<Longrightarrow>
    \<exists>r. rate_of sha256 b x w (snd (hitRateLimit sha256 b x limit w s)) = Some r \<and> rl_hits r = 1"
  unfolding rate_of_def hit_clock by (simp add: hitRateLimit_def Let_def find_append_unique)

lemma hit_next:
  "rate_of sha256 b x w s = Some r \<Longrightarrow>
    \<exists>r'. rate_of sha256 b x w (snd (hitRateLimit sha256 b x limit w s)) = Some r' \<and> rl_hits r' = rl_hits r + 1"
  unfolding rate_of_def hit_clock by (simp add: hitRateLimit_def Let_def find_update_Some)

lemma hit_result:
  "fst (hitRateLimit sha256 b x limit w s) =
    (if (case rate_of sha256 b x w s of None \<Rightarrow> 0 | Some r \<Rightarrow> rl_hits r) < limit then Inr () else Inl (ReferenceError RATE_LIMITED))"
  by (auto simp: hitRateLimit_def Let_def rate_of_def split: option.splits)

lemma hits_counted:
  assumes "rate_of sha256 b x w s = None"
  shows "\<exists>r. rate_of sha256 b x w (after_hits sha256 b x limit w (Suc n) s) = Some r \<and> rl_hits r = int n + 1"
proof (induction n)
  case 0
  show ?case using hit_first[OF assms] by (simp add: after_hits_def)
next
  case (Suc n)
  then obtain r where "rate_of sha256 b x w (after_hits sha256 b x limit w (Suc n) s) = Some r" "rl_hits r = int n + 1" by auto
  with hit_next[OF this(1), of limit] show ?case by (auto simp: after_hits_def)
qed

text \<open>Within one window exactly the first \<open>limit\<close> attempts of a subject pass and every later one is refused, where the
  attempts that are refused are counted too: the limiter commits whether or not the attempt succeeds.\<close>

theorem rate_limit_window:
  assumes "rate_of sha256 b x w s = None"
  shows "fst (hitRateLimit sha256 b x limit w (after_hits sha256 b x limit w n s)) =
    (if int n < limit then Inr () else Inl (ReferenceError RATE_LIMITED))"
proof (cases n)
  case 0
  with assms show ?thesis by (simp add: hit_result after_hits_def)
next
  case (Suc m)
  from hits_counted[OF assms, of limit m] Suc show ?thesis by (auto simp: hit_result)
qed

definition sample_pipeline :: pipeline_db where
  "sample_pipeline = \<lparr>clock = 1000, uuidv7 = (\<lambda>n. ''id-'' @ digits_of (int n)), uuids = 0, tx_rank = - 1,
     audit_event = [], audit_seal = [], outbox_event = [], outbox_delivery = [],
     idempotency_key = [], rate_limit_counter = []\<rparr>"

theorem rate_limit_window_witness:
  "fst (hitRateLimit (\<lambda>t. t) ''b'' ''x'' 1 60 (after_hits (\<lambda>t. t) ''b'' ''x'' 1 60 1 sample_pipeline)) =
     Inl (ReferenceError RATE_LIMITED)"
proof -
  have "rate_of (\<lambda>t. t) ''b'' ''x'' 60 sample_pipeline = None" by (simp add: sample_pipeline_def rate_of_def)
  from rate_limit_window[OF this, of 1 1] show ?thesis by simp
qed

text \<open>A financial command sent without a key.\<close>

definition keyless :: command_request where
  "keyless = \<lparr>cr_name = ''settlement.confirm_payout'', cr_actor = ctx_actor sample_ctx, cr_payload = JObj [], cr_key = Some [],
     cr_correlation = ''c1'', cr_financial = True\<rparr>"

definition clock_reset :: "tx_ctx \<Rightarrow> js \<Rightarrow> (pipeline_db, js) cmd" where
  "clock_reset ctx p = bindC (writeC (\<lambda>s. s\<lparr>clock := 0\<rparr>)) (\<lambda>_. returnC JNull)"

theorem command_refusals_witness:
  "executeCommand (\<lambda>t. t) (\<lambda>c p. returnC ()) clock_reset keyless sample_pipeline = (Inl (CoreError IDEMPOTENCY_KEY_REQUIRED), sample_pipeline)"
  using command_refusals[of keyless "\<lambda>t. t" "\<lambda>c p. returnC ()" clock_reset sample_pipeline]
  by (simp add: keyless_def truthy_key_def)

end
