(* ===== verification/Outbox.thy ===== *)
theory Outbox
  imports Database
begin

text \<open>
  The transactional outbox (\<^verbatim>\<open>packages/outbox/src\<close>): events written in the command transaction and the dispatcher
  that claims a batch, runs every matching handler and records one delivery per (event, handler). The dispatcher's
  transaction is modelled with its stack of savepoints, because what a rollback undoes depends on the newest
  savepoint of that name. The handlers are parameters: what the \<open>n\<close>-th call of a handler does (return, or throw with
  a message) is a function of \<open>n\<close> and the event, so that it may differ from one call to the next.
\<close>

section \<open>Enqueueing\<close>

record outbox_input =
  oi_type :: string
  oi_aggregate_type :: "string option"
  oi_aggregate_id :: "string option"
  oi_payload :: js

text \<open>The dispatch job that the same transaction schedules belongs to the job queue and is not part of the state.\<close>

definition enqueueOutbox :: "tx_ctx \<Rightarrow> outbox_input \<Rightarrow> ('x core_db_scheme, string) cmd" where
  "enqueueOutbox ctx event =
     bindC freshId (\<lambda>i.
     bindC (writeC (\<lambda>s. s\<lparr>outbox_event := outbox_event s @
       [\<lparr>ob_id = i, ob_type = oi_type event, ob_aggregate_type = oi_aggregate_type event,
         ob_aggregate_id = oi_aggregate_id event, ob_payload = oi_payload event, ob_correlation = ctx_correlation ctx,
         ob_created = clock s, ob_attempts = 0, ob_dispatched_at = None, ob_failed_at = None, ob_last_error = None\<rparr>]\<rparr>)) (\<lambda>_.
     returnC i))"

section \<open>The dispatcher\<close>

record outbox_handler =
  h_name :: string
  h_handles :: "string \<Rightarrow> bool"
  h_run :: "nat \<Rightarrow> outbox_row \<Rightarrow> string option"

record dispatch_report =
  claimed :: nat
  delivered :: nat
  failed :: nat

text \<open>The dispatcher's transaction: its view of the database, its savepoints with the view each of them saved (newest
  first), the handler calls made so far, and the report.\<close>

record 'x dispatch =
  d_db :: 'x
  d_saves :: "(string \<times> 'x) list"
  d_calls :: "(string \<times> string) list"
  d_report :: dispatch_report

definition savepoint :: "string \<Rightarrow> 'x dispatch \<Rightarrow> 'x dispatch" where
  "savepoint n d = d\<lparr>d_saves := (n, d_db d) # d_saves d\<rparr>"

text \<open>\<^verbatim>\<open>RELEASE SAVEPOINT n\<close> forgets the newest \<open>n\<close> and everything after it, \<^verbatim>\<open>ROLLBACK TO SAVEPOINT n\<close> restores its view and
  keeps it; both fail when there is no \<open>n\<close>.\<close>

fun release_saves :: "string \<Rightarrow> (string \<times> 'x) list \<Rightarrow> (string \<times> 'x) list option" where
  "release_saves n [] = None"
| "release_saves n ((m, v) # saves) = (if m = n then Some saves else release_saves n saves)"

fun rollback_saves :: "string \<Rightarrow> (string \<times> 'x) list \<Rightarrow> ('x \<times> (string \<times> 'x) list) option" where
  "rollback_saves n [] = None"
| "rollback_saves n ((m, v) # saves) = (if m = n then Some (v, (m, v) # saves) else rollback_saves n saves)"

definition release :: "string \<Rightarrow> 'x dispatch \<Rightarrow> 'x dispatch option" where
  "release n d = map_option (\<lambda>saves. d\<lparr>d_saves := saves\<rparr>) (release_saves n (d_saves d))"

definition rollback_to :: "string \<Rightarrow> 'x dispatch \<Rightarrow> 'x dispatch option" where
  "rollback_to n d = map_option (\<lambda>(v, saves). d\<lparr>d_db := v, d_saves := saves\<rparr>) (rollback_saves n (d_saves d))"

definition is_delivered :: "string \<Rightarrow> string \<Rightarrow> 'x core_db_scheme \<Rightarrow> bool" where
  "is_delivered e h s = list_ex (\<lambda>r. dl_event r = e \<and> dl_handler r = h) (outbox_delivery s)"

definition record_delivery :: "string \<Rightarrow> string \<Rightarrow> 'x core_db_scheme \<Rightarrow> 'x core_db_scheme" where
  "record_delivery e h s = s\<lparr>outbox_delivery := outbox_delivery s @ [\<lparr>dl_event = e, dl_handler = h\<rparr>]\<rparr>"

definition mark_dispatched :: "outbox_row \<Rightarrow> 'x core_db_scheme \<Rightarrow> 'x core_db_scheme" where
  "mark_dispatched e s = s\<lparr>outbox_event := update_where (\<lambda>r. ob_id r = ob_id e)
     (\<lambda>r. r\<lparr>ob_dispatched_at := Some (clock s), ob_attempts := ob_attempts e + 1\<rparr>) (outbox_event s)\<rparr>"

definition mark_attempt :: "int \<Rightarrow> outbox_row \<Rightarrow> string \<Rightarrow> 'x core_db_scheme \<Rightarrow> 'x core_db_scheme" where
  "mark_attempt maxAttempts e err s = s\<lparr>outbox_event := update_where (\<lambda>r. ob_id r = ob_id e)
     (\<lambda>r. r\<lparr>ob_attempts := ob_attempts e + 1, ob_last_error := Some (take 2000 err),
            ob_failed_at := (if ob_attempts e + 1 \<ge> maxAttempts then Some (clock s) else ob_failed_at r)\<rparr>) (outbox_event s)\<rparr>"

text \<open>The loop over the matching handlers: the message of the error that ended it, if any.\<close>

definition NO_SAVEPOINT :: string where
  "NO_SAVEPOINT = ''savepoint does not exist''"

fun run_handlers :: "outbox_row \<Rightarrow> outbox_handler list \<Rightarrow> ('x core_db_scheme) dispatch \<Rightarrow> string option \<times> ('x core_db_scheme) dispatch" where
  "run_handlers e [] d = (None, d)"
| "run_handlers e (h # hs) d =
     (if is_delivered (ob_id e) (h_name h) (d_db d) then run_handlers e hs d
      else let d1 = savepoint ''outbox_handler'' d;
               d2 = d1\<lparr>d_calls := d_calls d1 @ [(ob_id e, h_name h)]\<rparr>
      in case h_run h (length (d_calls d1)) e of
           Some err \<Rightarrow> (Some err, d2)
         | None \<Rightarrow> (case release ''outbox_handler'' (d2\<lparr>d_db := record_delivery (ob_id e) (h_name h) (d_db d2)\<rparr>) of
             None \<Rightarrow> (Some NO_SAVEPOINT, d2)
           | Some d3 \<Rightarrow> run_handlers e hs d3))"

text \<open>One event: the body of the \<^verbatim>\<open>try\<close>, then the \<^verbatim>\<open>catch\<close>. The whole transaction fails when neither savepoint exists.\<close>

definition try_event :: "outbox_handler list \<Rightarrow> outbox_row \<Rightarrow> ('x core_db_scheme) dispatch \<Rightarrow> string option \<times> ('x core_db_scheme) dispatch" where
  "try_event handlers e d =
     (let matching = filter (\<lambda>h. h_handles h (ob_type e)) handlers
      in if matching = [] then (Some (''NO_HANDLER for event type '' @ ob_type e), d)
         else case run_handlers e matching d of
           (Some err, d') \<Rightarrow> (Some err, d')
         | (None, d') \<Rightarrow> (case release ''outbox_event'' (d'\<lparr>d_db := mark_dispatched e (d_db d')\<rparr>) of
             None \<Rightarrow> (Some NO_SAVEPOINT, d')
           | Some d'' \<Rightarrow> (None, d''\<lparr>d_report := d_report d''\<lparr>delivered := Suc (delivered (d_report d''))\<rparr>\<rparr>)))"

definition undo :: "('x core_db_scheme) dispatch \<Rightarrow> ('x core_db_scheme) dispatch option" where
  "undo d = (case rollback_to ''outbox_handler'' d of Some d' \<Rightarrow> Some d' | None \<Rightarrow> rollback_to ''outbox_event'' d)"

definition dispatch_event ::
    "int \<Rightarrow> outbox_handler list \<Rightarrow> outbox_row \<Rightarrow> ('x core_db_scheme) dispatch \<Rightarrow> ('x core_db_scheme) dispatch option" where
  "dispatch_event maxAttempts handlers e d =
     (case try_event handlers e (savepoint ''outbox_event'' d) of
        (None, d') \<Rightarrow> Some d'
      | (Some err, d') \<Rightarrow> (case undo d' of
          None \<Rightarrow> None
        | Some u \<Rightarrow> Some (u\<lparr>d_db := mark_attempt maxAttempts e err (d_db u),
                             d_report := d_report u\<lparr>failed := Suc (failed (d_report u))\<rparr>\<rparr>)))"

fun dispatch_events ::
    "int \<Rightarrow> outbox_handler list \<Rightarrow> outbox_row list \<Rightarrow> ('x core_db_scheme) dispatch \<Rightarrow> ('x core_db_scheme) dispatch option" where
  "dispatch_events maxAttempts handlers [] d = Some d"
| "dispatch_events maxAttempts handlers (e # es) d =
     (case dispatch_event maxAttempts handlers e d of
        None \<Rightarrow> None
      | Some d' \<Rightarrow> dispatch_events maxAttempts handlers es d')"

definition claim_events :: "nat \<Rightarrow> 'x core_db_scheme \<Rightarrow> outbox_row list" where
  "claim_events batchSize s =
     take batchSize (sort_key ob_created (filter (\<lambda>r. ob_dispatched_at r = None \<and> ob_failed_at r = None) (outbox_event s)))"

text \<open>\<^verbatim>\<open>dispatchOutbox\<close>, with the batch size and the attempts of its options: the committed transaction, or \<open>None\<close> when it
  fails as a whole.\<close>

definition dispatchOutbox :: "nat \<Rightarrow> int \<Rightarrow> outbox_handler list \<Rightarrow> 'x core_db_scheme \<Rightarrow> ('x core_db_scheme) dispatch option" where
  "dispatchOutbox batchSize maxAttempts handlers s =
     (let events = claim_events batchSize s
      in dispatch_events maxAttempts handlers events
           \<lparr>d_db = s, d_saves = [], d_calls = [], d_report = \<lparr>claimed = length events, delivered = 0, failed = 0\<rparr>\<rparr>)"

section \<open>What a batch promises\<close>

text \<open>
  The contract of the header comment, without savepoints: every event is handled on its own. The handlers run in order
  and each success is recorded; a failure keeps the deliveries recorded so far and counts one attempt.
\<close>

fun deliver_all :: "outbox_row \<Rightarrow> outbox_handler list \<Rightarrow> nat \<Rightarrow> 'x core_db_scheme \<Rightarrow> string option \<times> nat \<times> 'x core_db_scheme" where
  "deliver_all e [] n s = (None, n, s)"
| "deliver_all e (h # hs) n s =
     (if is_delivered (ob_id e) (h_name h) s then deliver_all e hs n s
      else case h_run h n e of
        Some err \<Rightarrow> (Some err, Suc n, s)
      | None \<Rightarrow> deliver_all e hs (Suc n) (record_delivery (ob_id e) (h_name h) s))"

definition deliver_event :: "int \<Rightarrow> outbox_handler list \<Rightarrow> outbox_row \<Rightarrow> nat \<times> 'x core_db_scheme \<Rightarrow> bool \<times> nat \<times> 'x core_db_scheme" where
  "deliver_event maxAttempts handlers e ns =
     (case deliver_all e (filter (\<lambda>h. h_handles h (ob_type e)) handlers) (fst ns) (snd ns) of
        (None, n, s) \<Rightarrow> (True, n, mark_dispatched e s)
      | (Some err, n, s) \<Rightarrow> (False, n, mark_attempt maxAttempts e err s))"

fun deliver_batch :: "int \<Rightarrow> outbox_handler list \<Rightarrow> outbox_row list \<Rightarrow> nat \<times> 'x core_db_scheme \<Rightarrow> bool list \<times> nat \<times> 'x core_db_scheme" where
  "deliver_batch maxAttempts handlers [] ns = ([], ns)"
| "deliver_batch maxAttempts handlers (e # es) ns =
     (let (ok, ns') = deliver_event maxAttempts handlers e ns;
          (oks, ns'') = deliver_batch maxAttempts handlers es ns'
      in (ok # oks, ns''))"

section \<open>Lemmas: the savepoints keep events apart\<close>

definition sim :: "('x core_db_scheme) dispatch \<Rightarrow> nat \<Rightarrow> 'x core_db_scheme \<Rightarrow> dispatch_report \<Rightarrow> bool" where
  "sim d n s rep \<longleftrightarrow> d_db d = s \<and> length (d_calls d) = n \<and> d_report d = rep"

lemmas savepoint_defs = savepoint_def release_def rollback_to_def sim_def

lemma run_handlers_sim:
  assumes "run_handlers e hs d = (r, d')" "sim d n s rep"
  shows "\<exists>n' s'. deliver_all e hs n s = (r, n', s') \<and> sim d' n' s' rep \<and>
    d_saves d' = (if r = None then [] else [(''outbox_handler'', s')]) @ d_saves d"
  using assms
proof (induction hs arbitrary: d n s)
  case (Cons h hs)
  consider (known) "is_delivered (ob_id e) (h_name h) s"
    | (fails) err where "\<not> is_delivered (ob_id e) (h_name h) s" "h_run h n e = Some err"
    | (works) "\<not> is_delivered (ob_id e) (h_name h) s" "h_run h n e = None" by fastforce
  then show ?case
  proof cases
    case known
    then show ?thesis using Cons by (auto simp: sim_def)
  next
    case fails
    then show ?thesis using Cons.prems by (auto simp: savepoint_defs)
  next
    case works
    let ?d = "d\<lparr>d_calls := d_calls d @ [(ob_id e, h_name h)], d_db := record_delivery (ob_id e) (h_name h) s\<rparr>"
    from works Cons.prems have "run_handlers e hs ?d = (r, d')" "sim ?d (Suc n) (record_delivery (ob_id e) (h_name h) s) rep"
      by (auto simp: savepoint_defs)
    from Cons.IH[OF this] works show ?thesis by auto
  qed
qed (simp add: sim_def)

lemma dispatch_event_sim:
  assumes "\<exists>h \<in> set handlers. h_handles h (ob_type e)" "sim d n s rep"
  shows "\<exists>d' ok n' s'. dispatch_event m handlers e d = Some d' \<and> deliver_event m handlers e (n, s) = (ok, n', s') \<and>
    sim d' n' s' (if ok then rep\<lparr>delivered := Suc (delivered rep)\<rparr> else rep\<lparr>failed := Suc (failed rep)\<rparr>)"
proof -
  let ?hs = "filter (\<lambda>h. h_handles h (ob_type e)) handlers" and ?d = "savepoint ''outbox_event'' d"
  obtain r d1 where run: "run_handlers e ?hs ?d = (r, d1)" by fastforce
  moreover have "sim ?d n s rep" using assms(2) by (simp add: savepoint_defs)
  ultimately obtain n' s' where spec: "deliver_all e ?hs n s = (r, n', s')" and sim: "sim d1 n' s' rep"
    and saves: "d_saves d1 = (if r = None then [] else [(''outbox_handler'', s')]) @ (''outbox_event'', s) # d_saves d"
    using run_handlers_sim assms(2) by (fastforce simp: savepoint_defs)
  moreover have "?hs \<noteq> []" using assms(1) by (simp add: filter_empty_conv)
  ultimately show ?thesis using run
    by (cases r) (auto simp: dispatch_event_def try_event_def deliver_event_def undo_def savepoint_defs Let_def)
qed

lemma dispatch_events_sim:
  assumes "\<forall>e \<in> set es. \<exists>h \<in> set handlers. h_handles h (ob_type e)" "sim d n s rep"
  shows "\<exists>d' oks n' s'. dispatch_events m handlers es d = Some d' \<and> deliver_batch m handlers es (n, s) = (oks, n', s') \<and>
    sim d' n' s' (rep\<lparr>delivered := delivered rep + count_list oks True, failed := failed rep + count_list oks False\<rparr>)"
  using assms
proof (induction es arbitrary: d n s rep)
  case (Cons e es)
  from Cons.prems dispatch_event_sim[of handlers e d n s rep m] obtain d1 ok n1 s1 where
    step: "dispatch_event m handlers e d = Some d1" "deliver_event m handlers e (n, s) = (ok, n1, s1)"
    and sim: "sim d1 n1 s1 (if ok then rep\<lparr>delivered := Suc (delivered rep)\<rparr> else rep\<lparr>failed := Suc (failed rep)\<rparr>)" by auto
  from Cons.IH[OF _ sim] Cons.prems(1) step show ?case by (auto split: if_splits)
qed (simp add: sim_def)

lemma dispatch_refines:
  assumes "\<forall>e \<in> set (claim_events b s). \<exists>h \<in> set handlers. h_handles h (ob_type e)"
  shows "\<exists>d oks n. dispatchOutbox b m handlers s = Some d \<and>
    deliver_batch m handlers (claim_events b s) (0, s) = (oks, n, d_db d) \<and> length (d_calls d) = n \<and>
    d_report d = \<lparr>claimed = length (claim_events b s), delivered = count_list oks True, failed = count_list oks False\<rparr>"
proof -
  let ?d = "\<lparr>d_db = s, d_saves = [], d_calls = [],
    d_report = \<lparr>claimed = length (claim_events b s), delivered = 0, failed = 0\<rparr>\<rparr>"
  have "sim ?d 0 s (d_report ?d)" by (simp add: sim_def)
  from dispatch_events_sim[OF assms this, of m] show ?thesis
    by (auto simp: dispatchOutbox_def sim_def)
qed

text \<open>C9: when every claimed event has a handler, the dispatcher commits and does what its contract says, event by
  event: the savepoints undo exactly the failing handler, every delivery recorded before it is kept, the event is
  marked dispatched when all its handlers succeeded and counts one more attempt otherwise, and the report counts
  the two outcomes.\<close>

theorem dispatch_handles_events_apart:
  assumes "\<forall>e \<in> set (claim_events b s). \<exists>h \<in> set handlers. h_handles h (ob_type e)"
  shows "\<exists>d oks n. dispatchOutbox b m handlers s = Some d \<and>
    deliver_batch m handlers (claim_events b s) (0, s) = (oks, n, d_db d) \<and> length (d_calls d) = n \<and>
    d_report d = \<lparr>claimed = length (claim_events b s), delivered = count_list oks True, failed = count_list oks False\<rparr>"
  using assms by (rule dispatch_refines)

definition sample_event :: "string \<Rightarrow> string \<Rightarrow> int \<Rightarrow> outbox_row" where
  "sample_event i ty at = \<lparr>ob_id = i, ob_type = ty, ob_aggregate_type = None, ob_aggregate_id = None, ob_payload = JNull,
     ob_correlation = ''corr'', ob_created = at, ob_attempts = 0, ob_dispatched_at = None, ob_failed_at = None,
     ob_last_error = None\<rparr>"

definition sample_handlers :: "outbox_handler list" where
  "sample_handlers = [\<lparr>h_name = ''mail'', h_handles = (\<lambda>t. t = ''mail''), h_run = (\<lambda>n e. Some ''timeout'')\<rparr>,
     \<lparr>h_name = ''push'', h_handles = (\<lambda>t. t = ''push''), h_run = (\<lambda>n e. None)\<rparr>]"

lemmas sample_outbox_defs = dispatchOutbox_def claim_events_def dispatch_event_def try_event_def undo_def savepoint_defs
  sample_event_def sample_handlers_def is_delivered_def record_delivery_def mark_dispatched_def mark_attempt_def

lemma sample_counts: "count_list [False, True] True = 1" "count_list [False, True] False = 1"
  by simp_all

theorem dispatch_handles_events_apart_witness:
  "\<exists>d. dispatchOutbox 50 10 sample_handlers
      (sample_core\<lparr>outbox_event := [sample_event ''e1'' ''mail'' 1, sample_event ''e2'' ''push'' 2]\<rparr>) = Some d \<and>
    delivered (d_report d) = 1 \<and> failed (d_report d) = 1"
proof -
  let ?s = "sample_core\<lparr>outbox_event := [sample_event ''e1'' ''mail'' 1, sample_event ''e2'' ''push'' 2]\<rparr>"
  have claim: "claim_events 50 ?s = [sample_event ''e1'' ''mail'' 1, sample_event ''e2'' ''push'' 2]"
    by (simp add: claim_events_def sample_event_def)
  then have "\<forall>e \<in> set (claim_events 50 ?s). \<exists>h \<in> set sample_handlers. h_handles h (ob_type e)"
    by (simp add: sample_event_def sample_handlers_def)
  note run = dispatch_handles_events_apart[OF this, of 10, unfolded claim]
  have "fst (deliver_batch 10 sample_handlers [sample_event ''e1'' ''mail'' 1, sample_event ''e2'' ''push'' 2] (0, ?s)) = [False, True]"
    by (simp add: deliver_event_def sample_outbox_defs sample_core_def)
  with run show ?thesis by (metis (no_types, lifting) dispatch_report.select_convs(2,3) fst_conv sample_counts)
qed

definition undone_batch :: core_db where
  "undone_batch = sample_core\<lparr>outbox_event :=
     [sample_event ''e1'' ''mail'' 1, sample_event ''e2'' ''push'' 2, sample_event ''e3'' ''lost'' 3]\<rparr>"


section \<open>Lemmas: deliveries are never lost from before the batch\<close>

text \<open>What every view of the running transaction and every savepoint still contains, and the calls so far.\<close>

definition has_deliveries :: "delivery_row list \<Rightarrow> 'x core_db_scheme \<Rightarrow> bool" where
  "has_deliveries old v \<longleftrightarrow> set old \<subseteq> set (outbox_delivery v)"

definition keeps_deliveries :: "delivery_row list \<Rightarrow> ('x core_db_scheme) dispatch \<Rightarrow> bool" where
  "keeps_deliveries old d \<longleftrightarrow> has_deliveries old (d_db d) \<and> (\<forall>p \<in> set (d_saves d). has_deliveries old (snd p)) \<and>
     (\<forall>r \<in> set old. (dl_event r, dl_handler r) \<notin> set (d_calls d))"

lemma keeps_fewer_saves:
  assumes "keeps_deliveries old d" "set (d_saves d') \<subseteq> set (d_saves d)" "has_deliveries old (d_db d')" "d_calls d' = d_calls d"
  shows "keeps_deliveries old d'"
  using assms unfolding keeps_deliveries_def by (simp add: subset_eq)

lemma release_saves_subset: "release_saves n saves = Some rest \<Longrightarrow> set rest \<subseteq> set saves"
  by (induction saves) (auto split: if_splits)

lemma rollback_saves_subset: "rollback_saves n saves = Some (v, rest) \<Longrightarrow> set rest \<subseteq> set saves \<and> (n, v) \<in> set saves"
  by (induction saves) (auto split: if_splits)

lemma keeps_savepoint: "keeps_deliveries old d \<Longrightarrow> keeps_deliveries old (savepoint n d)"
  by (simp add: keeps_deliveries_def savepoint_def)

lemma keeps_release:
  assumes "keeps_deliveries old d" "release n d = Some d'"
  shows "keeps_deliveries old d'"
proof -
  from assms(2) obtain rest where "release_saves n (d_saves d) = Some rest" "d' = d\<lparr>d_saves := rest\<rparr>"
    by (auto simp: release_def)
  with assms(1) show ?thesis
    by (intro keeps_fewer_saves[OF assms(1)]) (simp_all add: release_saves_subset keeps_deliveries_def)
qed

lemma keeps_rollback:
  assumes "keeps_deliveries old d" "rollback_to n d = Some d'"
  shows "keeps_deliveries old d'"
proof -
  from assms(2) obtain v rest where r: "rollback_saves n (d_saves d) = Some (v, rest)" "d' = d\<lparr>d_db := v, d_saves := rest\<rparr>"
    by (auto simp: rollback_to_def)
  from rollback_saves_subset[OF r(1)] have sub: "set rest \<subseteq> set (d_saves d)" "(n, v) \<in> set (d_saves d)" by simp_all
  with assms(1) have "has_deliveries old v" by (force simp: keeps_deliveries_def)
  with sub r(2) show ?thesis by (intro keeps_fewer_saves[OF assms(1)]) simp_all
qed

lemma keeps_undo: "keeps_deliveries old d \<Longrightarrow> undo d = Some d' \<Longrightarrow> keeps_deliveries old d'"
  by (auto simp: undo_def keeps_rollback split: option.splits)

lemma keeps_marks:
  assumes "keeps_deliveries old d"
  shows "keeps_deliveries old (d\<lparr>d_db := mark_dispatched e (d_db d)\<rparr>)"
    "keeps_deliveries old (d\<lparr>d_db := mark_attempt m e err (d_db d), d_report := rep\<rparr>)"
    "keeps_deliveries old (d\<lparr>d_db := record_delivery i h (d_db d)\<rparr>)"
    "keeps_deliveries old (d\<lparr>d_report := rep\<rparr>)"
  using assms by (auto simp: keeps_deliveries_def has_deliveries_def mark_dispatched_def mark_attempt_def record_delivery_def)

lemma keeps_call:
  "keeps_deliveries old d \<Longrightarrow> \<not> is_delivered e h (d_db d) \<Longrightarrow> keeps_deliveries old (d\<lparr>d_calls := d_calls d @ [(e, h)]\<rparr>)"
  by (auto simp: keeps_deliveries_def has_deliveries_def is_delivered_def list_ex_iff)

lemma keeps_run_handlers: "keeps_deliveries old d \<Longrightarrow> keeps_deliveries old (snd (run_handlers e hs d))"
proof (induction hs arbitrary: d)
  case (Cons h hs)
  show ?case
  proof (cases "is_delivered (ob_id e) (h_name h) (d_db d)")
    case False
    let ?d2 = "(savepoint ''outbox_handler'' d)\<lparr>d_calls := d_calls (savepoint ''outbox_handler'' d) @ [(ob_id e, h_name h)]\<rparr>"
    have "\<not> is_delivered (ob_id e) (h_name h) (d_db (savepoint ''outbox_handler'' d))" using False by (simp add: savepoint_def)
    then have two: "keeps_deliveries old ?d2" using Cons.prems by (intro keeps_call keeps_savepoint)
    then have "keeps_deliveries old (?d2\<lparr>d_db := record_delivery (ob_id e) (h_name h) (d_db ?d2)\<rparr>)" by (rule keeps_marks)
    with two False show ?thesis by (auto simp: Let_def Cons.IH keeps_release split: option.splits)
  qed (use Cons in simp)
qed simp

lemma keeps_try_event:
  assumes d: "keeps_deliveries old d"
  shows "keeps_deliveries old (snd (try_event handlers e d))"
proof -
  obtain r d1 where run: "run_handlers e (filter (\<lambda>h. h_handles h (ob_type e)) handlers) d = (r, d1)" by fastforce
  with keeps_run_handlers[OF d] have one: "keeps_deliveries old d1" by (metis snd_conv)
  then have "keeps_deliveries old (d1\<lparr>d_db := mark_dispatched e (d_db d1)\<rparr>)" by (rule keeps_marks)
  with d run one show ?thesis
    by (auto simp: try_event_def Let_def split: option.splits intro!: keeps_marks(4) dest: keeps_release)
qed

lemma keeps_dispatch_event:
  assumes d: "keeps_deliveries old d" and step: "dispatch_event m handlers e d = Some d'"
  shows "keeps_deliveries old d'"
proof -
  obtain r d1 where t: "try_event handlers e (savepoint ''outbox_event'' d) = (r, d1)" by fastforce
  with keeps_try_event[OF keeps_savepoint[OF d]] have "keeps_deliveries old d1" by (metis snd_conv)
  with t step show ?thesis
    by (auto simp: dispatch_event_def keeps_marks keeps_undo split: option.splits)
qed

lemma keeps_dispatch_events: "keeps_deliveries old d \<Longrightarrow> dispatch_events m handlers es d = Some d' \<Longrightarrow> keeps_deliveries old d'"
  by (induction es arbitrary: d) (auto split: option.splits dest: keeps_dispatch_event)

text \<open>Whatever the batch, the handlers and their failures, a delivery recorded before the dispatch started is
  still recorded when it commits, and its handler is not called for that event again: re-dispatching after a crash
  repeats nothing that was recorded (also when rollbacks hit the wrong savepoint).\<close>

theorem recorded_delivery_never_repeated:
  assumes "dispatchOutbox b m handlers s = Some d" and "r \<in> set (outbox_delivery s)"
  shows "r \<in> set (outbox_delivery (d_db d)) \<and> (dl_event r, dl_handler r) \<notin> set (d_calls d)"
proof -
  have "keeps_deliveries (outbox_delivery s) d"
    using assms(1) unfolding dispatchOutbox_def Let_def
    by (rule keeps_dispatch_events[rotated]) (simp add: keeps_deliveries_def has_deliveries_def)
  with assms(2) show ?thesis by (auto simp: keeps_deliveries_def has_deliveries_def)
qed

theorem recorded_delivery_never_repeated_witness:
  "\<exists>d. dispatchOutbox 50 10 sample_handlers (undone_batch\<lparr>outbox_delivery := [\<lparr>dl_event = ''e2'', dl_handler = ''push''\<rparr>]\<rparr>) = Some d \<and>
    (''e2'', ''push'') \<notin> set (d_calls d)"
proof -
  let ?s = "undone_batch\<lparr>outbox_delivery := [\<lparr>dl_event = ''e2'', dl_handler = ''push''\<rparr>]\<rparr>"
  have "\<exists>d. dispatchOutbox 50 10 sample_handlers ?s = Some d"
    by (simp add: undone_batch_def sample_outbox_defs sample_core_def Let_def)
  then obtain d where d: "dispatchOutbox 50 10 sample_handlers ?s = Some d" ..
  from recorded_delivery_never_repeated[OF this, of "\<lparr>dl_event = ''e2'', dl_handler = ''push''\<rparr>"] d show ?thesis by simp
qed

section \<open>The queue drains\<close>

text \<open>
  The worker dispatches again and again; \<open>hs k\<close> are the handlers as they behave in the \<open>k\<close>-th dispatch. An event is waiting until it was
  dispatched or given up. Each dispatch delivers a waiting event it claims or counts one more attempt, so an event with \<open>a\<close>
  attempts waits at most \<open>max 1 (m - a)\<close> of the dispatches that claim it.
\<close>

definition waiting :: "outbox_row \<Rightarrow> bool" where
  "waiting r \<longleftrightarrow> ob_dispatched_at r = None \<and> ob_failed_at r = None"

definition tries_left :: "int \<Rightarrow> outbox_row \<Rightarrow> nat" where
  "tries_left m r = (if waiting r then nat (max 1 (m - ob_attempts r)) else 0)"

definition tries_total :: "int \<Rightarrow> 'x core_db_scheme \<Rightarrow> nat" where
  "tries_total m s = sum_list (map (tries_left m) (outbox_event s))"

fun drain :: "nat \<Rightarrow> int \<Rightarrow> (nat \<Rightarrow> outbox_handler list) \<Rightarrow> nat \<Rightarrow> 'x core_db_scheme \<Rightarrow> 'x core_db_scheme option" where
  "drain b m hs 0 s = Some s"
| "drain b m hs (Suc n) s = (case drain b m hs n s of None \<Rightarrow> None | Some t \<Rightarrow> map_option d_db (dispatchOutbox b m (hs n) t))"

text \<open>Delivering one event changes that event's row, and it has fewer tries left.\<close>

definition one_try :: "int \<Rightarrow> outbox_row \<Rightarrow> outbox_row \<Rightarrow> bool" where
  "one_try m x y \<longleftrightarrow> ob_id y = ob_id x \<and> ob_type y = ob_type x \<and> tries_left m y < tries_left m x"

lemma deliver_all_events: "deliver_all e hs n s = (r, n', t) \<Longrightarrow> outbox_event t = outbox_event s \<and> clock t = clock s"
  by (induction hs arbitrary: n s) (auto simp: record_delivery_def split: if_splits option.splits)

lemma deliver_event_rows:
  assumes "deliver_event m hs e (n, s) = (ok, n', t)"
  shows "\<exists>f. outbox_event t = update_where (\<lambda>r. ob_id r = ob_id e) f (outbox_event s) \<and> (waiting e \<longrightarrow> one_try m e (f e)) \<and>
    (\<forall>r. ob_id (f r) = ob_id r \<and> ob_type (f r) = ob_type r)"
proof -
  obtain r n1 u where all: "deliver_all e (filter (\<lambda>h. h_handles h (ob_type e)) hs) n s = (r, n1, u)" by (metis prod_cases3)
  have same: "outbox_event u = outbox_event s" using deliver_all_events[OF all] by simp
  show ?thesis
  proof (cases r)
    case None
    then have "t = mark_dispatched e u" using assms all by (simp add: deliver_event_def)
    then show ?thesis unfolding mark_dispatched_def
      by (intro exI[of _ "\<lambda>r. r\<lparr>ob_dispatched_at := Some (clock u), ob_attempts := ob_attempts e + 1\<rparr>"]) (simp add: same one_try_def tries_left_def waiting_def less_max_iff_disj)
  next
    case (Some err)
    then have "t = mark_attempt m e err u" using assms all by (simp add: deliver_event_def)
    then show ?thesis unfolding mark_attempt_def
      by (intro exI[of _ "\<lambda>r. r\<lparr>ob_attempts := ob_attempts e + 1, ob_last_error := Some (take 2000 err),
            ob_failed_at := (if ob_attempts e + 1 \<ge> m then Some (clock u) else ob_failed_at r)\<rparr>"]) (auto simp: same one_try_def tries_left_def waiting_def)
  qed
qed

text \<open>A batch of different events: each of its rows had one try, the others are as before.\<close>

definition batch_rows :: "int \<Rightarrow> string set \<Rightarrow> outbox_row list \<Rightarrow> outbox_row list \<Rightarrow> bool" where
  "batch_rows m ids xs ys \<longleftrightarrow> list_all2 (\<lambda>x y. if ob_id x \<in> ids then one_try m x y else y = x) xs ys"

lemma batch_ids: "batch_rows m ids xs ys \<Longrightarrow> map ob_id ys = map ob_id xs \<and> map ob_type ys = map ob_type xs"
  unfolding batch_rows_def by (induction rule: list_all2_induct) (auto simp: one_try_def split: if_splits)

lemma batch_rows_insert:
  assumes "batch_rows m ids ys zs" "ob_id e \<notin> ids" "list_all2 (\<lambda>x y. y = (if ob_id x = ob_id e then f x else x)) xs ys"
    "\<And>x. x \<in> set xs \<Longrightarrow> ob_id x = ob_id e \<Longrightarrow> x = e" "one_try m e (f e)"
  shows "batch_rows m (insert (ob_id e) ids) xs zs"
  using assms(3,1,4) unfolding batch_rows_def
proof (induction arbitrary: zs rule: list_all2_induct)
  case (Cons x xs y ys)
  from Cons.prems(1) obtain z zs' where z: "zs = z # zs'" "if ob_id y \<in> ids then one_try m y z else z = y"
    "list_all2 (\<lambda>x y. if ob_id x \<in> ids then one_try m x y else y = x) ys zs'" by (auto simp: list_all2_Cons1)
  have "if ob_id x \<in> insert (ob_id e) ids then one_try m x z else z = x"
  proof (cases "ob_id x = ob_id e")
    case True
    then have "x = e" using Cons.prems(2) by simp
    moreover have "ob_id (f e) = ob_id e" using assms(5) by (simp add: one_try_def)
    ultimately show ?thesis using Cons.hyps(1) z(2) assms(2,5) by simp
  qed (use Cons.hyps(1) z(2) in auto)
  then show ?case using Cons.IH[OF z(3)] Cons.prems(2) z(1) by simp
qed simp

lemma deliver_batch_rows:
  assumes "deliver_batch m hs es (n, s) = (oks, n', t)" "distinct (map ob_id es)" "set es \<subseteq> set (outbox_event s)" "\<forall>e \<in> set es. waiting e"
    "distinct (map ob_id (outbox_event s))"
  shows "batch_rows m (ob_id ` set es) (outbox_event s) (outbox_event t)"
  using assms
proof (induction es arbitrary: n s oks)
  case Nil
  then show ?case by (simp add: batch_rows_def list_all2_refl)
next
  case (Cons e es)
  obtain ok n1 u oks' where one: "deliver_event m hs e (n, s) = (ok, n1, u)" and rest: "deliver_batch m hs es (n1, u) = (oks', n', t)"
    using Cons.prems(1) by (auto split: prod.splits)
  from deliver_event_rows[OF one] obtain f where f: "outbox_event u = update_where (\<lambda>r. ob_id r = ob_id e) f (outbox_event s)"
    "one_try m e (f e)" "\<And>r. ob_id (f r) = ob_id r" using Cons.prems(4) by auto
  have only: "x = e" if "x \<in> set (outbox_event s)" "ob_id x = ob_id e" for x
    using Cons.prems(3,5) that unfolding distinct_map by (metis inj_onD list.set_intros(1) subsetD)
  have ids: "map ob_id (outbox_event u) = map ob_id (outbox_event s)" using f(3) by (simp add: f(1))
  have "x \<in> set (outbox_event u)" if "x \<in> set es" for x
  proof -
    have "ob_id x \<noteq> ob_id e" using Cons.prems(2) that by (metis distinct.simps(2) image_eqI list.set_map list.simps(9))
    then show ?thesis using Cons.prems(3) that by (force simp: f(1) set_update_where)
  qed
  then have "batch_rows m (ob_id ` set es) (outbox_event u) (outbox_event t)"
    using Cons.IH[OF rest] Cons.prems ids by auto
  moreover have "ob_id e \<notin> ob_id ` set es" using Cons.prems(2) by auto
  moreover have "list_all2 (\<lambda>x y. y = (if ob_id x = ob_id e then f x else x)) (outbox_event s) (outbox_event u)"
    by (simp add: f(1) update_where_def list_all2_conv_all_nth)
  ultimately have "batch_rows m (insert (ob_id e) (ob_id ` set es)) (outbox_event s) (outbox_event t)"
    using only f(2) by (rule batch_rows_insert)
  then show ?case by simp
qed

lemma claim_rows:
  assumes "distinct (map ob_id (outbox_event s))"
  shows "distinct (map ob_id (claim_events b s))" "set (claim_events b s) \<subseteq> set (outbox_event s)" "\<forall>e \<in> set (claim_events b s). waiting e"
    "claim_events b s = [] \<longleftrightarrow> b = 0 \<or> (\<forall>r \<in> set (outbox_event s). \<not> waiting r)"
proof -
  have claim: "claim_events b s = take b (sort_key ob_created (filter waiting (outbox_event s)))"
    by (simp only: claim_events_def waiting_def[abs_def])
  have "distinct (map ob_id (filter waiting (outbox_event s)))" using assms by (rule distinct_map_filter)
  then have "distinct (map ob_id (sort_key ob_created (filter waiting (outbox_event s))))" by (simp add: distinct_map)
  then show "distinct (map ob_id (claim_events b s))" unfolding claim take_map[symmetric] by (rule distinct_take)
  have "set (claim_events b s) \<subseteq> set (filter waiting (outbox_event s))" unfolding claim by (metis set_sort set_take_subset)
  then show "set (claim_events b s) \<subseteq> set (outbox_event s)" "\<forall>e \<in> set (claim_events b s). waiting e" by auto
  have "sort_key ob_created xs = [] \<longleftrightarrow> xs = []" for xs :: "outbox_row list" by (metis length_0_conv length_sort)
  then show "claim_events b s = [] \<longleftrightarrow> b = 0 \<or> (\<forall>r \<in> set (outbox_event s). \<not> waiting r)"
    by (simp add: claim filter_empty_conv)
qed

text \<open>Every dispatch commits, and while an event waits, one with a batch to fill leaves fewer tries.\<close>

definition served :: "outbox_handler list \<Rightarrow> 'x core_db_scheme \<Rightarrow> bool" where
  "served hs s \<longleftrightarrow> list_all (\<lambda>r. list_ex (\<lambda>h. h_handles h (ob_type r)) hs) (outbox_event s)"

lemma tries_sum:
  assumes "batch_rows m ids xs ys"
  shows "sum_list (map (tries_left m) ys) + length (filter (\<lambda>x. ob_id x \<in> ids) xs) \<le> sum_list (map (tries_left m) xs)"
  using assms unfolding batch_rows_def by (induction rule: list_all2_induct) (auto simp: one_try_def)

lemma dispatch_rows:
  assumes "distinct (map ob_id (outbox_event s))" "served hs s"
  shows "\<exists>d. dispatchOutbox b m hs s = Some d \<and> batch_rows m (ob_id ` set (claim_events b s)) (outbox_event s) (outbox_event (d_db d))"
proof -
  have "\<forall>e \<in> set (claim_events b s). \<exists>h \<in> set hs. h_handles h (ob_type e)"
    using assms(2) claim_rows(2)[OF assms(1), of b] by (auto simp: served_def list_all_iff list_ex_iff)
  from dispatch_refines[OF this] obtain d oks n where d: "dispatchOutbox b m hs s = Some d"
    "deliver_batch m hs (claim_events b s) (0, s) = (oks, n, d_db d)" by blast
  from deliver_batch_rows[OF d(2) claim_rows(1-3)[OF assms(1)] assms(1)] d(1) show ?thesis by blast
qed

lemma served_batch: "batch_rows m ids (outbox_event s) (outbox_event t) \<Longrightarrow> served hs t \<longleftrightarrow> served hs s"
proof -
  assume "batch_rows m ids (outbox_event s) (outbox_event t)"
  then have "map ob_type (outbox_event t) = map ob_type (outbox_event s)" using batch_ids by blast
  then have "list_all P (map ob_type (outbox_event t)) \<longleftrightarrow> list_all P (map ob_type (outbox_event s))" for P by simp
  then show ?thesis by (simp add: served_def list.pred_map comp_def)
qed

lemma dispatch_progress:
  assumes "distinct (map ob_id (outbox_event s))" "served hs s" "0 < b"
  shows "\<exists>d. dispatchOutbox b m hs s = Some d \<and> map ob_id (outbox_event (d_db d)) = map ob_id (outbox_event s) \<and> (\<forall>hs. served hs (d_db d) \<longleftrightarrow> served hs s) \<and>
    (tries_total m (d_db d) < tries_total m s \<or> (\<forall>r \<in> set (outbox_event s). \<not> waiting r) \<and> outbox_event (d_db d) = outbox_event s)"
proof -
  from dispatch_rows[OF assms(1,2)] obtain d where d: "dispatchOutbox b m hs s = Some d"
    and rows: "batch_rows m (ob_id ` set (claim_events b s)) (outbox_event s) (outbox_event (d_db d))" by blast
  have "tries_total m (d_db d) < tries_total m s" if some: "claim_events b s \<noteq> []"
  proof -
    obtain e where e: "e \<in> set (claim_events b s)" using some by (cases "claim_events b s") auto
    then have "filter (\<lambda>x. ob_id x \<in> ob_id ` set (claim_events b s)) (outbox_event s) \<noteq> []"
      using claim_rows(2)[OF assms(1), of b] unfolding filter_empty_conv by blast
    then have "0 < length (filter (\<lambda>x. ob_id x \<in> ob_id ` set (claim_events b s)) (outbox_event s))" by blast
    with tries_sum[OF rows] show ?thesis unfolding tries_total_def by linarith
  qed
  moreover have "(\<forall>r \<in> set (outbox_event s). \<not> waiting r) \<and> outbox_event (d_db d) = outbox_event s" if "claim_events b s = []"
  proof -
    have "list_all2 (\<lambda>x y. y = x) (outbox_event s) (outbox_event (d_db d))" using rows that by (simp add: batch_rows_def)
    then have "outbox_event (d_db d) = outbox_event s" by (simp add: list_all2_conv_all_nth nth_equalityI)
    then show ?thesis using claim_rows(4)[OF assms(1), of b] assms(3) that by simp
  qed
  ultimately show ?thesis using d batch_ids[OF rows] served_batch[OF rows] by blast
qed

lemma tries_none: "\<forall>r \<in> set (outbox_event s). \<not> waiting r \<Longrightarrow> tries_total m s = 0"
  by (simp add: tries_total_def tries_left_def)

lemma drain_counts:
  assumes "distinct (map ob_id (outbox_event s))" "\<And>k. served (hs k) s" "0 < b"
  shows "\<exists>t. drain b m hs n s = Some t \<and> map ob_id (outbox_event t) = map ob_id (outbox_event s) \<and> (\<forall>k. served (hs k) t) \<and>
    (tries_total m t + n \<le> tries_total m s \<or> (\<forall>r \<in> set (outbox_event t). \<not> waiting r))"
proof (induction n)
  case (Suc n)
  then obtain t where t: "drain b m hs n s = Some t" "map ob_id (outbox_event t) = map ob_id (outbox_event s)" "\<forall>k. served (hs k) t"
    "tries_total m t + n \<le> tries_total m s \<or> (\<forall>r \<in> set (outbox_event t). \<not> waiting r)" by blast
  have "distinct (map ob_id (outbox_event t))" using assms(1) t(2) by simp
  from dispatch_progress[OF this t(3)[rule_format, of n] assms(3), of m] obtain d where d: "dispatchOutbox b m (hs n) t = Some d"
    "map ob_id (outbox_event (d_db d)) = map ob_id (outbox_event t)" "\<forall>hs. served hs (d_db d) \<longleftrightarrow> served hs t"
    "tries_total m (d_db d) < tries_total m t \<or> (\<forall>r \<in> set (outbox_event t). \<not> waiting r) \<and> outbox_event (d_db d) = outbox_event t" by blast
  have "tries_total m (d_db d) + Suc n \<le> tries_total m s \<or> (\<forall>r \<in> set (outbox_event (d_db d)). \<not> waiting r)"
    using d(4) t(4) tries_none[of t m] by auto
  then show ?case using t(1-3) d(1-3) by simp
qed (use assms in simp)

lemma drained_stays:
  assumes "distinct (map ob_id (outbox_event s))" "served hs s" "0 < b" "\<forall>r \<in> set (outbox_event s). \<not> waiting r"
  shows "\<exists>d. dispatchOutbox b m hs s = Some d \<and> outbox_event (d_db d) = outbox_event s"
  using dispatch_progress[OF assms(1-3), of m] tries_none[of s m] assms(4) by auto

lemma drained: "tries_total m s = 0 \<Longrightarrow> \<forall>r \<in> set (outbox_event s). \<not> waiting r"
proof
  fix r assume sum: "tries_total m s = 0" and r: "r \<in> set (outbox_event s)"
  have "tries_left m r \<le> tries_total m s" unfolding tries_total_def using r by (simp add: member_le_sum_list)
  with sum show "\<not> waiting r" by (auto simp: tries_left_def less_max_iff_disj)
qed

text \<open>C21: the queue drains. When every event has a handler, then after as many dispatches as there are tries left no event waits: each is
  delivered or given up, whatever the handlers do in each of the dispatches, and no event was lost or added.\<close>

theorem outbox_drains:
  assumes "distinct (map ob_id (outbox_event s))" and "\<And>k. served (hs k) s" and "0 < b"
  shows "\<exists>t. drain b m hs (tries_total m s) s = Some t \<and> list_all (\<lambda>r. \<not> waiting r) (outbox_event t) \<and>
    map ob_id (outbox_event t) = map ob_id (outbox_event s)"
  using drain_counts[where hs = hs and m = m and n = "tries_total m s", OF assms] drained[of m] by (auto simp: list_all_iff)

theorem outbox_drains_witness:
  "tries_total 3 (sample_core\<lparr>outbox_event := [sample_event ''e1'' ''mail'' 1, sample_event ''e2'' ''push'' 2]\<rparr>) = 6 \<and>
   (\<exists>t. drain 1 3 (\<lambda>k. sample_handlers) 6 (sample_core\<lparr>outbox_event := [sample_event ''e1'' ''mail'' 1, sample_event ''e2'' ''push'' 2]\<rparr>) = Some t \<and>
     list_all (\<lambda>r. \<not> waiting r) (outbox_event t) \<and> map ob_id (outbox_event t) = [''e1'', ''e2''])"
proof -
  let ?s = "sample_core\<lparr>outbox_event := [sample_event ''e1'' ''mail'' 1, sample_event ''e2'' ''push'' 2]\<rparr>"
  have "distinct (map ob_id (outbox_event ?s))" "served sample_handlers ?s" "tries_total 3 ?s = 6" "map ob_id (outbox_event ?s) = [''e1'', ''e2'']"
    by (simp_all add: sample_event_def served_def sample_handlers_def tries_total_def tries_left_def waiting_def)
  with outbox_drains[of ?s "\<lambda>k. sample_handlers" 1 3] show ?thesis by simp
qed

end
