(* ===== verification/Ids.thy ===== *)
theory Ids
  imports Database
begin

text \<open>
  Identifiers and the payload guards of command inputs (\<^verbatim>\<open>packages/kernel/src/ids.ts\<close>, \<^verbatim>\<open>validation.ts\<close>,
  \<^verbatim>\<open>desk-handle.ts\<close>). A regular expression is a test on the string; strings are byte strings, so of the white
  space JavaScript knows the ASCII characters are modelled.
\<close>

section \<open>Character classes and regular expressions\<close>

definition code_of :: "char \<Rightarrow> nat" where "code_of c = of_char c"

definition isSpace :: "char \<Rightarrow> bool" where
  "isSpace c \<longleftrightarrow> code_of c = 32 \<or> 9 \<le> code_of c \<and> code_of c \<le> 13"

definition isUpper :: "char \<Rightarrow> bool" where "isUpper c \<longleftrightarrow> 65 \<le> code_of c \<and> code_of c \<le> 90"
definition isLower :: "char \<Rightarrow> bool" where "isLower c \<longleftrightarrow> 97 \<le> code_of c \<and> code_of c \<le> 122"
definition isHex :: "char \<Rightarrow> bool" where "isHex c \<longleftrightarrow> isDigit c \<or> 97 \<le> code_of c \<and> code_of c \<le> 102"
definition isUpperDigit :: "char \<Rightarrow> bool" where "isUpperDigit c \<longleftrightarrow> isUpper c \<or> isDigit c"
definition isLowerDigit :: "char \<Rightarrow> bool" where "isLowerDigit c \<longleftrightarrow> isLower c \<or> isDigit c"

text \<open>A regular expression of fixed length: one character class per position.\<close>

definition matches :: "(char \<Rightarrow> bool) list \<Rightarrow> string \<Rightarrow> bool" where
  "matches ps s \<longleftrightarrow> list_all2 (\<lambda>p c. p c) ps s"

definition trim :: "string \<Rightarrow> string" where
  "trim s = rev (dropWhile isSpace (rev (dropWhile isSpace s)))"

section \<open>Identifiers\<close>

definition isDash :: "char \<Rightarrow> bool" where "isDash c \<longleftrightarrow> c = CHR ''-''"

definition UUID_RE :: "(char \<Rightarrow> bool) list" where
  "UUID_RE = replicate 8 isHex @ [isDash] @ replicate 4 isHex @ [isDash] @
     (\<lambda>c. 49 \<le> code_of c \<and> code_of c \<le> 56) # replicate 3 isHex @ [isDash] @
     (\<lambda>c. c \<in> set ''89ab'') # replicate 3 isHex @ [isDash] @ replicate 12 isHex"

definition isUuid :: "string \<Rightarrow> bool" where
  "isUuid s \<longleftrightarrow> matches UUID_RE s"

definition asId :: "string \<Rightarrow> string result" where
  "asId value = (if isUuid value then Inr value else Inl TypeError)"

section \<open>Payload guards\<close>

definition requireText :: "js \<Rightarrow> nat \<Rightarrow> string result" where
  "requireText value limit = (case value of
     JStr t \<Rightarrow> (let v = trim t in if length v < 1 \<or> length v > limit then Inl (CoreError INVALID_ARGUMENT) else Inr v)
   | _ \<Rightarrow> Inl (CoreError INVALID_ARGUMENT))"

definition optionalText :: "js \<Rightarrow> nat \<Rightarrow> string option result" where
  "optionalText value limit =
     (if value = JUndefined \<or> value = JNull then Inr None
      else if is_JStr value \<and> trim (js_String value) = [] then Inr None
      else bindR (requireText value limit) (\<lambda>v. Inr (Some v)))"

definition requireOneOf :: "js \<Rightarrow> string list \<Rightarrow> string result" where
  "requireOneOf value allowed =
     (case value of JStr t \<Rightarrow> if t \<in> set allowed then Inr t else Inl (CoreError INVALID_ARGUMENT)
      | _ \<Rightarrow> Inl (CoreError INVALID_ARGUMENT))"

definition requireUuid :: "js \<Rightarrow> string result" where
  "requireUuid value =
     (case value of JStr t \<Rightarrow> if matches UUID_RE t then Inr t else Inl (CoreError INVALID_ARGUMENT)
      | _ \<Rightarrow> Inl (CoreError INVALID_ARGUMENT))"

definition string_or_empty :: "js \<Rightarrow> string" where
  "string_or_empty value = (case value of JStr t \<Rightarrow> t | _ \<Rightarrow> [])"

definition normalizeIndianAccountNumber :: "js \<Rightarrow> string result" where
  "normalizeIndianAccountNumber value =
     (let v = filter (\<lambda>c. \<not> isSpace c) (string_or_empty value)
      in if list_all isDigit v \<and> 9 \<le> length v \<and> length v \<le> 18 then Inr v else Inl (CoreError INVALID_ARGUMENT))"

definition IFSC_RE :: "(char \<Rightarrow> bool) list" where
  "IFSC_RE = replicate 4 isUpper @ (\<lambda>c. c = CHR ''0'') # replicate 6 isUpperDigit"

definition normalizeIfsc :: "js \<Rightarrow> string result" where
  "normalizeIfsc value =
     (let v = toUpper (trim (string_or_empty value))
      in if matches IFSC_RE v then Inr v else Inl (CoreError INVALID_ARGUMENT))"

definition normalizePhone :: "js \<Rightarrow> string result" where
  "normalizePhone value =
     (let v = filter (\<lambda>c. \<not> (isSpace c \<or> c \<in> set ''()-'')) (string_or_empty value);
          digits = (case v of c # cs \<Rightarrow> if c = CHR ''+'' then cs else v | [] \<Rightarrow> [])
      in if list_all isDigit digits \<and> 8 \<le> length digits \<and> length digits \<le> 15 then Inr v
         else Inl (CoreError INVALID_ARGUMENT))"

definition last4 :: "string \<Rightarrow> string" where
  "last4 s = (let d = filter isDigit s in drop (length d - 4) d)"

section \<open>Desk handles\<close>

definition DESK_HANDLE_SHAPE :: "string \<Rightarrow> bool" where
  "DESK_HANDLE_SHAPE s \<longleftrightarrow> 3 \<le> length s \<and> length s \<le> 30 \<and> isLowerDigit (hd s) \<and> isLowerDigit (last s) \<and>
     list_all (\<lambda>c. isLowerDigit c \<or> c = CHR ''-'') s"

definition RESERVED_DESK_HANDLES :: "string list" where
  "RESERVED_DESK_HANDLES = [
     ''about'', ''account'', ''accounts'', ''admin'', ''api'', ''app'', ''assets'', ''become-a-trader'', ''buy-usdt-in-india'',
     ''clients'', ''contact'', ''deal'', ''deals'', ''desk'', ''desk-ops'', ''desks'', ''destinations'', ''docs'', ''escrow'',
     ''exceptions'', ''exchange'', ''faq'', ''health'', ''help'', ''history'', ''home'', ''inr'', ''inr-to-usdt'', ''inrp2p'',
     ''legal'', ''link'', ''links'', ''login'', ''logout'', ''metrics'', ''network'', ''notifications'', ''official'', ''open'',
     ''open-account'', ''orders'', ''p2p'', ''pnl'', ''privacy'', ''public-desk'', ''quote'', ''quotes'', ''rates'', ''register'',
     ''revenue'', ''robots'', ''root'', ''sell-usdt-in-india'', ''settings'', ''sign-in'', ''sign-up'', ''signin'', ''signup'',
     ''sitemap'', ''static'', ''status'', ''support'', ''system'', ''team'', ''terms'', ''trader'', ''trader-desk'', ''traders'',
     ''trades'', ''usdt'', ''usdt-otc-india'', ''usdt-to-inr'', ''www'']"

definition isDeskHandle :: "string \<Rightarrow> bool" where
  "isDeskHandle s \<longleftrightarrow> DESK_HANDLE_SHAPE s \<and> s \<notin> set RESERVED_DESK_HANDLES"

end
