(* ===== verification/Identity.thy ===== *)
theory Identity
  imports Pipeline Ids
begin

text \<open>
  Operator identity (\<^verbatim>\<open>packages/identity/src\<close>): the permission matrix, the authorization every operator command passes
  inside its transaction, the session gate, and the granting of roles, with the two-person rule for OWNER. Times are
  seconds of the database clock. The matrix is an association list keyed by the permission's name; its keys are the
  type of permissions in the code, so no other name is ever looked up.
\<close>

section \<open>The permission matrix\<close>

datatype operator_role = OWNER | DEALER | SETTLEMENT_OPERATOR | FINANCE | SUPPORT | READ_ONLY

datatype requirement = ALLOW | STEP_UP | STEP_UP_SECOND_APPROVER | DENY

definition OPERATOR_ROLES :: "(string \<times> operator_role) list" where
  "OPERATOR_ROLES = [(''OWNER'', OWNER), (''DEALER'', DEALER), (''SETTLEMENT_OPERATOR'', SETTLEMENT_OPERATOR), (''FINANCE'', FINANCE),
     (''SUPPORT'', SUPPORT), (''READ_ONLY'', READ_ONLY)]"

definition matrix_row :: "requirement \<Rightarrow> requirement \<Rightarrow> requirement \<Rightarrow> requirement \<Rightarrow> requirement \<Rightarrow> requirement \<Rightarrow> operator_role \<Rightarrow> requirement" where
  "matrix_row ow d s f su ro role = (case role of OWNER \<Rightarrow> ow | DEALER \<Rightarrow> d | SETTLEMENT_OPERATOR \<Rightarrow> s | FINANCE \<Rightarrow> f
     | SUPPORT \<Rightarrow> su | READ_ONLY \<Rightarrow> ro)"

definition PERMISSION_MATRIX :: "(string \<times> (operator_role \<Rightarrow> requirement)) list" where
  "PERMISSION_MATRIX = [
     (''desk:view'', matrix_row ALLOW ALLOW ALLOW ALLOW ALLOW ALLOW),
     (''economics:view'', matrix_row ALLOW ALLOW DENY ALLOW DENY DENY),
     (''rates:update_route'', matrix_row ALLOW ALLOW DENY DENY DENY DENY),
     (''request:create'', matrix_row ALLOW ALLOW DENY DENY ALLOW DENY),
     (''request:decline'', matrix_row ALLOW ALLOW DENY DENY DENY DENY),
     (''request:withdraw'', matrix_row ALLOW ALLOW DENY DENY DENY DENY),
     (''quote:create'', matrix_row ALLOW ALLOW DENY DENY DENY DENY),
     (''quote:send'', matrix_row ALLOW ALLOW DENY DENY DENY DENY),
     (''quote:cancel'', matrix_row ALLOW ALLOW DENY DENY DENY DENY),
     (''quote:send_negative_margin'', matrix_row STEP_UP DENY DENY DENY DENY DENY),
     (''quote_link:create'', matrix_row ALLOW ALLOW DENY DENY DENY DENY),
     (''quote_link:revoke'', matrix_row ALLOW ALLOW DENY DENY DENY DENY),
     (''settlement:reserve_capacity'', matrix_row ALLOW DENY ALLOW DENY DENY DENY),
     (''settlement:create_payout'', matrix_row ALLOW DENY ALLOW DENY DENY DENY),
     (''settlement:send_payout'', matrix_row ALLOW DENY ALLOW DENY DENY DENY),
     (''settlement:record_incoming'', matrix_row ALLOW DENY ALLOW DENY DENY DENY),
     (''settlement:record_utr'', matrix_row ALLOW DENY ALLOW DENY DENY DENY),
     (''settlement:record_route_payout_sent'', matrix_row ALLOW DENY ALLOW DENY DENY DENY),
     (''settlement:change_utr'', matrix_row STEP_UP DENY STEP_UP DENY DENY DENY),
     (''settlement:confirm_payout'', matrix_row STEP_UP DENY STEP_UP DENY DENY DENY),
     (''settlement:confirm_incoming'', matrix_row STEP_UP DENY STEP_UP DENY DENY DENY),
     (''settlement:fail_payout'', matrix_row STEP_UP DENY STEP_UP DENY DENY DENY),
     (''settlement:cancel_payout'', matrix_row STEP_UP DENY STEP_UP DENY DENY DENY),
     (''crypto:submit_tx_for_verification'', matrix_row ALLOW DENY ALLOW ALLOW DENY DENY),
     (''trade:cancel'', matrix_row STEP_UP STEP_UP DENY DENY DENY DENY),
     (''trade:request_destination_change'', matrix_row STEP_UP DENY STEP_UP STEP_UP STEP_UP DENY),
     (''trade:approve_destination_change'', matrix_row STEP_UP_SECOND_APPROVER DENY DENY STEP_UP_SECOND_APPROVER DENY DENY),
     (''exception:open'', matrix_row ALLOW ALLOW ALLOW ALLOW ALLOW DENY),
     (''exception:resolve'', matrix_row ALLOW ALLOW ALLOW ALLOW DENY DENY),
     (''adjustment:request'', matrix_row ALLOW ALLOW ALLOW ALLOW DENY DENY),
     (''adjustment:approve'', matrix_row STEP_UP_SECOND_APPROVER DENY DENY STEP_UP_SECOND_APPROVER DENY DENY),
     (''refund:approve'', matrix_row STEP_UP_SECOND_APPROVER DENY DENY STEP_UP_SECOND_APPROVER DENY DENY),
     (''inr_account:manage'', matrix_row STEP_UP DENY DENY STEP_UP DENY DENY),
     (''capacity:change'', matrix_row STEP_UP DENY DENY STEP_UP DENY DENY),
     (''treasury:manage_wallets'', matrix_row STEP_UP DENY DENY STEP_UP DENY DENY),
     (''client:manage'', matrix_row ALLOW ALLOW DENY DENY ALLOW DENY),
     (''client:manage_contacts'', matrix_row ALLOW ALLOW DENY DENY ALLOW DENY),
     (''client_bank:add'', matrix_row STEP_UP DENY DENY DENY STEP_UP DENY),
     (''client_wallet:manage'', matrix_row STEP_UP DENY DENY DENY STEP_UP DENY),
     (''client_user:grant_accept_quotes'', matrix_row STEP_UP DENY DENY DENY STEP_UP DENY),
     (''client_user:reset_mfa'', matrix_row STEP_UP DENY DENY DENY STEP_UP DENY),
     (''routes:configure'', matrix_row STEP_UP DENY DENY DENY DENY DENY),
     (''route_settlement:record'', matrix_row ALLOW DENY DENY ALLOW DENY DENY),
     (''route_settlement:confirm'', matrix_row STEP_UP DENY DENY STEP_UP DENY DENY),
     (''route_positions:view'', matrix_row ALLOW ALLOW DENY ALLOW DENY DENY),
     (''custody:configure'', matrix_row STEP_UP DENY DENY STEP_UP DENY DENY),
     (''chain:backfill'', matrix_row STEP_UP DENY DENY STEP_UP DENY DENY),
     (''custody:refresh_balance'', matrix_row ALLOW DENY ALLOW ALLOW DENY DENY),
     (''bank_account:reveal'', matrix_row STEP_UP DENY STEP_UP STEP_UP DENY DENY),
     (''ledger:view'', matrix_row ALLOW DENY DENY ALLOW DENY DENY),
     (''pnl:view'', matrix_row ALLOW ALLOW DENY ALLOW DENY DENY),
     (''ledger:export'', matrix_row ALLOW DENY DENY ALLOW DENY DENY),
     (''statement:import'', matrix_row STEP_UP DENY DENY STEP_UP DENY DENY),
     (''traders:view'', matrix_row ALLOW ALLOW DENY ALLOW DENY DENY),
     (''traders:assign'', matrix_row ALLOW ALLOW DENY DENY DENY DENY),
     (''traders:pause'', matrix_row STEP_UP STEP_UP DENY STEP_UP DENY DENY),
     (''traders:configure'', matrix_row STEP_UP DENY DENY STEP_UP DENY DENY),
     (''trader_payout:record'', matrix_row ALLOW DENY DENY ALLOW DENY DENY),
     (''trader_payout:confirm'', matrix_row STEP_UP DENY DENY STEP_UP DENY DENY),
     (''trader_reserve:apply'', matrix_row STEP_UP DENY DENY STEP_UP DENY DENY),
     (''trader_reserve:approve'', matrix_row STEP_UP_SECOND_APPROVER DENY DENY STEP_UP_SECOND_APPROVER DENY DENY),
     (''desks:view'', matrix_row ALLOW ALLOW DENY ALLOW DENY DENY),
     (''desks:moderate'', matrix_row STEP_UP STEP_UP DENY DENY DENY DENY),
     (''fees:propose'', matrix_row STEP_UP DENY DENY STEP_UP DENY DENY),
     (''fees:approve'', matrix_row STEP_UP_SECOND_APPROVER DENY DENY STEP_UP_SECOND_APPROVER DENY DENY),
     (''network:view'', matrix_row ALLOW ALLOW ALLOW ALLOW DENY DENY),
     (''network:manage'', matrix_row STEP_UP DENY DENY STEP_UP DENY DENY),
     (''chain_send:approve'', matrix_row STEP_UP_SECOND_APPROVER DENY STEP_UP_SECOND_APPROVER STEP_UP_SECOND_APPROVER DENY DENY),
     (''chain_send:cancel'', matrix_row STEP_UP DENY STEP_UP STEP_UP DENY DENY),
     (''network_withdrawal:decide'', matrix_row STEP_UP DENY DENY STEP_UP DENY DENY),
     (''receipt:view'', matrix_row ALLOW ALLOW ALLOW ALLOW ALLOW ALLOW),
     (''audit:view'', matrix_row ALLOW DENY DENY ALLOW DENY DENY),
     (''users:manage'', matrix_row STEP_UP DENY DENY DENY DENY DENY),
     (''roles:assign'', matrix_row STEP_UP DENY DENY DENY DENY DENY),
     (''settings:payout_approval'', matrix_row STEP_UP DENY DENY DENY DENY DENY),
     (''settings:network_fees'', matrix_row STEP_UP DENY DENY DENY DENY DENY),
     (''settings:new_business'', matrix_row STEP_UP DENY DENY STEP_UP DENY DENY),
     (''operations:restore_fence'', matrix_row STEP_UP DENY DENY STEP_UP DENY DENY),
     (''operations:approve_restore_fence_lift'', matrix_row STEP_UP_SECOND_APPROVER DENY DENY STEP_UP_SECOND_APPROVER DENY DENY)]"

definition permission_requirement :: "string \<Rightarrow> operator_role \<Rightarrow> requirement" where
  "permission_requirement permission role = (case map_of PERMISSION_MATRIX permission of Some row \<Rightarrow> row role | None \<Rightarrow> DENY)"

definition GRANTABLE :: "string \<Rightarrow> operator_role list" where
  "GRANTABLE permission = (if permission = ''economics:view'' then [READ_ONLY] else [])"

definition STEP_UP_MAX_AGE_SECONDS :: int where "STEP_UP_MAX_AGE_SECONDS = 600"

definition RANK :: "requirement \<Rightarrow> nat" where
  "RANK q = (case q of ALLOW \<Rightarrow> 3 | STEP_UP \<Rightarrow> 2 | STEP_UP_SECOND_APPROVER \<Rightarrow> 1 | DENY \<Rightarrow> 0)"

definition best_of_roles :: "string \<Rightarrow> operator_role list \<Rightarrow> requirement" where
  "best_of_roles permission roles =
     foldl (\<lambda>best role. let req = permission_requirement permission role in if RANK req > RANK best then req else best) DENY roles"

definition effectiveRequirement :: "string \<Rightarrow> operator_role list \<Rightarrow> string list \<Rightarrow> requirement" where
  "effectiveRequirement permission roles grants =
     (let best = best_of_roles permission roles
      in if best = DENY \<and> permission \<in> set grants \<and> list_ex (\<lambda>role. role \<in> set (GRANTABLE permission)) roles then ALLOW
         else best)"

section \<open>Tables\<close>

datatype account_status = ACTIVE_USER | DISABLED_USER

record user_row =
  us_id :: string
  us_surface :: surface
  us_status :: account_status
  us_two_factor :: bool

record session_row =
  ss_id :: string
  ss_user :: string
  ss_surface :: surface
  ss_created :: int
  ss_expires :: int

record role_row =
  rr_user :: string
  rr_role :: string
  rr_granted_by :: string

datatype request_status = RQ_PENDING | RQ_APPROVED | RQ_REJECTED | RQ_CANCELLED | RQ_EXPIRED

record role_request_row =
  rq_id :: string
  rq_target :: string
  rq_reason :: string
  rq_requested_by :: string
  rq_session :: string
  rq_expires :: int
  rq_status :: request_status
  rq_decided_by :: "string option"
  rq_decided_at :: "int option"
  rq_note :: "string option"

text \<open>\<open>session_activity\<close> and \<open>step_up_verification\<close> are lists of session and time.\<close>

record identity_db = pipeline_db +
  auth_user :: "user_row list"
  auth_session :: "session_row list"
  session_activity :: "(string \<times> int) list"
  step_up_verification :: "(string \<times> int) list"
  operator_user_role :: "role_row list"
  operator_permission_grant :: "(string \<times> string) list"
  operator_role_request :: "role_request_row list"

section \<open>Authorization\<close>

record operator_actor =
  op_userId :: string
  op_sessionId :: string

record authorization_decision =
  dc_permission :: string
  dc_requirement :: requirement
  dc_second :: bool

definition loadOperatorGrants :: "string \<Rightarrow> 'x identity_db_scheme \<Rightarrow> operator_role list \<times> string list" where
  "loadOperatorGrants userId s =
     (List.map_filter (\<lambda>r. if rr_user r = userId then map_of OPERATOR_ROLES (rr_role r) else None) (operator_user_role s),
      map snd (filter (\<lambda>g. fst g = userId) (operator_permission_grant s)))"

definition hasFreshStepUp :: "string \<Rightarrow> int \<Rightarrow> 'x identity_db_scheme \<Rightarrow> bool" where
  "hasFreshStepUp sessionId maxAge s =
     list_ex (\<lambda>(i, verified). i = sessionId \<and> verified > clock s - maxAge) (step_up_verification s)"

definition user_ok :: "string \<Rightarrow> 'x identity_db_scheme \<Rightarrow> bool" where
  "user_ok userId s = list_ex (\<lambda>u. us_id u = userId \<and> us_surface u = OPERATOR_SURFACE \<and> us_status u = ACTIVE_USER) (auth_user s)"

definition session_ok :: "operator_actor \<Rightarrow> 'x identity_db_scheme \<Rightarrow> bool" where
  "session_ok a s = list_ex (\<lambda>x. ss_id x = op_sessionId a \<and> ss_user x = op_userId a \<and> ss_surface x = OPERATOR_SURFACE \<and>
     ss_expires x > clock s) (auth_session s)"

definition assertLiveOperator :: "operator_actor \<Rightarrow> ('x identity_db_scheme, unit) cmd" where
  "assertLiveOperator a =
     bindC (readC (user_ok (op_userId a))) (\<lambda>user_ok.
     bindC (readC (session_ok a)) (\<lambda>session_ok.
     bindC (unlessC user_ok (CoreError FORBIDDEN)) (\<lambda>_.
     unlessC session_ok (CoreError UNAUTHENTICATED))))"

definition authorizeOperator :: "operator_actor \<Rightarrow> string \<Rightarrow> ('x identity_db_scheme, authorization_decision) cmd" where
  "authorizeOperator a permission =
     bindC (assertLiveOperator a) (\<lambda>_.
     bindC (readC (loadOperatorGrants (op_userId a))) (\<lambda>(roles, grants).
     bindC (readC (hasFreshStepUp (op_sessionId a) STEP_UP_MAX_AGE_SECONDS)) (\<lambda>fresh.
     let req = effectiveRequirement permission roles grants
     in if req = DENY then throwC (CoreError FORBIDDEN)
        else if req \<noteq> ALLOW \<and> \<not> fresh then throwC (CoreError STEP_UP_REQUIRED)
        else returnC \<lparr>dc_permission = permission, dc_requirement = req, dc_second = (req = STEP_UP_SECOND_APPROVER)\<rparr>)))"

definition assertSecondApprover :: "authorization_decision \<Rightarrow> string \<Rightarrow> string \<Rightarrow> unit result" where
  "assertSecondApprover decision requester approver =
     (if dc_second decision \<and> requester = approver then Inl (CoreError SECOND_APPROVER_REQUIRED) else Inr ())"

text \<open>The two halves of \<^verbatim>\<open>operatorCommand\<close>. The handler's decision is the one \<open>authorize\<close> reached in the same transaction; authorizing reads and
  changes nothing in between, so it is read again.\<close>

definition operatorAuthorize :: "operator_actor \<Rightarrow> string \<Rightarrow> tx_ctx \<Rightarrow> js \<Rightarrow> ('x identity_db_scheme, unit) cmd" where
  "operatorAuthorize a permission ctx payload = bindC (authorizeOperator a permission) (\<lambda>_. returnC ())"

definition operatorHandle ::
    "operator_actor \<Rightarrow> string \<Rightarrow> (tx_ctx \<Rightarrow> js \<Rightarrow> authorization_decision \<Rightarrow> ('x identity_db_scheme, js) cmd) \<Rightarrow> tx_ctx \<Rightarrow> js \<Rightarrow>
     ('x identity_db_scheme, js) cmd" where
  "operatorHandle a permission handle ctx payload = bindC (authorizeOperator a permission) (\<lambda>decision. handle ctx payload decision)"

definition actorLabel :: "tx_ctx \<Rightarrow> string" where
  "actorLabel ctx = (case actor_id (ctx_actor ctx) of Some i \<Rightarrow> i | None \<Rightarrow> ''SYSTEM'')"

section \<open>Granting roles\<close>

definition js_field :: "string \<Rightarrow> js \<Rightarrow> js" where
  "js_field k v = (case v of JObj fs \<Rightarrow> (case map_of fs k of Some x \<Rightarrow> x | None \<Rightarrow> JUndefined) | _ \<Rightarrow> JUndefined)"

definition active_user :: "string \<Rightarrow> 'x identity_db_scheme \<Rightarrow> bool" where
  "active_user i s = list_ex (\<lambda>u. us_id u = i \<and> us_status u = ACTIVE_USER) (auth_user s)"

definition activeOwners :: "string \<Rightarrow> 'x identity_db_scheme \<Rightarrow> string list" where
  "activeOwners exceptUser s =
     filter (\<lambda>i. i \<noteq> exceptUser) (map rr_user (filter (\<lambda>r. rr_role r = ''OWNER'' \<and> active_user (rr_user r) s) (operator_user_role s)))"

definition requireGrantee :: "string \<Rightarrow> js \<Rightarrow> ('x identity_db_scheme, string) cmd" where
  "requireGrantee granter targetUserId =
     bindC (liftC (requireUuid targetUserId)) (\<lambda>target.
     bindC (unlessC (target \<noteq> granter) (CoreError FORBIDDEN)) (\<lambda>_.
     bindC (readC (user_ok target)) (\<lambda>ok.
     bindC (unlessC ok (CoreError INVALID_ARGUMENT)) (\<lambda>_.
     returnC target))))"

definition has_role :: "string \<Rightarrow> string \<Rightarrow> 'x identity_db_scheme \<Rightarrow> bool" where
  "has_role i role s = list_ex (\<lambda>r. rr_user r = i \<and> rr_role r = role) (operator_user_role s)"

definition insert_role :: "string \<Rightarrow> string \<Rightarrow> string \<Rightarrow> 'x identity_db_scheme \<Rightarrow> 'x identity_db_scheme" where
  "insert_role i role granter s = s\<lparr>operator_user_role := operator_user_role s @ [\<lparr>rr_user = i, rr_role = role, rr_granted_by = granter\<rparr>]\<rparr>"

definition assignOperatorRole :: "operator_actor \<Rightarrow> tx_ctx \<Rightarrow> js \<Rightarrow> ('x identity_db_scheme, js) cmd" where
  "assignOperatorRole a ctx p =
     bindC (unlessC (js_field ''approverUserId'' p = JUndefined) (CoreError INVALID_ARGUMENT)) (\<lambda>_.
     let role = js_String (js_field ''role'' p)
     in bindC (unlessC (is_JStr (js_field ''role'' p) \<and> map_of OPERATOR_ROLES role \<noteq> None) (CoreError INVALID_ARGUMENT)) (\<lambda>_.
     bindC (requireGrantee (op_userId a) (js_field ''targetUserId'' p)) (\<lambda>target.
     bindC (readC (activeOwners target)) (\<lambda>owners.
     bindC (unlessC (role = ''OWNER'' \<longrightarrow> length owners < 2) (CoreError SECOND_APPROVER_REQUIRED)) (\<lambda>_.
     bindC (readC (\<lambda>s. \<not> has_role target role s)) (\<lambda>inserted.
     bindC (whenC inserted (bindC (writeC (insert_role target role (op_userId a))) (\<lambda>_.
       appendAudit ctx ''user.role_granted'' ''auth_user'' (Some target) JUndefined
         (JObj ([(''role'', JStr role), (''granted_by'', JStr (op_userId a))] @
                (if role = ''OWNER'' then [(''mode'', JStr ''SINGLE_OWNER'')] else [])))))) (\<lambda>_.
     returnC (JObj [(''granted'', JBool inserted)]))))))))"

section \<open>Granting OWNER by two people\<close>

definition OWNER_REQUEST_TTL_HOURS :: int where "OWNER_REQUEST_TTL_HOURS = 24"

fun js_truthy :: "js \<Rightarrow> bool" where
  "js_truthy JUndefined = False"
| "js_truthy JNull = False"
| "js_truthy (JBool b) = b"
| "js_truthy (JNum n) = (n \<noteq> 0)"
| "js_truthy (JBig n) = (n \<noteq> 0)"
| "js_truthy (JStr t) = (t \<noteq> [])"
| "js_truthy v = True"

definition requireOwner :: "string \<Rightarrow> ('x identity_db_scheme, unit) cmd" where
  "requireOwner userId =
     bindC (readC (\<lambda>s. has_role userId ''OWNER'' s \<and> active_user userId s)) (\<lambda>ok.
     unlessC ok (CoreError FORBIDDEN))"

definition lockRequest :: "js \<Rightarrow> ('x identity_db_scheme, role_request_row) cmd" where
  "lockRequest requestId =
     bindC (liftC (requireUuid requestId)) (\<lambda>i.
     bindC (readC (\<lambda>s. List.find (\<lambda>r. rq_id r = i) (operator_role_request s))) (\<lambda>row.
     bindC (foundC (CoreError NOT_FOUND) row) (\<lambda>r.
     bindC (unlessC (rq_status r = RQ_PENDING) (ReferenceError INVALID_TRANSITION)) (\<lambda>_.
     returnC r))))"

definition set_requests :: "(role_request_row list \<Rightarrow> role_request_row list) \<Rightarrow> 'x identity_db_scheme \<Rightarrow> 'x identity_db_scheme" where
  "set_requests f s = s\<lparr>operator_role_request := f (operator_role_request s)\<rparr>"

definition decide_request :: "string \<Rightarrow> request_status \<Rightarrow> string \<Rightarrow> string option \<Rightarrow> ('x identity_db_scheme, unit) cmd" where
  "decide_request i status by note = writeC (\<lambda>s. set_requests (update_where (\<lambda>r. rq_id r = i)
     (\<lambda>r. r\<lparr>rq_status := status, rq_decided_by := Some by, rq_decided_at := Some (clock s), rq_note := note\<rparr>)) s)"

text \<open>Requests that lapsed: \<^verbatim>\<open>expires_at <= statement_timestamp()\<close>.\<close>

definition expire_requests :: "string \<Rightarrow> ('x identity_db_scheme, unit) cmd" where
  "expire_requests target = writeC (\<lambda>s. set_requests (update_where
     (\<lambda>r. rq_target r = target \<and> rq_status r = RQ_PENDING \<and> rq_expires r \<le> clock s)
     (\<lambda>r. r\<lparr>rq_status := RQ_EXPIRED, rq_decided_at := Some (clock s)\<rparr>)) s)"

definition insert_request :: "operator_actor \<Rightarrow> string \<Rightarrow> string \<Rightarrow> string \<Rightarrow> 'x identity_db_scheme \<Rightarrow> 'x identity_db_scheme" where
  "insert_request a i target reason s = set_requests (\<lambda>rows. rows @ [\<lparr>rq_id = i, rq_target = target, rq_reason = reason,
     rq_requested_by = op_userId a, rq_session = op_sessionId a, rq_expires = clock s + 3600 * OWNER_REQUEST_TTL_HOURS,
     rq_status = RQ_PENDING, rq_decided_by = None, rq_decided_at = None, rq_note = None\<rparr>]) s"

definition requestOwnerGrant :: "operator_actor \<Rightarrow> tx_ctx \<Rightarrow> js \<Rightarrow> authorization_decision \<Rightarrow> ('x identity_db_scheme, js) cmd" where
  "requestOwnerGrant a ctx p decision =
     bindC (requireOwner (op_userId a)) (\<lambda>_.
     bindC (requireGrantee (op_userId a) (js_field ''targetUserId'' p)) (\<lambda>target.
     bindC (liftC (requireText (js_field ''reason'' p) 500)) (\<lambda>reason.
     bindC (unlessC (\<not> length reason < 10) (CoreError INVALID_ARGUMENT)) (\<lambda>_.
     bindC (readC (has_role target ''OWNER'')) (\<lambda>already.
     bindC (unlessC (\<not> already) (ReferenceError INVALID_TRANSITION)) (\<lambda>_.
     bindC (expire_requests target) (\<lambda>_.
     bindC (readC (\<lambda>s. List.find (\<lambda>r. rq_target r = target \<and> rq_status r = RQ_PENDING) (operator_role_request s))) (\<lambda>pending.
     bindC (unlessC (pending = None) (ReferenceError INVALID_TRANSITION)) (\<lambda>_.
     bindC freshId (\<lambda>i.
     bindC (writeC (insert_request a i target reason)) (\<lambda>_.
     bindC (appendAudit ctx ''user.owner_grant_requested'' ''operator_role_request'' (Some i) JUndefined
        (JObj [(''target_user_id'', JStr target), (''reason'', JStr reason)])) (\<lambda>_.
     returnC (JObj [(''requestId'', JStr i)])))))))))))))"

definition approveOwnerGrant :: "operator_actor \<Rightarrow> tx_ctx \<Rightarrow> js \<Rightarrow> authorization_decision \<Rightarrow> ('x identity_db_scheme, js) cmd" where
  "approveOwnerGrant a ctx p decision =
     bindC (requireOwner (op_userId a)) (\<lambda>_.
     bindC (lockRequest (js_field ''requestId'' p)) (\<lambda>request.
     bindC (unlessC (rq_requested_by request \<noteq> op_userId a) (CoreError SECOND_APPROVER_REQUIRED)) (\<lambda>_.
     bindC (unlessC (rq_target request \<noteq> op_userId a) (CoreError FORBIDDEN)) (\<lambda>_.
     bindC (readC (\<lambda>s. rq_expires request \<le> clock s)) (\<lambda>expired.
     bindC (unlessC (\<not> expired) (ReferenceError INVALID_TRANSITION)) (\<lambda>_.
     bindC (requireOwner (rq_requested_by request)) (\<lambda>_.
     bindC (requireGrantee (rq_requested_by request) (JStr (rq_target request))) (\<lambda>_.
     bindC (readC (activeOwners (rq_target request))) (\<lambda>owners.
     bindC (unlessC (\<not> length owners < 2) (ReferenceError INVALID_TRANSITION)) (\<lambda>_.
     bindC (liftC (if js_truthy (js_field ''note'' p) then bindR (requireText (js_field ''note'' p) 500) (\<lambda>n. Inr (Some n)) else Inr None)) (\<lambda>note.
     bindC (decide_request (rq_id request) RQ_APPROVED (op_userId a) note) (\<lambda>_.
     bindC (readC (has_role (rq_target request) ''OWNER'')) (\<lambda>taken.
     bindC (unlessC (\<not> taken) DatabaseError) (\<lambda>_.
     bindC (writeC (insert_role (rq_target request) ''OWNER'' (rq_requested_by request))) (\<lambda>_.
     bindC (appendAudit ctx ''user.role_granted'' ''auth_user'' (Some (rq_target request)) JUndefined
        (JObj [(''role'', JStr ''OWNER''), (''requested_by'', JStr (rq_requested_by request)), (''approved_by'', JStr (op_userId a))])) (\<lambda>_.
     returnC (JObj [(''granted'', JBool True)])))))))))))))))))"

definition rejectOwnerGrant :: "operator_actor \<Rightarrow> tx_ctx \<Rightarrow> js \<Rightarrow> authorization_decision \<Rightarrow> ('x identity_db_scheme, js) cmd" where
  "rejectOwnerGrant a ctx p decision =
     bindC (requireOwner (op_userId a)) (\<lambda>_.
     bindC (lockRequest (js_field ''requestId'' p)) (\<lambda>request.
     bindC (unlessC (rq_requested_by request \<noteq> op_userId a) (CoreError INVALID_ARGUMENT)) (\<lambda>_.
     bindC (unlessC (rq_target request \<noteq> op_userId a) (CoreError FORBIDDEN)) (\<lambda>_.
     bindC (liftC (requireText (js_field ''note'' p) 500)) (\<lambda>note.
     bindC (decide_request (rq_id request) RQ_REJECTED (op_userId a) (Some note)) (\<lambda>_.
     bindC (appendAudit ctx ''user.owner_grant_rejected'' ''operator_role_request'' (Some (rq_id request)) JUndefined
        (JObj [(''note'', JStr note)])) (\<lambda>_.
     returnC (JObj [(''status'', JStr ''REJECTED'')]))))))))"

definition cancelOwnerGrant :: "operator_actor \<Rightarrow> tx_ctx \<Rightarrow> js \<Rightarrow> authorization_decision \<Rightarrow> ('x identity_db_scheme, js) cmd" where
  "cancelOwnerGrant a ctx p decision =
     bindC (lockRequest (js_field ''requestId'' p)) (\<lambda>request.
     bindC (unlessC (rq_requested_by request = op_userId a) (CoreError FORBIDDEN)) (\<lambda>_.
     bindC (decide_request (rq_id request) RQ_CANCELLED (op_userId a) None) (\<lambda>_.
     bindC (appendAudit ctx ''user.owner_grant_cancelled'' ''operator_role_request'' (Some (rq_id request)) JUndefined (JObj [])) (\<lambda>_.
     returnC (JObj [(''status'', JStr ''CANCELLED'')])))))"

section \<open>The session gate\<close>

definition idleSeconds :: "surface \<Rightarrow> int" where
  "idleSeconds x = (if x = OPERATOR_SURFACE then 30 * 60 else 60 * 60)"

definition ACTIVITY_WRITE_INTERVAL_SECONDS :: int where "ACTIVITY_WRITE_INTERVAL_SECONDS = 60"

record session_check =
  sc_session :: session_row
  sc_user :: user_row
  sc_expired :: bool
  sc_idle :: bool
  sc_touch_due :: bool
  sc_mfa :: bool
  sc_step_up_fresh :: bool

definition checkSession :: "string \<Rightarrow> surface \<Rightarrow> 'x identity_db_scheme \<Rightarrow> session_check result" where
  "checkSession sessionId surface s =
     (case List.find (\<lambda>x. ss_id x = sessionId) (auth_session s) of
        None \<Rightarrow> Inl (CoreError UNAUTHENTICATED)
      | Some x \<Rightarrow> (case List.find (\<lambda>u. us_id u = ss_user x) (auth_user s) of
          None \<Rightarrow> Inl (CoreError UNAUTHENTICATED)
        | Some u \<Rightarrow> (let last = map_of (session_activity s) sessionId
            in Inr \<lparr>sc_session = x, sc_user = u, sc_expired = (ss_expires x \<le> clock s),
               sc_idle = ((case last of Some t \<Rightarrow> t | None \<Rightarrow> ss_created x) \<le> clock s - idleSeconds surface),
               sc_touch_due = (case last of None \<Rightarrow> True | Some t \<Rightarrow> t \<le> clock s - ACTIVITY_WRITE_INTERVAL_SECONDS),
               sc_mfa = list_ex (\<lambda>(i, v). i = sessionId) (step_up_verification s),
               sc_step_up_fresh = hasFreshStepUp sessionId STEP_UP_MAX_AGE_SECONDS s\<rparr>)))"

definition touch_session :: "string \<Rightarrow> 'x identity_db_scheme \<Rightarrow> 'x identity_db_scheme" where
  "touch_session i s = s\<lparr>session_activity := (i, clock s) # filter (\<lambda>(j, t). j \<noteq> i) (session_activity s)\<rparr>"

definition expire_session :: "string \<Rightarrow> 'x identity_db_scheme \<Rightarrow> 'x identity_db_scheme" where
  "expire_session i s = s\<lparr>auth_session := filter (\<lambda>x. ss_id x \<noteq> i) (auth_session s)\<rparr>"

text \<open>The gate runs outside a transaction: the session it refuses is deleted although it throws.\<close>

definition refuseUnlessLive :: "session_check \<Rightarrow> surface \<Rightarrow> 'x identity_db_scheme \<Rightarrow> unit result \<times> 'x identity_db_scheme" where
  "refuseUnlessLive row surface s =
     (if ss_surface (sc_session row) \<noteq> surface \<or> us_surface (sc_user row) \<noteq> surface then (Inl (CoreError SESSION_SURFACE_MISMATCH), s)
      else if us_status (sc_user row) \<noteq> ACTIVE_USER \<or> sc_expired row then (Inl (CoreError UNAUTHENTICATED), expire_session (ss_id (sc_session row)) s)
      else if sc_idle row then (Inl (CoreError SESSION_IDLE_TIMEOUT), expire_session (ss_id (sc_session row)) s)
      else (Inr (), s))"

record operator_session =
  os_actor :: operator_actor
  os_roles :: "operator_role list"
  os_grants :: "string list"
  os_stepUpFresh :: bool

text \<open>\<open>signed\<close> is the session the authentication library reads from the request's signed cookie, if any.\<close>

definition operatorSession :: "string option \<Rightarrow> 'x identity_db_scheme \<Rightarrow> operator_session result \<times> 'x identity_db_scheme" where
  "operatorSession signed s =
     (case signed of
        None \<Rightarrow> (Inl (CoreError UNAUTHENTICATED), s)
      | Some i \<Rightarrow> (case checkSession i OPERATOR_SURFACE s of
          Inl e \<Rightarrow> (Inl e, s)
        | Inr row \<Rightarrow> (case refuseUnlessLive row OPERATOR_SURFACE s of
            (Inl e, s') \<Rightarrow> (Inl e, s')
          | (Inr u, s') \<Rightarrow>
              if \<not> us_two_factor (sc_user row) then (Inl (CoreError MFA_ENROLLMENT_REQUIRED), s')
              else if \<not> sc_mfa row then (Inl (CoreError MFA_VERIFICATION_REQUIRED), s')
              else let s'' = (if sc_touch_due row then touch_session i s' else s'); g = loadOperatorGrants (us_id (sc_user row)) s'
                in (Inr \<lparr>os_actor = \<lparr>op_userId = us_id (sc_user row), op_sessionId = i\<rparr>, os_roles = fst g, os_grants = snd g,
                       os_stepUpFresh = sc_step_up_fresh row\<rparr>, s''))))"

definition clientSession :: "string option \<Rightarrow> 'x identity_db_scheme \<Rightarrow> (operator_actor \<times> bool) result \<times> 'x identity_db_scheme" where
  "clientSession signed s =
     (case signed of
        None \<Rightarrow> (Inl (CoreError UNAUTHENTICATED), s)
      | Some i \<Rightarrow> (case checkSession i CLIENT_SURFACE s of
          Inl e \<Rightarrow> (Inl e, s)
        | Inr row \<Rightarrow> (case refuseUnlessLive row CLIENT_SURFACE s of
            (Inl e, s') \<Rightarrow> (Inl e, s')
          | (Inr u, s') \<Rightarrow>
              (Inr (\<lparr>op_userId = us_id (sc_user row), op_sessionId = i\<rparr>, sc_step_up_fresh row),
               if sc_touch_due row then touch_session i s' else s'))))"


section \<open>Lemmas: authorization\<close>

lemma RANK_simps [simp]: "RANK ALLOW = 3" "RANK STEP_UP = 2" "RANK STEP_UP_SECOND_APPROVER = 1" "RANK DENY = 0"
  by (simp_all add: RANK_def)

lemma RANK_inj [simp]: "RANK p = RANK q \<longleftrightarrow> p = q"
  by (cases p; cases q) simp_all

lemma RANK_zero [simp]: "RANK q = 0 \<longleftrightarrow> q = DENY"
  by (cases q) simp_all

lemma best_fold:
  "let best = foldl (\<lambda>best role. let req = f role in if RANK req > RANK best then req else best) b roles
   in best \<in> insert b (f ` set roles) \<and> RANK b \<le> RANK best \<and> (\<forall>r \<in> set roles. RANK (f r) \<le> RANK best)"
proof (induction roles arbitrary: b)
  case (Cons r roles)
  define b' where "b' = (if RANK (f r) > RANK b then f r else b)"
  have b': "b' \<in> {b, f r}" "RANK b \<le> RANK b'" "RANK (f r) \<le> RANK b'" by (auto simp: b'_def)
  show ?case using Cons.IH[of b'] b' by (fastforce simp: Let_def b'_def[symmetric])
qed (simp add: Let_def)

lemma best_of_roles_max:
  "best_of_roles p roles \<in> insert DENY (permission_requirement p ` set roles)"
  "r \<in> set roles \<Longrightarrow> RANK (permission_requirement p r) \<le> RANK (best_of_roles p roles)"
  using best_fold[of "permission_requirement p" DENY roles] by (simp_all add: best_of_roles_def Let_def)

lemma best_of_roles_eq:
  "q \<noteq> DENY \<Longrightarrow> best_of_roles p roles = q \<longleftrightarrow>
     (\<exists>r \<in> set roles. permission_requirement p r = q) \<and> (\<forall>r \<in> set roles. RANK (permission_requirement p r) \<le> RANK q)"
proof
  assume "q \<noteq> DENY" "best_of_roles p roles = q"
  then show "(\<exists>r \<in> set roles. permission_requirement p r = q) \<and> (\<forall>r \<in> set roles. RANK (permission_requirement p r) \<le> RANK q)"
    using best_of_roles_max(1)[of p roles] best_of_roles_max(2)[of _ roles p] by auto
next
  assume q: "q \<noteq> DENY" and h: "(\<exists>r \<in> set roles. permission_requirement p r = q) \<and> (\<forall>r \<in> set roles. RANK (permission_requirement p r) \<le> RANK q)"
  then have "RANK q \<le> RANK (best_of_roles p roles)" using best_of_roles_max(2)[of _ roles p] by auto
  moreover have "RANK (best_of_roles p roles) \<le> RANK q" using best_of_roles_max(1)[of p roles] h by auto
  ultimately have "RANK (best_of_roles p roles) = RANK q" by simp
  then show "best_of_roles p roles = q" by (simp only: RANK_inj)
qed

lemma best_of_roles_DENY: "best_of_roles p roles = DENY \<longleftrightarrow> (\<forall>r \<in> set roles. permission_requirement p r = DENY)"
proof
  assume "best_of_roles p roles = DENY"
  then show "\<forall>r \<in> set roles. permission_requirement p r = DENY" using best_of_roles_max(2)[of _ roles p] by fastforce
next
  assume "\<forall>r \<in> set roles. permission_requirement p r = DENY"
  then show "best_of_roles p roles = DENY" using best_of_roles_max(1)[of p roles] by auto
qed

text \<open>What a person may do at all, and what needs no code of the last ten minutes.\<close>

definition may :: "string \<Rightarrow> operator_role list \<Rightarrow> string list \<Rightarrow> bool" where
  "may p roles grants \<longleftrightarrow> (\<exists>r \<in> set roles. permission_requirement p r \<noteq> DENY) \<or>
     (p = ''economics:view'' \<and> p \<in> set grants \<and> READ_ONLY \<in> set roles)"

definition may_freely :: "string \<Rightarrow> operator_role list \<Rightarrow> string list \<Rightarrow> bool" where
  "may_freely p roles grants \<longleftrightarrow> (\<exists>r \<in> set roles. permission_requirement p r = ALLOW) \<or>
     ((\<forall>r \<in> set roles. permission_requirement p r = DENY) \<and> p = ''economics:view'' \<and> p \<in> set grants \<and> READ_ONLY \<in> set roles)"

lemma grantable: "list_ex (\<lambda>role. role \<in> set (GRANTABLE p)) roles \<longleftrightarrow> p = ''economics:view'' \<and> READ_ONLY \<in> set roles"
  by (auto simp: GRANTABLE_def list_ex_iff)

lemma effective_DENY: "effectiveRequirement p roles grants = DENY \<longleftrightarrow> \<not> may p roles grants"
  by (auto simp: effectiveRequirement_def Let_def grantable may_def best_of_roles_DENY)

lemma RANK_le3: "RANK q \<le> 3"
  by (cases q) simp_all

lemma effective_ALLOW: "effectiveRequirement p roles grants = ALLOW \<longleftrightarrow> may_freely p roles grants"
  using RANK_le3 by (auto simp: effectiveRequirement_def Let_def grantable may_freely_def best_of_roles_DENY best_of_roles_eq)

lemma authorize_run:
  "authorizeOperator a p s =
    (if \<not> user_ok (op_userId a) s then Inl (CoreError FORBIDDEN)
     else if \<not> session_ok a s then Inl (CoreError UNAUTHENTICATED)
     else let req = effectiveRequirement p (fst (loadOperatorGrants (op_userId a) s)) (snd (loadOperatorGrants (op_userId a) s))
       in if req = DENY then Inl (CoreError FORBIDDEN)
          else if req \<noteq> ALLOW \<and> \<not> hasFreshStepUp (op_sessionId a) STEP_UP_MAX_AGE_SECONDS s then Inl (CoreError STEP_UP_REQUIRED)
          else Inr (\<lparr>dc_permission = p, dc_requirement = req, dc_second = (req = STEP_UP_SECOND_APPROVER)\<rparr>, s))"
  by (simp add: authorizeOperator_def assertLiveOperator_def bindC_run Let_def split: prod.splits)

lemma authorize_state: "authorizeOperator a p s = Inr (d, t) \<Longrightarrow> t = s"
  by (auto simp: authorize_run Let_def split: if_splits)

text \<open>C34: a command of an operator passes exactly when the account is an active operator account, the very session it came from is
  still open and unexpired on the desk surface, some role of the person (or the one grantable view) carries the
  permission and, unless a role carries it freely, the session proved a one-time code in the last ten minutes. All
  of it is read from the database in the command's transaction, and nothing is written.\<close>

theorem authorization_exact:
  "authorizeOperator a p s = Inr (d, t) \<longleftrightarrow>
    (let roles = fst (loadOperatorGrants (op_userId a) s); grants = snd (loadOperatorGrants (op_userId a) s);
         req = effectiveRequirement p roles grants
     in t = s \<and> user_ok (op_userId a) s \<and> session_ok a s \<and> may p roles grants \<and>
        (may_freely p roles grants \<or> (\<exists>v. (op_sessionId a, v) \<in> set (step_up_verification s) \<and> v > clock s - 600)) \<and>
        d = \<lparr>dc_permission = p, dc_requirement = req, dc_second = (req = STEP_UP_SECOND_APPROVER)\<rparr>)"
proof -
  let ?g = "loadOperatorGrants (op_userId a) s"
  have fresh: "hasFreshStepUp (op_sessionId a) STEP_UP_MAX_AGE_SECONDS s \<longleftrightarrow>
      (\<exists>v. (op_sessionId a, v) \<in> set (step_up_verification s) \<and> v > clock s - 600)"
    by (auto simp: hasFreshStepUp_def STEP_UP_MAX_AGE_SECONDS_def list_ex_iff)
  show ?thesis
    unfolding authorize_run Let_def fresh effective_DENY
    using effective_ALLOW[of p "fst ?g" "snd ?g"] by (auto split: if_splits)
qed

text \<open>Two people.\<close>

definition ROLES :: "operator_role list" where
  "ROLES = [OWNER, DEALER, SETTLEMENT_OPERATOR, FINANCE, SUPPORT, READ_ONLY]"

definition second_row :: "(operator_role \<Rightarrow> requirement) \<Rightarrow> bool" where
  "second_row row = (list_ex (\<lambda>r. row r = STEP_UP_SECOND_APPROVER) ROLES \<longrightarrow>
     list_all (\<lambda>r. row r = STEP_UP_SECOND_APPROVER \<or> row r = DENY) ROLES)"

lemma all_roles: "r \<in> set ROLES"
  by (cases r) (simp_all add: ROLES_def)

lemma second_rows: "list_all (\<lambda>e. second_row (snd e)) PERMISSION_MATRIX"
  by (simp add: PERMISSION_MATRIX_def second_row_def matrix_row_def ROLES_def)

lemma second_only:
  assumes "permission_requirement p r = STEP_UP_SECOND_APPROVER"
  shows "permission_requirement p r' \<in> {STEP_UP_SECOND_APPROVER, DENY}"
proof -
  from assms obtain row where row: "map_of PERMISSION_MATRIX p = Some row" "row r = STEP_UP_SECOND_APPROVER"
    by (auto simp: permission_requirement_def split: option.splits)
  then have "second_row row" using second_rows map_of_SomeD[OF row(1)] by (fastforce simp: list_all_iff)
  with row(2) have "row r' = STEP_UP_SECOND_APPROVER \<or> row r' = DENY"
    using all_roles by (auto simp: second_row_def list_ex_iff list_all_iff)
  with row(1) show ?thesis by (simp add: permission_requirement_def)
qed

lemma economics_not_second: "permission_requirement ''economics:view'' r \<noteq> STEP_UP_SECOND_APPROVER"
  by (cases r; hypsubst; code_simp)

lemma second_effective:
  assumes "permission_requirement p r = STEP_UP_SECOND_APPROVER"
  shows "effectiveRequirement p roles grants \<in> {STEP_UP_SECOND_APPROVER, DENY}"
proof -
  have "p \<noteq> ''economics:view''" using assms economics_not_second by auto
  moreover have "best_of_roles p roles \<in> {STEP_UP_SECOND_APPROVER, DENY}"
    using best_of_roles_max(1)[of p roles] second_only[OF assms] by fastforce
  ultimately show ?thesis by (auto simp: effectiveRequirement_def Let_def grantable)
qed

text \<open>A permission that needs a second approver for one role needs it for everybody: no combination of roles and grants
  yields it any other way, so whoever is authorized for it has just proved a one-time code, and the approval is
  refused to the person who made the request, whatever roles that person holds.\<close>

theorem second_approver_not_bypassed:
  assumes "permission_requirement p role = STEP_UP_SECOND_APPROVER" and "authorizeOperator a p s = Inr (d, t)"
  shows "hasFreshStepUp (op_sessionId a) 600 s \<and>
    assertSecondApprover d requester (op_userId a) =
      (if requester = op_userId a then Inl (CoreError SECOND_APPROVER_REQUIRED) else Inr ())"
proof -
  define q where "q = effectiveRequirement p (fst (loadOperatorGrants (op_userId a) s)) (snd (loadOperatorGrants (op_userId a) s))"
  have "q = STEP_UP_SECOND_APPROVER \<or> q = DENY" using second_effective[OF assms(1)] by (simp add: q_def)
  then show ?thesis using assms(2)
    unfolding authorize_run Let_def q_def[symmetric]
    by (auto simp: assertSecondApprover_def STEP_UP_MAX_AGE_SECONDS_def split: if_splits)
qed

section \<open>Lemmas: granting roles\<close>

lemma assign_row: "permission_requirement ''roles:assign'' r = matrix_row STEP_UP DENY DENY DENY DENY DENY r"
  by (simp del: map_of.simps add: permission_requirement_def PERMISSION_MATRIX_def map_of_Cons_code)

lemma assign_may: "may ''roles:assign'' roles grants \<longleftrightarrow> OWNER \<in> set roles"
proof -
  have "permission_requirement ''roles:assign'' r \<noteq> DENY \<longleftrightarrow> r = OWNER" for r
    by (cases r) (simp_all add: assign_row matrix_row_def)
  then show ?thesis by (auto simp: may_def)
qed

lemma role_of_name: "map_of OPERATOR_ROLES n = Some OWNER \<longleftrightarrow> n = ''OWNER''"
  by (auto simp: OPERATOR_ROLES_def split: if_splits)

lemma owner_loaded: "OWNER \<in> set (fst (loadOperatorGrants u s)) \<longleftrightarrow> has_role u ''OWNER'' s"
proof -
  have "OWNER \<in> set (List.map_filter f rs) \<longleftrightarrow> (\<exists>r \<in> set rs. f r = Some OWNER)" for f and rs :: "role_row list"
    by (induction rs) (auto simp: map_filter_simps split: option.splits)
  then show ?thesis by (auto simp: loadOperatorGrants_def has_role_def list_ex_iff role_of_name split: if_splits)
qed

lemma user_ok_active: "user_ok u s \<Longrightarrow> active_user u s"
  by (auto simp: user_ok_def active_user_def list_ex_iff)

definition is_owner :: "string \<Rightarrow> 'x identity_db_scheme \<Rightarrow> bool" where
  "is_owner u s \<longleftrightarrow> has_role u ''OWNER'' s \<and> active_user u s"

lemma assign_authorized: "authorizeOperator a ''roles:assign'' s = Inr (d, t) \<Longrightarrow> t = s \<and> is_owner (op_userId a) s"
  by (auto simp: authorize_run Let_def effective_DENY assign_may owner_loaded user_ok_active is_owner_def split: if_splits)

lemma activeOwners_set: "set (activeOwners x s) = {u. is_owner u s \<and> u \<noteq> x}"
  by (auto simp: activeOwners_def is_owner_def has_role_def list_ex_iff)

lemma has_role_insert [simp]: "has_role u r (insert_role v q g s) \<longleftrightarrow> has_role u r s \<or> u = v \<and> r = q"
  by (auto simp: has_role_def insert_role_def)

lemma has_role_frame: "operator_user_role t = operator_user_role s \<Longrightarrow> has_role u r t = has_role u r s"
  by (simp add: has_role_def)

lemma assign_effect:
  assumes "assignOperatorRole a ctx p s = Inr (r, t)" "has_role u ''OWNER'' t" "\<not> has_role u ''OWNER'' s"
  shows "u \<noteq> op_userId a \<and> length (activeOwners u s) < 2 \<and> operator_role_request t = operator_role_request s"
  using assms
  by (auto simp: assignOperatorRole_def requireGrantee_def Let_def has_role_def insert_role_def split: if_splits)

lemma find_request: "List.find (\<lambda>r. rq_id r = i) rows = Some q \<Longrightarrow> q \<in> set rows \<and> rq_id q = i"
  using find_Some_mem by fastforce

lemma lockRequest_Inr: "lockRequest i s = Inr (q, t) \<Longrightarrow> t = s \<and> q \<in> set (operator_role_request s) \<and> rq_status q = RQ_PENDING"
  by (auto simp: lockRequest_def dest: find_request split: if_splits)

lemma requireOwner_Inr: "requireOwner u s = Inr (x, t) \<Longrightarrow> t = s \<and> is_owner u s"
  by (auto simp: requireOwner_def is_owner_def split: if_splits)

text \<open>The two-person grant: \<open>by\<close> approved, in the step from \<open>s\<close> to \<open>t\<close>, the pending and unexpired request of another owner.\<close>

definition approved_grant :: "string \<Rightarrow> string \<Rightarrow> string \<Rightarrow> 'x identity_db_scheme \<Rightarrow> 'x identity_db_scheme \<Rightarrow> bool" where
  "approved_grant asker by u s t \<longleftrightarrow> asker \<noteq> by \<and> asker \<noteq> u \<and> by \<noteq> u \<and> is_owner asker s \<and> is_owner by s \<and>
     (\<exists>q \<in> set (operator_role_request s). rq_target q = u \<and> rq_requested_by q = asker \<and> rq_status q = RQ_PENDING \<and>
        rq_expires q > clock s \<and>
        (\<exists>q' \<in> set (operator_role_request t). rq_id q' = rq_id q \<and> rq_status q' = RQ_APPROVED \<and> rq_decided_by q' = Some by))"

lemma decide_clause: "\<lbrakk>q \<in> set rows; P q; rq_id (f q) = rq_id q \<and> R (f q)\<rbrakk> \<Longrightarrow> \<exists>q' \<in> set (update_where P f rows). rq_id q' = rq_id q \<and> R q'"
  by (auto simp: set_update_where image_iff intro: bexI[of _ q])

definition approved_by :: "string \<Rightarrow> string option \<Rightarrow> int \<Rightarrow> role_request_row \<Rightarrow> role_request_row" where
  "approved_by u note now r = r\<lparr>rq_status := RQ_APPROVED, rq_decided_by := Some u, rq_decided_at := Some now, rq_note := note\<rparr>"

lemma requireUuid_JStr [simp]: "requireUuid (JStr v) = Inr x \<longleftrightarrow> isUuid v \<and> x = v"
  by (auto simp: requireUuid_def isUuid_def)

lemma requireGrantee_iff: "requireGrantee g v s = Inr (x, t) \<longleftrightarrow> t = s \<and> requireUuid v = Inr x \<and> x \<noteq> g \<and> user_ok x s"
  by (auto simp: requireGrantee_def split: if_splits)

lemma requireOwner_iff: "requireOwner u s = Inr (x, t) \<longleftrightarrow> t = s \<and> is_owner u s"
  by (auto simp: requireOwner_def is_owner_def split: if_splits)

lemma lockRequest_iff: "lockRequest v s = Inr (q, t) \<longleftrightarrow> t = s \<and> rq_status q = RQ_PENDING \<and>
    (\<exists>i. requireUuid v = Inr i \<and> List.find (\<lambda>r. rq_id r = i) (operator_role_request s) = Some q)"
  by (auto simp: lockRequest_def split: if_splits)

lemmas request_iffs = requireGrantee_iff requireOwner_iff lockRequest_iff

lemma approve_run:
  assumes "approveOwnerGrant a ctx p d s = Inr (r, t)"
  shows "\<exists>q nt. lockRequest (js_field ''requestId'' p) s = Inr (q, s) \<and> is_owner (op_userId a) s \<and>
    rq_requested_by q \<noteq> op_userId a \<and> rq_target q \<noteq> op_userId a \<and> rq_expires q > clock s \<and> is_owner (rq_requested_by q) s \<and>
    rq_target q \<noteq> rq_requested_by q \<and>
    operator_role_request t = update_where (\<lambda>r. rq_id r = rq_id q) (approved_by (op_userId a) nt (clock s)) (operator_role_request s) \<and>
    operator_user_role t = operator_user_role (insert_role (rq_target q) ''OWNER'' (rq_requested_by q) s)"
proof -
  from assms obtain q nt t' where
    "lockRequest (js_field ''requestId'' p) s = Inr (q, s)" "is_owner (op_userId a) s"
    "rq_requested_by q \<noteq> op_userId a" "rq_target q \<noteq> op_userId a" "rq_expires q > clock s" "is_owner (rq_requested_by q) s"
    "rq_target q \<noteq> rq_requested_by q" and d: "decide_request (rq_id q) RQ_APPROVED (op_userId a) nt s = Inr ((), t')"
    and t: "operator_user_role t = operator_user_role (insert_role (rq_target q) ''OWNER'' (rq_requested_by q) t')"
      "operator_role_request t = operator_role_request t'"
    unfolding approveOwnerGrant_def
    by (auto simp: request_iffs insert_role_def split: if_splits)
  moreover have "operator_role_request t' = update_where (\<lambda>r. rq_id r = rq_id q) (approved_by (op_userId a) nt (clock s)) (operator_role_request s)"
    "operator_user_role t' = operator_user_role s"
    using d by (auto simp: decide_request_def set_requests_def approved_by_def[abs_def])
  ultimately show ?thesis by (auto simp: insert_role_def)
qed

lemma approve_effect:
  assumes run: "approveOwnerGrant a ctx p d s = Inr (r, t)" and now: "has_role u ''OWNER'' t" "\<not> has_role u ''OWNER'' s"
  shows "\<exists>asker. approved_grant asker (op_userId a) u s t"
proof -
  from approve_run[OF run] obtain q nt where q: "lockRequest (js_field ''requestId'' p) s = Inr (q, s)"
    and guards: "is_owner (op_userId a) s" "rq_requested_by q \<noteq> op_userId a" "rq_target q \<noteq> op_userId a" "rq_expires q > clock s"
      "is_owner (rq_requested_by q) s" "rq_target q \<noteq> rq_requested_by q"
    and reqs: "operator_role_request t = update_where (\<lambda>r. rq_id r = rq_id q) (approved_by (op_userId a) nt (clock s)) (operator_role_request s)"
    and roles: "operator_user_role t = operator_user_role (insert_role (rq_target q) ''OWNER'' (rq_requested_by q) s)" by blast
  have u: "u = rq_target q" using now has_role_frame[OF roles] by simp
  from lockRequest_Inr[OF q] have mem: "q \<in> set (operator_role_request s)" "rq_status q = RQ_PENDING" by auto
  have "\<exists>q' \<in> set (operator_role_request t). rq_id q' = rq_id q \<and> (rq_status q' = RQ_APPROVED \<and> rq_decided_by q' = Some (op_userId a))"
    unfolding reqs by (rule decide_clause[OF mem(1)]) (simp_all add: approved_by_def)
  with u mem guards show ?thesis by (auto simp: approved_grant_def intro!: exI[of _ "rq_requested_by q"])
qed

lemma request_keeps_roles: "requestOwnerGrant a ctx p d s = Inr (r, t) \<Longrightarrow> operator_user_role t = operator_user_role s"
  by (auto simp: requestOwnerGrant_def requireGrantee_def expire_requests_def insert_request_def set_requests_def
      dest!: requireOwner_Inr split: if_splits)

lemma reject_keeps_roles: "rejectOwnerGrant a ctx p d s = Inr (r, t) \<Longrightarrow> operator_user_role t = operator_user_role s"
  by (auto simp: rejectOwnerGrant_def decide_request_def set_requests_def dest!: requireOwner_Inr lockRequest_Inr split: if_splits)

lemma cancel_keeps_roles: "cancelOwnerGrant a ctx p d s = Inr (r, t) \<Longrightarrow> operator_user_role t = operator_user_role s"
  by (auto simp: cancelOwnerGrant_def decide_request_def set_requests_def dest!: lockRequest_Inr split: if_splits)

text \<open>What can happen to roles: the five commands, each behind its authorization, and everything else, which leaves the roles alone
  (people sign in and out, are disabled, time passes).\<close>

inductive role_step :: "'x identity_db_scheme \<Rightarrow> 'x identity_db_scheme \<Rightarrow> bool" where
  assign: "operatorHandle a ''roles:assign'' (\<lambda>ctx p d. assignOperatorRole a ctx p) ctx p s = Inr (r, t) \<Longrightarrow> role_step s t"
| request: "operatorHandle a ''roles:assign'' (requestOwnerGrant a) ctx p s = Inr (r, t) \<Longrightarrow> role_step s t"
| approve: "operatorHandle a ''roles:assign'' (approveOwnerGrant a) ctx p s = Inr (r, t) \<Longrightarrow> role_step s t"
| reject: "operatorHandle a ''roles:assign'' (rejectOwnerGrant a) ctx p s = Inr (r, t) \<Longrightarrow> role_step s t"
| cancel: "operatorHandle a ''roles:assign'' (cancelOwnerGrant a) ctx p s = Inr (r, t) \<Longrightarrow> role_step s t"
| elsewhere: "operator_user_role t = operator_user_role s \<Longrightarrow> role_step s t"

lemma operatorHandle_Inr: "operatorHandle a p h ctx v s = Inr (r, t) \<Longrightarrow> \<exists>d. authorizeOperator a p s = Inr (d, s) \<and> h ctx v d s = Inr (r, t)"
  using authorize_state unfolding operatorHandle_def bindC_Inr_iff by blast

lemma sole_owner: "length (activeOwners u s) < 2 \<Longrightarrow> is_owner a s \<Longrightarrow> a \<noteq> u \<Longrightarrow> activeOwners u s = [a]"
proof -
  have single: "length xs < 2 \<Longrightarrow> x \<in> set xs \<Longrightarrow> xs = [x]" for xs :: "string list" and x
    by (cases xs; cases "tl xs") auto
  assume "length (activeOwners u s) < 2" "is_owner a s" "a \<noteq> u"
  with single activeOwners_set[of u s] show "activeOwners u s = [a]" by blast
qed


section \<open>The commands behind the pipeline\<close>

lemma role_command_frames:
  "assignOperatorRole a ctx p s = Inr (r, t) \<Longrightarrow> idempotency_key t = idempotency_key s"
  "requestOwnerGrant a ctx p d s = Inr (r, t) \<Longrightarrow> idempotency_key t = idempotency_key s"
  "approveOwnerGrant a ctx p d s = Inr (r, t) \<Longrightarrow> idempotency_key t = idempotency_key s"
  by (auto simp: assignOperatorRole_def requestOwnerGrant_def approveOwnerGrant_def request_iffs insert_role_def Let_def
      expire_requests_def insert_request_def set_requests_def decide_request_def split: if_splits)

lemma role_command_results:
  "assignOperatorRole a ctx p s = Inr (r, t) \<Longrightarrow> plain_result r"
  "requestOwnerGrant a ctx p d s = Inr (r, t) \<Longrightarrow> plain_result r"
  "approveOwnerGrant a ctx p d s = Inr (r, t) \<Longrightarrow> plain_result r"
  by (auto simp: assignOperatorRole_def requestOwnerGrant_def approveOwnerGrant_def Let_def)

interpretation assign_role: command_handler "operatorAuthorize a ''roles:assign''" "assignOperatorRole a" for a
  by unfold_locales (auto simp: operatorAuthorize_def role_command_frames role_command_results dest: authorize_state)

interpretation request_owner: command_handler "operatorAuthorize a ''roles:assign''" "operatorHandle a ''roles:assign'' (requestOwnerGrant a)" for a
  by unfold_locales
    (auto simp: operatorAuthorize_def role_command_frames role_command_results dest: authorize_state dest!: operatorHandle_Inr)

interpretation approve_owner: command_handler "operatorAuthorize a ''roles:assign''" "operatorHandle a ''roles:assign'' (approveOwnerGrant a)" for a
  by unfold_locales
    (auto simp: operatorAuthorize_def role_command_frames role_command_results dest: authorize_state dest!: operatorHandle_Inr)

section \<open>A sample desk\<close>

definition person :: "char \<Rightarrow> string" where
  "person c = ''00000000-0000-7000-8000-00000000000'' @ [c]"

definition sample_actor :: "char \<Rightarrow> operator_actor" where
  "sample_actor c = \<lparr>op_userId = person c, op_sessionId = [c]\<rparr>"

definition sample_session :: "char \<Rightarrow> session_row" where
  "sample_session c = \<lparr>ss_id = [c], ss_user = person c, ss_surface = OPERATOR_SURFACE, ss_created = 0, ss_expires = 9000\<rparr>"

definition sample_user :: "char \<Rightarrow> user_row" where
  "sample_user c = \<lparr>us_id = person c, us_surface = OPERATOR_SURFACE, us_status = ACTIVE_USER, us_two_factor = True\<rparr>"

definition sample_request :: role_request_row where
  "sample_request = \<lparr>rq_id = person CHR ''9'', rq_target = person CHR ''3'', rq_reason = ''covers weekends'', rq_requested_by = person CHR ''1'',
     rq_session = ''1'', rq_expires = 5000, rq_status = RQ_PENDING, rq_decided_by = None, rq_decided_at = None, rq_note = None\<rparr>"

text \<open>Two owners, the persons 1 and 2, who just gave their codes; 1 has asked for person 3 to become one.\<close>

definition sample_desk :: identity_db where
  "sample_desk = \<lparr>clock = 1000, uuidv7 = (\<lambda>n. person CHR ''a''), uuids = 0, tx_rank = - 1,
     audit_event = [], audit_seal = [], outbox_event = [], outbox_delivery = [], idempotency_key = [], rate_limit_counter = [],
     auth_user = map sample_user [CHR ''1'', CHR ''2'', CHR ''3''],
     auth_session = map sample_session [CHR ''1'', CHR ''2'', CHR ''3''], session_activity = [],
     step_up_verification = [(''1'', 900), (''2'', 900)],
     operator_user_role = [\<lparr>rr_user = person CHR ''1'', rr_role = ''OWNER'', rr_granted_by = ''bootstrap''\<rparr>,
       \<lparr>rr_user = person CHR ''2'', rr_role = ''OWNER'', rr_granted_by = ''bootstrap''\<rparr>],
     operator_permission_grant = [], operator_role_request = [sample_request]\<rparr>"

definition run_or :: "'s \<Rightarrow> ('s, 'a) cmd \<Rightarrow> 's" where
  "run_or s m = (case m s of Inl e \<Rightarrow> s | Inr (x, t) \<Rightarrow> t)"

lemma run_or_eq: "(case m s of Inl e \<Rightarrow> False | Inr (x, t) \<Rightarrow> True) \<Longrightarrow> \<exists>x. m s = Inr (x, run_or s m)"
  by (auto simp: run_or_def split: sum.splits prod.splits)

definition sample_approval :: "(identity_db, js) cmd" where
  "sample_approval = operatorHandle (sample_actor CHR ''2'') ''roles:assign'' (approveOwnerGrant (sample_actor CHR ''2'')) sample_ctx
     (JObj [(''requestId'', JStr (person CHR ''9''))])"

lemma desk_user_ok: "user_ok (person CHR ''1'') sample_desk" "session_ok (sample_actor CHR ''1'') sample_desk"
    "hasFreshStepUp ''1'' STEP_UP_MAX_AGE_SECONDS sample_desk" "fst (loadOperatorGrants (person CHR ''1'') sample_desk) = [OWNER]"
  by code_simp+

lemma authorization_sample: "authorizeOperator (sample_actor CHR ''1'') ''adjustment:approve'' sample_desk =
    Inr (\<lparr>dc_permission = ''adjustment:approve'', dc_requirement = STEP_UP_SECOND_APPROVER, dc_second = True\<rparr>, sample_desk)"
proof -
  have "effectiveRequirement ''adjustment:approve'' [OWNER] g = STEP_UP_SECOND_APPROVER" for g
  proof -
    have "best_of_roles ''adjustment:approve'' [OWNER] = STEP_UP_SECOND_APPROVER" by code_simp
    then show ?thesis by (simp add: effectiveRequirement_def)
  qed
  then show ?thesis using desk_user_ok by (simp add: authorize_run sample_actor_def)
qed

theorem second_approver_not_bypassed_witness:
  "assertSecondApprover \<lparr>dc_permission = ''adjustment:approve'', dc_requirement = STEP_UP_SECOND_APPROVER, dc_second = True\<rparr>
     (person CHR ''1'') (person CHR ''1'') = Inl (CoreError SECOND_APPROVER_REQUIRED)"
proof -
  have role: "permission_requirement ''adjustment:approve'' OWNER = STEP_UP_SECOND_APPROVER" by code_simp
  have "authorizeOperator (sample_actor CHR ''1'') ''adjustment:approve'' sample_desk =
      Inr (\<lparr>dc_permission = ''adjustment:approve'', dc_requirement = STEP_UP_SECOND_APPROVER, dc_second = True\<rparr>, sample_desk)"
    by (simp add: authorization_sample)
  from second_approver_not_bypassed[OF role this, of "person CHR ''1''"] show ?thesis by (simp add: sample_actor_def)
qed


definition sample_assign :: command_request where
  "sample_assign = \<lparr>cr_name = ''identity.assign_role'', cr_actor = ctx_actor sample_ctx,
     cr_payload = JObj [(''targetUserId'', JStr (person CHR ''3'')), (''role'', JStr ''DEALER'')],
     cr_key = Some ''k1'', cr_correlation = ''c1'', cr_financial = True\<rparr>"

definition run_assign :: "identity_db \<Rightarrow> command_outcome result \<times> identity_db" where
  "run_assign = executeCommand (\<lambda>t. []) (operatorAuthorize (sample_actor CHR ''1'') ''roles:assign'') (assignOperatorRole (sample_actor CHR ''1'')) sample_assign"

text \<open>The same assignment sent twice: the second time nothing is granted and the first answer comes back.\<close>

theorem command_replay_witness:
  "fst (run_assign (snd (run_assign sample_desk))) =
     Inr \<lparr>co_result = JObj [(''granted'', JBool True)], co_replayed = True, co_correlation = ''c1''\<rparr> \<and>
   length (operator_user_role (snd (run_assign (snd (run_assign sample_desk))))) = 3"
proof -
  let ?after = "snd (run_assign sample_desk)"
  have out: "fst (run_assign sample_desk) = Inr \<lparr>co_result = JObj [(''granted'', JBool True)], co_replayed = False, co_correlation = ''c1''\<rparr>"
    by code_simp
  then have run: "run_assign sample_desk = (Inr \<lparr>co_result = JObj [(''granted'', JBool True)], co_replayed = False, co_correlation = ''c1''\<rparr>, ?after)"
    by (simp add: prod_eq_iff)
  have key: "truthy_key sample_assign = Some ''k1''" by code_simp
  have auth: "case authorizeOperator (sample_actor CHR ''1'') ''roles:assign'' (?after\<lparr>tx_rank := - 1\<rparr>) of Inl e \<Rightarrow> False | Inr y \<Rightarrow> True"
    by code_simp
  then obtain d where "authorizeOperator (sample_actor CHR ''1'') ''roles:assign'' (?after\<lparr>tx_rank := - 1\<rparr>) = Inr (d, ?after\<lparr>tx_rank := - 1\<rparr>)"
    by (auto split: sum.splits dest: authorize_state)
  then have passes: "operatorAuthorize (sample_actor CHR ''1'') ''roles:assign'' c p (?after\<lparr>tx_rank := - 1\<rparr>) = Inr ((), ?after\<lparr>tx_rank := - 1\<rparr>)" for c p
    by (simp add: operatorAuthorize_def)
  have "run_assign ?after = (Inr \<lparr>co_result = JObj [(''granted'', JBool True)], co_replayed = True, co_correlation = ''c1''\<rparr>, ?after\<lparr>tx_rank := - 1\<rparr>)"
    using command_replay[OF assign_role.command_handler_axioms key run[unfolded run_assign_def] _ key refl refl refl refl] passes
    by (simp add: run_assign_def sample_assign_def)
  moreover have "length (operator_user_role ?after) = 3" by code_simp
  ultimately show ?thesis by simp
qed

end
