(* ===== verification/Ledger.thy ===== *)
theory Ledger
  imports Identity "HOL-Library.AList"
begin

text \<open>
  The double-entry ledger (\<^verbatim>\<open>packages/ledger/src/accounts.ts\<close>, \<^verbatim>\<open>posting.ts\<close>, \<^verbatim>\<open>balances.ts\<close>): the chart of
  accounts, posting and reversing journals, and the balances. The tables are append-only lists; the two unique
  indexes the code catches are part of the insert. Amounts are unbounded integers of minor units.
\<close>

section \<open>Tables\<close>

datatype account_type = ASSET | LIAB | REVENUE | EXPENSE | SUSPENSE

datatype side = DR | CR

record account_ref =
  ar_code :: string
  ar_type :: account_type
  ar_currency :: currency

record account_row =
  la_id :: string
  la_code :: string
  la_type :: account_type
  la_currency :: currency

record journal_row =
  lj_id :: string
  lj_posting_key :: string
  lj_event_type :: string
  lj_trade :: "string option"
  lj_correlation :: string
  lj_idempotency :: string
  lj_posted_by :: string
  lj_reverses :: "string option"

record entry_row =
  le_journal :: string
  le_account :: string
  le_currency :: currency
  le_direction :: side
  le_amount :: int
  le_trade :: "string option"
  le_obligation :: "string option"

record ledger_db = identity_db +
  ledger_account :: "account_row list"
  ledger_journal :: "journal_row list"
  ledger_entry :: "entry_row list"

section \<open>The chart of accounts\<close>

definition type_name :: "account_type \<Rightarrow> string" where
  "type_name t = (case t of ASSET \<Rightarrow> ''ASSET'' | LIAB \<Rightarrow> ''LIAB'' | REVENUE \<Rightarrow> ''REVENUE'' | EXPENSE \<Rightarrow> ''EXPENSE''
     | SUSPENSE \<Rightarrow> ''SUSPENSE'')"

definition account_sub :: "account_type \<Rightarrow> string \<Rightarrow> string option \<Rightarrow> currency \<Rightarrow> account_ref result" where
  "account_sub prefix name i c =
     (case i of
        None \<Rightarrow> Inr \<lparr>ar_code = type_name prefix @ '':'' @ name, ar_type = prefix, ar_currency = c\<rparr>
      | Some i \<Rightarrow> if \<not> isUuid i then Inl (CoreError INVALID_ARGUMENT)
          else Inr \<lparr>ar_code = type_name prefix @ '':'' @ name @ '':'' @ i, ar_type = prefix, ar_currency = c\<rparr>)"

definition inrSettlement :: "string \<Rightarrow> account_ref result" where
  "inrSettlement inrAccountId = account_sub ASSET ''INR_SETTLEMENT'' (Some inrAccountId) INR"
definition treasuryUsdt :: "string \<Rightarrow> account_ref result" where
  "treasuryUsdt walletId = account_sub ASSET ''TREASURY_USDT'' (Some walletId) USDT"
definition clientReceivable :: "string \<Rightarrow> currency \<Rightarrow> account_ref result" where
  "clientReceivable clientId c = account_sub ASSET ''CLIENT_RECEIVABLE'' (Some clientId) c"
definition clientPayable :: "string \<Rightarrow> currency \<Rightarrow> account_ref result" where
  "clientPayable clientId c = account_sub LIAB ''CLIENT_PAYABLE'' (Some clientId) c"
definition routeReceivable :: "string \<Rightarrow> currency \<Rightarrow> account_ref result" where
  "routeReceivable routeId c = account_sub ASSET ''ROUTE_RECEIVABLE'' (Some routeId) c"
definition routePayable :: "string \<Rightarrow> currency \<Rightarrow> account_ref result" where
  "routePayable routeId c = account_sub LIAB ''ROUTE_PAYABLE'' (Some routeId) c"
definition routePrefund :: "string \<Rightarrow> currency \<Rightarrow> account_ref result" where
  "routePrefund routeId c = account_sub ASSET ''ROUTE_PREFUND'' (Some routeId) c"
definition deferredMargin :: "currency \<Rightarrow> account_ref result" where
  "deferredMargin c = account_sub LIAB ''DEFERRED_MARGIN'' None c"
definition grossMargin :: "currency \<Rightarrow> account_ref result" where
  "grossMargin c = account_sub REVENUE ''GROSS_MARGIN'' None c"
definition platformFee :: "account_ref result" where
  "platformFee = account_sub REVENUE ''PLATFORM_FEE'' None USDT"
definition feesAccount :: "currency \<Rightarrow> account_ref result" where
  "feesAccount c = account_sub EXPENSE ''FEES'' None c"
definition suspenseUnallocated :: "currency \<Rightarrow> account_ref result" where
  "suspenseUnallocated c = account_sub SUSPENSE ''UNALLOCATED'' None c"
definition traderReserve :: "string \<Rightarrow> account_ref result" where
  "traderReserve traderId = account_sub LIAB ''TRADER_RESERVE'' (Some traderId) USDT"
definition traderRewardPayable :: "string \<Rightarrow> account_ref result" where
  "traderRewardPayable traderId = account_sub LIAB ''TRADER_REWARD_PAYABLE'' (Some traderId) INR"
definition traderRewards :: "account_ref result" where
  "traderRewards = account_sub EXPENSE ''TRADER_REWARDS'' None INR"
definition networkFees :: "account_ref result" where
  "networkFees = account_sub EXPENSE ''NETWORK_FEES'' None INR"

lemmas account_defs = inrSettlement_def treasuryUsdt_def clientReceivable_def clientPayable_def routeReceivable_def
  routePayable_def routePrefund_def deferredMargin_def grossMargin_def platformFee_def feesAccount_def
  suspenseUnallocated_def traderReserve_def traderRewardPayable_def traderRewards_def networkFees_def

section \<open>Resolving accounts\<close>

definition account_key :: "string \<Rightarrow> currency \<Rightarrow> string" where
  "account_key code c = code @ ''|'' @ currency_code c"

definition unique_refs :: "account_ref list \<Rightarrow> (string \<times> account_ref) list" where
  "unique_refs refs = fold (\<lambda>r m. AList.update (account_key (ar_code r) (ar_currency r)) r m) refs []"

definition has_account :: "string \<Rightarrow> currency \<Rightarrow> 'x ledger_db_scheme \<Rightarrow> bool" where
  "has_account code c s = list_ex (\<lambda>a. la_code a = code \<and> la_currency a = c) (ledger_account s)"

text \<open>One row of \<^verbatim>\<open>INSERT ... ON CONFLICT (code, currency) DO NOTHING\<close>.\<close>

definition insert_account :: "account_ref \<Rightarrow> ('x ledger_db_scheme, unit) cmd" where
  "insert_account r = (\<lambda>s.
     if has_account (ar_code r) (ar_currency r) s then Inr ((), s)
     else Inr ((), s\<lparr>uuids := Suc (uuids s), ledger_account := ledger_account s @
       [\<lparr>la_id = uuidv7 s (uuids s), la_code = ar_code r, la_type = ar_type r, la_currency = ar_currency r\<rparr>]\<rparr>))"

definition account_ids :: "string list \<Rightarrow> 'x ledger_db_scheme \<Rightarrow> (string \<times> string) list" where
  "account_ids codes s = fold (\<lambda>a m. AList.update (account_key (la_code a) (la_currency a)) (la_id a) m)
     (filter (\<lambda>a. la_code a \<in> set codes) (ledger_account s)) []"

definition resolveAccountIds :: "account_ref list \<Rightarrow> ('x ledger_db_scheme, (string \<times> string) list) cmd" where
  "resolveAccountIds refs =
     (let unique = unique_refs refs; values = map snd unique
      in if values = [] then returnC []
         else bindC (forC values insert_account) (\<lambda>_.
              bindC (readC (account_ids (map ar_code values))) (\<lambda>out.
              bindC (unlessC (list_all (\<lambda>k. map_of out k \<noteq> None) (map fst unique)) (CoreError INVALID_ARGUMENT)) (\<lambda>_.
              returnC out))))"

definition findAccountId :: "account_ref \<Rightarrow> 'x ledger_db_scheme \<Rightarrow> string option" where
  "findAccountId r s = map_option la_id
     (List.find (\<lambda>a. la_code a = ar_code r \<and> la_currency a = ar_currency r) (ledger_account s))"

section \<open>Posting\<close>

record entry_input =
  en_account :: account_ref
  en_direction :: side
  en_amount :: money
  en_obligation :: "string option"

record journal_input =
  ji_posting_key :: string
  ji_event_type :: string
  ji_trade :: "string option"
  ji_entries :: "entry_input list"

record posted_journal =
  pj_id :: string
  pj_posting_key :: string

definition signed :: "side \<Rightarrow> int \<Rightarrow> int" where
  "signed d m = (if d = DR then m else - m)"

fun entry_sums :: "entry_input list \<Rightarrow> (currency \<times> int) list \<Rightarrow> (currency \<times> int) list result" where
  "entry_sums [] sums = Inr sums"
| "entry_sums (e # es) sums =
     (if \<not> isPositive (en_amount e) then Inl (CoreError INVALID_AMOUNT)
      else if currency (en_amount e) \<noteq> ar_currency (en_account e) then Inl (CoreError CURRENCY_MISMATCH)
      else entry_sums es (AList.update (currency (en_amount e))
        ((case map_of sums (currency (en_amount e)) of None \<Rightarrow> 0 | Some v \<Rightarrow> v) + signed (en_direction e) (minor (en_amount e))) sums))"

definition assertBalanced :: "entry_input list \<Rightarrow> unit result" where
  "assertBalanced entries =
     (if length entries < 2 then Inl (CoreError EMPTY_JOURNAL)
      else bindR (entry_sums entries []) (\<lambda>sums.
        throwUnless (filter (\<lambda>(c, v). v \<noteq> 0) sums = []) (CoreError UNBALANCED_JOURNAL)))"

definition insert_journal_row :: "tx_ctx \<Rightarrow> journal_input \<Rightarrow> string option \<Rightarrow> string \<Rightarrow> ('x ledger_db_scheme, string) cmd" where
  "insert_journal_row ctx j reverses idem = (\<lambda>s.
     if list_ex (\<lambda>r. lj_posting_key r = ji_posting_key j) (ledger_journal s) then Inl (CoreError DUPLICATE_POSTING_KEY)
     else if reverses \<noteq> None \<and> list_ex (\<lambda>r. lj_reverses r = reverses) (ledger_journal s) then Inl (CoreError JOURNAL_ALREADY_REVERSED)
     else let i = uuidv7 s (uuids s)
       in Inr (i, s\<lparr>uuids := Suc (uuids s), ledger_journal := ledger_journal s @
         [\<lparr>lj_id = i, lj_posting_key = ji_posting_key j, lj_event_type = ji_event_type j, lj_trade = ji_trade j,
           lj_correlation = ctx_correlation ctx, lj_idempotency = idem, lj_posted_by = actor_or_command ctx,
           lj_reverses = reverses\<rparr>]\<rparr>))"

definition entry_row_of :: "(string \<times> string) list \<Rightarrow> string \<Rightarrow> string option \<Rightarrow> entry_input \<Rightarrow> entry_row" where
  "entry_row_of ids journal trade e =
     \<lparr>le_journal = journal, le_account = the (map_of ids (account_key (ar_code (en_account e)) (ar_currency (en_account e)))),
      le_currency = currency (en_amount e), le_direction = en_direction e, le_amount = minor (en_amount e),
      le_trade = trade, le_obligation = en_obligation e\<rparr>"

definition insertJournal :: "tx_ctx \<Rightarrow> journal_input \<Rightarrow> string option \<Rightarrow> ('x ledger_db_scheme, posted_journal) cmd" where
  "insertJournal ctx input reverses =
     (case ctx_idempotencyKey ctx of
        None \<Rightarrow> throwC (CoreError IDEMPOTENCY_KEY_REQUIRED)
      | Some idem \<Rightarrow>
        if idem = [] then throwC (CoreError IDEMPOTENCY_KEY_REQUIRED)
        else
          bindC (liftC (assertBalanced (ji_entries input))) (\<lambda>_.
          bindC (resolveAccountIds (map en_account (ji_entries input))) (\<lambda>ids.
          bindC (insert_journal_row ctx input reverses idem) (\<lambda>i.
          bindC (writeC (\<lambda>s. s\<lparr>ledger_entry := ledger_entry s @ map (entry_row_of ids i (ji_trade input)) (ji_entries input)\<rparr>)) (\<lambda>_.
          returnC \<lparr>pj_id = i, pj_posting_key = ji_posting_key input\<rparr>)))))"

definition postJournal :: "tx_ctx \<Rightarrow> journal_input \<Rightarrow> ('x ledger_db_scheme, posted_journal) cmd" where
  "postJournal ctx input = insertJournal ctx input None"

section \<open>Reversing\<close>

record reverse_args =
  rv_original :: string
  rv_posting_key :: string
  rv_event_type :: string

definition flip_side :: "side \<Rightarrow> side" where
  "flip_side d = (if d = DR then CR else DR)"

text \<open>The join of an entry with its account: nothing when the account does not exist.\<close>

definition account_of :: "'x ledger_db_scheme \<Rightarrow> entry_row \<Rightarrow> account_row option" where
  "account_of s e = List.find (\<lambda>a. la_id a = le_account e) (ledger_account s)"

definition mirror_entries :: "'x ledger_db_scheme \<Rightarrow> string \<Rightarrow> entry_input list" where
  "mirror_entries s journal = concat (map (\<lambda>e. case account_of s e of
      None \<Rightarrow> []
    | Some a \<Rightarrow> [\<lparr>en_account = \<lparr>ar_code = la_code a, ar_type = la_type a, ar_currency = le_currency e\<rparr>,
        en_direction = flip_side (le_direction e), en_amount = ofMinor (le_amount e) (le_currency e),
        en_obligation = le_obligation e\<rparr>])
    (filter (\<lambda>e. le_journal e = journal) (ledger_entry s)))"

definition reverseJournal :: "tx_ctx \<Rightarrow> reverse_args \<Rightarrow> ('x ledger_db_scheme, posted_journal) cmd" where
  "reverseJournal ctx args =
     bindC (readC (\<lambda>s. List.find (\<lambda>r. lj_posting_key r = rv_original args) (ledger_journal s))) (\<lambda>found.
     bindC (foundC (CoreError JOURNAL_NOT_FOUND) found) (\<lambda>original.
     bindC (unlessC (lj_reverses original = None) (CoreError REVERSAL_OF_REVERSAL)) (\<lambda>_.
     bindC (readC (\<lambda>s. List.find (\<lambda>r. lj_reverses r = Some (lj_id original)) (ledger_journal s))) (\<lambda>already.
     bindC (unlessC (already = None) (CoreError JOURNAL_ALREADY_REVERSED)) (\<lambda>_.
     bindC (readC (\<lambda>s. mirror_entries s (lj_id original))) (\<lambda>entries.
     insertJournal ctx \<lparr>ji_posting_key = rv_posting_key args, ji_event_type = rv_event_type args,
       ji_trade = lj_trade original, ji_entries = entries\<rparr> (Some (lj_id original))))))))"

section \<open>Balances\<close>

definition entry_net :: "entry_row list \<Rightarrow> int" where
  "entry_net es = (\<Sum>e\<leftarrow>es. signed (le_direction e) (le_amount e))"

definition entry_on :: "'x ledger_db_scheme \<Rightarrow> string \<Rightarrow> currency \<Rightarrow> entry_row \<Rightarrow> bool" where
  "entry_on s code c e = (case account_of s e of None \<Rightarrow> False | Some a \<Rightarrow> la_code a = code \<and> la_currency a = c)"

definition accountBalance :: "account_ref \<Rightarrow> 'x ledger_db_scheme \<Rightarrow> int" where
  "accountBalance r s =
     (if has_account (ar_code r) (ar_currency r) s
      then entry_net (filter (entry_on s (ar_code r) (ar_currency r)) (ledger_entry s)) else 0)"

record balance_row =
  br_code :: string
  br_currency :: currency
  br_net :: int

text \<open>\<^verbatim>\<open>GROUP BY code, currency HAVING sum <> 0 ORDER BY code, currency\<close> over the chosen entries.\<close>

definition grouped_balances :: "(entry_row \<Rightarrow> bool) \<Rightarrow> 'x ledger_db_scheme \<Rightarrow> balance_row list" where
  "grouped_balances chosen s =
     (let rows = concat (map (\<lambda>e. case account_of s e of None \<Rightarrow> [] | Some a \<Rightarrow> [(la_code a, e)]) (filter chosen (ledger_entry s)));
          groups = sort_key (\<lambda>(code, c). (code @ [char_of (0::nat)] @ currency_code c)) (remdups (map (\<lambda>(code, e). (code, le_currency e)) rows));
          totals = map (\<lambda>(code, c). \<lparr>br_code = code, br_currency = c,
            br_net = entry_net (map snd (filter (\<lambda>(k, e). k = code \<and> le_currency e = c) rows))\<rparr>) groups
      in filter (\<lambda>b. br_net b \<noteq> 0) totals)"

definition tradeBalances :: "string \<Rightarrow> 'x ledger_db_scheme \<Rightarrow> balance_row list" where
  "tradeBalances t s = grouped_balances (\<lambda>e. le_trade e = Some t) s"

definition routeObligationBalances :: "string \<Rightarrow> 'x ledger_db_scheme \<Rightarrow> balance_row list" where
  "routeObligationBalances ro s = grouped_balances (\<lambda>e. le_obligation e = Some ro) s"

definition globalImbalance :: "'x ledger_db_scheme \<Rightarrow> balance_row list" where
  "globalImbalance s = filter (\<lambda>b. br_net b \<noteq> 0)
     (map (\<lambda>c. \<lparr>br_code = ''*'', br_currency = c, br_net = entry_net (filter (\<lambda>e. le_currency e = c) (ledger_entry s))\<rparr>)
       (remdups (map le_currency (ledger_entry s))))"

section \<open>Lemmas: resolving accounts\<close>

lemma account_key_inj [simp]: "account_key a c = account_key b d \<longleftrightarrow> a = b \<and> c = d"
proof
  assume eq: "account_key a c = account_key b d"
  then have "last (account_key a c) = last (account_key b d)" by simp
  then have "c = d" by (cases c; cases d) (simp_all add: account_key_def currency_code_def)
  with eq show "a = b \<and> c = d" by (simp add: account_key_def)
qed simp

lemma map_of_fold_update:
  "map_of (fold (\<lambda>x m. AList.update (f x) (g x) m) xs m0) k =
    (case List.find (\<lambda>x. f x = k) (rev xs) of Some x \<Rightarrow> Some (g x) | None \<Rightarrow> map_of m0 k)"
proof (induction xs rule: rev_induct)
  case (snoc x xs)
  then show ?case by (simp add: update_conv')
qed simp

lemma keys_fold_update:
  "fst ` set (fold (\<lambda>x m. AList.update (f x) (g x) m) xs m0) = fst ` set m0 \<union> f ` set xs"
  by (induction xs arbitrary: m0) (auto simp: dom_update)

lemma set_update_subset: "set (AList.update k v al) \<subseteq> insert (k, v) (set al)"
  by (induction al) auto

lemma all_fold_update:
  "\<forall>p \<in> set m0. P p \<Longrightarrow> \<forall>x \<in> set xs. P (f x, g x) \<Longrightarrow> \<forall>p \<in> set (fold (\<lambda>x m. AList.update (f x) (g x) m) xs m0). P p"
proof (induction xs arbitrary: m0)
  case (Cons x xs)
  have "\<forall>p \<in> set (AList.update (f x) (g x) m0). P p" using Cons.prems set_update_subset[of "f x" "g x" m0] by auto
  with Cons show ?case by simp
qed simp

definition fresh_ids :: "'x ledger_db_scheme \<Rightarrow> bool" where
  "fresh_ids s \<longleftrightarrow> inj (uuidv7 s)"

definition given_id :: "'x ledger_db_scheme \<Rightarrow> string \<Rightarrow> bool" where
  "given_id s i \<longleftrightarrow> (\<exists>n < uuids s. i = uuidv7 s n)"

definition accounts_ok :: "'x ledger_db_scheme \<Rightarrow> bool" where
  "accounts_ok s \<longleftrightarrow> fresh_ids s \<and> (\<forall>a \<in> set (ledger_account s). given_id s (la_id a)) \<and>
     distinct (map la_id (ledger_account s)) \<and> distinct (map (\<lambda>a. (la_code a, la_currency a)) (ledger_account s))"

text \<open>What a posting may do to the accounts: add rows at the end.\<close>

definition accounts_grow :: "'x ledger_db_scheme \<Rightarrow> account_row list \<Rightarrow> 'x ledger_db_scheme \<Rightarrow> bool" where
  "accounts_grow s new t \<longleftrightarrow> t = s\<lparr>uuids := uuids s + length new, ledger_account := ledger_account s @ new\<rparr>"

lemma accounts_grow_trans: "accounts_grow s xs t \<Longrightarrow> accounts_grow t ys u \<Longrightarrow> accounts_grow s (xs @ ys) u"
  by (simp add: accounts_grow_def)

lemma given_id_mono: "given_id s i \<Longrightarrow> uuidv7 t = uuidv7 s \<Longrightarrow> uuids s \<le> uuids t \<Longrightarrow> given_id t i"
  by (auto simp: given_id_def intro: order_less_le_trans)

lemma accounts_ok_cong:
  assumes "accounts_ok s" "ledger_account t = ledger_account s" "uuidv7 t = uuidv7 s" "uuids s \<le> uuids t"
  shows "accounts_ok t"
  using assms given_id_mono[OF _ assms(3,4)] by (auto simp: accounts_ok_def fresh_ids_def)

lemma next_id_new: "fresh_ids s \<Longrightarrow> \<not> given_id s (uuidv7 s (uuids s + n))"
  by (auto simp: given_id_def fresh_ids_def dest: injD)

lemma insert_account_ok:
  assumes "accounts_ok s"
  shows "\<exists>new t. insert_account r s = Inr ((), t) \<and> accounts_grow s new t \<and> accounts_ok t \<and> has_account (ar_code r) (ar_currency r) t"
proof (cases "has_account (ar_code r) (ar_currency r) s")
  case True
  with assms show ?thesis by (intro exI[of _ "[]"]) (simp add: insert_account_def accounts_grow_def)
next
  case False
  let ?a = "\<lparr>la_id = uuidv7 s (uuids s), la_code = ar_code r, la_type = ar_type r, la_currency = ar_currency r\<rparr>"
  let ?t = "s\<lparr>uuids := Suc (uuids s), ledger_account := ledger_account s @ [?a]\<rparr>"
  have "uuidv7 s (uuids s) \<notin> la_id ` set (ledger_account s)"
    using assms next_id_new[of s 0] by (auto simp: accounts_ok_def)
  moreover have "(ar_code r, ar_currency r) \<notin> (\<lambda>a. (la_code a, la_currency a)) ` set (ledger_account s)"
    using False by (auto simp: has_account_def list_ex_iff)
  moreover have "given_id ?t (la_id a)" if "a \<in> set (ledger_account ?t)" for a
    using that assms by (auto simp: accounts_ok_def given_id_def intro: less_SucI)
  ultimately have "accounts_ok ?t" using assms by (auto simp: accounts_ok_def fresh_ids_def)
  with False show ?thesis
    by (intro exI[of _ "[?a]"] exI[of _ ?t]) (simp add: insert_account_def accounts_grow_def has_account_def)
qed

lemma has_account_grow: "has_account code c s \<Longrightarrow> accounts_grow s new t \<Longrightarrow> has_account code c t"
  by (simp add: has_account_def accounts_grow_def)

lemma insert_accounts_ok:
  assumes "accounts_ok s"
  shows "\<exists>new t. forC rs insert_account s = Inr ((), t) \<and> accounts_grow s new t \<and> accounts_ok t \<and>
    (\<forall>r \<in> set rs. has_account (ar_code r) (ar_currency r) t)"
  using assms
proof (induction rs arbitrary: s)
  case Nil
  then show ?case by (intro exI[of _ "[]"]) (simp add: accounts_grow_def)
next
  case (Cons r rs)
  from insert_account_ok[OF Cons.prems] obtain n1 t1 where
    one: "insert_account r s = Inr ((), t1)" "accounts_grow s n1 t1" "accounts_ok t1" "has_account (ar_code r) (ar_currency r) t1"
    by blast
  from Cons.IH[OF one(3)] obtain n2 t2 where
    two: "forC rs insert_account t1 = Inr ((), t2)" "accounts_grow t1 n2 t2" "accounts_ok t2"
      "\<forall>r \<in> set rs. has_account (ar_code r) (ar_currency r) t2" by blast
  show ?case using one two
    by (intro exI[of _ "n1 @ n2"] exI[of _ t2]) (auto intro: accounts_grow_trans has_account_grow)
qed

lemma unique_refs_keys: "fst ` set (unique_refs refs) = (\<lambda>r. account_key (ar_code r) (ar_currency r)) ` set refs"
  by (simp add: unique_refs_def keys_fold_update)

lemma unique_refs_pair:
  "\<forall>p \<in> set (unique_refs refs). snd p \<in> set refs \<and> fst p = account_key (ar_code (snd p)) (ar_currency (snd p))"
  unfolding unique_refs_def by (rule all_fold_update) simp_all

lemma find_rev_mem: "(\<exists>x \<in> set xs. P x) \<Longrightarrow> \<exists>x. List.find P (rev xs) = Some x \<and> x \<in> set xs \<and> P x"
  by (cases "List.find P (rev xs)") (auto simp: find_None_not_mem dest: find_Some_mem)

definition row_for :: "'x ledger_db_scheme \<Rightarrow> string \<Rightarrow> currency \<Rightarrow> string \<Rightarrow> bool" where
  "row_for s code c i \<longleftrightarrow> (\<exists>a \<in> set (ledger_account s). la_code a = code \<and> la_currency a = c \<and> la_id a = i)"

lemma account_ids_lookup:
  assumes "has_account code c s" "code \<in> set codes"
  shows "\<exists>i. map_of (account_ids codes s) (account_key code c) = Some i \<and> row_for s code c i"
proof -
  let ?xs = "filter (\<lambda>a. la_code a \<in> set codes) (ledger_account s)"
  let ?P = "\<lambda>a. account_key (la_code a) (la_currency a) = account_key code c"
  have "\<exists>a \<in> set ?xs. ?P a" using assms by (auto simp: has_account_def list_ex_iff)
  from find_rev_mem[OF this] obtain a where "List.find ?P (rev ?xs) = Some a" "a \<in> set ?xs" "?P a" by blast
  then show ?thesis unfolding account_ids_def map_of_fold_update by (auto simp: row_for_def)
qed

lemma resolve_ok:
  assumes "accounts_ok s"
  shows "\<exists>ids new t. resolveAccountIds refs s = Inr (ids, t) \<and> accounts_grow s new t \<and> accounts_ok t \<and>
    (\<forall>r \<in> set refs. row_for t (ar_code r) (ar_currency r) (the (map_of ids (account_key (ar_code r) (ar_currency r)))))"
proof (cases "map snd (unique_refs refs) = []")
  case True
  then have "unique_refs refs = []" by simp
  then have "refs = []" using unique_refs_keys[of refs] by auto
  then show ?thesis using assms
    by (intro exI[of _ "[]"] exI[of _ s]) (simp add: resolveAccountIds_def unique_refs_def accounts_grow_def)
next
  case False
  let ?vs = "map snd (unique_refs refs)"
  from insert_accounts_ok[OF assms, of ?vs] obtain new t where
    ins: "forC ?vs insert_account s = Inr ((), t)" "accounts_grow s new t" "accounts_ok t"
    and has: "\<forall>r \<in> set ?vs. has_account (ar_code r) (ar_currency r) t" by blast
  let ?ids = "account_ids (map ar_code ?vs) t"
  have found: "\<exists>i. map_of ?ids k = Some i \<and> row_for t (ar_code r) (ar_currency r) i"
    if "(k, r) \<in> set (unique_refs refs)" for k r
    using that has unique_refs_pair[of refs] account_ids_lookup[of "ar_code r" "ar_currency r" t "map ar_code ?vs"]
    by (force simp: image_iff)
  have check: "list_all (\<lambda>k. map_of ?ids k \<noteq> None) (map fst (unique_refs refs))"
    using found by (fastforce simp: list_all_iff)
  have "row_for t (ar_code r) (ar_currency r) (the (map_of ?ids (account_key (ar_code r) (ar_currency r))))"
    if "r \<in> set refs" for r
  proof -
    from that unique_refs_keys[of refs] obtain r' where
      in': "(account_key (ar_code r) (ar_currency r), r') \<in> set (unique_refs refs)" by (metis (no_types, lifting) fst_conv imageE image_eqI surj_pair)
    with unique_refs_pair[of refs] have "ar_code r' = ar_code r \<and> ar_currency r' = ar_currency r" by fastforce
    with found[OF in'] show ?thesis by auto
  qed
  with False check ins show ?thesis
    by (intro exI[of _ ?ids] exI[of _ new] exI[of _ t]) (simp add: resolveAccountIds_def Let_def bindC_run)
qed

section \<open>Lemmas: balanced entries\<close>

definition inputs_net :: "entry_input list \<Rightarrow> currency \<Rightarrow> int" where
  "inputs_net es c = (\<Sum>e\<leftarrow>es. if currency (en_amount e) = c then signed (en_direction e) (minor (en_amount e)) else 0)"

definition entry_valid :: "entry_input \<Rightarrow> bool" where
  "entry_valid e \<longleftrightarrow> 0 < minor (en_amount e) \<and> currency (en_amount e) = ar_currency (en_account e)"

definition balanced :: "entry_input list \<Rightarrow> bool" where
  "balanced es \<longleftrightarrow> 2 \<le> length es \<and> list_all entry_valid es \<and> (\<forall>c. inputs_net es c = 0)"

lemma inputs_net_simps [simp]:
  "inputs_net [] c = 0"
  "inputs_net (e # es) c = (if currency (en_amount e) = c then signed (en_direction e) (minor (en_amount e)) else 0) + inputs_net es c"
  "inputs_net (xs @ ys) c = inputs_net xs c + inputs_net ys c"
  by (simp_all add: inputs_net_def)

definition value_or_0 :: "('k \<times> int) list \<Rightarrow> 'k \<Rightarrow> int" where
  "value_or_0 m k = (case map_of m k of None \<Rightarrow> 0 | Some v \<Rightarrow> v)"

lemma value_or_0_update [simp]: "value_or_0 (AList.update k v m) j = (if j = k then v else value_or_0 m j)"
  by (auto simp: value_or_0_def update_conv')

lemma entry_sums_Inr:
  "distinct (map fst m) \<Longrightarrow> entry_sums es m = Inr out \<longleftrightarrow> list_all entry_valid es \<and> entry_sums es m = Inr out \<and>
    distinct (map fst out) \<and> (\<forall>c. value_or_0 out c = value_or_0 m c + inputs_net es c)"
proof (induction es arbitrary: m)
  case (Cons e es)
  let ?m = "AList.update (currency (en_amount e)) (value_or_0 m (currency (en_amount e)) + signed (en_direction e) (minor (en_amount e))) m"
  show ?case
  proof (cases "entry_valid e")
    case True
    then have step: "entry_sums (e # es) m = entry_sums es ?m"
      by (simp add: entry_valid_def isPositive_def value_or_0_def)
    have "distinct (map fst ?m)" using Cons.prems by (rule distinct_update)
    note ih = Cons.IH[OF this]
    show ?thesis unfolding step by (subst ih) (auto simp: True)
  qed (auto simp: entry_valid_def isPositive_def)
qed auto

lemma entry_sums_total: "list_all entry_valid es \<Longrightarrow> \<exists>out. entry_sums es m = Inr out"
  by (induction es arbitrary: m) (auto simp: entry_valid_def isPositive_def)

lemma sums_all_zero:
  assumes "distinct (map fst out)"
  shows "filter (\<lambda>(c, v). v \<noteq> (0 :: int)) out = [] \<longleftrightarrow> (\<forall>c. value_or_0 out c = 0)"
proof
  assume "filter (\<lambda>(c, v). v \<noteq> 0) out = []"
  then show "\<forall>c. value_or_0 out c = 0"
    by (auto simp: value_or_0_def filter_empty_conv split: option.splits dest!: map_of_SomeD)
next
  assume z: "\<forall>c. value_or_0 out c = 0"
  have "v = 0" if "(c, v) \<in> set out" for c v
    using z[rule_format, of c] map_of_is_SomeI[OF assms that] by (simp add: value_or_0_def)
  then show "filter (\<lambda>(c, v). v \<noteq> 0) out = []" by (auto simp: filter_empty_conv)
qed

lemma assertBalanced_iff: "assertBalanced es = Inr u \<longleftrightarrow> balanced es"
proof (cases "list_all entry_valid es")
  case True
  then obtain out where out: "entry_sums es [] = Inr out" using entry_sums_total by blast
  with entry_sums_Inr[of "[]" es out] have d: "distinct (map fst out)" and v: "\<forall>c. value_or_0 out c = inputs_net es c"
    by (auto simp: value_or_0_def)
  from out sums_all_zero[OF d] v True show ?thesis by (auto simp: assertBalanced_def balanced_def)
next
  case False
  have "entry_sums es [] \<noteq> Inr out" for out using False entry_sums_Inr[of "[]" es out] by auto
  with False show ?thesis by (auto simp: assertBalanced_def balanced_def)
qed

section \<open>Lemmas: what a posting writes\<close>

definition has_key :: "tx_ctx \<Rightarrow> bool" where
  "has_key ctx \<longleftrightarrow> (case ctx_idempotencyKey ctx of None \<Rightarrow> False | Some k \<Rightarrow> k \<noteq> [])"

definition key_posted :: "string \<Rightarrow> 'x ledger_db_scheme \<Rightarrow> bool" where
  "key_posted k s = list_ex (\<lambda>r. lj_posting_key r = k) (ledger_journal s)"

definition reversed :: "string option \<Rightarrow> 'x ledger_db_scheme \<Rightarrow> bool" where
  "reversed r s \<longleftrightarrow> r \<noteq> None \<and> list_ex (\<lambda>j. lj_reverses j = r) (ledger_journal s)"

text \<open>The rows of one posting: what it adds to the three tables, with the identifiers it took.\<close>

definition posted ::
    "tx_ctx \<Rightarrow> journal_input \<Rightarrow> string option \<Rightarrow> 'x ledger_db_scheme \<Rightarrow> string \<Rightarrow> account_row list \<Rightarrow> (string \<times> string) list \<Rightarrow>
     'x ledger_db_scheme \<Rightarrow> bool" where
  "posted ctx j reverses s i new ids t \<longleftrightarrow>
     i = uuidv7 s (uuids s + length new) \<and>
     t = s\<lparr>uuids := Suc (uuids s + length new), ledger_account := ledger_account s @ new,
           ledger_journal := ledger_journal s @ [\<lparr>lj_id = i, lj_posting_key = ji_posting_key j, lj_event_type = ji_event_type j,
             lj_trade = ji_trade j, lj_correlation = ctx_correlation ctx, lj_idempotency = the (ctx_idempotencyKey ctx),
             lj_posted_by = actor_or_command ctx, lj_reverses = reverses\<rparr>],
           ledger_entry := ledger_entry s @ map (entry_row_of ids i (ji_trade j)) (ji_entries j)\<rparr> \<and>
     (\<forall>e \<in> set (ji_entries j). row_for t (ar_code (en_account e)) (ar_currency (en_account e))
        (the (map_of ids (account_key (ar_code (en_account e)) (ar_currency (en_account e)))))) \<and>
     accounts_ok t"

lemma insertJournal_ok:
  assumes ok: "accounts_ok s" and key: "has_key ctx" and bal: "balanced (ji_entries j)"
    and fresh: "\<not> key_posted (ji_posting_key j) s" "\<not> reversed reverses s"
  shows "\<exists>i new ids t. insertJournal ctx j reverses s = Inr (\<lparr>pj_id = i, pj_posting_key = ji_posting_key j\<rparr>, t) \<and> posted ctx j reverses s i new ids t"
proof -
  from key obtain idem where idem: "ctx_idempotencyKey ctx = Some idem" "idem \<noteq> []"
    by (auto simp: has_key_def split: option.splits)
  have b: "assertBalanced (ji_entries j) = Inr ()" using bal by (simp add: assertBalanced_iff)
  from resolve_ok[OF ok, of "map en_account (ji_entries j)"] obtain ids new t where
    r: "resolveAccountIds (map en_account (ji_entries j)) s = Inr (ids, t)" "accounts_grow s new t" "accounts_ok t"
    and rows: "\<forall>r \<in> set (map en_account (ji_entries j)).
      row_for t (ar_code r) (ar_currency r) (the (map_of ids (account_key (ar_code r) (ar_currency r))))" by blast
  let ?i = "uuidv7 s (uuids s + length new)"
  from r(2) have t: "t = s\<lparr>uuids := uuids s + length new, ledger_account := ledger_account s @ new\<rparr>" by (simp add: accounts_grow_def)
  have ins: "insert_journal_row ctx j reverses idem t = Inr (?i, t\<lparr>uuids := Suc (uuids t), ledger_journal := ledger_journal s @
         [\<lparr>lj_id = ?i, lj_posting_key = ji_posting_key j, lj_event_type = ji_event_type j, lj_trade = ji_trade j,
           lj_correlation = ctx_correlation ctx, lj_idempotency = idem, lj_posted_by = actor_or_command ctx,
           lj_reverses = reverses\<rparr>]\<rparr>)"
    using fresh by (auto simp: insert_journal_row_def t key_posted_def reversed_def Let_def)
  let ?u = "s\<lparr>uuids := Suc (uuids s + length new), ledger_account := ledger_account s @ new,
           ledger_journal := ledger_journal s @ [\<lparr>lj_id = ?i, lj_posting_key = ji_posting_key j, lj_event_type = ji_event_type j,
             lj_trade = ji_trade j, lj_correlation = ctx_correlation ctx, lj_idempotency = idem,
             lj_posted_by = actor_or_command ctx, lj_reverses = reverses\<rparr>],
           ledger_entry := ledger_entry s @ map (entry_row_of ids ?i (ji_trade j)) (ji_entries j)\<rparr>"
  have run: "insertJournal ctx j reverses s = Inr (\<lparr>pj_id = ?i, pj_posting_key = ji_posting_key j\<rparr>, ?u)"
    using idem by (simp add: insertJournal_def bindC_run b r(1) ins) (simp add: t)
  have "accounts_ok ?u" using r(3) by (rule accounts_ok_cong) (simp_all add: t)
  moreover have "\<forall>e \<in> set (ji_entries j). row_for ?u (ar_code (en_account e)) (ar_currency (en_account e))
        (the (map_of ids (account_key (ar_code (en_account e)) (ar_currency (en_account e)))))"
    using rows by (simp add: row_for_def t)
  ultimately have "posted ctx j reverses s ?i new ids ?u" using idem by (simp add: posted_def)
  with run show ?thesis by blast
qed

lemma insertJournal_needs:
  assumes ok: "accounts_ok s" and run: "insertJournal ctx j reverses s = Inr (pj, t)"
  shows "has_key ctx \<and> balanced (ji_entries j) \<and> \<not> key_posted (ji_posting_key j) s \<and> \<not> reversed reverses s"
proof -
  from run have key: "has_key ctx" and b: "assertBalanced (ji_entries j) = Inr ()"
    by (auto simp: insertJournal_def has_key_def split: option.splits if_splits)
  from resolve_ok[OF ok, of "map en_account (ji_entries j)"] obtain ids new u where
    r: "resolveAccountIds (map en_account (ji_entries j)) s = Inr (ids, u)" "accounts_grow s new u" by blast
  from run r(1) obtain i v idem where "insert_journal_row ctx j reverses idem u = Inr (i, v)"
    by (auto simp: insertJournal_def split: option.splits if_splits)
  with r(2) have "\<not> key_posted (ji_posting_key j) s" "\<not> reversed reverses s"
    by (auto simp: insert_journal_row_def accounts_grow_def key_posted_def reversed_def split: if_splits)
  with key b show ?thesis by (simp add: assertBalanced_iff)
qed

lemma insertJournal_posted:
  assumes "accounts_ok s" "insertJournal ctx j reverses s = Inr (pj, t)"
  shows "\<exists>new ids. posted ctx j reverses s (pj_id pj) new ids t \<and> pj_posting_key pj = ji_posting_key j"
  using insertJournal_ok[OF assms(1)] insertJournal_needs[OF assms] assms(2) by fastforce

section \<open>The ledger's invariant\<close>

definition entries_of :: "'x ledger_db_scheme \<Rightarrow> string \<Rightarrow> entry_row list" where
  "entries_of s j = filter (\<lambda>e. le_journal e = j) (ledger_entry s)"

definition currency_net :: "entry_row list \<Rightarrow> currency \<Rightarrow> int" where
  "currency_net es c = entry_net (filter (\<lambda>e. le_currency e = c) es)"

definition mirror :: "string \<Rightarrow> entry_row \<Rightarrow> entry_row" where
  "mirror i e = e\<lparr>le_journal := i, le_direction := flip_side (le_direction e)\<rparr>"

definition entry_ok :: "'x ledger_db_scheme \<Rightarrow> entry_row \<Rightarrow> bool" where
  "entry_ok s e \<longleftrightarrow> 0 < le_amount e \<and> (\<exists>a \<in> set (ledger_account s). la_id a = le_account e \<and> la_currency a = le_currency e) \<and>
     (\<exists>j \<in> set (ledger_journal s). lj_id j = le_journal e \<and> lj_trade j = le_trade e)"

definition journal_ok :: "'x ledger_db_scheme \<Rightarrow> journal_row \<Rightarrow> bool" where
  "journal_ok s j \<longleftrightarrow> given_id s (lj_id j) \<and> 2 \<le> length (entries_of s (lj_id j)) \<and> (\<forall>c. currency_net (entries_of s (lj_id j)) c = 0)"

definition reversal_ok :: "'x ledger_db_scheme \<Rightarrow> journal_row \<Rightarrow> bool" where
  "reversal_ok s j \<longleftrightarrow> (\<forall>orig. lj_reverses j = Some orig \<longrightarrow>
     (\<exists>k \<in> set (ledger_journal s). lj_id k = orig \<and> lj_reverses k = None) \<and>
     entries_of s (lj_id j) = map (mirror (lj_id j)) (entries_of s orig))"

text \<open>Accounts and journals have unique names, every entry points at an account of its currency and at a journal of its trade, every journal has two
  entries or more and balances in every currency, and a reversal mirrors one ordinary journal that no other journal
  reverses.\<close>

definition ledger_ok :: "'x ledger_db_scheme \<Rightarrow> bool" where
  "ledger_ok s \<longleftrightarrow> accounts_ok s \<and> distinct (map lj_id (ledger_journal s)) \<and> distinct (map lj_posting_key (ledger_journal s)) \<and>
     distinct (filter (\<lambda>r. r \<noteq> None) (map lj_reverses (ledger_journal s))) \<and>
     (\<forall>e \<in> set (ledger_entry s). entry_ok s e) \<and> (\<forall>j \<in> set (ledger_journal s). journal_ok s j \<and> reversal_ok s j)"

lemma ledger_ok_accounts: "ledger_ok s \<Longrightarrow> accounts_ok s"
  by (simp add: ledger_ok_def)

lemma entry_net_simps [simp]:
  "entry_net [] = 0"
  "entry_net (e # es) = signed (le_direction e) (le_amount e) + entry_net es"
  "entry_net (xs @ ys) = entry_net xs + entry_net ys"
  by (simp_all add: entry_net_def)

lemma currency_net_inputs: "currency_net (map (entry_row_of ids i tr) es) c = inputs_net es c"
  by (induction es) (simp_all add: currency_net_def entry_row_of_def)

section \<open>Lemmas: the invariant is kept\<close>

lemma given_id_posted: "posted ctx j reverses s i new ids t \<Longrightarrow> given_id s x \<Longrightarrow> given_id t x"
  by (rule given_id_mono) (auto simp: posted_def)

lemma posted_id_new: "posted ctx j reverses s i new ids t \<Longrightarrow> accounts_ok s \<Longrightarrow> \<not> given_id s i"
  using next_id_new[of s "length new"] by (auto simp: posted_def accounts_ok_def)

lemma entries_of_unposted:
  assumes "ledger_ok s" "\<not> given_id s i"
  shows "entries_of s i = []"
proof -
  have "le_journal e \<noteq> i" if "e \<in> set (ledger_entry s)" for e
  proof -
    from assms(1) that obtain j where "j \<in> set (ledger_journal s)" "lj_id j = le_journal e" by (auto simp: ledger_ok_def entry_ok_def)
    with assms show ?thesis by (metis journal_ok_def ledger_ok_def)
  qed
  then show ?thesis by (simp add: entries_of_def filter_empty_conv)
qed

lemma entries_of_posted:
  assumes "ledger_ok s" "posted ctx j reverses s i new ids t"
  shows "entries_of t i = map (entry_row_of ids i (ji_trade j)) (ji_entries j)"
    and "given_id s k \<Longrightarrow> entries_of t k = entries_of s k"
proof -
  have new: "\<not> given_id s i" using assms posted_id_new ledger_ok_accounts by blast
  have t: "ledger_entry t = ledger_entry s @ map (entry_row_of ids i (ji_trade j)) (ji_entries j)" using assms(2) by (simp add: posted_def)
  have i: "le_journal (entry_row_of ids i tr e) = i" for tr e by (simp add: entry_row_of_def)
  then show "entries_of t i = map (entry_row_of ids i (ji_trade j)) (ji_entries j)"
    using entries_of_unposted[OF assms(1) new] by (simp add: entries_of_def t filter_map comp_def)
  show "entries_of t k = entries_of s k" if "given_id s k"
  proof -
    have "i \<noteq> k" using that new by blast
    then show ?thesis by (simp add: entries_of_def t filter_map comp_def i)
  qed
qed

lemma posted_entry_ok:
  assumes "ledger_ok s" and p: "posted ctx j reverses s i new ids t" and bal: "balanced (ji_entries j)"
    and e: "e \<in> set (ledger_entry t)"
  shows "entry_ok t e"
proof (cases "e \<in> set (ledger_entry s)")
  case True
  with assms(1) have "entry_ok s e" by (simp add: ledger_ok_def)
  with p show ?thesis by (auto simp: posted_def entry_ok_def)
next
  case False
  with e p obtain x where x: "x \<in> set (ji_entries j)" "e = entry_row_of ids i (ji_trade j) x" by (auto simp: posted_def)
  with bal have "entry_valid x" by (auto simp: balanced_def list_all_iff)
  moreover from x p have "row_for t (ar_code (en_account x)) (ar_currency (en_account x)) (le_account e)"
    by (auto simp: posted_def entry_row_of_def)
  moreover have "\<exists>k \<in> set (ledger_journal t). lj_id k = i \<and> lj_trade k = ji_trade j" using p by (auto simp: posted_def)
  ultimately show ?thesis using x by (auto simp: entry_ok_def entry_valid_def row_for_def entry_row_of_def)
qed

lemma posted_keeps:
  assumes ok: "ledger_ok s" and p: "posted ctx j reverses s i new ids t" and bal: "balanced (ji_entries j)"
    and fresh: "\<not> key_posted (ji_posting_key j) s" "\<not> reversed reverses s"
    and mirrors: "\<And>orig. reverses = Some orig \<Longrightarrow> (\<exists>k \<in> set (ledger_journal s). lj_id k = orig \<and> lj_reverses k = None) \<and>
       map (entry_row_of ids i (ji_trade j)) (ji_entries j) = map (mirror i) (entries_of s orig)"
  shows "ledger_ok t"
proof -
  have acc: "accounts_ok s" using ok by (rule ledger_ok_accounts)
  note new = posted_id_new[OF p acc] and same = entries_of_posted[OF ok p]
  from p obtain row where t: "ledger_journal t = ledger_journal s @ [row]" "lj_id row = i"
      "lj_posting_key row = ji_posting_key j" "lj_reverses row = reverses" by (auto simp: posted_def)
  have given: "given_id s (lj_id k)" if "k \<in> set (ledger_journal s)" for k using that ok by (auto simp: ledger_ok_def journal_ok_def)
  have "distinct (map lj_id (ledger_journal t))" using ok given new by (auto simp: t ledger_ok_def)
  moreover have "distinct (map lj_posting_key (ledger_journal t))"
    using ok fresh(1) by (auto simp: t ledger_ok_def key_posted_def list_ex_iff)
  moreover have "distinct (filter (\<lambda>r. r \<noteq> None) (map lj_reverses (ledger_journal t)))"
    using ok fresh(2) by (auto simp: t ledger_ok_def reversed_def list_ex_iff)
  moreover have "journal_ok t k" if "k \<in> set (ledger_journal t)" for k
  proof (cases "k = row")
    case True
    have "given_id t i" using p by (auto simp: posted_def given_id_def)
    then show ?thesis using bal by (simp add: True t journal_ok_def same(1) currency_net_inputs balanced_def)
  next
    case False
    with that have k: "k \<in> set (ledger_journal s)" by (simp add: t)
    then have "journal_ok s k" using ok by (simp add: ledger_ok_def)
    with given_id_posted[OF p] same(2)[OF given[OF k]] show ?thesis by (simp add: journal_ok_def)
  qed
  moreover have "reversal_ok t k" if "k \<in> set (ledger_journal t)" for k
  proof (cases "k = row")
    case True
    show ?thesis unfolding reversal_ok_def
    proof (intro allI impI)
      fix orig assume "lj_reverses k = Some orig"
      then have m: "(\<exists>k \<in> set (ledger_journal s). lj_id k = orig \<and> lj_reverses k = None)"
        "map (entry_row_of ids i (ji_trade j)) (ji_entries j) = map (mirror i) (entries_of s orig)"
        using mirrors by (simp_all add: True t)
      then have "entries_of t orig = entries_of s orig" using given same(2) by blast
      with m same(1) show "(\<exists>k \<in> set (ledger_journal t). lj_id k = orig \<and> lj_reverses k = None) \<and>
         entries_of t (lj_id k) = map (mirror (lj_id k)) (entries_of t orig)" by (auto simp: True t)
    qed
  next
    case False
    with that have k: "k \<in> set (ledger_journal s)" by (simp add: t)
    then have "reversal_ok s k" using ok by (simp add: ledger_ok_def)
    then show ?thesis using same(2) given[OF k] given by (fastforce simp: reversal_ok_def t)
  qed
  moreover have "\<forall>e \<in> set (ledger_entry t). entry_ok t e" using posted_entry_ok[OF ok p bal] by blast
  moreover have "accounts_ok t" using p unfolding posted_def by blast
  ultimately show ?thesis unfolding ledger_ok_def by blast
qed

lemma account_of_row:
  assumes "accounts_ok s" "row_for s code c i" "le_account e = i"
  shows "\<exists>a. account_of s e = Some a \<and> la_code a = code \<and> la_currency a = c \<and> la_id a = i \<and> a \<in> set (ledger_account s)"
proof -
  from assms(2) obtain a where a: "a \<in> set (ledger_account s)" "la_code a = code" "la_currency a = c" "la_id a = i"
    by (auto simp: row_for_def)
  have "List.find (\<lambda>b. la_id b = la_id a) (ledger_account s) = Some a"
    using assms(1) a(1) by (intro find_unique) (auto simp: accounts_ok_def)
  with a assms(3) show ?thesis by (simp add: account_of_def)
qed

lemma entry_account:
  assumes "ledger_ok s" "e \<in> set (ledger_entry s)"
  shows "\<exists>a. account_of s e = Some a \<and> la_currency a = le_currency e \<and> la_id a = le_account e \<and> a \<in> set (ledger_account s)"
proof -
  from assms obtain a where "a \<in> set (ledger_account s)" "la_id a = le_account e" "la_currency a = le_currency e"
    by (auto simp: ledger_ok_def entry_ok_def)
  then have "row_for s (la_code a) (le_currency e) (le_account e)" by (auto simp: row_for_def)
  from account_of_row[OF ledger_ok_accounts[OF assms(1)] this refl] show ?thesis by blast
qed

lemma postJournal_keeps: "ledger_ok s \<Longrightarrow> postJournal ctx j s = Inr (pj, t) \<Longrightarrow> ledger_ok t"
  unfolding postJournal_def
  using insertJournal_posted[of s ctx j None pj t] insertJournal_needs[of s ctx j None pj t] posted_keeps
  by (metis ledger_ok_accounts option.distinct(1))

section \<open>Lemmas: reversals\<close>

definition mirror_input :: "'x ledger_db_scheme \<Rightarrow> entry_row \<Rightarrow> entry_input" where
  "mirror_input s e = \<lparr>en_account = \<lparr>ar_code = la_code (the (account_of s e)), ar_type = la_type (the (account_of s e)),
     ar_currency = le_currency e\<rparr>, en_direction = flip_side (le_direction e),
     en_amount = ofMinor (le_amount e) (le_currency e), en_obligation = le_obligation e\<rparr>"

lemma mirror_entries_eq:
  assumes "ledger_ok s"
  shows "mirror_entries s i = map (mirror_input s) (entries_of s i)"
proof -
  have "\<forall>e \<in> set es. account_of s e \<noteq> None \<Longrightarrow> concat (map (\<lambda>e. case account_of s e of None \<Rightarrow> []
    | Some a \<Rightarrow> [\<lparr>en_account = \<lparr>ar_code = la_code a, ar_type = la_type a, ar_currency = le_currency e\<rparr>,
        en_direction = flip_side (le_direction e), en_amount = ofMinor (le_amount e) (le_currency e),
        en_obligation = le_obligation e\<rparr>]) es) = map (mirror_input s) es" for es
    by (induction es) (auto simp: mirror_input_def)
  moreover have "\<forall>e \<in> set (entries_of s i). account_of s e \<noteq> None"
    using entry_account[OF assms] by (fastforce simp: entries_of_def)
  ultimately show ?thesis by (simp add: mirror_entries_def entries_of_def)
qed

lemma mirror_row:
  assumes ok: "ledger_ok s" and p: "posted ctx j reverses s i new ids t" and o: "orig \<in> set (ledger_journal s)"
    and e: "e \<in> set (entries_of s (lj_id orig))" and m: "mirror_input s e \<in> set (ji_entries j)"
  shows "entry_row_of ids i (lj_trade orig) (mirror_input s e) = mirror i e"
proof -
  from e have in': "e \<in> set (ledger_entry s)" "le_journal e = lj_id orig" by (auto simp: entries_of_def)
  from entry_account[OF ok in'(1)] obtain a where
    a: "account_of s e = Some a" "la_currency a = le_currency e" "la_id a = le_account e" "a \<in> set (ledger_account s)" by blast
  let ?i = "the (map_of ids (account_key (la_code a) (le_currency e)))"
  from p m a have "row_for t (la_code a) (le_currency e) ?i" by (auto simp: posted_def mirror_input_def)
  then obtain b where b: "b \<in> set (ledger_account t)" "la_code b = la_code a" "la_currency b = le_currency e" "la_id b = ?i"
    by (auto simp: row_for_def)
  have "a \<in> set (ledger_account t)" "accounts_ok t" using p a(4) by (auto simp: posted_def)
  with b a(2) have "b = a" unfolding accounts_ok_def distinct_map by (auto dest: inj_onD)
  with b(4) a(3) have acc: "?i = le_account e" by simp
  from ok in'(1) obtain k where "k \<in> set (ledger_journal s)" "lj_id k = le_journal e" "lj_trade k = le_trade e"
    by (auto simp: ledger_ok_def entry_ok_def)
  with in'(2) o ok have "le_trade e = lj_trade orig" unfolding ledger_ok_def distinct_map by (metis inj_onD)
  then show ?thesis using acc a(1) by (simp add: entry_row_of_def mirror_def mirror_input_def)
qed

lemma reverseJournal_run:
  assumes ok: "ledger_ok s" and run: "reverseJournal ctx args s = Inr (pj, t)"
  shows "\<exists>orig new ids j. orig \<in> set (ledger_journal s) \<and> lj_posting_key orig = rv_original args \<and> lj_reverses orig = None \<and>
    posted ctx j (Some (lj_id orig)) s (pj_id pj) new ids t \<and> ji_posting_key j = rv_posting_key args \<and>
    map (entry_row_of ids (pj_id pj) (ji_trade j)) (ji_entries j) = map (mirror (pj_id pj)) (entries_of s (lj_id orig)) \<and> ledger_ok t"
proof -
  from run obtain orig where find: "List.find (\<lambda>r. lj_posting_key r = rv_original args) (ledger_journal s) = Some orig"
    and none: "lj_reverses orig = None"
    and ins: "insertJournal ctx \<lparr>ji_posting_key = rv_posting_key args, ji_event_type = rv_event_type args,
       ji_trade = lj_trade orig, ji_entries = mirror_entries s (lj_id orig)\<rparr> (Some (lj_id orig)) s = Inr (pj, t)"
    by (auto simp: reverseJournal_def split: if_splits)
  let ?j = "\<lparr>ji_posting_key = rv_posting_key args, ji_event_type = rv_event_type args,
       ji_trade = lj_trade orig, ji_entries = mirror_entries s (lj_id orig)\<rparr>"
  from find have o: "orig \<in> set (ledger_journal s)" "lj_posting_key orig = rv_original args" by (auto dest: find_Some_mem)
  from insertJournal_posted[OF ledger_ok_accounts[OF ok] ins] obtain new ids where
    p: "posted ctx ?j (Some (lj_id orig)) s (pj_id pj) new ids t" by blast
  have rows: "map (entry_row_of ids (pj_id pj) (ji_trade ?j)) (ji_entries ?j) = map (mirror (pj_id pj)) (entries_of s (lj_id orig))"
    using mirror_row[OF ok p o(1)] by (simp add: mirror_entries_eq[OF ok])
  have "ledger_ok t"
    using insertJournal_needs[OF ledger_ok_accounts[OF ok] ins] rows o none
    by (intro posted_keeps[OF ok p]) auto
  with o none p rows show ?thesis by (metis journal_input.select_convs(1))
qed

lemma reverseJournal_keeps: "ledger_ok s \<Longrightarrow> reverseJournal ctx args s = Inr (pj, t) \<Longrightarrow> ledger_ok t"
  using reverseJournal_run by blast

section \<open>Lemmas: balances\<close>

lemma accountBalance_net: "accountBalance r s = entry_net (filter (entry_on s (ar_code r) (ar_currency r)) (ledger_entry s))"
proof (cases "has_account (ar_code r) (ar_currency r) s")
  case False
  then have "filter (entry_on s (ar_code r) (ar_currency r)) (ledger_entry s) = []"
    by (auto simp: filter_empty_conv entry_on_def account_of_def has_account_def list_ex_iff split: option.splits dest: find_Some_mem)
  with False show ?thesis by (simp add: accountBalance_def)
qed (simp add: accountBalance_def)

lemma find_append: "List.find P (xs @ ys) = (case List.find P xs of Some x \<Rightarrow> Some x | None \<Rightarrow> List.find P ys)"
  by (induction xs) auto

lemma entry_on_posted:
  assumes ok: "ledger_ok s" and p: "posted ctx j reverses s i new ids t" and e: "e \<in> set (ledger_entry s)"
  shows "entry_on t code c e = entry_on s code c e"
proof -
  from entry_account[OF ok e] obtain a where "account_of s e = Some a" by blast
  moreover from this p have "account_of t e = Some a" by (simp add: account_of_def posted_def find_append)
  ultimately show ?thesis by (simp add: entry_on_def)
qed

definition inputs_on :: "entry_input list \<Rightarrow> account_ref \<Rightarrow> int" where
  "inputs_on es r = (\<Sum>e\<leftarrow>es. if ar_code (en_account e) = ar_code r \<and> ar_currency (en_account e) = ar_currency r
     then signed (en_direction e) (minor (en_amount e)) else 0)"

lemma inputs_on_simps [simp]:
  "inputs_on [] r = 0"
  "inputs_on (e # es) r = (if ar_code (en_account e) = ar_code r \<and> ar_currency (en_account e) = ar_currency r
     then signed (en_direction e) (minor (en_amount e)) else 0) + inputs_on es r"
  "inputs_on (xs @ ys) r = inputs_on xs r + inputs_on ys r"
  by (simp_all add: inputs_on_def)

lemma posted_inputs:
  assumes p: "posted ctx j reverses s i new ids t"
  shows "entry_net (filter (entry_on t (ar_code r) (ar_currency r)) (map (entry_row_of ids i (ji_trade j)) (ji_entries j))) =
    inputs_on (ji_entries j) r"
proof -
  let ?on = "entry_on t (ar_code r) (ar_currency r)" and ?row = "entry_row_of ids i (ji_trade j)"
  have on: "?on (?row e) \<longleftrightarrow> ar_code (en_account e) = ar_code r \<and> ar_currency (en_account e) = ar_currency r"
    if "e \<in> set (ji_entries j)" for e
  proof -
    from p that have "accounts_ok t" "row_for t (ar_code (en_account e)) (ar_currency (en_account e)) (le_account (?row e))"
      by (auto simp: posted_def entry_row_of_def)
    from account_of_row[OF this refl] show ?thesis by (auto simp: entry_on_def)
  qed
  have net: "signed (le_direction (?row e)) (le_amount (?row e)) = signed (en_direction e) (minor (en_amount e))" for e
    by (simp add: entry_row_of_def)
  have "entry_net (filter ?on (map ?row es)) = inputs_on es r" if "set es \<subseteq> set (ji_entries j)" for es
    using that by (induction es) (simp_all add: on net)
  then show ?thesis by simp
qed

lemma posted_balance:
  assumes ok: "ledger_ok s" and p: "posted ctx j reverses s i new ids t"
  shows "accountBalance r t = accountBalance r s + inputs_on (ji_entries j) r"
proof -
  have "filter (entry_on t (ar_code r) (ar_currency r)) (ledger_entry s) = filter (entry_on s (ar_code r) (ar_currency r)) (ledger_entry s)"
    using entry_on_posted[OF ok p] by (intro filter_cong) auto
  moreover have "ledger_entry t = ledger_entry s @ map (entry_row_of ids i (ji_trade j)) (ji_entries j)" using p by (simp add: posted_def)
  ultimately show ?thesis using posted_inputs[OF p, of r] by (simp add: accountBalance_net)
qed

lemma signed_flip [simp]: "signed (flip_side d) m = - signed d m"
  by (cases d) (simp_all add: signed_def flip_side_def)

definition journal_on :: "'x ledger_db_scheme \<Rightarrow> string \<Rightarrow> account_ref \<Rightarrow> int" where
  "journal_on s i r = entry_net (filter (entry_on s (ar_code r) (ar_currency r)) (entries_of s i))"

lemma mirrored_balance:
  assumes ok: "ledger_ok s" and p: "posted ctx j reverses s i new ids t"
    and rows: "map (entry_row_of ids i (ji_trade j)) (ji_entries j) = map (mirror i) (entries_of s orig)"
  shows "accountBalance r t = accountBalance r s - journal_on s orig r"
proof -
  let ?on = "\<lambda>u. entry_on u (ar_code r) (ar_currency r)"
  have t: "ledger_entry t = ledger_entry s @ map (mirror i) (entries_of s orig)" using p rows by (simp add: posted_def)
  have old: "?on t e = ?on s e" if "e \<in> set (ledger_entry s)" for e using entry_on_posted[OF ok p that] .
  have m: "?on t (mirror i e) = ?on t e" for e by (simp add: entry_on_def account_of_def mirror_def)
  have net: "signed (le_direction (mirror i e)) (le_amount (mirror i e)) = - signed (le_direction e) (le_amount e)" for e
    by (simp add: mirror_def)
  have "entry_net (filter (?on t) (map (mirror i) es)) = - entry_net (filter (?on s) es)" if "set es \<subseteq> set (ledger_entry s)" for es
    using that by (induction es) (simp_all add: m old net)
  then have "entry_net (filter (?on t) (map (mirror i) (entries_of s orig))) = - journal_on s orig r"
    by (simp add: journal_on_def entries_of_def)
  moreover have "filter (?on t) (ledger_entry s) = filter (?on s) (ledger_entry s)" using old by (intro filter_cong) auto
  ultimately show ?thesis by (simp add: accountBalance_net t)
qed

section \<open>The ledger only grows\<close>

text \<open>What may happen to the ledger: a posting, a reversal, or any command that takes identifiers and leaves the ledger's tables alone.\<close>

inductive ledger_step :: "ledger_db \<Rightarrow> ledger_db \<Rightarrow> bool" where
  step_post: "postJournal ctx j s = Inr (pj, t) \<Longrightarrow> ledger_step s t"
| step_reverse: "reverseJournal ctx args s = Inr (pj, t) \<Longrightarrow> ledger_step s t"
| step_other: "ledger_account t = ledger_account s \<Longrightarrow> ledger_journal t = ledger_journal s \<Longrightarrow> ledger_entry t = ledger_entry s \<Longrightarrow>
    uuidv7 t = uuidv7 s \<Longrightarrow> uuids s \<le> uuids t \<Longrightarrow> ledger_step s t"

lemma ledger_ok_cong:
  assumes ok: "ledger_ok s" and same: "ledger_account t = ledger_account s" "ledger_journal t = ledger_journal s"
      "ledger_entry t = ledger_entry s" "uuidv7 t = uuidv7 s" "uuids s \<le> uuids t"
  shows "ledger_ok t"
proof -
  have "accounts_ok t" using ledger_ok_accounts[OF ok] same(1,4,5) by (rule accounts_ok_cong)
  moreover have "entries_of t = entries_of s" by (rule ext) (simp add: entries_of_def same(3))
  moreover have "entry_ok t = entry_ok s" by (rule ext) (simp add: entry_ok_def same(1,2))
  moreover have "journal_ok t j" if "journal_ok s j" for j
    using that calculation(2) given_id_mono[OF _ same(4,5)] by (simp add: journal_ok_def)
  moreover have "reversal_ok t = reversal_ok s" using calculation(2) by (intro ext) (simp add: reversal_ok_def same(2))
  ultimately show ?thesis using ok by (simp add: ledger_ok_def same)
qed

lemma ledger_step_keeps: "ledger_step s t \<Longrightarrow> ledger_ok s \<Longrightarrow> ledger_ok t"
proof (induction rule: ledger_step.induct)
  case step_post
  then show ?case using postJournal_keeps by blast
next
  case step_reverse
  then show ?case using reverseJournal_keeps by blast
next
  case step_other
  then show ?case using ledger_ok_cong by blast
qed

lemma ledger_steps_keep: "ledger_step\<^sup>*\<^sup>* s t \<Longrightarrow> ledger_ok s \<Longrightarrow> ledger_ok t"
  by (induction rule: rtranclp_induct) (auto intro: ledger_step_keeps)

lemma journals_balance_all:
  assumes "\<forall>e \<in> set es. le_journal e \<in> set js" "distinct js" "\<And>j. j \<in> set js \<Longrightarrow> entry_net (filter (\<lambda>e. le_journal e = j) es) = 0"
  shows "entry_net es = 0"
  using assms
proof (induction js arbitrary: es)
  case Nil
  then show ?case by (cases es) auto
next
  case (Cons j js)
  have split: "entry_net es = entry_net (filter P es) + entry_net (filter (\<lambda>e. \<not> P e) es)" for P by (induction es) auto
  let ?rest = "filter (\<lambda>e. le_journal e \<noteq> j) es"
  have "entry_net ?rest = 0"
  proof (rule Cons.IH)
    show "entry_net (filter (\<lambda>e. le_journal e = k) ?rest) = 0" if "k \<in> set js" for k
    proof -
      have "filter (\<lambda>e. le_journal e = k) ?rest = filter (\<lambda>e. le_journal e = k) es"
        using that Cons.prems(2) by (auto simp: filter_filter intro: filter_cong)
      then show ?thesis using Cons.prems(3) that by simp
    qed
  qed (use Cons.prems in auto)
  with split[of "\<lambda>e. le_journal e = j"] Cons.prems(3)[of j] show ?case by simp
qed

lemma ledger_ok_global: "ledger_ok s \<Longrightarrow> globalImbalance s = []"
proof -
  assume ok: "ledger_ok s"
  have "entry_net (filter (\<lambda>e. le_currency e = c) (ledger_entry s)) = 0" for c
  proof (rule journals_balance_all[of _ "map lj_id (ledger_journal s)"])
    show "\<forall>e \<in> set (filter (\<lambda>e. le_currency e = c) (ledger_entry s)). le_journal e \<in> set (map lj_id (ledger_journal s))"
      using ok by (force simp: ledger_ok_def entry_ok_def)
    show "distinct (map lj_id (ledger_journal s))" using ok by (simp add: ledger_ok_def)
    fix j assume "j \<in> set (map lj_id (ledger_journal s))"
    then have "currency_net (entries_of s j) c = 0" using ok by (auto simp: ledger_ok_def journal_ok_def)
    then show "entry_net (filter (\<lambda>e. le_journal e = j) (filter (\<lambda>e. le_currency e = c) (ledger_entry s))) = 0"
      by (simp add: currency_net_def entries_of_def conj_commute)
  qed
  then show ?thesis by (simp add: globalImbalance_def)
qed

text \<open>The tables are append-only, and the entries of a journal never change.\<close>

definition extends :: "'x ledger_db_scheme \<Rightarrow> 'x ledger_db_scheme \<Rightarrow> bool" where
  "extends s t \<longleftrightarrow> (\<exists>as js es. ledger_account t = ledger_account s @ as \<and> ledger_journal t = ledger_journal s @ js \<and>
     ledger_entry t = ledger_entry s @ es \<and> (\<forall>e \<in> set es. \<not> given_id s (le_journal e))) \<and> uuidv7 t = uuidv7 s \<and> uuids s \<le> uuids t"

lemma extends_posted:
  assumes "ledger_ok s" "posted ctx j reverses s i new ids t"
  shows "extends s t"
proof -
  have "\<not> given_id s i" using assms posted_id_new ledger_ok_accounts by blast
  with assms(2) show ?thesis by (auto simp: extends_def posted_def entry_row_of_def)
qed

lemma ledger_step_extends: "ledger_step s t \<Longrightarrow> ledger_ok s \<Longrightarrow> extends s t"
proof (induction rule: ledger_step.induct)
  case (step_post ctx j s pj t)
  then show ?case unfolding postJournal_def using insertJournal_posted ledger_ok_accounts extends_posted by blast
next
  case (step_reverse ctx args s pj t)
  then show ?case using reverseJournal_run extends_posted by blast
qed (simp add: extends_def)

lemma extends_trans: "extends s t \<Longrightarrow> extends t u \<Longrightarrow> extends s u"
proof -
  assume st: "extends s t" and tu: "extends t u"
  have "\<not> given_id s x" if "\<not> given_id t x" for x
    using that st given_id_mono[of s x t] by (auto simp: extends_def)
  with st tu show "extends s u" by (auto simp: extends_def)
qed

lemma ledger_steps_extend: "ledger_step\<^sup>*\<^sup>* s t \<Longrightarrow> ledger_ok s \<Longrightarrow> extends s t"
proof (induction rule: rtranclp_induct)
  case base
  show ?case by (simp add: extends_def)
next
  case (step t u)
  then show ?case using ledger_steps_keep ledger_step_extends extends_trans by blast
qed

lemma extends_entries_of: "extends s t \<Longrightarrow> given_id s i \<Longrightarrow> entries_of t i = entries_of s i"
  by (auto simp: extends_def entries_of_def filter_empty_conv)

lemma extends_journal: "extends s t \<Longrightarrow> j \<in> set (ledger_journal s) \<Longrightarrow> j \<in> set (ledger_journal t)"
  unfolding extends_def by (elim conjE exE) simp

lemma posted_journal_row:
  "posted ctx j reverses s i new ids t \<Longrightarrow> \<exists>row. set (ledger_journal t) = insert row (set (ledger_journal s)) \<and> lj_id row = i \<and>
    lj_posting_key row = ji_posting_key j \<and> lj_reverses row = reverses \<and> given_id t i"
  unfolding posted_def by (elim conjE) (auto simp: given_id_def)

lemma extends_journal_on:
  assumes ok: "ledger_ok s" and e: "extends s t" and i: "given_id s i"
  shows "journal_on t i r = journal_on s i r"
proof -
  have "entry_on t code c x = entry_on s code c x" if "x \<in> set (ledger_entry s)" for code c x
    using entry_account[OF ok that] e by (auto simp: entry_on_def account_of_def extends_def find_append)
  then have "filter (entry_on t code c) (entries_of s i) = filter (entry_on s code c) (entries_of s i)" for code c
    by (intro filter_cong) (auto simp: entries_of_def)
  then show ?thesis by (simp add: journal_on_def extends_entries_of[OF e i])
qed

lemma posted_journal_on: "ledger_ok s \<Longrightarrow> posted ctx j reverses s i new ids t \<Longrightarrow> journal_on t i r = inputs_on (ji_entries j) r"
  by (simp only: journal_on_def entries_of_posted(1) posted_inputs)

section \<open>Properties\<close>


text \<open>C3: a journal is posted exactly when the command carries an idempotency key, the entries balance and the posting
  key is new; then every account of the chart moves by exactly the entries that name it, an account the journal
  creates included, and nothing else moves.\<close>

theorem posting_moves_exactly_its_entries:
  assumes "ledger_ok s"
  shows "(\<exists>pj t. postJournal ctx j s = Inr (pj, t)) = (has_key ctx \<and> balanced (ji_entries j) \<and> \<not> key_posted (ji_posting_key j) s) \<and>
    (\<forall>pj t r. postJournal ctx j s = Inr (pj, t) \<longrightarrow> accountBalance r t = accountBalance r s + inputs_on (ji_entries j) r)"
proof (intro conjI allI impI iffI)
  have acc: "accounts_ok s" using assms by (rule ledger_ok_accounts)
  show "\<exists>pj t. postJournal ctx j s = Inr (pj, t)" if "has_key ctx \<and> balanced (ji_entries j) \<and> \<not> key_posted (ji_posting_key j) s"
  proof -
    have "\<not> reversed None s" by (simp add: reversed_def)
    with that insertJournal_ok[OF acc] show ?thesis unfolding postJournal_def by blast
  qed
  fix pj t r assume run: "postJournal ctx j s = Inr (pj, t)"
  from insertJournal_posted[OF acc run[unfolded postJournal_def]] obtain new ids where
    "posted ctx j None s (pj_id pj) new ids t" by blast
  then show "accountBalance r t = accountBalance r s + inputs_on (ji_entries j) r" by (rule posted_balance[OF assms])
qed (use insertJournal_needs[OF ledger_ok_accounts[OF assms]] in \<open>auto simp: postJournal_def\<close>)

text \<open>Once a journal is posted under a key, no later posting under that key succeeds, whatever happened in between: it is
  refused as a duplicate (FI-42).\<close>

theorem posting_key_used_once:
  assumes "ledger_ok s" "postJournal ctx j s = Inr (pj, t)" "ledger_step\<^sup>*\<^sup>* t u"
    and "ji_posting_key j' = ji_posting_key j" "has_key ctx'" "balanced (ji_entries j')"
  shows "postJournal ctx' j' u = Inl (CoreError DUPLICATE_POSTING_KEY)"
proof -
  have ok: "ledger_ok t" using assms(1,2) by (rule postJournal_keeps)
  from insertJournal_posted[OF ledger_ok_accounts[OF assms(1)] assms(2)[unfolded postJournal_def]] obtain row where
    "row \<in> set (ledger_journal t)" "lj_posting_key row = ji_posting_key j" using posted_journal_row by blast
  with extends_journal[OF ledger_steps_extend[OF assms(3) ok]] have dup: "key_posted (ji_posting_key j') u"
    by (auto simp: key_posted_def list_ex_iff assms(4))
  have acc: "accounts_ok u" using ledger_steps_keep[OF assms(3) ok] by (rule ledger_ok_accounts)
  from assms(5) obtain idem where idem: "ctx_idempotencyKey ctx' = Some idem" "idem \<noteq> []"
    by (auto simp: has_key_def split: option.splits)
  from resolve_ok[OF acc, of "map en_account (ji_entries j')"] obtain ids new v where
    r: "resolveAccountIds (map en_account (ji_entries j')) u = Inr (ids, v)" "accounts_grow u new v" by blast
  with dup have "insert_journal_row ctx' j' None idem v = Inl (CoreError DUPLICATE_POSTING_KEY)"
    by (simp add: insert_journal_row_def key_posted_def accounts_grow_def)
  moreover have "assertBalanced (ji_entries j') = Inr ()" using assms(6) by (simp add: assertBalanced_iff)
  ultimately show ?thesis using idem r(1) by (simp add: postJournal_def insertJournal_def bindC_run)
qed

text \<open>C4: reversing a posted journal, at any later time, moves every account back by exactly what the journal moved it
  (FI-12), and from then on the journal cannot be reversed a second time.\<close>

theorem reversal_undoes_posting:
  assumes "ledger_ok s" "postJournal ctx j s = Inr (pj, t)" "ledger_step\<^sup>*\<^sup>* t u"
    and "reverseJournal ctx' args u = Inr (pk, v)" "rv_original args = ji_posting_key j" "ledger_step\<^sup>*\<^sup>* v w"
  shows "(\<forall>r. accountBalance r v = accountBalance r u - inputs_on (ji_entries j) r) \<and>
    reverseJournal ctx'' (args\<lparr>rv_posting_key := k\<rparr>) w = Inl (CoreError JOURNAL_ALREADY_REVERSED)"
proof -
  have okt: "ledger_ok t" using assms(1,2) by (rule postJournal_keeps)
  have oku: "ledger_ok u" using assms(3) okt by (rule ledger_steps_keep)
  have tu: "extends t u" using assms(3) okt by (rule ledger_steps_extend)
  from insertJournal_posted[OF ledger_ok_accounts[OF assms(1)] assms(2)[unfolded postJournal_def]] obtain new ids where
    p: "posted ctx j None s (pj_id pj) new ids t" by blast
  from reverseJournal_run[OF oku assms(4)] obtain orig new' ids' j' where
    o: "orig \<in> set (ledger_journal u)" "lj_posting_key orig = rv_original args" "lj_reverses orig = None"
    and p': "posted ctx' j' (Some (lj_id orig)) u (pj_id pk) new' ids' v"
    and rows: "map (entry_row_of ids' (pj_id pk) (ji_trade j')) (ji_entries j') = map (mirror (pj_id pk)) (entries_of u (lj_id orig))"
    and okv: "ledger_ok v" by blast
  from posted_journal_row[OF p] obtain row where row: "row \<in> set (ledger_journal t)" "lj_id row = pj_id pj"
      "lj_posting_key row = ji_posting_key j" and given: "given_id t (pj_id pj)" by blast
  then have "row \<in> set (ledger_journal u)" "lj_posting_key row = lj_posting_key orig"
    using extends_journal[OF tu] o(2) assms(5) by simp_all
  with o(1) oku have "row = orig" unfolding ledger_ok_def distinct_map by (blast dest: inj_onD)
  then have i: "lj_id orig = pj_id pj" using row(2) by simp
  have on: "journal_on u (pj_id pj) r = inputs_on (ji_entries j) r" for r
    using extends_journal_on[OF okt tu given] posted_journal_on[OF assms(1) p] by simp
  have bal: "accountBalance r v = accountBalance r u - inputs_on (ji_entries j) r" for r
    using mirrored_balance[OF oku p' rows] on by (simp add: i)
  have vw: "extends v w" using assms(6) okv by (rule ledger_steps_extend)
  have okw: "ledger_ok w" using assms(6) okv by (rule ledger_steps_keep)
  from posted_journal_row[OF p'] obtain row' where row': "set (ledger_journal v) = insert row' (set (ledger_journal u))"
    "lj_reverses row' = Some (lj_id orig)" by blast
  with o(1) extends_journal[OF vw] have "orig \<in> set (ledger_journal w)" by blast
  moreover have "distinct (map lj_posting_key (ledger_journal w))" using okw by (simp add: ledger_ok_def)
  ultimately have find: "List.find (\<lambda>r. lj_posting_key r = rv_original args) (ledger_journal w) = Some orig"
    using find_unique[of lj_posting_key "ledger_journal w" orig] o(2) by simp
  from row' extends_journal[OF vw] have "\<exists>k \<in> set (ledger_journal w). lj_reverses k = Some (lj_id orig)" by blast
  then have "List.find (\<lambda>r. lj_reverses r = Some (lj_id orig)) (ledger_journal w) \<noteq> None" by (auto simp: find_None_not_mem)
  with find o(3) have "reverseJournal ctx'' (args\<lparr>rv_posting_key := k\<rparr>) w = Inl (CoreError JOURNAL_ALREADY_REVERSED)"
    by (auto simp: reverseJournal_def bindC_run)
  with bal show ?thesis by blast
qed

section \<open>A concrete ledger\<close>

definition sample_ledger :: ledger_db where
  "sample_ledger = \<lparr>clock = 1000, uuidv7 = (\<lambda>n. ''id-'' @ digits_of (int n)), uuids = 0, tx_rank = - 1,
     audit_event = [], audit_seal = [], outbox_event = [], outbox_delivery = [],
     idempotency_key = [], rate_limit_counter = [], auth_user = [], auth_session = [], session_activity = [],
     step_up_verification = [], operator_user_role = [], operator_permission_grant = [], operator_role_request = [], ledger_account = [], ledger_journal = [], ledger_entry = []\<rparr>"

definition posting_ctx :: tx_ctx where
  "posting_ctx = sample_ctx\<lparr>ctx_idempotencyKey := Some ''key-1''\<rparr>"

definition sample_journal :: journal_input where
  "sample_journal = \<lparr>ji_posting_key = ''trade:t:complete'', ji_event_type = ''trade.completed'', ji_trade = Some ''t'',
     ji_entries = [
       \<lparr>en_account = \<lparr>ar_code = ''LIAB:DEFERRED_MARGIN'', ar_type = LIAB, ar_currency = INR\<rparr>, en_direction = DR,
         en_amount = ofMinor 250 INR, en_obligation = None\<rparr>,
       \<lparr>en_account = \<lparr>ar_code = ''REVENUE:GROSS_MARGIN'', ar_type = REVENUE, ar_currency = INR\<rparr>, en_direction = CR,
         en_amount = ofMinor 250 INR, en_obligation = None\<rparr>]\<rparr>"

definition sample_reverse :: reverse_args where
  "sample_reverse = \<lparr>rv_original = ''trade:t:complete'', rv_posting_key = ''trade:t:undo'', rv_event_type = ''trade.undone''\<rparr>"

lemma sample_ids_distinct: "inj (\<lambda>n. ''id-'' @ digits_of (int n))"
proof (rule injI)
  fix m n :: nat assume "''id-'' @ digits_of (int m) = ''id-'' @ digits_of (int n)"
  then have "bigint_of (digits_of (int m)) = bigint_of (digits_of (int n))" by simp
  then show "m = n" by (simp add: digits_of_value)
qed

lemma sample_ledger_ok: "ledger_ok sample_ledger"
  using sample_ids_distinct by (simp add: sample_ledger_def ledger_ok_def accounts_ok_def fresh_ids_def)

lemma posting_ctx_key: "has_key posting_ctx"
  by (simp add: posting_ctx_def has_key_def)

lemma sample_journal_balanced: "balanced (ji_entries sample_journal)"
  by (simp add: sample_journal_def balanced_def entry_valid_def signed_def)

lemma sample_posts: "\<exists>pj t. postJournal posting_ctx sample_journal sample_ledger = Inr (pj, t)"
proof -
  have "\<not> key_posted k sample_ledger" "\<not> reversed None sample_ledger" for k
    by (simp_all add: sample_ledger_def key_posted_def reversed_def)
  from insertJournal_ok[OF ledger_ok_accounts[OF sample_ledger_ok] posting_ctx_key sample_journal_balanced this]
  show ?thesis unfolding postJournal_def by blast
qed

lemma reverse_succeeds:
  assumes ok: "ledger_ok s" and key: "has_key ctx" and o: "orig \<in> set (ledger_journal s)" "lj_reverses orig = None"
    and none: "\<not> reversed (Some (lj_id orig)) s" and new: "\<not> key_posted (rv_posting_key args) s"
    and args: "rv_original args = lj_posting_key orig"
  shows "\<exists>pj t. reverseJournal ctx args s = Inr (pj, t)"
proof -
  have find: "List.find (\<lambda>r. lj_posting_key r = rv_original args) (ledger_journal s) = Some orig"
    using ok o(1) find_unique[of lj_posting_key "ledger_journal s" orig] by (simp add: ledger_ok_def args)
  have "List.find (\<lambda>r. lj_reverses r = Some (lj_id orig)) (ledger_journal s) = None"
    using none by (simp add: find_None_not_mem reversed_def list_ex_iff)
  moreover have bal: "balanced (mirror_entries s (lj_id orig))"
  proof -
    have ok': "journal_ok s orig" using ok o(1) by (simp add: ledger_ok_def)
    have net: "inputs_net (map (mirror_input s) es) c = - currency_net es c" for es c
      by (induction es) (simp_all add: currency_net_def mirror_input_def)
    have "list_all entry_valid (map (mirror_input s) (entries_of s (lj_id orig)))"
      using ok by (auto simp: list_all_iff entry_valid_def mirror_input_def entries_of_def ledger_ok_def entry_ok_def)
    with ok' show ?thesis by (simp add: balanced_def mirror_entries_eq[OF ok] net journal_ok_def)
  qed
  ultimately show ?thesis
    using insertJournal_ok[OF ledger_ok_accounts[OF ok] key, of "\<lparr>ji_posting_key = rv_posting_key args,
        ji_event_type = rv_event_type args, ji_trade = lj_trade orig, ji_entries = mirror_entries s (lj_id orig)\<rparr>" "Some (lj_id orig)"]
      find o(2) none new by (fastforce simp: reverseJournal_def bindC_run)
qed

lemma sample_reverses:
  assumes "postJournal posting_ctx sample_journal sample_ledger = Inr (pj, t)"
  shows "\<exists>pk v. reverseJournal posting_ctx sample_reverse t = Inr (pk, v)"
proof -
  from insertJournal_posted[OF ledger_ok_accounts[OF sample_ledger_ok] assms[unfolded postJournal_def]] obtain new ids where
    p: "posted posting_ctx sample_journal None sample_ledger (pj_id pj) new ids t" by blast
  from posted_journal_row[OF p] obtain row where row: "set (ledger_journal t) = {row}" "lj_reverses row = None"
      "lj_posting_key row = ''trade:t:complete''"
    by (auto simp: sample_ledger_def sample_journal_def)
  then show ?thesis
    using postJournal_keeps[OF sample_ledger_ok assms] posting_ctx_key
    by (intro reverse_succeeds[of t posting_ctx row]) (auto simp: reversed_def key_posted_def list_ex_iff sample_reverse_def)
qed

definition margin_account :: account_ref where
  "margin_account = \<lparr>ar_code = ''REVENUE:GROSS_MARGIN'', ar_type = REVENUE, ar_currency = INR\<rparr>"

lemma sample_margin: "inputs_on (ji_entries sample_journal) margin_account = - 250" "accountBalance margin_account sample_ledger = 0"
  by (simp_all add: sample_journal_def margin_account_def signed_def accountBalance_def has_account_def sample_ledger_def)


theorem posting_moves_exactly_its_entries_witness:
  "\<exists>pj t. postJournal posting_ctx sample_journal sample_ledger = Inr (pj, t) \<and>
     accountBalance margin_account t = - 250"
proof -
  have "\<not> key_posted (ji_posting_key sample_journal) sample_ledger" by (simp add: sample_ledger_def key_posted_def)
  with posting_moves_exactly_its_entries[OF sample_ledger_ok, of posting_ctx sample_journal] posting_ctx_key sample_journal_balanced
  obtain pj t where "postJournal posting_ctx sample_journal sample_ledger = Inr (pj, t)"
    "\<forall>r. accountBalance r t = accountBalance r sample_ledger + inputs_on (ji_entries sample_journal) r" by blast
  then show ?thesis using sample_margin by auto
qed

theorem posting_key_used_once_witness:
  "\<exists>pj t. postJournal posting_ctx sample_journal sample_ledger = Inr (pj, t) \<and>
     postJournal posting_ctx sample_journal t = Inl (CoreError DUPLICATE_POSTING_KEY)"
proof -
  obtain pj t where run: "postJournal posting_ctx sample_journal sample_ledger = Inr (pj, t)" using sample_posts by blast
  with posting_key_used_once[OF sample_ledger_ok run rtranclp.rtrancl_refl refl posting_ctx_key sample_journal_balanced]
  show ?thesis by blast
qed

theorem reversal_undoes_posting_witness:
  "\<exists>pj t pk v. postJournal posting_ctx sample_journal sample_ledger = Inr (pj, t) \<and>
     reverseJournal posting_ctx sample_reverse t = Inr (pk, v) \<and>
     accountBalance margin_account v =
       accountBalance margin_account t + 250"
proof -
  obtain pj t where run: "postJournal posting_ctx sample_journal sample_ledger = Inr (pj, t)" using sample_posts by blast
  from sample_reverses[OF run] obtain pk v where rv: "reverseJournal posting_ctx sample_reverse t = Inr (pk, v)" by blast
  have key: "rv_original sample_reverse = ji_posting_key sample_journal" by (simp add: sample_reverse_def sample_journal_def)
  from reversal_undoes_posting[OF sample_ledger_ok run rtranclp.rtrancl_refl rv key rtranclp.rtrancl_refl]
  have "accountBalance margin_account v =
       accountBalance margin_account t -
       inputs_on (ji_entries sample_journal) margin_account" by blast
  then show ?thesis using run rv sample_margin(1) by auto
qed

end
