(* ===== verification/LedgerRules.thy ===== *)
theory LedgerRules
  imports Ledger
begin

text \<open>
  The posting rules (\<^verbatim>\<open>packages/ledger/src/rules\<close>): which journal each business event posts. A rule returns the
  journal as the code builds it, or the error of a malformed account or an unlisted combination; \<open>Inr None\<close> is the
  rule's \<^verbatim>\<open>null\<close>: nothing to post. The last part follows a whole trade through its journals.
\<close>

section \<open>Entries\<close>

definition entry :: "account_ref result \<Rightarrow> side \<Rightarrow> money \<Rightarrow> string option \<Rightarrow> entry_input result" where
  "entry account d amount ro =
     bindR account (\<lambda>a. Inr \<lparr>en_account = a, en_direction = d, en_amount = amount, en_obligation = ro\<rparr>)"

definition entries :: "entry_input result list \<Rightarrow> entry_input list result" where
  "entries es = mapR (\<lambda>e. e) es"

definition journal :: "string \<Rightarrow> string \<Rightarrow> string option \<Rightarrow> entry_input list result \<Rightarrow> journal_input result" where
  "journal key event trade es =
     bindR es (\<lambda>es. Inr \<lparr>ji_posting_key = key, ji_event_type = event, ji_trade = trade, ji_entries = es\<rparr>)"

definition absMoney :: "money \<Rightarrow> money" where
  "absMoney m = (if isNegative m then Money_negate m else m)"

section \<open>Trades\<close>

record trade_refs =
  tr_trade :: string
  tr_client :: string
  tr_route :: string
  tr_obligation :: string

definition p2pAcceptJournal :: "trade_economics \<Rightarrow> money \<Rightarrow> money \<Rightarrow> trade_refs \<Rightarrow> journal_input result" where
  "p2pAcceptJournal econ routeBase m refs =
     (let clientId = tr_client refs; routeId = tr_route refs; ro = Some (tr_obligation refs);
          margin = (if isZero m then [] else [entry (deferredMargin USDT) (if isPositive m then CR else DR) (absMoney m) None])
      in journal (''trade:'' @ tr_trade refs @ '':accept'') ''trade.accepted'' (Some (tr_trade refs))
        (entries
          (if te_direction econ = BUY_USDT then
             [entry (routeReceivable routeId USDT) DR routeBase ro,
              entry (clientPayable clientId USDT) CR (te_base econ) None] @ margin @
             [entry (clientReceivable clientId INR) DR (te_clientInr econ) None,
              entry (routePayable routeId INR) CR (te_routeInr econ) ro]
           else
             [entry (clientReceivable clientId USDT) DR (te_base econ) None,
              entry (routePayable routeId USDT) CR routeBase ro] @ margin @
             [entry (routeReceivable routeId INR) DR (te_routeInr econ) ro,
              entry (clientPayable clientId INR) CR (te_clientInr econ) None])))"

definition tradeAcceptJournal :: "trade_economics \<Rightarrow> trade_refs \<Rightarrow> journal_input result" where
  "tradeAcceptJournal econ refs =
     (let clientId = tr_client refs; routeId = tr_route refs; ro = Some (tr_obligation refs); margin = te_grossMargin econ;
          marginLine = (if isZero margin then []
            else [entry (deferredMargin INR) (if isPositive margin then CR else DR) (absMoney margin) None])
      in case (te_routeBase econ, te_grossMarginBase econ) of
           (Some routeBase, Some m) \<Rightarrow> p2pAcceptJournal econ routeBase m refs
         | _ \<Rightarrow> journal (''trade:'' @ tr_trade refs @ '':accept'') ''trade.accepted'' (Some (tr_trade refs))
             (entries
               (if te_direction econ = SELL_USDT then
                  [entry (clientReceivable clientId USDT) DR (te_base econ) None,
                   entry (routePayable routeId USDT) CR (te_base econ) ro,
                   entry (routeReceivable routeId INR) DR (te_routeInr econ) ro,
                   entry (clientPayable clientId INR) CR (te_clientInr econ) None] @ marginLine
                else
                  [entry (clientReceivable clientId INR) DR (te_clientInr econ) None,
                   entry (routePayable routeId INR) CR (te_routeInr econ) ro] @ marginLine @
                  [entry (routeReceivable routeId USDT) DR (te_base econ) ro,
                   entry (clientPayable clientId USDT) CR (te_base econ) None])))"

text \<open>The two lines that move a margin from deferred to realized, by its sign.\<close>

definition realizeMargin :: "string \<Rightarrow> currency \<Rightarrow> money \<Rightarrow> journal_input option result" where
  "realizeMargin tradeId c m =
     (if isZero m then Inr None
      else bindR (journal (''trade:'' @ tradeId @ '':complete'') ''trade.completed'' (Some tradeId)
          (entries [entry (deferredMargin c) (if isPositive m then DR else CR) (absMoney m) None,
                    entry (grossMargin c) (if isPositive m then CR else DR) (absMoney m) None]))
        (\<lambda>j. Inr (Some j)))"

definition tradeCompleteJournal :: "trade_economics \<Rightarrow> string \<Rightarrow> journal_input option result" where
  "tradeCompleteJournal econ tradeId =
     (case te_grossMarginBase econ of
        None \<Rightarrow> realizeMargin tradeId INR (te_grossMargin econ)
      | Some m \<Rightarrow> (case te_platformFeeBase econ of
          None \<Rightarrow> realizeMargin tradeId USDT m
        | Some fee \<Rightarrow>
            bindR (Money_sub m fee) (\<lambda>rest.
            if isNegative fee \<or> isNegative rest then Inl (CoreError INVALID_ARGUMENT)
            else if isZero m then Inr None
            else bindR (journal (''trade:'' @ tradeId @ '':complete'') ''trade.completed'' (Some tradeId)
                (entries ([entry (deferredMargin USDT) DR m None] @
                  (if isZero fee then [] else [entry platformFee CR fee None]) @
                  (if isZero rest then [] else [entry (grossMargin USDT) CR rest None]))))
              (\<lambda>j. Inr (Some j)))))"

definition tradeCancelReversal :: "string \<Rightarrow> reverse_args" where
  "tradeCancelReversal tradeId = \<lparr>rv_original = ''trade:'' @ tradeId @ '':accept'', rv_posting_key = ''trade:'' @ tradeId @ '':cancel'',
     rv_event_type = ''trade.cancelled''\<rparr>"

section \<open>Adjustments\<close>

record adjustment_deltas =
  ad_base :: int
  ad_clientInr :: int
  ad_routeInr :: int
  ad_marginInr :: int

record adjustment_refs =
  aj_adjustment :: string
  aj_trade :: string
  aj_client :: string
  aj_route :: string
  aj_obligation :: string
  aj_direction :: direction
  aj_marginRealized :: bool

definition adjustment_line :: "account_ref result \<Rightarrow> side \<Rightarrow> int \<Rightarrow> string option \<Rightarrow> entry_input list result" where
  "adjustment_line account nominal delta ro =
     bindR account (\<lambda>a.
     if delta = 0 then Inr []
     else let flipped = delta < 0
       in Inr [\<lparr>en_account = a, en_direction = (if flipped then flip_side nominal else nominal),
                en_amount = ofMinor (if flipped then - delta else delta) (ar_currency a), en_obligation = ro\<rparr>])"

definition all_lines :: "entry_input list result list \<Rightarrow> entry_input list result" where
  "all_lines ls = bindR (mapR (\<lambda>l. l) ls) (\<lambda>xs. Inr (concat xs))"

definition adjustmentJournal :: "adjustment_deltas \<Rightarrow> adjustment_refs \<Rightarrow> journal_input result" where
  "adjustmentJournal d refs =
     (let clientId = aj_client refs; routeId = aj_route refs; ro = Some (aj_obligation refs);
          marginAccount = (if aj_marginRealized refs then grossMargin INR else deferredMargin INR)
      in bindR (all_lines
          (if aj_direction refs = SELL_USDT then
             [adjustment_line (clientReceivable clientId USDT) DR (ad_base d) None,
              adjustment_line (routePayable routeId USDT) CR (ad_base d) ro,
              adjustment_line (routeReceivable routeId INR) DR (ad_routeInr d) ro,
              adjustment_line (clientPayable clientId INR) CR (ad_clientInr d) None,
              adjustment_line marginAccount CR (ad_marginInr d) None]
           else
             [adjustment_line (clientReceivable clientId INR) DR (ad_clientInr d) None,
              adjustment_line (routePayable routeId INR) CR (ad_routeInr d) ro,
              adjustment_line marginAccount CR (ad_marginInr d) None,
              adjustment_line (routeReceivable routeId USDT) DR (ad_base d) ro,
              adjustment_line (clientPayable clientId USDT) CR (ad_base d) None])) (\<lambda>es.
         if length es < 2 then Inl (CoreError EMPTY_JOURNAL)
         else Inr \<lparr>ji_posting_key = ''adj:'' @ aj_adjustment refs, ji_event_type = ''adjustment.posted'',
                   ji_trade = Some (aj_trade refs), ji_entries = es\<rparr>))"

section \<open>Movements\<close>

datatype movement_party =
    CLIENT string
  | EXCHANGE_ACCOUNT string
  | EXCHANGE_TREASURY string
  | ROUTE string "string option"
  | TRADER string
  | SUSPENSE_PARTY

datatype movement_kind = FIAT | CRYPTO

datatype movement_purpose =
    CLIENT_FIRST_LEG | CLIENT_PAYOUT | ROUTE_SETTLEMENT | REFUND | UNALLOCATED | TRADER_RESERVE | TRADER_REWARD_PAYOUT
  | TRADER_RESERVE_APPLIED | ESCROW_RETURN | FEE_SWEEP

record movement_input =
  mv_kind :: movement_kind
  mv_id :: string
  mv_amount :: money
  mv_from :: movement_party
  mv_to :: movement_party
  mv_trade :: "string option"
  mv_purpose :: movement_purpose
  mv_custody :: "(string \<times> string) option"

definition exchangeAsset :: "movement_party \<Rightarrow> account_ref result" where
  "exchangeAsset p = (case p of EXCHANGE_ACCOUNT a \<Rightarrow> inrSettlement a | EXCHANGE_TREASURY w \<Rightarrow> treasuryUsdt w
     | _ \<Rightarrow> Inl (CoreError INVALID_ARGUMENT))"

definition refused :: "entry_input list result" where
  "refused = Inl (CoreError INVALID_ARGUMENT)"

definition movement_entries :: "movement_input \<Rightarrow> entry_input list result" where
  "movement_entries i =
     (let amount = mv_amount i; c = currency amount
      in case mv_purpose i of
        CLIENT_FIRST_LEG \<Rightarrow> (case mv_from i of
            CLIENT client \<Rightarrow> entries
              [(case mv_to i of ROUTE r ro \<Rightarrow> entry (routePayable r c) DR amount ro | _ \<Rightarrow> entry (exchangeAsset (mv_to i)) DR amount None),
               entry (clientReceivable client c) CR amount None]
          | _ \<Rightarrow> refused)
      | CLIENT_PAYOUT \<Rightarrow> (case mv_to i of
            CLIENT client \<Rightarrow> entries
              [entry (clientPayable client c) DR amount None,
               (case mv_from i of ROUTE r ro \<Rightarrow> entry (routeReceivable r c) CR amount ro | _ \<Rightarrow> entry (exchangeAsset (mv_from i)) CR amount None)]
          | _ \<Rightarrow> refused)
      | ROUTE_SETTLEMENT \<Rightarrow> (case mv_from i of
            ROUTE r ro \<Rightarrow> entries [entry (exchangeAsset (mv_to i)) DR amount None, entry (routeReceivable r c) CR amount ro]
          | _ \<Rightarrow> (case mv_to i of
              ROUTE r ro \<Rightarrow> entries [entry (routePayable r c) DR amount ro, entry (exchangeAsset (mv_from i)) CR amount None]
            | _ \<Rightarrow> refused))
      | ESCROW_RETURN \<Rightarrow> (case (mv_from i, mv_to i) of
            (EXCHANGE_TREASURY w, ROUTE r ro) \<Rightarrow>
              if c \<noteq> USDT then refused
              else entries [entry (routeReceivable r USDT) DR amount ro, entry (exchangeAsset (mv_from i)) CR amount None]
          | _ \<Rightarrow> refused)
      | FEE_SWEEP \<Rightarrow> (case (mv_from i, mv_to i) of
            (EXCHANGE_TREASURY v, EXCHANGE_TREASURY w) \<Rightarrow>
              if c \<noteq> USDT \<or> v = w then refused
              else entries [entry (treasuryUsdt w) DR amount None, entry (treasuryUsdt v) CR amount None]
          | _ \<Rightarrow> refused)
      | REFUND \<Rightarrow> (case mv_to i of
            CLIENT client \<Rightarrow> entries [entry (clientReceivable client c) DR amount None, entry (exchangeAsset (mv_from i)) CR amount None]
          | _ \<Rightarrow> refused)
      | UNALLOCATED \<Rightarrow> entries [entry (exchangeAsset (mv_to i)) DR amount None, entry (suspenseUnallocated c) CR amount None]
      | TRADER_RESERVE \<Rightarrow>
          if c \<noteq> USDT then refused
          else (case mv_from i of
              TRADER t \<Rightarrow> entries [entry (exchangeAsset (mv_to i)) DR amount None, entry (traderReserve t) CR amount None]
            | _ \<Rightarrow> (case mv_to i of
                TRADER t \<Rightarrow> entries [entry (traderReserve t) DR amount None, entry (exchangeAsset (mv_from i)) CR amount None]
              | _ \<Rightarrow> refused))
      | TRADER_RESERVE_APPLIED \<Rightarrow> (case (mv_from i, mv_to i, mv_custody i) of
            (TRADER t, ROUTE r ro, Some (v, w)) \<Rightarrow>
              if c \<noteq> USDT then refused
              else entries ([entry (traderReserve t) DR amount None, entry (routeReceivable r USDT) CR amount ro] @
                (if v = w then [] else [entry (treasuryUsdt w) DR amount None, entry (treasuryUsdt v) CR amount None]))
          | _ \<Rightarrow> refused)
      | TRADER_REWARD_PAYOUT \<Rightarrow> (case mv_to i of
            TRADER t \<Rightarrow> if c \<noteq> INR then refused
              else entries [entry (traderRewardPayable t) DR amount None, entry (exchangeAsset (mv_from i)) CR amount None]
          | _ \<Rightarrow> refused))"

definition movementJournal :: "movement_input \<Rightarrow> journal_input result" where
  "movementJournal i =
     journal ((if mv_kind i = FIAT then ''fiat'' else ''crypto'') @ '':'' @ mv_id i @ '':confirm'')
       (if mv_kind i = FIAT then ''fiat_transfer.confirmed'' else ''crypto_transfer.confirmed'') (mv_trade i) (movement_entries i)"

section \<open>Traders\<close>

definition traderRewardAccrualJournal :: "string \<Rightarrow> string \<Rightarrow> money \<Rightarrow> journal_input result" where
  "traderRewardAccrualJournal orderId traderId amount =
     (if \<not> isPositive amount then Inl (CoreError INVALID_AMOUNT)
      else journal (''trader_reward:'' @ orderId @ '':accrue'') ''trader_reward.accrued'' None
        (entries [entry traderRewards DR amount None, entry (traderRewardPayable traderId) CR amount None]))"

definition traderNetworkReimbursementJournal :: "string \<Rightarrow> string \<Rightarrow> money \<Rightarrow> journal_input result" where
  "traderNetworkReimbursementJournal tradeId traderId amount =
     (if \<not> isPositive amount then Inl (CoreError INVALID_AMOUNT)
      else journal (''network_fee:'' @ tradeId @ '':reimburse'') ''network_fee.reimbursed'' None
        (entries [entry networkFees DR amount None, entry (traderRewardPayable traderId) CR amount None]))"

section \<open>Lemmas: entries\<close>

lemma account_sub_Inr:
  "account_sub p n i c = Inr a \<longleftrightarrow> (case i of None \<Rightarrow> a = \<lparr>ar_code = type_name p @ '':'' @ n, ar_type = p, ar_currency = c\<rparr>
     | Some x \<Rightarrow> isUuid x \<and> a = \<lparr>ar_code = type_name p @ '':'' @ n @ '':'' @ x, ar_type = p, ar_currency = c\<rparr>)"
  by (auto simp: account_sub_def split: option.splits)

lemma entry_Inr [simp]:
  "entry account d m ro = Inr e \<longleftrightarrow> (\<exists>a. account = Inr a \<and> e = \<lparr>en_account = a, en_direction = d, en_amount = m, en_obligation = ro\<rparr>)"
  by (auto simp: entry_def)

lemma entries_simps [simp]:
  "entries [] = Inr []"
  "entries (e # es) = bindR e (\<lambda>x. bindR (entries es) (\<lambda>xs. Inr (x # xs)))"
  by (simp_all add: entries_def)

lemma all_lines_simps [simp]:
  "all_lines [] = Inr []"
  "all_lines (l # ls) = bindR l (\<lambda>x. bindR (all_lines ls) (\<lambda>xs. Inr (x @ xs)))"
  by (simp_all add: all_lines_def bindR_assoc)

lemma journal_Inr [simp]:
  "journal k ev tr es = Inr j \<longleftrightarrow> (\<exists>xs. es = Inr xs \<and> j = \<lparr>ji_posting_key = k, ji_event_type = ev, ji_trade = tr, ji_entries = xs\<rparr>)"
  by (auto simp: journal_def)

lemma absMoney_simps [simp]:
  "minor (absMoney m) = \<bar>minor m\<bar>" "currency (absMoney m) = currency m"
  by (simp_all add: absMoney_def isNegative_def Money_negate_def)

lemma signed_simps [simp]: "signed DR m = m" "signed CR m = - m" "signed d 0 = 0"
  by (simp_all add: signed_def)

section \<open>Properties: every rule balances\<close>

lemma account_currencies:
  "inrSettlement i = Inr a \<Longrightarrow> ar_currency a = INR"
  "treasuryUsdt i = Inr a \<Longrightarrow> ar_currency a = USDT"
  "clientReceivable i c = Inr a \<Longrightarrow> ar_currency a = c"
  "clientPayable i c = Inr a \<Longrightarrow> ar_currency a = c"
  "routeReceivable i c = Inr a \<Longrightarrow> ar_currency a = c"
  "routePayable i c = Inr a \<Longrightarrow> ar_currency a = c"
  "deferredMargin c = Inr a \<Longrightarrow> ar_currency a = c"
  "grossMargin c = Inr a \<Longrightarrow> ar_currency a = c"
  "platformFee = Inr a \<Longrightarrow> ar_currency a = USDT"
  "suspenseUnallocated c = Inr a \<Longrightarrow> ar_currency a = c"
  "traderReserve i = Inr a \<Longrightarrow> ar_currency a = USDT"
  "traderRewardPayable i = Inr a \<Longrightarrow> ar_currency a = INR"
  "traderRewards = Inr a \<Longrightarrow> ar_currency a = INR"
  "networkFees = Inr a \<Longrightarrow> ar_currency a = INR"
  by (auto simp: account_defs account_sub_Inr)

lemmas rule_simps = balanced_def entry_valid_def wf_economics_def isZero_def isPositive_def isNegative_def Let_def

lemma margin_abs [simp]: "(if 0 < m then - \<bar>m\<bar> else \<bar>m\<bar>) = - (m :: int)" "(if 0 < m then \<bar>m\<bar> else - \<bar>m\<bar>) = m"
  by simp_all

lemma accept_exchange_balanced:
  assumes "wf_economics e" "te_routeBase e = None" "tradeAcceptJournal e refs = Inr j"
  shows "balanced (ji_entries j)"
proof (cases "isZero (te_grossMargin e)")
  case True
  with assms show ?thesis
    by (cases "te_direction e") (auto simp: tradeAcceptJournal_def rule_simps dest!: account_currencies)
next
  case False
  with assms show ?thesis
    by (cases "te_direction e") (auto simp: tradeAcceptJournal_def rule_simps split: if_splits dest!: account_currencies)
qed

lemma accept_p2p_balanced:
  assumes "wf_economics e" "te_routeBase e = Some rb" "te_grossMarginBase e = Some m" "tradeAcceptJournal e refs = Inr j"
  shows "balanced (ji_entries j)"
proof (cases "isZero m")
  case True
  with assms show ?thesis
    by (cases "te_direction e") (auto simp: tradeAcceptJournal_def p2pAcceptJournal_def rule_simps dest!: account_currencies)
next
  case False
  with assms show ?thesis
    by (cases "te_direction e")
      (auto simp: tradeAcceptJournal_def p2pAcceptJournal_def rule_simps split: if_splits dest!: account_currencies)
qed

lemma wf_margin_base: "wf_economics e \<Longrightarrow> te_routeBase e = Some rb \<Longrightarrow> \<exists>m. te_grossMarginBase e = Some m"
  by (auto simp: wf_economics_def)

lemma realize_balanced:
  assumes "realizeMargin tr c m = Inr (Some j)" "currency m = c"
  shows "balanced (ji_entries j)"
  using assms by (auto simp: realizeMargin_def rule_simps split: if_splits dest!: account_currencies)

lemma complete_balanced:
  assumes wf: "wf_economics e" and run: "tradeCompleteJournal e tr = Inr (Some j)"
  shows "balanced (ji_entries j)"
proof (cases "te_grossMarginBase e")
  case None
  with assms show ?thesis by (auto simp: tradeCompleteJournal_def wf_economics_def intro: realize_balanced)
next
  case (Some m)
  with wf have m: "currency m = USDT" by (auto simp: wf_economics_def split: option.splits)
  show ?thesis
  proof (cases "te_platformFeeBase e")
    case None
    with Some run m show ?thesis by (auto simp: tradeCompleteJournal_def intro: realize_balanced)
  next
    case (Some fee)
    with \<open>te_grossMarginBase e = Some m\<close> run m show ?thesis
      by (auto simp: tradeCompleteJournal_def rule_simps split: if_splits dest!: account_currencies)
  qed
qed

text \<open>The asset account a movement names is kept in the movement's currency.\<close>

definition asset_currency :: "movement_party \<Rightarrow> currency option" where
  "asset_currency p = (case p of EXCHANGE_ACCOUNT a \<Rightarrow> Some INR | EXCHANGE_TREASURY w \<Rightarrow> Some USDT | _ \<Rightarrow> None)"

definition kept_in_currency :: "movement_input \<Rightarrow> bool" where
  "kept_in_currency i \<longleftrightarrow> asset_currency (mv_from i) \<in> {None, Some (currency (mv_amount i))} \<and>
     asset_currency (mv_to i) \<in> {None, Some (currency (mv_amount i))}"

lemma exchangeAsset_Inr: "exchangeAsset p = Inr a \<Longrightarrow> asset_currency p = Some (ar_currency a)"
  by (auto simp: exchangeAsset_def asset_currency_def split: movement_party.splits dest!: account_currencies)

lemma movement_nets:
  assumes "movement_entries i = Inr es"
  shows "2 \<le> length es \<and> (\<forall>c. inputs_net es c = 0)"
  using assms
  by (cases "mv_purpose i") (auto simp: movement_entries_def refused_def Let_def split: movement_party.splits option.splits if_splits)

lemma movement_valid:
  assumes "movement_entries i = Inr es" "0 < minor (mv_amount i)" "kept_in_currency i"
  shows "list_all entry_valid es"
  using assms
  by (cases "mv_purpose i")
     (auto simp: movement_entries_def refused_def Let_def entry_valid_def kept_in_currency_def
       split: movement_party.splits option.splits if_splits dest!: account_currencies exchangeAsset_Inr)

lemma movement_balanced:
  "movementJournal i = Inr j \<Longrightarrow> 0 < minor (mv_amount i) \<Longrightarrow> kept_in_currency i \<Longrightarrow> balanced (ji_entries j)"
  using movement_nets movement_valid by (fastforce simp: movementJournal_def balanced_def)

lemma adjustment_line_facts:
  assumes "adjustment_line acc nominal d ro = Inr l" "\<And>a. acc = Inr a \<Longrightarrow> ar_currency a = c"
  shows "list_all entry_valid l \<and> inputs_net l k = (if k = c then signed nominal d else 0)"
proof -
  have flip: "- signed nominal (- d) = signed nominal d" by (cases nominal) simp_all
  from assms show ?thesis by (auto simp: adjustment_line_def Let_def entry_valid_def flip split: if_splits)
qed

lemma adjustment_lines:
  assumes "adjustmentJournal d refs = Inr j"
  shows "2 \<le> length (ji_entries j) \<and> list_all entry_valid (ji_entries j) \<and> inputs_net (ji_entries j) USDT = 0 \<and>
    inputs_net (ji_entries j) INR = (if aj_direction refs = SELL_USDT then ad_routeInr d - ad_clientInr d - ad_marginInr d
       else ad_clientInr d - ad_routeInr d - ad_marginInr d)"
proof -
  have margin: "ar_currency a = INR" if "(if aj_marginRealized refs then grossMargin INR else deferredMargin INR) = Inr a" for a
    using that by (auto split: if_splits dest!: account_currencies)
  note line = adjustment_line_facts[OF _ account_currencies(3)] adjustment_line_facts[OF _ account_currencies(4)]
    adjustment_line_facts[OF _ account_currencies(5)] adjustment_line_facts[OF _ account_currencies(6)] adjustment_line_facts[OF _ margin]
  show ?thesis
  proof (cases "aj_direction refs")
    case SELL_USDT
    with assms obtain l1 l2 l3 l4 l5 where
      "adjustment_line (clientReceivable (aj_client refs) USDT) DR (ad_base d) None = Inr l1"
      "adjustment_line (routePayable (aj_route refs) USDT) CR (ad_base d) (Some (aj_obligation refs)) = Inr l2"
      "adjustment_line (routeReceivable (aj_route refs) INR) DR (ad_routeInr d) (Some (aj_obligation refs)) = Inr l3"
      "adjustment_line (clientPayable (aj_client refs) INR) CR (ad_clientInr d) None = Inr l4"
      "adjustment_line (if aj_marginRealized refs then grossMargin INR else deferredMargin INR) CR (ad_marginInr d) None = Inr l5"
      and es: "ji_entries j = l1 @ l2 @ l3 @ l4 @ l5" "2 \<le> length (ji_entries j)"
      unfolding adjustmentJournal_def Let_def by (auto split: if_split_asm)
    from line(1)[OF this(1)] line(4)[OF this(2)] line(3)[OF this(3)] line(2)[OF this(4)] line(5)[OF this(5)]
    show ?thesis using es(2) SELL_USDT by (simp add: es(1))
  next
    case BUY_USDT
    with assms obtain l1 l2 l3 l4 l5 where
      "adjustment_line (clientReceivable (aj_client refs) INR) DR (ad_clientInr d) None = Inr l1"
      "adjustment_line (routePayable (aj_route refs) INR) CR (ad_routeInr d) (Some (aj_obligation refs)) = Inr l2"
      "adjustment_line (if aj_marginRealized refs then grossMargin INR else deferredMargin INR) CR (ad_marginInr d) None = Inr l3"
      "adjustment_line (routeReceivable (aj_route refs) USDT) DR (ad_base d) (Some (aj_obligation refs)) = Inr l4"
      "adjustment_line (clientPayable (aj_client refs) USDT) CR (ad_base d) None = Inr l5"
      and es: "ji_entries j = l1 @ l2 @ l3 @ l4 @ l5" "2 \<le> length (ji_entries j)"
      unfolding adjustmentJournal_def Let_def by (auto split: if_split_asm)
    from line(1)[OF this(1)] line(4)[OF this(2)] line(5)[OF this(3)] line(3)[OF this(4)] line(2)[OF this(5)]
    show ?thesis using es(2) BUY_USDT by (simp add: es(1))
  qed
qed

lemma computed_economics:
  assumes "computeTradeEconomics i = Inr e \<or> computeP2pEconomics i = Inr e \<or> computeDeskEconomics k = Inr e"
  shows "wf_economics e"
    and "te_platformFeeBase e = Some f \<Longrightarrow> te_grossMarginBase e = Some f \<and> currency f = USDT \<and> 0 \<le> minor f"
proof -
  have wf: "wf_economics e"
    using assms(1) computeTradeEconomics_cases[of i e] computeP2pEconomics_cases[of i e] computeDeskEconomics_cases[of k e] by blast
  show "wf_economics e" by fact
  show "te_grossMarginBase e = Some f \<and> currency f = USDT \<and> 0 \<le> minor f" if f: "te_platformFeeBase e = Some f"
  proof -
    have "te_routeBase e \<noteq> None" using wf f by (auto simp: wf_economics_def split: option.splits)
    with f assms(1) computeTradeEconomics_cases[of i e] computeP2pEconomics_cases[of i e] have "computeDeskEconomics k = Inr e"
      by (metis option.distinct(1))
    from computeDeskEconomics_cases[OF this] obtain fee where
      "platformFeeOf (te_base e) (di_feeBps k) = Inr fee" "te_platformFeeBase e = Some fee" "te_grossMarginBase e = Some fee" by blast
    then show ?thesis using f by (auto simp: platformFeeOf_Inr pos_imp_zdiv_nonneg_iff)
  qed
qed

text \<open>C23: whatever is priced, and by whichever of the three ways a trade can settle, the economics are well typed: USDT where the trade
  moves USDT and rupees where it moves rupees, positive amounts on every leg, a margin that is the difference of its two sides in the
  trade's direction, a USDT side with a margin exactly when the route settles in person, and a fee that is that margin and never negative.\<close>

theorem economics_well_typed:
  assumes "computeTradeEconomics i = Inr e \<or> computeP2pEconomics i = Inr e \<or> computeDeskEconomics k = Inr e"
  shows "wf_economics e \<and> (case te_platformFeeBase e of None \<Rightarrow> True
    | Some f \<Rightarrow> te_grossMarginBase e = Some f \<and> currency f = USDT \<and> 0 \<le> minor f)"
  using computed_economics[OF assms] by (simp split: option.split)

theorem economics_well_typed_witness:
  "computeTradeEconomics sample_input = Inr sample_economics \<and> wf_economics sample_economics"
  using economics_well_typed[of sample_input sample_economics sample_desk_input] sample_computation by blast

text \<open>For the economics of any trade, the accept journal of a client and a route with well-formed identifiers is built
  and balances in both currencies, and completing it never throws: there is nothing to post or a balanced journal
  that moves the deferred margin. The amounts the quote froze always post.\<close>

theorem trade_journals_balance:
  assumes "computeTradeEconomics i = Inr e \<or> computeP2pEconomics i = Inr e \<or> computeDeskEconomics k = Inr e"
    and "isUuid (tr_client refs)" "isUuid (tr_route refs)"
  shows "(\<exists>j. tradeAcceptJournal e refs = Inr j \<and> balanced (ji_entries j)) \<and>
    (tradeCompleteJournal e (tr_trade refs) = Inr None \<or>
     (\<exists>j. tradeCompleteJournal e (tr_trade refs) = Inr (Some j) \<and> balanced (ji_entries j)))"
proof -
  note wf = computed_economics(1)[OF assms(1)] and fee = computed_economics(2)[OF assms(1)]
  have "\<exists>j. tradeAcceptJournal e refs = Inr j"
    using assms(2,3) by (cases "te_direction e"; cases "te_routeBase e"; cases "te_grossMarginBase e")
      (simp_all add: tradeAcceptJournal_def p2pAcceptJournal_def journal_def entry_def account_defs account_sub_def Let_def)
  moreover have "balanced (ji_entries j)" if "tradeAcceptJournal e refs = Inr j" for j
    using accept_exchange_balanced[OF wf _ that] accept_p2p_balanced[OF wf _ _ that] wf_margin_base[OF wf]
    by (cases "te_routeBase e") auto
  moreover have "\<exists>x. tradeCompleteJournal e (tr_trade refs) = Inr x"
  proof (cases "te_platformFeeBase e")
    case None
    then show ?thesis by (cases "te_grossMarginBase e")
      (simp_all add: tradeCompleteJournal_def realizeMargin_def journal_def entry_def account_defs account_sub_def)
  next
    case (Some f)
    with fee[OF Some] show ?thesis
      by (simp add: tradeCompleteJournal_def journal_def entry_def account_defs account_sub_def Money_sub_def Money_same_def isNegative_def isZero_def)
  qed
  ultimately show ?thesis using complete_balanced[OF wf] by (metis option.exhaust)
qed

text \<open>Whatever the purpose and the two parties, a movement either is refused or gets two or four lines that cancel in every
  currency, and its posting key names the evidence row and nothing else, so one movement is never posted twice under
  two readings; when the exchange's own account is of the movement's currency, the journal passes the ledger's check.\<close>

theorem movement_journals_balance:
  assumes "movementJournal i = Inr j"
  shows "length (ji_entries j) \<in> {2, 4} \<and> (\<forall>c. inputs_net (ji_entries j) c = 0) \<and>
    ji_posting_key j = (if mv_kind i = FIAT then ''fiat'' else ''crypto'') @ '':'' @ mv_id i @ '':confirm'' \<and>
    (0 < minor (mv_amount i) \<and> kept_in_currency i \<longrightarrow> assertBalanced (ji_entries j) = Inr ())"
proof -
  have "length es \<in> {2, 4}" if "movement_entries i = Inr es" for es
    using that by (cases "mv_purpose i")
      (auto simp: movement_entries_def refused_def Let_def split: movement_party.splits option.splits if_splits)
  with assms movement_nets movement_balanced[OF assms] show ?thesis
    by (fastforce simp: movementJournal_def assertBalanced_iff)
qed

text \<open>An adjustment's journal, whichever way each delta points and whichever of them are zero, passes the ledger's check
  exactly when the margin delta is the one derived from the other deltas (FI-02): a free margin figure never posts.\<close>

theorem adjustment_journal_balances:
  assumes "adjustmentJournal d refs = Inr j"
  shows "assertBalanced (ji_entries j) = Inr () \<longleftrightarrow>
    ad_marginInr d = (if aj_direction refs = SELL_USDT then ad_routeInr d - ad_clientInr d else ad_clientInr d - ad_routeInr d)"
proof -
  have all: "(\<forall>c. inputs_net (ji_entries j) c = 0) \<longleftrightarrow> inputs_net (ji_entries j) USDT = 0 \<and> inputs_net (ji_entries j) INR = 0"
    by (metis currency.exhaust)
  show ?thesis using adjustment_lines[OF assms] by (auto simp: assertBalanced_iff balanced_def all)
qed

section \<open>Properties: a settled trade closes\<close>

text \<open>The four movements that settle a trade: the client's first leg, the client's payout and the two legs with the route, through
  the exchange's account \<open>a\<close> and wallet \<open>w\<close>. On a P2P trade the rupees go between client and route directly.\<close>

definition movement_of :: "movement_kind \<Rightarrow> string \<Rightarrow> money \<Rightarrow> movement_party \<Rightarrow> movement_party \<Rightarrow> string \<Rightarrow> movement_purpose \<Rightarrow> movement_input" where
  "movement_of k i m f t tr p = \<lparr>mv_kind = k, mv_id = i, mv_amount = m, mv_from = f, mv_to = t, mv_trade = Some tr,
     mv_purpose = p, mv_custody = None\<rparr>"

definition full_settlement :: "trade_economics \<Rightarrow> trade_refs \<Rightarrow> string \<Rightarrow> string \<Rightarrow> (nat \<Rightarrow> string) \<Rightarrow> movement_input list" where
  "full_settlement e refs a w i =
     (let tr = tr_trade refs; c = CLIENT (tr_client refs); r = ROUTE (tr_route refs) (Some (tr_obligation refs));
          bank = EXCHANGE_ACCOUNT a; treasury = EXCHANGE_TREASURY w
      in case te_routeBase e of
        None \<Rightarrow>
          if te_direction e = SELL_USDT then
            [movement_of CRYPTO (i 0) (te_base e) c treasury tr CLIENT_FIRST_LEG, movement_of FIAT (i 1) (te_clientInr e) bank c tr CLIENT_PAYOUT,
             movement_of CRYPTO (i 2) (te_base e) treasury r tr ROUTE_SETTLEMENT, movement_of FIAT (i 3) (te_routeInr e) r bank tr ROUTE_SETTLEMENT]
          else
            [movement_of FIAT (i 0) (te_clientInr e) c bank tr CLIENT_FIRST_LEG, movement_of CRYPTO (i 1) (te_base e) treasury c tr CLIENT_PAYOUT,
             movement_of FIAT (i 2) (te_routeInr e) bank r tr ROUTE_SETTLEMENT, movement_of CRYPTO (i 3) (te_base e) r treasury tr ROUTE_SETTLEMENT]
      | Some rb \<Rightarrow>
          if te_direction e = SELL_USDT then
            [movement_of CRYPTO (i 0) (te_base e) c treasury tr CLIENT_FIRST_LEG, movement_of FIAT (i 1) (te_clientInr e) r c tr CLIENT_PAYOUT,
             movement_of CRYPTO (i 2) rb treasury r tr ROUTE_SETTLEMENT]
          else
            [movement_of FIAT (i 0) (te_clientInr e) c r tr CLIENT_FIRST_LEG, movement_of CRYPTO (i 1) rb r treasury tr ROUTE_SETTLEMENT,
             movement_of CRYPTO (i 2) (te_base e) treasury c tr CLIENT_PAYOUT])"

text \<open>All the journals of a settled and completed trade, in the order they post.\<close>

definition trade_book :: "trade_economics \<Rightarrow> trade_refs \<Rightarrow> string \<Rightarrow> string \<Rightarrow> (nat \<Rightarrow> string) \<Rightarrow> entry_input list result" where
  "trade_book e refs a w i =
     bindR (tradeAcceptJournal e refs) (\<lambda>accept.
     bindR (mapR movementJournal (full_settlement e refs a w i)) (\<lambda>moves.
     bindR (tradeCompleteJournal e (tr_trade refs)) (\<lambda>complete.
     Inr (ji_entries accept @ concat (map ji_entries moves) @ (case complete of None \<Rightarrow> [] | Some j \<Rightarrow> ji_entries j)))))"

definition is_ref :: "account_ref result \<Rightarrow> account_ref \<Rightarrow> bool" where
  "is_ref a r \<longleftrightarrow> (case a of Inl e \<Rightarrow> False | Inr x \<Rightarrow> ar_code x = ar_code r \<and> ar_currency x = ar_currency r)"

lemma is_ref_Inr [simp]: "is_ref (Inr x) r \<longleftrightarrow> ar_code x = ar_code r \<and> ar_currency x = ar_currency r"
  by (simp add: is_ref_def)

lemma account_exists:
  "isUuid i \<Longrightarrow> \<exists>a. inrSettlement i = Inr a" "isUuid i \<Longrightarrow> \<exists>a. treasuryUsdt i = Inr a"
  "isUuid i \<Longrightarrow> \<exists>a. clientReceivable i c = Inr a" "isUuid i \<Longrightarrow> \<exists>a. clientPayable i c = Inr a"
  "isUuid i \<Longrightarrow> \<exists>a. routeReceivable i c = Inr a" "isUuid i \<Longrightarrow> \<exists>a. routePayable i c = Inr a"
  "\<exists>a. deferredMargin c = Inr a" "\<exists>a. grossMargin c = Inr a" "\<exists>a. platformFee = Inr a"
  by (simp_all add: account_defs account_sub_def)

text \<open>What the exchange has earned, on the accounts where it ends up.\<close>

definition earned :: "trade_economics \<Rightarrow> string \<Rightarrow> string \<Rightarrow> account_ref \<Rightarrow> int" where
  "earned e a w r =
     (case te_grossMarginBase e of
        None \<Rightarrow> (if is_ref (inrSettlement a) r then minor (te_grossMargin e) else 0)
          - (if is_ref (grossMargin INR) r then minor (te_grossMargin e) else 0)
      | Some m \<Rightarrow> (let fee = (case te_platformFeeBase e of None \<Rightarrow> 0 | Some f \<Rightarrow> minor f)
          in (if is_ref (treasuryUsdt w) r then minor m else 0) - (if is_ref platformFee r then fee else 0)
            - (if is_ref (grossMargin USDT) r then minor m - fee else 0)))"

definition hit :: "account_ref \<Rightarrow> account_ref \<Rightarrow> int" where
  "hit x r = of_bool (ar_code x = ar_code r \<and> ar_currency x = ar_currency r)"

lemma inputs_on_hit: "inputs_on (e # es) r = hit (en_account e) r * signed (en_direction e) (minor (en_amount e)) + inputs_on es r"
  by (simp add: hit_def)

lemma earned_hit:
  "inrSettlement a = Inr bank \<Longrightarrow> grossMargin INR = Inr gm \<Longrightarrow> te_grossMarginBase e = None \<Longrightarrow>
    earned e a w r = (hit bank r - hit gm r) * minor (te_grossMargin e)"
  "treasuryUsdt w = Inr tre \<Longrightarrow> grossMargin USDT = Inr gm \<Longrightarrow> te_grossMarginBase e = Some m \<Longrightarrow> te_platformFeeBase e = None \<Longrightarrow>
    earned e a w r = (hit tre r - hit gm r) * minor m"
  by (simp_all add: earned_def hit_def Let_def)

lemma earned_hit_fee:
  assumes "treasuryUsdt w = Inr tre" "grossMargin USDT = Inr gm" "platformFee = Inr pf" "te_grossMarginBase e = Some m" "te_platformFeeBase e = Some f"
  shows "earned e a w r = hit tre r * minor m - hit pf r * minor f - hit gm r * (minor m - minor f)"
proof -
  show ?thesis unfolding earned_def assms(1-5) by (simp add: hit_def Let_def)
qed

lemmas book_simps = trade_book_def tradeAcceptJournal_def p2pAcceptJournal_def tradeCompleteJournal_def realizeMargin_def
  full_settlement_def movement_of_def movementJournal_def movement_entries_def exchangeAsset_def journal_def entry_def
  isZero_def isPositive_def isNegative_def Let_def

lemma exchange_book:
  assumes wf: "wf_economics e" "te_routeBase e = None"
    and ids: "isUuid (tr_client refs)" "isUuid (tr_route refs)" "isUuid a" "isUuid w"
  shows "\<exists>book. trade_book e refs a w i = Inr book \<and> (\<forall>r. inputs_on book r = earned e a w r)"
proof -
  obtain cr1 cp1 rr1 rp1 bank where inr: "clientReceivable (tr_client refs) INR = Inr cr1" "clientPayable (tr_client refs) INR = Inr cp1"
    "routeReceivable (tr_route refs) INR = Inr rr1" "routePayable (tr_route refs) INR = Inr rp1" "inrSettlement a = Inr bank"
    using ids account_exists by meson
  obtain cr2 cp2 rr2 rp2 tre where usdt: "clientReceivable (tr_client refs) USDT = Inr cr2" "clientPayable (tr_client refs) USDT = Inr cp2"
    "routeReceivable (tr_route refs) USDT = Inr rr2" "routePayable (tr_route refs) USDT = Inr rp2" "treasuryUsdt w = Inr tre"
    using ids account_exists by meson
  obtain dm gm where m: "deferredMargin INR = Inr dm" "grossMargin INR = Inr gm" using account_exists by meson
  have none: "te_grossMarginBase e = None" "te_platformFeeBase e = None" and cur: "currency (te_base e) = USDT"
    "currency (te_clientInr e) = INR" "currency (te_routeInr e) = INR"
    and gross: "minor (te_grossMargin e) = (if te_direction e = SELL_USDT then minor (te_routeInr e) - minor (te_clientInr e)
        else minor (te_clientInr e) - minor (te_routeInr e))" using wf by (simp_all add: wf_economics_def)
  note accounts = wf(2) none cur inr usdt m
  note net = earned_hit(1)[OF inr(5) m(2) none(1)] inputs_on_hit
  have route: "te_direction e = SELL_USDT \<Longrightarrow> minor (te_routeInr e) = minor (te_clientInr e) + minor (te_grossMargin e)"
    and client: "te_direction e = BUY_USDT \<Longrightarrow> minor (te_clientInr e) = minor (te_routeInr e) + minor (te_grossMargin e)"
    using gross by simp_all
  consider "minor (te_grossMargin e) = 0" | "0 < minor (te_grossMargin e)" | "minor (te_grossMargin e) < 0" by linarith
  then show ?thesis
    by cases (cases "te_direction e"; simp add: book_simps accounts route client net algebra_simps del: inputs_on_simps(2))+
qed

lemma p2p_book:
  assumes wf: "wf_economics e" "te_routeBase e = Some rb"
    and fee: "\<And>f. te_platformFeeBase e = Some f \<Longrightarrow> te_grossMarginBase e = Some f \<and> currency f = USDT \<and> 0 \<le> minor f"
    and ids: "isUuid (tr_client refs)" "isUuid (tr_route refs)" "isUuid a" "isUuid w"
  shows "\<exists>book. trade_book e refs a w i = Inr book \<and> (\<forall>r. inputs_on book r = earned e a w r)"
proof -
  obtain cr1 cp1 rr1 rp1 where inr: "clientReceivable (tr_client refs) INR = Inr cr1" "clientPayable (tr_client refs) INR = Inr cp1"
    "routeReceivable (tr_route refs) INR = Inr rr1" "routePayable (tr_route refs) INR = Inr rp1"
    using ids account_exists by meson
  obtain cr2 cp2 rr2 rp2 tre where usdt: "clientReceivable (tr_client refs) USDT = Inr cr2" "clientPayable (tr_client refs) USDT = Inr cp2"
    "routeReceivable (tr_route refs) USDT = Inr rr2" "routePayable (tr_route refs) USDT = Inr rp2" "treasuryUsdt w = Inr tre"
    using ids account_exists by meson
  obtain dm gm pf where m: "deferredMargin USDT = Inr dm" "grossMargin USDT = Inr gm" "platformFee = Inr pf" using account_exists by meson
  from wf obtain gb where gb: "te_grossMarginBase e = Some gb" "currency gb = USDT"
    and gross: "minor gb = (if te_direction e = SELL_USDT then minor (te_base e) - minor rb else minor rb - minor (te_base e))"
    and cur: "currency (te_base e) = USDT" "currency (te_clientInr e) = INR" "currency rb = USDT" and same: "te_routeInr e = te_clientInr e"
    by (auto simp: wf_economics_def)
  have sell: "te_direction e = SELL_USDT \<Longrightarrow> minor (te_base e) = minor rb + minor gb"
    and buy: "te_direction e = BUY_USDT \<Longrightarrow> minor rb = minor (te_base e) + minor gb"
    using gross by simp_all
  note accounts = wf(2) gb cur inr usdt m same sell buy
  show ?thesis
  proof (cases "te_platformFeeBase e")
    case (Some f)
    with fee gb have f: "te_platformFeeBase e = Some gb" "0 \<le> minor gb" by auto
    note net = earned_hit_fee[OF usdt(5) m(2,3) gb(1) f(1)] inputs_on_hit
    consider "minor gb = 0" | "0 < minor gb" using f(2) by linarith
    then show ?thesis
      by cases (cases "te_direction e"; simp add: book_simps accounts f Money_sub_def Money_same_def net algebra_simps del: inputs_on_simps(2))+
  next
    case None
    note net = earned_hit(2)[OF usdt(5) m(2) gb(1) None] inputs_on_hit
    consider "minor gb = 0" | "0 < minor gb" | "minor gb < 0" by linarith
    then show ?thesis
      by cases (cases "te_direction e"; simp add: book_simps accounts None net algebra_simps del: inputs_on_simps(2))+
  qed
qed


section \<open>Concrete journals\<close>

definition sample_uuid :: "char \<Rightarrow> string" where
  "sample_uuid c = ''01890000-0000-7000-8000-00000000000'' @ [c]"

lemma isUuid_samples [simp]: "isUuid (sample_uuid (CHR ''1''))" "isUuid (sample_uuid (CHR ''2''))" "isUuid (sample_uuid (CHR ''3''))"
    "isUuid (sample_uuid (CHR ''4''))"
  by code_simp+

definition sample_refs :: trade_refs where
  "sample_refs = \<lparr>tr_trade = ''t1'', tr_client = sample_uuid (CHR ''1''), tr_route = sample_uuid (CHR ''2''), tr_obligation = ''o1''\<rparr>"

theorem trade_journals_balance_witness:
  "computeTradeEconomics sample_input = Inr sample_economics \<and>
   (\<exists>j. tradeAcceptJournal sample_economics sample_refs = Inr j \<and> balanced (ji_entries j))"
proof -
  have ids: "isUuid (tr_client sample_refs)" "isUuid (tr_route sample_refs)" by (simp_all add: sample_refs_def)
  from trade_journals_balance[OF disjI1[OF sample_computation] ids] sample_computation show ?thesis by blast
qed


definition sample_movement :: movement_input where
  "sample_movement = movement_of CRYPTO ''m1'' (ofMinor 1000000 USDT) (CLIENT (sample_uuid (CHR ''1'')))
     (EXCHANGE_TREASURY (sample_uuid (CHR ''4''))) ''t1'' CLIENT_FIRST_LEG"

theorem movement_journals_balance_witness:
  "\<exists>j. movementJournal sample_movement = Inr j \<and> assertBalanced (ji_entries j) = Inr ()"
proof -
  have "\<exists>j. movementJournal sample_movement = Inr j"
    by (simp add: sample_movement_def book_simps account_defs account_sub_def)
  then obtain j where j: "movementJournal sample_movement = Inr j" ..
  have "0 < minor (mv_amount sample_movement)" "kept_in_currency sample_movement"
    by (simp_all add: sample_movement_def movement_of_def kept_in_currency_def asset_currency_def)
  with movement_journals_balance[OF j] j show ?thesis by blast
qed

definition sample_adjustment :: "adjustment_refs" where
  "sample_adjustment = \<lparr>aj_adjustment = ''a1'', aj_trade = ''t1'', aj_client = sample_uuid (CHR ''1''), aj_route = sample_uuid (CHR ''2''),
     aj_obligation = ''o1'', aj_direction = SELL_USDT, aj_marginRealized = False\<rparr>"

definition sample_deltas :: adjustment_deltas where
  "sample_deltas = \<lparr>ad_base = 0, ad_clientInr = - 100, ad_routeInr = 0, ad_marginInr = 100\<rparr>"

theorem adjustment_journal_balances_witness:
  "\<exists>j. adjustmentJournal sample_deltas sample_adjustment = Inr j \<and> assertBalanced (ji_entries j) = Inr ()"
proof -
  have "\<exists>j. adjustmentJournal sample_deltas sample_adjustment = Inr j"
    by (simp add: adjustmentJournal_def sample_deltas_def sample_adjustment_def adjustment_line_def account_defs account_sub_def Let_def)
  then obtain j where j: "adjustmentJournal sample_deltas sample_adjustment = Inr j" ..
  from adjustment_journal_balances[OF j] j show ?thesis by (auto simp: sample_deltas_def sample_adjustment_def)
qed

end
