(* ===== verification/Capacity.thy ===== *)
theory Capacity
  imports LedgerRules Outbox
begin

text \<open>
  Daily outgoing capacity of the exchange's rupee accounts (\<^verbatim>\<open>packages/inr-accounts/src/capacity.ts\<close>): day rows, reservations,
  their consumption, release and refund, capacity changes and the day rollover, with the guards of the database
  (migration 0009) as checks that throw. The invariant \<open>capacity_ok\<close> is what the deferred constraint of the database
  checks at commit: a day's reserved total is the sum of what its active reservations still hold.
\<close>

section \<open>Values in payloads\<close>

definition money_text :: "money \<Rightarrow> string" where
  "money_text m = (case Money_toDecimalString m of Inr t \<Rightarrow> t | Inl e \<Rightarrow> [])"

text \<open>\<^verbatim>\<open>Money.toJSON\<close>.\<close>

definition js_money :: "money \<Rightarrow> js" where
  "js_money m = JToJSON (JObj [(''amount'', JStr (money_text m)), (''currency'', JStr (currency_code (currency m)))])
     (money_text m @ '' '' @ currency_code (currency m))"

definition parse_money :: "js \<Rightarrow> currency \<Rightarrow> money result" where
  "parse_money v c = (case v of JStr t \<Rightarrow> Money_parse t c | _ \<Rightarrow> Inl (CoreError INVALID_AMOUNT))"

section \<open>Tables\<close>

datatype inr_account_status = INR_ACTIVE | INR_PAUSED | INR_UNAVAILABLE
datatype inr_direction = PAYS_OUT | COLLECTS | PAYS_AND_COLLECTS

record inr_account_row =
  ia_id :: string
  ia_entity :: string
  ia_label :: string
  ia_bank_name :: string
  ia_ifsc :: string
  ia_number_enc :: string
  ia_last4 :: string
  ia_hmac :: string
  ia_rails :: "string list"
  ia_direction :: inr_direction
  ia_status :: inr_account_status
  ia_default_capacity :: int
  ia_notes :: "string option"
  ia_upi_vpa :: "string option"
  ia_beneficiary :: "string option"
  ia_created_by :: string
  ia_version :: int

record account_day_row =
  ad_account :: string
  ad_day :: string
  ad_capacity :: int
  ad_used :: int
  ad_reserved :: int
  ad_pending :: int

datatype reservation_status = RS_ACTIVE | RS_CONSUMED | RS_RELEASED

datatype reservation_purpose = RP_CLIENT_PAYOUT | RP_ROUTE_SETTLEMENT | RP_TRADER_REWARD_PAYOUT

record reservation_row =
  rv_id :: string
  rv_purpose :: reservation_purpose
  rv_trade :: "string option"
  rv_route_settlement :: "string option"
  rv_reward_payout :: "string option"
  rv_account :: string
  rv_day :: string
  rv_amount :: int
  rv_consumed :: int
  rv_status :: reservation_status
  rv_released :: int
  rv_reason :: "string option"
  rv_created_by :: string
  rv_closed_at :: "int option"

text \<open>\<open>ist_day\<close> is the database's calendar: the day in Asia/Kolkata of an instant, as YYYY-MM-DD.\<close>

record capacity_db = ledger_db +
  ist_day :: "int \<Rightarrow> string"
  inr_settlement_account :: "inr_account_row list"
  inr_account_day :: "account_day_row list"
  capacity_reservation :: "reservation_row list"

section \<open>What the database refuses\<close>

text \<open>The CHECK constraints and the growth guard of \<^verbatim>\<open>inr_account_day\<close>, the CHECK constraints and guards of
  \<^verbatim>\<open>capacity_reservation\<close>.\<close>

definition committed :: "account_day_row \<Rightarrow> int" where
  "committed d = ad_used d + ad_reserved d"

definition day_guard :: "account_day_row \<Rightarrow> account_day_row \<Rightarrow> bool" where
  "day_guard old new \<longleftrightarrow> 0 \<le> ad_capacity new \<and> 0 \<le> ad_used new \<and> 0 \<le> ad_reserved new \<and>
     \<not> (committed new > ad_capacity new \<and> committed new > committed old)"

definition reservation_checks :: "reservation_row \<Rightarrow> bool" where
  "reservation_checks r \<longleftrightarrow> 0 < rv_amount r \<and> 0 \<le> rv_consumed r \<and> 0 \<le> rv_released r \<and>
     rv_consumed r + rv_released r \<le> rv_amount r \<and>
     (case rv_status r of
        RS_CONSUMED \<Rightarrow> rv_consumed r = rv_amount r \<and> rv_released r = 0 \<and> rv_closed_at r \<noteq> None
      | RS_RELEASED \<Rightarrow> rv_consumed r + rv_released r = rv_amount r \<and> rv_reason r \<noteq> None \<and> rv_closed_at r \<noteq> None
      | RS_ACTIVE \<Rightarrow> rv_released r = 0 \<and> rv_reason r = None \<and> rv_closed_at r = None \<and> rv_consumed r < rv_amount r)"

definition reservation_guard :: "reservation_row \<Rightarrow> reservation_row \<Rightarrow> bool" where
  "reservation_guard old new \<longleftrightarrow> rv_status old = RS_ACTIVE \<and> rv_consumed old \<le> rv_consumed new \<and> reservation_checks new"

definition is_day :: "string \<Rightarrow> string \<Rightarrow> account_day_row \<Rightarrow> bool" where
  "is_day a d r \<longleftrightarrow> ad_account r = a \<and> ad_day r = d"

definition update_day :: "string \<Rightarrow> string \<Rightarrow> (account_day_row \<Rightarrow> account_day_row) \<Rightarrow> ('x capacity_db_scheme, unit) cmd" where
  "update_day a d f = (\<lambda>s.
     if list_all (\<lambda>r. is_day a d r \<longrightarrow> day_guard r (f r)) (inr_account_day s)
     then Inr ((), s\<lparr>inr_account_day := update_where (is_day a d) f (inr_account_day s)\<rparr>) else Inl DatabaseError)"

definition update_reservation :: "string \<Rightarrow> (reservation_row \<Rightarrow> reservation_row) \<Rightarrow> ('x capacity_db_scheme, unit) cmd" where
  "update_reservation i f = (\<lambda>s.
     if list_all (\<lambda>r. rv_id r = i \<longrightarrow> reservation_guard r (f r)) (capacity_reservation s)
     then Inr ((), s\<lparr>capacity_reservation := update_where (\<lambda>r. rv_id r = i) f (capacity_reservation s)\<rparr>) else Inl DatabaseError)"

definition insert_reservation :: "reservation_row \<Rightarrow> ('x capacity_db_scheme, unit) cmd" where
  "insert_reservation r = (\<lambda>s. if reservation_checks r then Inr ((), s\<lparr>capacity_reservation := capacity_reservation s @ [r]\<rparr>)
     else Inl DatabaseError)"

text \<open>The text of a date the database accepts: a day of the Gregorian calendar.\<close>

definition days_in_month :: "int \<Rightarrow> int \<Rightarrow> int" where
  "days_in_month y m = (if m = 2 then (if y mod 4 = 0 \<and> (y mod 100 \<noteq> 0 \<or> y mod 400 = 0) then 29 else 28)
     else if m \<in> {4, 6, 9, 11} then 30 else 31)"

definition DAY_RE :: "string \<Rightarrow> bool" where
  "DAY_RE t \<longleftrightarrow> matches (replicate 4 isDigit @ isDash # replicate 2 isDigit @ isDash # replicate 2 isDigit) t"

definition calendar_date :: "string \<Rightarrow> bool" where
  "calendar_date t = (let y = bigint_of (take 4 t); m = bigint_of (take 2 (drop 5 t)); d = bigint_of (drop 8 t)
     in DAY_RE t \<and> 1 \<le> y \<and> 1 \<le> m \<and> m \<le> 12 \<and> 1 \<le> d \<and> d \<le> days_in_month y m)"

section \<open>Days\<close>

definition istToday :: "'x capacity_db_scheme \<Rightarrow> string" where
  "istToday s = ist_day s (clock s)"

definition resolveDay :: "string option \<Rightarrow> bool \<Rightarrow> ('x capacity_db_scheme, string) cmd" where
  "resolveDay day allowPast =
     bindC (readC istToday) (\<lambda>today.
     case day of
       None \<Rightarrow> returnC today
     | Some d \<Rightarrow>
         bindC (unlessC (DAY_RE d) (CoreError INVALID_ARGUMENT)) (\<lambda>_.
         bindC (unlessC (\<not> (\<not> allowPast \<and> d < today)) (CoreError INVALID_ARGUMENT)) (\<lambda>_.
         returnC d)))"

definition find_day :: "string \<Rightarrow> string \<Rightarrow> 'x capacity_db_scheme \<Rightarrow> account_day_row option" where
  "find_day a d s = List.find (is_day a d) (inr_account_day s)"

definition find_account :: "string \<Rightarrow> 'x capacity_db_scheme \<Rightarrow> inr_account_row option" where
  "find_account a s = List.find (\<lambda>r. ia_id r = a) (inr_settlement_account s)"

definition open_day :: "string \<Rightarrow> string \<Rightarrow> ('x capacity_db_scheme, unit) cmd" where
  "open_day a d = (\<lambda>s.
     if \<not> calendar_date d then Inl DatabaseInputError
     else case (find_day a d s, find_account a s) of
       (None, Some acc) \<Rightarrow> Inr ((), s\<lparr>inr_account_day := inr_account_day s @
          [\<lparr>ad_account = a, ad_day = d, ad_capacity = ia_default_capacity acc, ad_used = 0, ad_reserved = 0, ad_pending = 0\<rparr>]\<rparr>)
     | _ \<Rightarrow> Inr ((), s))"

definition lockAccountDay :: "string \<Rightarrow> string \<Rightarrow> ('x capacity_db_scheme, account_day_row) cmd" where
  "lockAccountDay accountId day =
     bindC (assertLockOrder L_inr_account_day) (\<lambda>_.
     bindC (open_day accountId day) (\<lambda>_.
     bindC (readC (find_day accountId day)) (\<lambda>row.
     foundC (CoreError NOT_FOUND) row)))"

definition remainingOf :: "account_day_row \<Rightarrow> int" where
  "remainingOf d = ad_capacity d - ad_used d - ad_reserved d"

section \<open>Reserving\<close>

text \<open>The subject as the caller passes it; \<open>NO_PURPOSE\<close> is an object whose purpose is none of the three, which the database refuses.\<close>

datatype reservation_subject =
    FOR_CLIENT_PAYOUT js | FOR_ROUTE_SETTLEMENT js | FOR_TRADER_REWARD_PAYOUT js | NO_PURPOSE | NO_OBJECT

definition subject_json :: "reservation_subject \<Rightarrow> js" where
  "subject_json subject = (case subject of
     FOR_CLIENT_PAYOUT v \<Rightarrow> JObj [(''purpose'', JStr ''CLIENT_PAYOUT''), (''tradeId'', v)]
   | FOR_ROUTE_SETTLEMENT v \<Rightarrow> JObj [(''purpose'', JStr ''ROUTE_SETTLEMENT''), (''routeSettlementId'', v)]
   | FOR_TRADER_REWARD_PAYOUT v \<Rightarrow> JObj [(''purpose'', JStr ''TRADER_REWARD_PAYOUT''), (''traderRewardPayoutId'', v)]
   | NO_PURPOSE \<Rightarrow> JObj [] | NO_OBJECT \<Rightarrow> JUndefined)"

definition subject_columns ::
    "reservation_subject \<Rightarrow> (reservation_purpose \<times> string option \<times> string option \<times> string option) result" where
  "subject_columns subject = (case subject of
     FOR_CLIENT_PAYOUT v \<Rightarrow> bindR (requireUuid v) (\<lambda>i. Inr (RP_CLIENT_PAYOUT, Some i, None, None))
   | FOR_ROUTE_SETTLEMENT v \<Rightarrow> bindR (requireUuid v) (\<lambda>i. Inr (RP_ROUTE_SETTLEMENT, None, Some i, None))
   | FOR_TRADER_REWARD_PAYOUT v \<Rightarrow> bindR (requireUuid v) (\<lambda>i. Inr (RP_TRADER_REWARD_PAYOUT, None, None, Some i))
   | NO_PURPOSE \<Rightarrow> Inl DatabaseError
   | NO_OBJECT \<Rightarrow> Inl TypeError)"

record reserved_capacity =
  rc_reservation :: string
  rc_day :: string
  rc_remaining :: money

definition inr :: "int \<Rightarrow> money" where "inr n = \<lparr>minor = n, currency = INR\<rparr>"

definition reserveCapacity ::
    "tx_ctx \<Rightarrow> js \<Rightarrow> money \<Rightarrow> reservation_subject \<Rightarrow> string option \<Rightarrow> ('x capacity_db_scheme, reserved_capacity) cmd" where
  "reserveCapacity ctx accountId amount subject day_opt =
     bindC (liftC (requireUuid accountId)) (\<lambda>accountId.
     bindC (unlessC (currency amount = INR \<and> isPositive amount) (CoreError INVALID_AMOUNT)) (\<lambda>_.
     bindC (resolveDay day_opt False) (\<lambda>day.
     bindC (lockAccountDay accountId day) (\<lambda>d.
     bindC (readC (find_account accountId)) (\<lambda>row.
     bindC (foundC NoResultError row) (\<lambda>account.
     bindC (unlessC (ia_status account = INR_ACTIVE) (ReferenceError ACCOUNT_NOT_ACTIVE)) (\<lambda>_.
     bindC (unlessC (ia_direction account \<noteq> COLLECTS) (CoreError INVALID_ARGUMENT)) (\<lambda>_.
     let remaining = remainingOf d
     in bindC (unlessC (\<not> minor amount > remaining) (ReferenceError CAPACITY_INSUFFICIENT)) (\<lambda>_.
     bindC (update_day accountId day (\<lambda>r. r\<lparr>ad_reserved := ad_reserved d + minor amount\<rparr>)) (\<lambda>_.
     bindC (liftC (subject_columns subject)) (\<lambda>(purpose, trade, settlement, payout).
     bindC freshId (\<lambda>i.
     bindC (insert_reservation \<lparr>rv_id = i, rv_purpose = purpose, rv_trade = trade, rv_route_settlement = settlement,
       rv_reward_payout = payout, rv_account = accountId, rv_day = day, rv_amount = minor amount, rv_consumed = 0,
       rv_status = RS_ACTIVE, rv_released = 0, rv_reason = None, rv_created_by = actorLabel ctx, rv_closed_at = None\<rparr>) (\<lambda>_.
     let remainingAfter = inr (remaining - minor amount)
     in bindC (appendAudit ctx ''capacity.reserved'' ''capacity_reservation'' (Some i) JUndefined
        (JObj [(''account_id'', JStr accountId), (''day'', JStr day), (''amount'', js_money amount), (''subject'', subject_json subject),
               (''remaining_after'', js_money remainingAfter)])) (\<lambda>_.
     returnC \<lparr>rc_reservation = i, rc_day = day, rc_remaining = remainingAfter\<rparr>))))))))))))))"

definition subject_of :: "js \<Rightarrow> reservation_subject" where
  "subject_of v = (case v of
     JUndefined \<Rightarrow> NO_OBJECT | JNull \<Rightarrow> NO_OBJECT
   | _ \<Rightarrow> (if js_field ''purpose'' v = JStr ''CLIENT_PAYOUT'' then FOR_CLIENT_PAYOUT (js_field ''tradeId'' v)
      else if js_field ''purpose'' v = JStr ''ROUTE_SETTLEMENT'' then FOR_ROUTE_SETTLEMENT (js_field ''routeSettlementId'' v)
      else if js_field ''purpose'' v = JStr ''TRADER_REWARD_PAYOUT'' then FOR_TRADER_REWARD_PAYOUT (js_field ''traderRewardPayoutId'' v)
      else NO_PURPOSE))"

definition day_of :: "js \<Rightarrow> string option" where
  "day_of v = (if v = JUndefined then None else Some (js_String v))"

definition reserveCapacityCommand :: "operator_actor \<Rightarrow> tx_ctx \<Rightarrow> js \<Rightarrow> ('x capacity_db_scheme, js) cmd" where
  "reserveCapacityCommand a = operatorHandle a ''settlement:reserve_capacity'' (\<lambda>ctx p d.
     bindC (unlessC (ctx_idempotencyKey ctx \<noteq> None \<and> ctx_idempotencyKey ctx \<noteq> Some []) (CoreError IDEMPOTENCY_KEY_REQUIRED)) (\<lambda>_.
     bindC (liftC (parse_money (js_field ''amount'' p) INR)) (\<lambda>amount.
     bindC (reserveCapacity ctx (js_field ''accountId'' p) amount (subject_of (js_field ''subject'' p)) (day_of (js_field ''day'' p))) (\<lambda>r.
     returnC (JObj [(''day'', JStr (rc_day r)), (''remainingAfter'', JStr (money_text (rc_remaining r))),
       (''reservationId'', JStr (rc_reservation r))])))))"

section \<open>Consuming, releasing, refunding\<close>

definition find_reservation :: "string \<Rightarrow> 'x capacity_db_scheme \<Rightarrow> reservation_row option" where
  "find_reservation i s = List.find (\<lambda>r. rv_id r = i) (capacity_reservation s)"

definition locateReservation :: "js \<Rightarrow> ('x capacity_db_scheme, account_day_row \<times> reservation_row) cmd" where
  "locateReservation reservationId =
     bindC (liftC (requireUuid reservationId)) (\<lambda>i.
     bindC (readC (find_reservation i)) (\<lambda>row.
     bindC (foundC (CoreError NOT_FOUND) row) (\<lambda>loc.
     bindC (lockAccountDay (rv_account loc) (rv_day loc)) (\<lambda>day.
     bindC (readC (find_reservation i)) (\<lambda>row.
     bindC (foundC NoResultError row) (\<lambda>res.
     returnC (day, res)))))))"

definition reservation_status_name :: "reservation_status \<Rightarrow> string" where
  "reservation_status_name x = (case x of RS_ACTIVE \<Rightarrow> ''ACTIVE'' | RS_CONSUMED \<Rightarrow> ''CONSUMED'' | RS_RELEASED \<Rightarrow> ''RELEASED'')"

definition consumeReservation :: "tx_ctx \<Rightarrow> js \<Rightarrow> money \<Rightarrow> ('x capacity_db_scheme, reservation_status) cmd" where
  "consumeReservation ctx reservationId amount =
     bindC (unlessC (currency amount = INR \<and> isPositive amount) (CoreError INVALID_AMOUNT)) (\<lambda>_.
     bindC (locateReservation reservationId) (\<lambda>(day, res).
     bindC (unlessC (rv_status res = RS_ACTIVE) (ReferenceError RESERVATION_NOT_ACTIVE)) (\<lambda>_.
     let consumed = rv_consumed res + minor amount
     in bindC (unlessC (\<not> consumed > rv_amount res) (ReferenceError CAPACITY_INSUFFICIENT)) (\<lambda>_.
     let full = consumed = rv_amount res
     in bindC (update_day (rv_account res) (rv_day res)
          (\<lambda>r. r\<lparr>ad_reserved := ad_reserved day - minor amount, ad_used := ad_used day + minor amount\<rparr>)) (\<lambda>_.
     bindC (readC clock) (\<lambda>now.
     bindC (update_reservation (rv_id res) (\<lambda>r. if full then r\<lparr>rv_consumed := consumed, rv_status := RS_CONSUMED, rv_closed_at := Some now\<rparr>
          else r\<lparr>rv_consumed := consumed\<rparr>)) (\<lambda>_.
     let status = (if full then RS_CONSUMED else RS_ACTIVE)
     in bindC (appendAudit ctx ''capacity.consumed'' ''capacity_reservation'' (Some (rv_id res)) JUndefined
        (JObj [(''amount'', js_money amount), (''consumed_total'', js_money (inr consumed)), (''status'', JStr (reservation_status_name status))])) (\<lambda>_.
     returnC status))))))))"

definition RELEASE_REASONS :: "string list" where
  "RELEASE_REASONS = [''TRADE_CANCELLED'', ''LEG_CANCELLED'', ''LEG_FAILED'', ''TRADE_COMPLETED'', ''ROUTE_SETTLEMENT_FAILED'',
     ''DAY_ROLLOVER'', ''OPERATOR'', ''TRADER_PAYOUT_FAILED'']"

record release_outcome =
  ro_released :: bool
  ro_amount :: money

definition releaseReservation :: "tx_ctx \<Rightarrow> js \<Rightarrow> string \<Rightarrow> ('x capacity_db_scheme, release_outcome) cmd" where
  "releaseReservation ctx reservationId reason =
     bindC (liftC (requireOneOf (JStr reason) RELEASE_REASONS)) (\<lambda>_.
     bindC (locateReservation reservationId) (\<lambda>(day, res).
     if rv_status res = RS_RELEASED then returnC \<lparr>ro_released = False, ro_amount = inr 0\<rparr>
     else bindC (unlessC (rv_status res = RS_ACTIVE) (ReferenceError RESERVATION_NOT_ACTIVE)) (\<lambda>_.
     let remainder = rv_amount res - rv_consumed res
     in bindC (update_day (rv_account res) (rv_day res) (\<lambda>r. r\<lparr>ad_reserved := ad_reserved day - remainder\<rparr>)) (\<lambda>_.
     bindC (readC clock) (\<lambda>now.
     bindC (update_reservation (rv_id res)
          (\<lambda>r. r\<lparr>rv_status := RS_RELEASED, rv_released := remainder, rv_reason := Some reason, rv_closed_at := Some now\<rparr>)) (\<lambda>_.
     bindC (appendAudit ctx ''capacity.released'' ''capacity_reservation'' (Some (rv_id res)) JUndefined
        (JObj [(''released'', js_money (inr remainder)), (''reason'', JStr reason)])) (\<lambda>_.
     returnC \<lparr>ro_released = True, ro_amount = inr remainder\<rparr>)))))))"

definition refundConsumedCapacity :: "tx_ctx \<Rightarrow> js \<Rightarrow> money \<Rightarrow> string \<Rightarrow> ('x capacity_db_scheme, money) cmd" where
  "refundConsumedCapacity ctx reservationId amount reason =
     bindC (unlessC (currency amount = INR \<and> isPositive amount) (CoreError INVALID_AMOUNT)) (\<lambda>_.
     bindC (liftC (requireOneOf (JStr reason) [''LEG_FAILED'', ''OPERATOR''])) (\<lambda>_.
     bindC (locateReservation reservationId) (\<lambda>(day, res).
     bindC (unlessC (\<not> rv_consumed res < minor amount) (CoreError INVALID_AMOUNT)) (\<lambda>_.
     bindC (unlessC (\<not> ad_used day < minor amount) (CoreError INVALID_AMOUNT)) (\<lambda>_.
     bindC (update_day (rv_account res) (rv_day res) (\<lambda>r. r\<lparr>ad_used := ad_used day - minor amount\<rparr>)) (\<lambda>_.
     bindC (appendAudit ctx ''capacity.released'' ''capacity_reservation'' (Some (rv_id res)) JUndefined
        (JObj [(''refunded'', js_money amount), (''reason'', JStr reason), (''note'', JStr ''payout did not leave the account'')])) (\<lambda>_.
     returnC amount)))))))"

section \<open>Changing capacity\<close>

definition cut_reason :: "js \<Rightarrow> string option" where
  "cut_reason v = (case v of JStr t \<Rightarrow> if trim t \<noteq> [] then Some (take 500 (trim t)) else None | _ \<Rightarrow> None)"

definition setDayCapacity :: "operator_actor \<Rightarrow> tx_ctx \<Rightarrow> js \<Rightarrow> ('x capacity_db_scheme, js) cmd" where
  "setDayCapacity a = operatorHandle a ''capacity:change'' (\<lambda>ctx p dec.
     bindC (liftC (parse_money (js_field ''capacity'' p) INR)) (\<lambda>capacity.
     bindC (unlessC (\<not> isNegative capacity) (CoreError INVALID_AMOUNT)) (\<lambda>_.
     bindC (foundC (CoreError INVALID_ARGUMENT) (cut_reason (js_field ''reason'' p))) (\<lambda>reason.
     bindC (liftC (requireUuid (js_field ''accountId'' p))) (\<lambda>accountId.
     bindC (resolveDay (day_of (js_field ''day'' p)) False) (\<lambda>day.
     bindC (lockAccountDay accountId day) (\<lambda>d.
     bindC (update_day accountId day (\<lambda>r. r\<lparr>ad_capacity := minor capacity\<rparr>)) (\<lambda>_.
     let remaining = remainingOf (d\<lparr>ad_capacity := minor capacity\<rparr>)
     in bindC (appendAudit ctx ''capacity.changed'' ''inr_account_day'' (Some (accountId @ '':'' @ day))
        (JObj [(''capacity'', js_money (inr (ad_capacity d)))])
        (JObj [(''capacity'', js_money capacity), (''remaining'', js_money (inr remaining)), (''reason'', JStr reason)])) (\<lambda>_.
     bindC (whenC (remaining < 0) (bindC (enqueueOutbox ctx \<lparr>oi_type = ''capacity.over_committed'',
          oi_aggregate_type = Some ''inr_settlement_account'', oi_aggregate_id = Some accountId,
          oi_payload = JObj [(''accountId'', JStr accountId), (''day'', JStr day), (''capacityMinor'', JStr (int_to_string (minor capacity))),
            (''committedMinor'', JStr (int_to_string (ad_used d + ad_reserved d)))]\<rparr>) (\<lambda>_. returnC ()))) (\<lambda>_.
     returnC (JObj [(''day'', JStr day), (''overCommitted'', JBool (remaining < 0)), (''remaining'', JStr (money_text (inr remaining)))])))))))))))"

definition set_account :: "string \<Rightarrow> (inr_account_row \<Rightarrow> inr_account_row) \<Rightarrow> 'x capacity_db_scheme \<Rightarrow> 'x capacity_db_scheme" where
  "set_account i f s = s\<lparr>inr_settlement_account := update_where (\<lambda>r. ia_id r = i) f (inr_settlement_account s)\<rparr>"

definition setDefaultDailyCapacity :: "operator_actor \<Rightarrow> tx_ctx \<Rightarrow> js \<Rightarrow> ('x capacity_db_scheme, js) cmd" where
  "setDefaultDailyCapacity a = operatorHandle a ''capacity:change'' (\<lambda>ctx p dec.
     bindC (liftC (parse_money (js_field ''capacity'' p) INR)) (\<lambda>capacity.
     bindC (unlessC (\<not> isNegative capacity) (CoreError INVALID_AMOUNT)) (\<lambda>_.
     bindC (foundC (CoreError INVALID_ARGUMENT) (cut_reason (js_field ''reason'' p))) (\<lambda>reason.
     bindC (liftC (requireUuid (js_field ''accountId'' p))) (\<lambda>accountId.
     bindC (readC (find_account accountId)) (\<lambda>row.
     bindC (foundC (CoreError NOT_FOUND) row) (\<lambda>before.
     bindC (writeC (set_account (ia_id before) (\<lambda>r. r\<lparr>ia_default_capacity := minor capacity, ia_version := ia_version before + 1\<rparr>))) (\<lambda>_.
     bindC (appendAudit ctx ''capacity.default_changed'' ''inr_settlement_account'' (Some (ia_id before))
        (JObj [(''default_daily_capacity'', js_money (inr (ia_default_capacity before)))])
        (JObj [(''default_daily_capacity'', js_money capacity), (''reason'', JStr reason), (''applies_to'', JStr ''days not yet opened'')])) (\<lambda>_.
     returnC (JObj [(''changed'', JBool True)]))))))))))"

section \<open>The day rollover\<close>

text \<open>The active reservations of past days, by account, day and identifier, grouped by day row as the loop visits them.\<close>

definition stale_reservations :: "nat \<Rightarrow> 'x capacity_db_scheme \<Rightarrow> reservation_row list" where
  "stale_reservations limit s = take limit (sort_key (\<lambda>r. rv_account r) (sort_key (\<lambda>r. rv_day r) (sort_key (\<lambda>r. rv_id r)
     (filter (\<lambda>r. rv_status r = RS_ACTIVE \<and> rv_day r < istToday s) (capacity_reservation s)))))"

fun add_to_group :: "string \<times> string \<Rightarrow> string \<Rightarrow> ((string \<times> string) \<times> string list) list \<Rightarrow> ((string \<times> string) \<times> string list) list" where
  "add_to_group k i [] = [(k, [i])]"
| "add_to_group k i ((k', is) # gs) = (if k' = k then (k', is @ [i]) # gs else (k', is) # add_to_group k i gs)"

definition group_by_day :: "reservation_row list \<Rightarrow> ((string \<times> string) \<times> string list) list" where
  "group_by_day rows = foldl (\<lambda>gs r. add_to_group (rv_account r, rv_day r) (rv_id r) gs) [] rows"

fun release_each :: "tx_ctx \<Rightarrow> string list \<Rightarrow> nat \<Rightarrow> ('x capacity_db_scheme, nat) cmd" where
  "release_each ctx [] released = returnC released"
| "release_each ctx (i # is) released =
     bindC (releaseReservation ctx (JStr i) ''DAY_ROLLOVER'') (\<lambda>r. release_each ctx is (if ro_released r then Suc released else released))"

definition releasePastDayReservations :: "tx_ctx \<Rightarrow> nat \<Rightarrow> ('x capacity_db_scheme, nat) cmd" where
  "releasePastDayReservations ctx limit =
     bindC (readC (stale_reservations limit)) (\<lambda>stale.
     release_each ctx (concat (map snd (group_by_day stale))) 0)"

record account_day_view =
  av_account :: string
  av_day :: string
  av_capacity :: int
  av_used :: int
  av_reserved :: int
  av_remaining :: int

definition getAccountDay :: "string \<Rightarrow> string option \<Rightarrow> 'x capacity_db_scheme \<Rightarrow> account_day_view result" where
  "getAccountDay accountId day s =
     (let d = (case day of Some d \<Rightarrow> d | None \<Rightarrow> istToday s)
      in bindR (requireUuid (JStr accountId)) (\<lambda>i.
         case find_account i s of
           None \<Rightarrow> Inl (CoreError NOT_FOUND)
         | Some account \<Rightarrow> (let row = find_day accountId d s;
             cap = (case row of Some r \<Rightarrow> ad_capacity r | None \<Rightarrow> ia_default_capacity account);
             used = (case row of Some r \<Rightarrow> ad_used r | None \<Rightarrow> 0);
             reserved = (case row of Some r \<Rightarrow> ad_reserved r | None \<Rightarrow> 0)
             in Inr \<lparr>av_account = accountId, av_day = d, av_capacity = cap, av_used = used, av_reserved = reserved, av_remaining = cap - used - reserved\<rparr>)))"

section \<open>Invariant\<close>

definition open_part :: "reservation_row \<Rightarrow> int" where
  "open_part r = (if rv_status r = RS_ACTIVE then rv_amount r - rv_consumed r else 0)"

definition on_day :: "string \<Rightarrow> string \<Rightarrow> reservation_row \<Rightarrow> bool" where
  "on_day a d r \<longleftrightarrow> rv_account r = a \<and> rv_day r = d"

definition open_total :: "string \<Rightarrow> string \<Rightarrow> reservation_row list \<Rightarrow> int" where
  "open_total a d rs = sum_list (map open_part (filter (on_day a d) rs))"

definition day_key :: "account_day_row \<Rightarrow> string \<times> string" where
  "day_key r = (ad_account r, ad_day r)"

definition days_ok :: "account_day_row list \<Rightarrow> reservation_row list \<Rightarrow> bool" where
  "days_ok ds rs \<longleftrightarrow> distinct (map day_key ds) \<and>
     (\<forall>d \<in> set ds. 0 \<le> ad_capacity d \<and> 0 \<le> ad_used d \<and> ad_reserved d = open_total (ad_account d) (ad_day d) rs)"

definition reservations_ok :: "'x capacity_db_scheme \<Rightarrow> bool" where
  "reservations_ok s \<longleftrightarrow> fresh_ids s \<and> distinct (map rv_id (capacity_reservation s)) \<and>
     (\<forall>r \<in> set (capacity_reservation s). given_id s (rv_id r) \<and> reservation_checks r \<and>
        (rv_account r, rv_day r) \<in> day_key ` set (inr_account_day s))"

definition capacity_ok :: "'x capacity_db_scheme \<Rightarrow> bool" where
  "capacity_ok s \<longleftrightarrow> days_ok (inr_account_day s) (capacity_reservation s) \<and> reservations_ok s \<and>
     (\<forall>a \<in> set (inr_settlement_account s). 0 \<le> ia_default_capacity a)"

section \<open>Lemmas: totals\<close>

lemma open_part_nonneg: "reservation_checks r \<Longrightarrow> 0 \<le> open_part r"
  by (auto simp: open_part_def reservation_checks_def)

lemma open_total_simps [simp]:
  "open_total a d [] = 0"
  "open_total a d (r # rs) = (if on_day a d r then open_part r else 0) + open_total a d rs"
  "open_total a d (xs @ ys) = open_total a d xs + open_total a d ys"
  by (simp_all add: open_total_def)

lemma open_total_nonneg: "(\<And>r. r \<in> set rs \<Longrightarrow> reservation_checks r) \<Longrightarrow> 0 \<le> open_total a d rs"
  by (induction rs) (auto intro!: add_nonneg_nonneg open_part_nonneg)

lemma open_part_le_total:
  "r \<in> set rs \<Longrightarrow> on_day a d r \<Longrightarrow> (\<And>r. r \<in> set rs \<Longrightarrow> reservation_checks r) \<Longrightarrow> open_part r \<le> open_total a d rs"
proof (induction rs)
  case (Cons x rs)
  then have nn: "0 \<le> open_total a d rs" "0 \<le> open_part x" by (auto intro: open_total_nonneg open_part_nonneg)
  with Cons show ?case by (cases "r = x") (auto intro: add_increasing)
qed simp

lemma open_total_update:
  assumes "distinct (map rv_id rs)" "r \<in> set rs" "\<And>a d. on_day a d (f r) = on_day a d r"
  shows "open_total a d (update_where (\<lambda>x. rv_id x = rv_id r) f rs) =
    open_total a d rs + (if on_day a d r then open_part (f r) - open_part r else 0)"
  using assms(1,2)
proof (induction rs)
  case (Cons x rs)
  show ?case
  proof (cases "x = r")
    case True
    with Cons.prems have "rv_id r \<notin> rv_id ` set rs" by simp
    then have "\<forall>y \<in> set rs. rv_id y \<noteq> rv_id r" by (metis image_eqI)
    then have "update_where (\<lambda>x. rv_id x = rv_id r) f rs = rs" by (simp add: update_where_def map_idI)
    with True assms(3) show ?thesis by simp
  next
    case False
    with Cons.prems have "r \<in> set rs" "rv_id x \<noteq> rv_id r" by auto
    with Cons show ?thesis by simp
  qed
qed simp

section \<open>Lemmas: day rows\<close>

lemma find_day_Some: "find_day a d s = Some r \<Longrightarrow> r \<in> set (inr_account_day s) \<and> ad_account r = a \<and> ad_day r = d"
  using find_Some_mem by (fastforce simp: find_day_def is_day_def)

lemma find_account_Some: "find_account a s = Some r \<Longrightarrow> r \<in> set (inr_settlement_account s) \<and> ia_id r = a"
  using find_Some_mem by (fastforce simp: find_account_def)

lemma find_reservation_Some: "find_reservation i s = Some r \<Longrightarrow> r \<in> set (capacity_reservation s) \<and> rv_id r = i"
  using find_Some_mem by (fastforce simp: find_reservation_def)

lemma day_unique:
  assumes "distinct (map day_key ds)" "x \<in> set ds" "y \<in> set ds" "is_day (ad_account x) (ad_day x) y"
  shows "y = x"
proof -
  have "day_key y = day_key x" using assms(4) by (simp add: day_key_def is_day_def)
  with assms(1-3) show ?thesis by (auto simp: distinct_map dest: inj_onD)
qed

lemma update_day_run:
  assumes "distinct (map day_key (inr_account_day s))" "find_day a d s = Some day"
  shows "update_day a d f s = (if day_guard day (f day)
    then Inr ((), s\<lparr>inr_account_day := update_where (is_day a d) f (inr_account_day s)\<rparr>) else Inl DatabaseError)"
proof -
  from find_day_Some[OF assms(2)] have mem: "day \<in> set (inr_account_day s)" "ad_account day = a" "ad_day day = d" by auto
  then have here: "is_day a d day" by (simp add: is_day_def)
  have only: "r = day" if "r \<in> set (inr_account_day s)" "is_day a d r" for r
    using day_unique[OF assms(1) mem(1) that(1)] that(2) mem(2,3) by simp
  have "list_all (\<lambda>r. is_day a d r \<longrightarrow> day_guard r (f r)) (inr_account_day s) \<longleftrightarrow> day_guard day (f day)"
    unfolding list_all_iff using mem(1) here only by blast
  then show ?thesis by (simp add: update_day_def)
qed

lemma update_reservation_run:
  assumes "distinct (map rv_id (capacity_reservation s))" "find_reservation i s = Some res"
  shows "update_reservation i f s = (if reservation_guard res (f res)
    then Inr ((), s\<lparr>capacity_reservation := update_where (\<lambda>r. rv_id r = i) f (capacity_reservation s)\<rparr>) else Inl DatabaseError)"
proof -
  from find_reservation_Some[OF assms(2)] have mem: "res \<in> set (capacity_reservation s)" "rv_id res = i" by auto
  have only: "r = res" if "r \<in> set (capacity_reservation s)" "rv_id r = i" for r
    using assms(1) mem that by (auto simp: distinct_map dest: inj_onD)
  have "list_all (\<lambda>r. rv_id r = i \<longrightarrow> reservation_guard r (f r)) (capacity_reservation s) \<longleftrightarrow> reservation_guard res (f res)"
    unfolding list_all_iff using mem only by blast
  then show ?thesis by (simp add: update_reservation_def)
qed

lemma days_ok_update:
  assumes ok: "days_ok ds rs" and day: "day \<in> set ds" "a = ad_account day" "d = ad_day day"
    and f: "day_key (f day) = day_key day" "0 \<le> ad_capacity (f day)" "0 \<le> ad_used (f day)" "ad_reserved (f day) = open_total a d rs'"
    and others: "\<And>a' d'. (a', d') \<noteq> (a, d) \<Longrightarrow> open_total a' d' rs' = open_total a' d' rs"
  shows "days_ok (update_where (is_day a d) f ds) rs'"
proof -
  have dist: "distinct (map day_key ds)" using ok by (simp add: days_ok_def)
  have only: "r = day" if "r \<in> set ds" "is_day a d r" for r
    using day_unique[OF dist day(1) that(1)] that(2) day(2,3) by simp
  have "map day_key (update_where (is_day a d) f ds) = map day_key ds"
    unfolding update_where_def map_map by (rule map_cong[OF refl]) (use only f(1) in auto)
  moreover have "0 \<le> ad_capacity r \<and> 0 \<le> ad_used r \<and> ad_reserved r = open_total (ad_account r) (ad_day r) rs'"
    if "r \<in> set (update_where (is_day a d) f ds)" for r
  proof -
    from that obtain q where q: "q \<in> set ds" "r = (if is_day a d q then f q else q)" by (auto simp: set_update_where)
    show ?thesis
    proof (cases "is_day a d q")
      case True
      with q only[OF q(1)] have "r = f day" by simp
      with f day(2,3) show ?thesis by (simp add: day_key_def)
    next
      case False
      then have "(ad_account q, ad_day q) \<noteq> (a, d)" by (auto simp: is_day_def)
      with q False ok others show ?thesis by (auto simp: days_ok_def)
    qed
  qed
  ultimately show ?thesis using dist by (simp add: days_ok_def)
qed

lemma day_keys_update:
  assumes "\<And>r. day_key (f r) = day_key r"
  shows "day_key ` set (update_where p f ds) = day_key ` set ds"
proof -
  have "(\<lambda>r. day_key (if p r then f r else r)) = day_key" using assms by auto
  then show ?thesis unfolding set_update_where image_image by (rule arg_cong[of _ _ "\<lambda>g. g ` set ds"])
qed

section \<open>Lemmas: the operations under the lock\<close>

lemma capacity_okD:
  assumes "capacity_ok s"
  shows "distinct (map day_key (inr_account_day s))" "distinct (map rv_id (capacity_reservation s))"
    "fresh_ids s" "r \<in> set (capacity_reservation s) \<Longrightarrow> reservation_checks r"
    "r \<in> set (capacity_reservation s) \<Longrightarrow> given_id s (rv_id r)"
    "d \<in> set (inr_account_day s) \<Longrightarrow> ad_reserved d = open_total (ad_account d) (ad_day d) (capacity_reservation s)"
    "d \<in> set (inr_account_day s) \<Longrightarrow> 0 \<le> ad_used d" "d \<in> set (inr_account_day s) \<Longrightarrow> 0 \<le> ad_capacity d"
    "r \<in> set (capacity_reservation s) \<Longrightarrow> (rv_account r, rv_day r) \<in> day_key ` set (inr_account_day s)"
  using assms by (auto simp: capacity_ok_def days_ok_def reservations_ok_def)

lemma reserved_nonneg: "capacity_ok s \<Longrightarrow> d \<in> set (inr_account_day s) \<Longrightarrow> 0 \<le> ad_reserved d"
  using capacity_okD(4,6) open_total_nonneg by metis

lemma capacity_ok_cong:
  assumes ok: "capacity_ok s" and same: "inr_account_day t = inr_account_day s" "capacity_reservation t = capacity_reservation s"
    "inr_settlement_account t = inr_settlement_account s" "uuidv7 t = uuidv7 s" "uuids s \<le> uuids t"
  shows "capacity_ok t"
  using ok same given_id_mono[OF _ same(4,5)] by (auto simp: capacity_ok_def reservations_ok_def fresh_ids_def)

lemma no_reservations_off_days:
  assumes ok: "capacity_ok s" and none: "find_day a d s = None"
  shows "open_total a d (capacity_reservation s) = 0"
proof -
  have "\<not> on_day a d r" if "r \<in> set (capacity_reservation s)" for r
  proof
    assume "on_day a d r"
    then have "(a, d) \<in> day_key ` set (inr_account_day s)" using capacity_okD(9)[OF ok that] by (simp add: on_day_def)
    with none show False by (auto simp: find_day_def is_day_def day_key_def find_None_not_mem)
  qed
  then have "filter (on_day a d) (capacity_reservation s) = []" by (simp add: filter_empty_conv)
  then show ?thesis by (simp add: open_total_def)
qed

lemma open_day_ok:
  assumes ok: "capacity_ok s" and run: "open_day a d s = Inr (u, t)"
  shows "capacity_ok t \<and> (\<exists>ds. t = s\<lparr>inr_account_day := inr_account_day s @ ds\<rparr>)"
proof (cases "find_day a d s")
  case None
  show ?thesis
  proof (cases "find_account a s")
    case (Some acc)
    let ?new = "\<lparr>ad_account = a, ad_day = d, ad_capacity = ia_default_capacity acc, ad_used = 0, ad_reserved = 0, ad_pending = 0\<rparr>"
    have t: "t = s\<lparr>inr_account_day := inr_account_day s @ [?new]\<rparr>" using run None Some by (auto simp: open_day_def split: if_splits)
    have "0 \<le> ia_default_capacity acc" using ok find_account_Some[OF Some] by (auto simp: capacity_ok_def)
    moreover have "(a, d) \<notin> day_key ` set (inr_account_day s)"
      using None by (auto simp: find_day_def is_day_def day_key_def find_None_not_mem)
    moreover have "open_total a d (capacity_reservation s) = 0" by (rule no_reservations_off_days[OF ok None])
    ultimately have "days_ok (inr_account_day t) (capacity_reservation t)"
      using ok t by (auto simp: capacity_ok_def days_ok_def day_key_def)
    moreover have "reservations_ok t" using ok t by (auto simp: capacity_ok_def reservations_ok_def fresh_ids_def given_id_def)
    ultimately show ?thesis using ok t by (auto simp: capacity_ok_def)
  qed (use run ok None in \<open>auto simp: open_day_def intro: exI[of _ "[]"] split: if_splits\<close>)
qed (use run ok in \<open>auto simp: open_day_def intro: exI[of _ "[]"] split: if_splits\<close>)

lemma lock_ok:
  assumes ok: "capacity_ok s" and run: "lockAccountDay a d s = Inr (row, t)"
  shows "capacity_ok t \<and> find_day a d t = Some row \<and> (\<exists>ds. t = s\<lparr>tx_rank := lock_rank L_inr_account_day, inr_account_day := inr_account_day s @ ds\<rparr>)"
proof -
  let ?s = "s\<lparr>tx_rank := lock_rank L_inr_account_day\<rparr>"
  from run have "open_day a d ?s = Inr ((), t)" and row: "find_day a d t = Some row"
    by (auto simp: lockAccountDay_def)
  moreover have "capacity_ok ?s" by (rule capacity_ok_cong[OF ok]) simp_all
  ultimately show ?thesis using open_day_ok[of ?s] by fastforce
qed

lemma lock_never_constraint: "lockAccountDay a d s = Inl e \<Longrightarrow> e \<noteq> DatabaseError"
  by (auto simp: lockAccountDay_def bindC_Inl_iff open_day_def assertLockOrder_def split: option.splits if_splits)

lemma locate_ok:
  assumes ok: "capacity_ok s" and run: "locateReservation v s = Inr ((day, res), t)"
  shows "capacity_ok t \<and> find_day (rv_account res) (rv_day res) t = Some day \<and> find_reservation (rv_id res) t = Some res \<and>
    requireUuid v = Inr (rv_id res) \<and> find_reservation (rv_id res) s = Some res \<and>
    (\<exists>ds. t = s\<lparr>tx_rank := lock_rank L_inr_account_day, inr_account_day := inr_account_day s @ ds\<rparr>)"
proof -
  from run obtain i loc where i: "requireUuid v = Inr i" "find_reservation i s = Some loc"
    and lock: "lockAccountDay (rv_account loc) (rv_day loc) s = Inr (day, t)" and res: "find_reservation i t = Some res"
    by (auto simp: locateReservation_def)
  from lock_ok[OF ok lock] obtain ds where l: "capacity_ok t" "find_day (rv_account loc) (rv_day loc) t = Some day"
    "t = s\<lparr>tx_rank := lock_rank L_inr_account_day, inr_account_day := inr_account_day s @ ds\<rparr>" by blast
  with i res have "res = loc" by (simp add: find_reservation_def)
  with l i find_reservation_Some[OF i(2)] res show ?thesis by auto
qed

lemma locate_never_constraint: "capacity_ok s \<Longrightarrow> locateReservation v s = Inl e \<Longrightarrow> e \<noteq> DatabaseError"
proof -
  assume ok: "capacity_ok s" and run: "locateReservation v s = Inl e"
  have uuid: "requireUuid v = Inl e' \<Longrightarrow> e' \<noteq> DatabaseError" for e'
    by (auto simp: requireUuid_def split: js.splits if_splits)
  have lock: "lockAccountDay (rv_account loc) (rv_day loc) s = Inl e' \<Longrightarrow> e' \<noteq> DatabaseError"
    for loc e'
    by (rule lock_never_constraint)
  have keep: "find_reservation i t = Some loc"
    if "find_reservation i s = Some loc" "lockAccountDay (rv_account loc) (rv_day loc) s = Inr (day, t)" for i loc day t
    using lock_ok[OF ok that(2)] that(1) by (auto simp: find_reservation_def)
  show ?thesis
  proof (cases "requireUuid v")
    case (Inl e')
    with run uuid[OF Inl] show ?thesis by (simp add: locateReservation_def bindC_run)
  next
    case (Inr i)
    show ?thesis
    proof (cases "find_reservation i s")
      case (Some loc)
      show ?thesis
      proof (cases "lockAccountDay (rv_account loc) (rv_day loc) s")
        case (Inl e')
        with run Inr Some lock[OF Inl] show ?thesis by (simp add: locateReservation_def bindC_run \<open>requireUuid v = Inr i\<close>)
      next
        case (Inr dt)
        obtain day t where dt: "dt = (day, t)" by (cases dt)
        from run keep[OF Some Inr[unfolded dt]] Inr Some dt show ?thesis
          by (simp add: locateReservation_def bindC_run \<open>requireUuid v = Inr i\<close>)
      qed
    qed (use run Inr in \<open>auto simp: locateReservation_def bindC_run\<close>)
  qed
qed

lemma change_pair:
  assumes ok: "capacity_ok s" and day: "find_day (rv_account res) (rv_day res) s = Some day" and res: "find_reservation (rv_id res) s = Some res"
    and g: "reservation_guard res (g res)" "\<And>r. rv_id (g r) = rv_id r" "\<And>r. rv_account (g r) = rv_account r" "\<And>r. rv_day (g r) = rv_day r"
    and f: "\<And>r. day_key (f r) = day_key r" "ad_capacity (f day) = ad_capacity day" "0 \<le> ad_used (f day)"
      "ad_reserved (f day) = ad_reserved day + open_part (g res) - open_part res" "committed (f day) \<le> committed day"
  defines "s1 \<equiv> s\<lparr>inr_account_day := update_where (is_day (rv_account res) (rv_day res)) f (inr_account_day s)\<rparr>"
  defines "s2 \<equiv> s1\<lparr>capacity_reservation := update_where (\<lambda>r. rv_id r = rv_id res) g (capacity_reservation s)\<rparr>"
  shows "update_day (rv_account res) (rv_day res) f s = Inr ((), s1) \<and> update_reservation (rv_id res) g s1 = Inr ((), s2) \<and> capacity_ok s2"
proof -
  note d = capacity_okD[OF ok]
  from find_reservation_Some[OF res] have mem: "res \<in> set (capacity_reservation s)" by auto
  from find_day_Some[OF day] have dmem: "day \<in> set (inr_account_day s)" "ad_account day = rv_account res" "ad_day day = rv_day res" by auto
  have on: "on_day a b (g r) = on_day a b r" for a b r using g(3,4) by (simp add: on_day_def)
  have "open_part res \<le> ad_reserved day"
    using open_part_le_total[OF mem _ d(4), of "rv_account res" "rv_day res"] d(6)[OF dmem(1)] dmem(2,3) by (simp add: on_day_def)
  then have nonneg: "0 \<le> ad_reserved (f day)"
    using f(4) open_part_nonneg[of "g res"] g(1) by (simp add: reservation_guard_def)
  have up: "update_day (rv_account res) (rv_day res) f s = Inr ((), s1)"
    unfolding update_day_run[OF d(1) day] s1_def using f nonneg d(8)[OF dmem(1)] by (simp add: day_guard_def)
  have rsame: "find_reservation (rv_id res) s1 = Some res" "capacity_reservation s1 = capacity_reservation s"
    using res by (simp_all add: s1_def find_reservation_def)
  have ur: "update_reservation (rv_id res) g s1 = Inr ((), s2)"
    using update_reservation_run[of s1 "rv_id res" res g] d(2) rsame g(1) by (simp add: s2_def)
  have total: "open_total a b (capacity_reservation s2) =
      open_total a b (capacity_reservation s) + (if on_day a b res then open_part (g res) - open_part res else 0)" for a b
    unfolding s2_def using open_total_update[OF d(2) mem, of g a b] on by simp
  have "days_ok (update_where (is_day (rv_account res) (rv_day res)) f (inr_account_day s)) (capacity_reservation s2)"
  proof (rule days_ok_update)
    show "days_ok (inr_account_day s) (capacity_reservation s)" using ok by (simp add: capacity_ok_def)
    show "ad_reserved (f day) = open_total (rv_account res) (rv_day res) (capacity_reservation s2)"
      using total[of "rv_account res" "rv_day res"] f(4) d(6)[OF dmem(1)] dmem(2,3) by (simp add: on_day_def)
    show "open_total a' d' (capacity_reservation s2) = open_total a' d' (capacity_reservation s)"
      if "(a', d') \<noteq> (rv_account res, rv_day res)" for a' d' using that total[of a' d'] by (auto simp: on_day_def)
  qed (use dmem f d(8)[OF dmem(1)] in simp_all)
  moreover have "reservations_ok s2"
  proof -
    have ids: "map rv_id (capacity_reservation s2) = map rv_id (capacity_reservation s)"
      by (simp add: s2_def g(2))
    have keys: "day_key ` set (inr_account_day s2) = day_key ` set (inr_account_day s)"
      unfolding s2_def s1_def by (simp add: day_keys_update[OF f(1)])
    have "given_id s2 (rv_id r) \<and> reservation_checks r \<and> (rv_account r, rv_day r) \<in> day_key ` set (inr_account_day s)"
      if r: "r \<in> set (capacity_reservation s2)" for r
    proof -
      from r obtain q where q: "q \<in> set (capacity_reservation s)" "r = (if rv_id q = rv_id res then g q else q)"
        by (auto simp: s2_def set_update_where)
      have "q = res" if "rv_id q = rv_id res" using q(1) mem that d(2) by (auto simp: distinct_map dest: inj_onD)
      then have "reservation_checks r" using q(2) g(1) d(4)[OF q(1)] by (auto simp: reservation_guard_def)
      moreover have "rv_id r = rv_id q" using q(2) g(2) by simp
      then have "given_id s2 (rv_id r)" using d(5)[OF q(1)] by (simp add: given_id_def s2_def s1_def)
      ultimately show ?thesis using d(9)[OF q(1)] q(2) g(3,4) by simp
    qed
    then show ?thesis unfolding reservations_ok_def ids keys using d(2,3) by (simp add: s2_def s1_def fresh_ids_def)
  qed
  ultimately show ?thesis using up ur ok by (simp add: capacity_ok_def s1_def s2_def)
qed

lemma append_audit_ok [simp]: "capacity_ok (s\<lparr>audit_event := rows\<rparr>) = capacity_ok s"
  by (auto intro!: capacity_ok_cong[of "s\<lparr>audit_event := rows\<rparr>" s] capacity_ok_cong[of s "s\<lparr>audit_event := rows\<rparr>"])

lemma rank_ok [simp]: "capacity_ok (s\<lparr>tx_rank := n\<rparr>) = capacity_ok s"
  by (auto intro!: capacity_ok_cong[of "s\<lparr>tx_rank := n\<rparr>" s] capacity_ok_cong[of s "s\<lparr>tx_rank := n\<rparr>"])

text \<open>What a call did to the day and the reservation it located: \<open>day\<close> and \<open>res\<close> became \<open>f day\<close> and \<open>g res\<close>.\<close>

definition moved :: "account_day_row \<Rightarrow> (account_day_row \<Rightarrow> account_day_row) \<Rightarrow> reservation_row \<Rightarrow> (reservation_row \<Rightarrow> reservation_row) \<Rightarrow>
    'x capacity_db_scheme \<Rightarrow> 'x capacity_db_scheme \<Rightarrow> bool" where
  "moved day f res g s t \<longleftrightarrow> capacity_ok t \<and>
     inr_account_day t = update_where (is_day (rv_account res) (rv_day res)) f (inr_account_day s) \<and>
     capacity_reservation t = update_where (\<lambda>r. rv_id r = rv_id res) g (capacity_reservation s)"

definition consume_day :: "account_day_row \<Rightarrow> int \<Rightarrow> account_day_row \<Rightarrow> account_day_row" where
  "consume_day day n = (\<lambda>r. r\<lparr>ad_reserved := ad_reserved day - n, ad_used := ad_used day + n\<rparr>)"

definition consume_res :: "reservation_row \<Rightarrow> int \<Rightarrow> int \<Rightarrow> reservation_row \<Rightarrow> reservation_row" where
  "consume_res res n now = (\<lambda>r. if rv_consumed res + n = rv_amount res
     then r\<lparr>rv_consumed := rv_consumed res + n, rv_status := RS_CONSUMED, rv_closed_at := Some now\<rparr> else r\<lparr>rv_consumed := rv_consumed res + n\<rparr>)"

lemma consume_run:
  assumes ok: "capacity_ok s" and amount: "currency amount = INR" "isPositive amount"
    and loc: "locateReservation v s = Inr ((day, res), t)" and st: "rv_status res = RS_ACTIVE" "rv_consumed res + minor amount \<le> rv_amount res"
  shows "\<exists>t'. consumeReservation ctx v amount s =
      Inr (if rv_consumed res + minor amount = rv_amount res then RS_CONSUMED else RS_ACTIVE, t') \<and>
    moved day (consume_day day (minor amount)) res (consume_res res (minor amount) (clock t)) t t'"
proof -
  let ?f = "consume_day day (minor amount)" and ?g = "consume_res res (minor amount) (clock t)"
  from locate_ok[OF ok loc] have l: "capacity_ok t" "find_day (rv_account res) (rv_day res) t = Some day" "find_reservation (rv_id res) t = Some res"
    by auto
  have pos: "0 < minor amount" using amount(2) by (simp add: isPositive_def)
  have "reservation_checks res" using capacity_okD(4)[OF l(1)] find_reservation_Some[OF l(3)] by blast
  then have "reservation_guard res (?g res)" using st pos by (auto simp: reservation_guard_def reservation_checks_def consume_res_def)
  from change_pair[OF l, of ?g ?f, OF this] show ?thesis
    using amount st pos loc find_day_Some[OF l(2)] capacity_okD(7)[OF l(1), of day]
    by (auto simp: consumeReservation_def bindC_run Let_def moved_def consume_day_def consume_res_def day_key_def open_part_def committed_def)
qed

definition release_day :: "account_day_row \<Rightarrow> int \<Rightarrow> account_day_row \<Rightarrow> account_day_row" where
  "release_day day n = (\<lambda>r. r\<lparr>ad_reserved := ad_reserved day - n\<rparr>)"

definition release_res :: "int \<Rightarrow> string \<Rightarrow> int \<Rightarrow> reservation_row \<Rightarrow> reservation_row" where
  "release_res n reason now = (\<lambda>r. r\<lparr>rv_status := RS_RELEASED, rv_released := n, rv_reason := Some reason, rv_closed_at := Some now\<rparr>)"

lemma release_run:
  assumes ok: "capacity_ok s" and reason: "reason \<in> set RELEASE_REASONS"
    and loc: "locateReservation v s = Inr ((day, res), t)" and st: "rv_status res = RS_ACTIVE"
  shows "\<exists>t'. releaseReservation ctx v reason s = Inr (\<lparr>ro_released = True, ro_amount = inr (rv_amount res - rv_consumed res)\<rparr>, t') \<and>
    moved day (release_day day (rv_amount res - rv_consumed res)) res (release_res (rv_amount res - rv_consumed res) reason (clock t)) t t'"
proof -
  let ?n = "rv_amount res - rv_consumed res"
  let ?f = "release_day day ?n" and ?g = "release_res ?n reason (clock t)"
  from locate_ok[OF ok loc] have l: "capacity_ok t" "find_day (rv_account res) (rv_day res) t = Some day" "find_reservation (rv_id res) t = Some res"
    by auto
  have "reservation_checks res" using capacity_okD(4)[OF l(1)] find_reservation_Some[OF l(3)] by blast
  then have g: "reservation_guard res (?g res)" "0 \<le> ?n"
    using st by (auto simp: reservation_guard_def reservation_checks_def release_res_def)
  from change_pair[OF l, of ?g ?f, OF g(1)] show ?thesis
    using reason st g(2) loc find_day_Some[OF l(2)] capacity_okD(7)[OF l(1), of day]
    by (auto simp: releaseReservation_def bindC_run Let_def moved_def release_day_def release_res_def day_key_def open_part_def
        committed_def requireOneOf_def)
qed

lemma released_again:
  assumes "reason \<in> set RELEASE_REASONS" "locateReservation v s = Inr ((day, res), t)" "rv_status res = RS_RELEASED"
  shows "releaseReservation ctx v reason s = Inr (\<lparr>ro_released = False, ro_amount = inr 0\<rparr>, t)"
  using assms by (simp add: releaseReservation_def bindC_run requireOneOf_def)

lemma day_only:
  assumes ok: "capacity_ok s" and day: "find_day a d s = Some day"
    and f: "\<And>r. day_key (f r) = day_key r" "0 \<le> ad_capacity (f day)" "0 \<le> ad_used (f day)" "ad_reserved (f day) = ad_reserved day"
      "committed (f day) \<le> committed day"
  defines "t \<equiv> s\<lparr>inr_account_day := update_where (is_day a d) f (inr_account_day s)\<rparr>"
  shows "update_day a d f s = Inr ((), t) \<and> capacity_ok t"
proof -
  note d = capacity_okD[OF ok]
  from find_day_Some[OF day] have dmem: "day \<in> set (inr_account_day s)" "ad_account day = a" "ad_day day = d" by auto
  have up: "update_day a d f s = Inr ((), t)"
    unfolding update_day_run[OF d(1) day] t_def using f reserved_nonneg[OF ok dmem(1)] by (simp add: day_guard_def)
  have "days_ok (update_where (is_day a d) f (inr_account_day s)) (capacity_reservation s)"
    by (rule days_ok_update[OF _ dmem(1)]) (use ok dmem f d(6)[OF dmem(1)] in \<open>simp_all add: capacity_ok_def\<close>)
  moreover have "day_key ` set (inr_account_day t) = day_key ` set (inr_account_day s)"
    unfolding t_def by (simp add: day_keys_update[OF f(1)])
  ultimately show ?thesis using up ok by (auto simp: capacity_ok_def reservations_ok_def t_def fresh_ids_def given_id_def)
qed

lemma refund_run:
  assumes ok: "capacity_ok s" and amount: "currency amount = INR" "isPositive amount" and reason: "reason \<in> {''LEG_FAILED'', ''OPERATOR''}"
    and loc: "locateReservation v s = Inr ((day, res), t)" and bounds: "minor amount \<le> rv_consumed res" "minor amount \<le> ad_used day"
  shows "\<exists>t'. refundConsumedCapacity ctx v amount reason s = Inr (amount, t') \<and> capacity_ok t' \<and>
    inr_account_day t' = update_where (is_day (rv_account res) (rv_day res)) (\<lambda>r. r\<lparr>ad_used := ad_used day - minor amount\<rparr>) (inr_account_day t) \<and>
    capacity_reservation t' = capacity_reservation t"
proof -
  let ?f = "\<lambda>r. r\<lparr>ad_used := ad_used day - minor amount\<rparr>"
  from locate_ok[OF ok loc] have l: "capacity_ok t" "find_day (rv_account res) (rv_day res) t = Some day" by auto
  have pos: "0 < minor amount" using amount(2) by (simp add: isPositive_def)
  from find_day_Some[OF l(2)] have "day \<in> set (inr_account_day t)" by simp
  then have "0 \<le> ad_capacity day" using capacity_okD(8)[OF l(1)] by blast
  with day_only[OF l, of ?f] show ?thesis using amount reason bounds loc pos
    by (auto simp: refundConsumedCapacity_def bindC_run requireOneOf_def day_key_def committed_def)
qed

lemma find_account_cong: "inr_settlement_account t = inr_settlement_account s \<Longrightarrow> find_account a t = find_account a s"
  by (simp add: find_account_def)

definition new_reservation :: "tx_ctx \<Rightarrow> string \<Rightarrow> string \<Rightarrow> string \<Rightarrow> int \<Rightarrow> reservation_purpose \<times> string option \<times> string option \<times> string option \<Rightarrow>
    reservation_row" where
  "new_reservation ctx i a d n cols = \<lparr>rv_id = i, rv_purpose = fst cols, rv_trade = fst (snd cols), rv_route_settlement = fst (snd (snd cols)),
     rv_reward_payout = snd (snd (snd cols)), rv_account = a, rv_day = d, rv_amount = n, rv_consumed = 0,
     rv_status = RS_ACTIVE, rv_released = 0, rv_reason = None, rv_created_by = actorLabel ctx, rv_closed_at = None\<rparr>"

lemma add_reservation_ok:
  assumes ok: "capacity_ok s" and day: "find_day a d s = Some day" and n: "0 < n"
    and f: "\<And>r. day_key (f r) = day_key r" "ad_capacity (f day) = ad_capacity day" "ad_used (f day) = ad_used day"
      "ad_reserved (f day) = ad_reserved day + n"
  shows "capacity_ok (s\<lparr>inr_account_day := update_where (is_day a d) f (inr_account_day s), uuids := Suc (uuids s),
    capacity_reservation := capacity_reservation s @ [new_reservation ctx (uuidv7 s (uuids s)) a d n cols]\<rparr>)"
    (is "capacity_ok ?t")
proof -
  let ?r = "new_reservation ctx (uuidv7 s (uuids s)) a d n cols"
  note c = capacity_okD[OF ok]
  from find_day_Some[OF day] have dmem: "day \<in> set (inr_account_day s)" "ad_account day = a" "ad_day day = d" by auto
  have r: "open_part ?r = n" "on_day a' d' ?r = (a' = a \<and> d' = d)" "reservation_checks ?r" "rv_id ?r = uuidv7 s (uuids s)"
    "rv_account ?r = a" "rv_day ?r = d" for a' d'
    using n by (auto simp: new_reservation_def open_part_def on_day_def reservation_checks_def)
  have "days_ok (update_where (is_day a d) f (inr_account_day s)) (capacity_reservation s @ [?r])"
  proof (rule days_ok_update)
    show "days_ok (inr_account_day s) (capacity_reservation s)" using ok by (simp add: capacity_ok_def)
  qed (use dmem f r c(6-8)[OF dmem(1)] in auto)
  moreover have "reservations_ok ?t"
  proof -
    have new: "\<not> given_id s (uuidv7 s (uuids s))" using next_id_new[OF c(3), of 0] by simp
    have keys: "day_key ` set (inr_account_day ?t) = day_key ` set (inr_account_day s)"
      by (simp add: day_keys_update[OF f(1)])
    have "(a, d) \<in> day_key ` set (inr_account_day s)" using dmem by (force simp: day_key_def)
    moreover have "given_id ?t (rv_id q)" if "q \<in> set (capacity_reservation s)" for q
      using c(5)[OF that] by (auto simp: given_id_def intro: less_SucI)
    moreover have "given_id ?t (uuidv7 s (uuids s))" by (auto simp: given_id_def)
    ultimately show ?thesis
      unfolding reservations_ok_def keys using c(2-5,9) r new by (auto simp: fresh_ids_def)
  qed
  ultimately show ?thesis using ok by (simp add: capacity_ok_def)
qed

definition add_reserved :: "account_day_row \<Rightarrow> int \<Rightarrow> account_day_row \<Rightarrow> account_day_row" where
  "add_reserved day n = (\<lambda>r. r\<lparr>ad_reserved := ad_reserved day + n\<rparr>)"

lemma reserve_day_guard:
  assumes ok: "capacity_ok t" and day: "find_day a d t = Some day" and pos: "isPositive amount" and cap: "minor amount \<le> remainingOf day"
  shows "update_day a d (add_reserved day (minor amount)) t =
    Inr ((), t\<lparr>inr_account_day := update_where (is_day a d) (add_reserved day (minor amount)) (inr_account_day t)\<rparr>)"
proof -
  from find_day_Some[OF day] have dmem: "day \<in> set (inr_account_day t)" by simp
  note c = capacity_okD[OF ok]
  show ?thesis unfolding update_day_run[OF c(1) day]
    using pos cap c(7,8)[OF dmem] reserved_nonneg[OF ok dmem]
    by (simp add: day_guard_def committed_def add_reserved_def remainingOf_def isPositive_def)
qed

lemma reserve_run:
  assumes ok: "capacity_ok s" and acc: "requireUuid v = Inr a" and amount: "currency amount = INR" "isPositive amount"
    and day: "resolveDay o_day False s = Inr (d, s)" "lockAccountDay a d s = Inr (day, t)"
    and account: "find_account a s = Some account" "ia_status account = INR_ACTIVE" "ia_direction account \<noteq> COLLECTS"
    and cap: "minor amount \<le> remainingOf day" and cols: "subject_columns subject = Inr cols"
  shows "\<exists>t'. reserveCapacity ctx v amount subject o_day s =
      Inr (\<lparr>rc_reservation = uuidv7 s (uuids s), rc_day = d, rc_remaining = inr (remainingOf day - minor amount)\<rparr>, t') \<and> capacity_ok t' \<and>
    inr_account_day t' = update_where (is_day a d) (add_reserved day (minor amount)) (inr_account_day t) \<and>
    capacity_reservation t' = capacity_reservation s @ [new_reservation ctx (uuidv7 s (uuids s)) a d (minor amount) cols]"
proof -
  let ?f = "add_reserved day (minor amount)"
  from lock_ok[OF ok day(2)] obtain ds where l: "capacity_ok t" "find_day a d t = Some day"
    "t = s\<lparr>tx_rank := lock_rank L_inr_account_day, inr_account_day := inr_account_day s @ ds\<rparr>" by blast
  have pos: "0 < minor amount" using amount(2) by (simp add: isPositive_def)
  note reserve_day_guard[OF l(1,2) amount(2) cap]
  moreover have "capacity_ok (t\<lparr>inr_account_day := update_where (is_day a d) ?f (inr_account_day t), uuids := Suc (uuids t),
      capacity_reservation := capacity_reservation t @ [new_reservation ctx (uuidv7 t (uuids t)) a d (minor amount) cols]\<rparr>)"
    by (rule add_reservation_ok[OF l(1,2) pos]) (simp_all add: add_reserved_def day_key_def)
  moreover have "reservation_checks (new_reservation ctx i a d (minor amount) cols)" for i
    using pos by (simp add: new_reservation_def reservation_checks_def)
  moreover have "find_account a t = Some account" using account(1) l(3) by (simp add: find_account_def)
  ultimately show ?thesis using acc amount day account(2,3) cap cols l(3)
    by (cases cols) (simp add: reserveCapacity_def bindC_run Let_def insert_reservation_def add_reserved_def[symmetric] new_reservation_def)
qed

section \<open>Lemmas: every call\<close>

text \<open>No day's commitments grew from \<open>s\<close> to \<open>t\<close>; days opened in between are empty.\<close>

definition no_growth :: "'x capacity_db_scheme \<Rightarrow> 'x capacity_db_scheme \<Rightarrow> bool" where
  "no_growth s t \<longleftrightarrow> (\<forall>r \<in> set (inr_account_day t). committed r \<le> 0 \<or>
     (\<exists>q \<in> set (inr_account_day s). day_key q = day_key r \<and> committed r \<le> committed q))"

lemma no_growth_refl [simp]: "inr_account_day t = inr_account_day s \<Longrightarrow> no_growth s t"
  by (auto simp: no_growth_def)

lemma no_growth_trans: "no_growth s t \<Longrightarrow> no_growth t u \<Longrightarrow> no_growth s u"
proof -
  assume st: "no_growth s t" and tu: "no_growth t u"
  show "no_growth s u"
    unfolding no_growth_def
  proof
    fix r assume "r \<in> set (inr_account_day u)"
    with tu consider "committed r \<le> 0" | q where "q \<in> set (inr_account_day t)" "day_key q = day_key r" "committed r \<le> committed q"
      by (auto simp: no_growth_def)
    then show "committed r \<le> 0 \<or> (\<exists>q \<in> set (inr_account_day s). day_key q = day_key r \<and> committed r \<le> committed q)"
    proof cases
      case 2
      from st 2(1) have "committed q \<le> 0 \<or> (\<exists>p \<in> set (inr_account_day s). day_key p = day_key q \<and> committed q \<le> committed p)"
        by (auto simp: no_growth_def)
      with 2(2,3) show ?thesis by (auto intro: order.trans)
    qed simp
  qed
qed

lemma lock_no_growth: "capacity_ok s \<Longrightarrow> lockAccountDay a d s = Inr (row, t) \<Longrightarrow> no_growth s t"
  by (auto simp: lockAccountDay_def open_day_def no_growth_def committed_def split: option.splits if_splits)

lemma locate_no_growth: "capacity_ok s \<Longrightarrow> locateReservation v s = Inr (x, t) \<Longrightarrow> no_growth s t"
  using lock_no_growth by (fastforce simp: locateReservation_def)

lemma update_no_growth:
  assumes ok: "capacity_ok s" and day: "find_day a d s = Some day" and f: "\<And>r. day_key (f r) = day_key r" "committed (f day) \<le> committed day"
    and t: "inr_account_day t = update_where (is_day a d) f (inr_account_day s)"
  shows "no_growth s t"
proof -
  from find_day_Some[OF day] have dmem: "day \<in> set (inr_account_day s)" "ad_account day = a" "ad_day day = d" by auto
  have "\<exists>q \<in> set (inr_account_day s). day_key q = day_key r \<and> committed r \<le> committed q" if "r \<in> set (inr_account_day t)" for r
  proof -
    from that t obtain q where q: "q \<in> set (inr_account_day s)" "r = (if is_day a d q then f q else q)" by (auto simp: set_update_where)
    moreover have "q = day" if "is_day a d q" using day_unique[OF capacity_okD(1)[OF ok] dmem(1) q(1)] that dmem by simp
    ultimately show ?thesis using f by (intro bexI[of _ q]) auto
  qed
  then show ?thesis by (simp add: no_growth_def)
qed

text \<open>A call that the database never refuses, that keeps the invariant, and that never grows a day's commitments.\<close>

definition safe_call :: "('x capacity_db_scheme, 'a) cmd \<Rightarrow> bool" where
  "safe_call m \<longleftrightarrow> (\<forall>s. capacity_ok s \<longrightarrow> (case m s of Inl e \<Rightarrow> e \<noteq> DatabaseError | Inr (x, t) \<Rightarrow> capacity_ok t \<and> no_growth s t))"

lemma safe_callI:
  "(\<And>s e. capacity_ok s \<Longrightarrow> m s = Inl e \<Longrightarrow> e \<noteq> DatabaseError) \<Longrightarrow>
   (\<And>s x t. capacity_ok s \<Longrightarrow> m s = Inr (x, t) \<Longrightarrow> capacity_ok t \<and> no_growth s t) \<Longrightarrow> safe_call m"
  by (auto simp: safe_call_def split: sum.splits)

lemma safe_callD:
  assumes "safe_call m" "capacity_ok s"
  shows "m s = Inl e \<Longrightarrow> e \<noteq> DatabaseError" "m s = Inr (x, t) \<Longrightarrow> capacity_ok t \<and> no_growth s t"
  using assms by (auto simp: safe_call_def)

lemma safe_bind: "safe_call m \<Longrightarrow> (\<And>x. safe_call (f x)) \<Longrightarrow> safe_call (bindC m f)"
proof (rule safe_callI)
  fix s e assume m: "safe_call m" and f: "\<And>x. safe_call (f x)" and ok: "capacity_ok s" and run: "bindC m f s = Inl e"
  then consider "m s = Inl e" | x t where "m s = Inr (x, t)" "f x t = Inl e" by (auto simp: bindC_Inl_iff)
  then show "e \<noteq> DatabaseError"
  proof cases
    case 2
    then show ?thesis using safe_callD(1)[OF f] safe_callD(2)[OF m ok] by blast
  qed (use safe_callD(1)[OF m ok] in blast)
next
  fix s y u assume m: "safe_call m" and f: "\<And>x. safe_call (f x)" and ok: "capacity_ok s" and run: "bindC m f s = Inr (y, u)"
  then obtain x t where xt: "m s = Inr (x, t)" "f x t = Inr (y, u)" by auto
  from safe_callD(2)[OF m ok xt(1)] safe_callD(2)[OF f _ xt(2)] show "capacity_ok u \<and> no_growth s u"
    using no_growth_trans by blast
qed

lemma safe_reads: "safe_call (returnC x)" "safe_call (readC q)"
  by (simp_all add: safe_call_def)

lemma safe_errors:
  "e \<noteq> DatabaseError \<Longrightarrow> safe_call (unlessC b e)" "e \<noteq> DatabaseError \<Longrightarrow> safe_call (foundC e z)"
  "(\<And>e. r = Inl e \<Longrightarrow> e \<noteq> DatabaseError) \<Longrightarrow> safe_call (liftC r)"
  by (auto simp: safe_call_def split: sum.splits)

lemma safe_if: "(b \<Longrightarrow> safe_call m) \<Longrightarrow> (\<not> b \<Longrightarrow> safe_call n) \<Longrightarrow> safe_call (if b then m else n)"
  by simp

lemma safe_writes:
  "safe_call (appendAudit ctx action ty i before after)" "safe_call freshId" "safe_call (enqueueOutbox ctx event)"
  by (auto simp: safe_call_def enqueueOutbox_def intro: capacity_ok_cong)

lemma safe_when: "safe_call m \<Longrightarrow> safe_call (whenC b m)"
  by (simp add: whenC_def safe_reads)

lemma guard_errors:
  "requireUuid v = Inl e \<Longrightarrow> e \<noteq> DatabaseError" "requireOneOf v xs = Inl e \<Longrightarrow> e \<noteq> DatabaseError"
  by (auto simp: requireUuid_def requireOneOf_def split: js.splits if_splits)

lemma safe_consume: "safe_call (consumeReservation ctx v amount)"
proof (rule safe_callI)
  fix s e assume ok: "capacity_ok s" and run: "consumeReservation ctx v amount s = Inl e"
  show "e \<noteq> DatabaseError"
  proof (cases "locateReservation v s")
    case (Inl e')
    with run locate_never_constraint[OF ok Inl] show ?thesis by (auto simp: consumeReservation_def bindC_run split: if_splits)
  next
    case (Inr x)
    obtain day res t where x: "x = ((day, res), t)" by (cases x) auto
    have cond: "\<not> (currency amount = INR \<and> isPositive amount \<and> rv_status res = RS_ACTIVE \<and> rv_consumed res + minor amount \<le> rv_amount res)"
      using consume_run[OF ok _ _ Inr[unfolded x], of amount ctx] run by auto
    with run Inr x show ?thesis by (auto simp: consumeReservation_def bindC_run Let_def split: if_splits)
  qed
next
  fix s x t' assume ok: "capacity_ok s" and run: "consumeReservation ctx v amount s = Inr (x, t')"
  then obtain day res t where loc: "locateReservation v s = Inr ((day, res), t)" and c: "currency amount = INR" "isPositive amount"
    "rv_status res = RS_ACTIVE" "rv_consumed res + minor amount \<le> rv_amount res"
    by (auto simp: consumeReservation_def Let_def split: if_splits)
  from consume_run[OF ok c(1,2) loc c(3,4), of ctx] run
  have m: "moved day (consume_day day (minor amount)) res (consume_res res (minor amount) (clock t)) t t'" by auto
  from locate_ok[OF ok loc] have l: "capacity_ok t" "find_day (rv_account res) (rv_day res) t = Some day" by auto
  have "no_growth t t'" by (rule update_no_growth[OF l]) (use m in \<open>auto simp: moved_def consume_day_def day_key_def committed_def\<close>)
  with m locate_no_growth[OF ok loc] show "capacity_ok t' \<and> no_growth s t'" by (auto simp: moved_def intro: no_growth_trans)
qed

lemma safe_release: "safe_call (releaseReservation ctx v reason)"
proof (rule safe_callI)
  fix s e assume ok: "capacity_ok s" and run: "releaseReservation ctx v reason s = Inl e"
  show "e \<noteq> DatabaseError"
  proof (cases "locateReservation v s")
    case (Inl e')
    with run locate_never_constraint[OF ok Inl] show ?thesis
      by (auto simp: releaseReservation_def bindC_run requireOneOf_def split: if_splits)
  next
    case (Inr x)
    obtain day res t where x: "x = ((day, res), t)" by (cases x) auto
    have "\<not> (reason \<in> set RELEASE_REASONS \<and> rv_status res = RS_ACTIVE)"
      using release_run[OF ok _ Inr[unfolded x], of reason ctx] run by auto
    with run Inr x show ?thesis by (auto simp: releaseReservation_def bindC_run Let_def requireOneOf_def split: if_splits)
  qed
next
  fix s x t' assume ok: "capacity_ok s" and run: "releaseReservation ctx v reason s = Inr (x, t')"
  then obtain day res t where loc: "locateReservation v s = Inr ((day, res), t)" and c: "reason \<in> set RELEASE_REASONS"
    and st: "rv_status res = RS_RELEASED \<or> rv_status res = RS_ACTIVE"
    by (auto simp: releaseReservation_def Let_def requireOneOf_def split: if_splits)
  from locate_ok[OF ok loc] have l: "capacity_ok t" "find_day (rv_account res) (rv_day res) t = Some day"
      "find_reservation (rv_id res) t = Some res" by auto
  show "capacity_ok t' \<and> no_growth s t'"
  proof (cases "rv_status res = RS_ACTIVE")
    case True
    let ?n = "rv_amount res - rv_consumed res"
    from release_run[OF ok c loc True, of ctx] run
    have m: "moved day (release_day day ?n) res (release_res ?n reason (clock t)) t t'" by auto
    have "0 \<le> ?n" using capacity_okD(4)[OF l(1), of res] find_reservation_Some[OF l(3)] by (auto simp: reservation_checks_def)
    then have "no_growth t t'"
      by (intro update_no_growth[OF l(1,2)]) (use m in \<open>auto simp: moved_def release_day_def day_key_def committed_def\<close>)
    with m locate_no_growth[OF ok loc] show ?thesis by (auto simp: moved_def intro: no_growth_trans)
  next
    case False
    with released_again[OF c loc, of ctx] st run l(1) locate_no_growth[OF ok loc] show ?thesis by simp
  qed
qed

lemma safe_refund: "safe_call (refundConsumedCapacity ctx v amount reason)"
proof (rule safe_callI)
  fix s e assume ok: "capacity_ok s" and run: "refundConsumedCapacity ctx v amount reason s = Inl e"
  show "e \<noteq> DatabaseError"
  proof (cases "locateReservation v s")
    case (Inl e')
    with run locate_never_constraint[OF ok Inl] show ?thesis
      by (auto simp: refundConsumedCapacity_def bindC_run requireOneOf_def split: if_splits)
  next
    case (Inr x)
    obtain day res t where x: "x = ((day, res), t)" by (cases x) auto
    have "\<not> (currency amount = INR \<and> isPositive amount \<and> reason \<in> {''LEG_FAILED'', ''OPERATOR''} \<and> minor amount \<le> rv_consumed res \<and>
        minor amount \<le> ad_used day)"
      using refund_run[OF ok _ _ _ Inr[unfolded x], of amount reason ctx] run by auto
    with run Inr x show ?thesis by (auto simp: refundConsumedCapacity_def bindC_run Let_def requireOneOf_def split: if_splits)
  qed
next
  fix s x t' assume ok: "capacity_ok s" and run: "refundConsumedCapacity ctx v amount reason s = Inr (x, t')"
  then obtain day res t where loc: "locateReservation v s = Inr ((day, res), t)" and c: "currency amount = INR" "isPositive amount"
    "reason \<in> {''LEG_FAILED'', ''OPERATOR''}" "minor amount \<le> rv_consumed res" "minor amount \<le> ad_used day"
    by (auto simp: refundConsumedCapacity_def Let_def requireOneOf_def split: if_splits)
  from refund_run[OF ok c(1-3) loc c(4,5), of ctx] run have m: "capacity_ok t'"
    "inr_account_day t' = update_where (is_day (rv_account res) (rv_day res)) (\<lambda>r. r\<lparr>ad_used := ad_used day - minor amount\<rparr>) (inr_account_day t)"
    by auto
  from locate_ok[OF ok loc] have l: "capacity_ok t" "find_day (rv_account res) (rv_day res) t = Some day" by auto
  have "no_growth t t'" by (rule update_no_growth[OF l _ _ m(2)]) (use c(2) in \<open>auto simp: day_key_def committed_def isPositive_def\<close>)
  with m locate_no_growth[OF ok loc] show "capacity_ok t' \<and> no_growth s t'" by (auto intro: no_growth_trans)
qed

lemma safe_lock: "safe_call (lockAccountDay a d)"
  by (rule safe_callI) (use lock_never_constraint lock_ok lock_no_growth in blast)+

lemma safe_resolve: "safe_call (resolveDay d past)"
  unfolding resolveDay_def by (cases d) (auto intro!: safe_bind safe_reads safe_errors)

lemma safe_authorize: "safe_call (authorizeOperator a p)"
  by (auto simp: safe_call_def authorize_run Let_def)

lemma safe_handle: "(\<And>d. safe_call (h ctx v d)) \<Longrightarrow> safe_call (operatorHandle a p h ctx v)"
  unfolding operatorHandle_def by (intro safe_bind safe_authorize)

lemma safe_capacity:
  assumes "0 \<le> c"
  shows "safe_call (update_day a d (\<lambda>r. r\<lparr>ad_capacity := c\<rparr>))"
proof (rule safe_callI)
  fix s e assume ok: "capacity_ok s" and run: "update_day a d (\<lambda>r. r\<lparr>ad_capacity := c\<rparr>) s = Inl e"
  have "day_guard r (r\<lparr>ad_capacity := c\<rparr>)" if "r \<in> set (inr_account_day s)" for r
    using assms capacity_okD(7)[OF ok that] reserved_nonneg[OF ok that] by (simp add: day_guard_def committed_def)
  with run show "e \<noteq> DatabaseError" by (auto simp: update_day_def list_all_iff split: if_splits)
next
  fix s x t assume ok: "capacity_ok s" and run: "update_day a d (\<lambda>r. r\<lparr>ad_capacity := c\<rparr>) s = Inr (x, t)"
  let ?f = "\<lambda>r. r\<lparr>ad_capacity := c\<rparr>"
  have t: "t = s\<lparr>inr_account_day := update_where (is_day a d) ?f (inr_account_day s)\<rparr>" using run by (simp add: update_day_def split: if_splits)
  have keys: "map day_key (inr_account_day t) = map day_key (inr_account_day s)" by (simp add: t day_key_def)
  have "days_ok (inr_account_day t) (capacity_reservation t)"
    using ok assms keys by (auto simp: t capacity_ok_def days_ok_def set_update_where)
  moreover have "day_key ` set (inr_account_day t) = day_key ` set (inr_account_day s)"
    using keys by (metis list.set_map)
  ultimately have "capacity_ok t" using ok by (auto simp: capacity_ok_def reservations_ok_def t fresh_ids_def given_id_def)
  moreover have "no_growth s t" unfolding no_growth_def t by (force simp: set_update_where committed_def day_key_def)
  ultimately show "capacity_ok t \<and> no_growth s t" ..
qed

lemma parse_money_error: "parse_money v c = Inl e \<Longrightarrow> e \<noteq> DatabaseError"
  by (auto simp: parse_money_def Money_parse_def parseDecimalToMinor_def pow10_def bindR_Inl_iff Let_def split: js.splits option.splits if_splits)

lemma safe_unless: "e \<noteq> DatabaseError \<Longrightarrow> (b \<Longrightarrow> safe_call m) \<Longrightarrow> safe_call (bindC (unlessC b e) (\<lambda>_. m))"
  by (cases b) (auto simp: safe_call_def bindC_run)

lemmas safe_steps = safe_unless safe_bind safe_reads safe_errors safe_writes safe_when safe_lock safe_resolve safe_handle safe_if

lemma safe_set_day: "safe_call (setDayCapacity a ctx p)"
  unfolding setDayCapacity_def Let_def
  by (intro safe_steps safe_capacity) (auto dest: parse_money_error guard_errors simp: isNegative_def)

lemma safe_set_account:
  assumes "\<And>r. 0 \<le> ia_default_capacity r \<Longrightarrow> 0 \<le> ia_default_capacity (f r)"
  shows "safe_call (writeC (set_account i f))"
proof (rule safe_callI)
  fix s :: "'a capacity_db_scheme" and x t assume ok: "capacity_ok s" and run: "writeC (set_account i f) s = Inr (x, t)"
  then have t: "t = set_account i f s" by simp
  then have same: "inr_account_day t = inr_account_day s" "capacity_reservation t = capacity_reservation s"
    by (simp_all add: set_account_def)
  have "reservations_ok t" using ok by (auto simp: t set_account_def capacity_ok_def reservations_ok_def fresh_ids_def given_id_def)
  moreover have "\<forall>a \<in> set (inr_settlement_account t). 0 \<le> ia_default_capacity a"
    using ok assms by (auto simp: t set_account_def set_update_where capacity_ok_def)
  ultimately show "capacity_ok t \<and> no_growth s t" using ok same by (simp add: capacity_ok_def)
qed simp

lemma safe_release_each: "safe_call (release_each ctx is n)"
  by (induction "is" arbitrary: n) (auto intro!: safe_bind safe_release safe_reads)

lemma safe_rollover: "safe_call (releasePastDayReservations ctx limit)"
  unfolding releasePastDayReservations_def by (intro safe_bind safe_reads safe_release_each)

lemma safe_set_default: "safe_call (setDefaultDailyCapacity a ctx p)"
  unfolding setDefaultDailyCapacity_def Let_def
  by (intro safe_steps safe_set_account) (auto dest: parse_money_error guard_errors simp: isNegative_def)

lemma subject_errors: "subject_columns subject = Inl e \<Longrightarrow> subject \<noteq> NO_PURPOSE \<Longrightarrow> e \<noteq> DatabaseError"
  by (auto simp: subject_columns_def bindR_Inl_iff dest: guard_errors split: reservation_subject.splits)

lemma resolve_state: "resolveDay d past s = Inr (x, t) \<Longrightarrow> t = s"
  by (auto simp: resolveDay_def split: option.splits if_splits)

text \<open>The cases of a reservation: what a successful one went through, and what its errors can be.\<close>

lemma reserve_cases:
  assumes ok: "capacity_ok s" and run: "reserveCapacity ctx v amount subject o_day s = Inr (x, t')"
  obtains a d day t account cols where "requireUuid v = Inr a" "currency amount = INR" "isPositive amount"
    "resolveDay o_day False s = Inr (d, s)" "lockAccountDay a d s = Inr (day, t)" "find_account a s = Some account"
    "ia_status account = INR_ACTIVE" "ia_direction account \<noteq> COLLECTS" "minor amount \<le> remainingOf day" "subject_columns subject = Inr cols"
proof -
  from run obtain a d s1 day t account cols s2 where r: "requireUuid v = Inr a" "currency amount = INR" "isPositive amount"
    "resolveDay o_day False s = Inr (d, s1)" "lockAccountDay a d s1 = Inr (day, t)" "find_account a t = Some account"
    "ia_status account = INR_ACTIVE" "ia_direction account \<noteq> COLLECTS" "minor amount \<le> remainingOf day" "subject_columns subject = Inr cols"
    by (auto simp: reserveCapacity_def Let_def split: if_splits)
  from resolve_state[OF r(4)] have s1: "s1 = s" .
  then have "inr_settlement_account t = inr_settlement_account s" using lock_ok[OF ok, of a d day t] r(5) by auto
  then have "find_account a s = Some account" using r(6) by (simp add: find_account_def)
  with that r s1 show ?thesis by blast
qed

lemma reserve_effect:
  assumes ok: "capacity_ok s" and run: "reserveCapacity ctx v amount subject o_day s = Inr (x, t')"
  shows "capacity_ok t' \<and> (\<forall>r \<in> set (inr_account_day t'). committed r \<le> ad_capacity r \<or>
    (\<exists>q \<in> set (inr_account_day s). day_key q = day_key r \<and> committed r \<le> committed q))"
proof -
  from reserve_cases[OF ok run] obtain a d day t account cols where c: "requireUuid v = Inr a" "currency amount = INR" "isPositive amount"
    "resolveDay o_day False s = Inr (d, s)" "lockAccountDay a d s = Inr (day, t)" "find_account a s = Some account"
    "ia_status account = INR_ACTIVE" "ia_direction account \<noteq> COLLECTS" "minor amount \<le> remainingOf day" "subject_columns subject = Inr cols"
    by blast
  from reserve_run[OF ok c, of ctx] run have t': "capacity_ok t'"
    "inr_account_day t' = update_where (is_day a d) (add_reserved day (minor amount)) (inr_account_day t)" by auto
  from lock_ok[OF ok c(5)] have l: "capacity_ok t" "find_day a d t = Some day" by auto
  from find_day_Some[OF l(2)] have dmem: "day \<in> set (inr_account_day t)" "ad_account day = a" "ad_day day = d" by auto
  have "committed r \<le> ad_capacity r \<or> (\<exists>q \<in> set (inr_account_day s). day_key q = day_key r \<and> committed r \<le> committed q)"
    if r: "r \<in> set (inr_account_day t')" for r
  proof -
    from r t'(2) obtain q where q: "q \<in> set (inr_account_day t)" "r = (if is_day a d q then add_reserved day (minor amount) q else q)"
      by (auto simp: set_update_where)
    show ?thesis
    proof (cases "is_day a d q")
      case True
      then have "q = day" using day_unique[OF capacity_okD(1)[OF l(1)] dmem(1) q(1)] dmem by simp
      with q(2) True c(9) show ?thesis by (simp add: committed_def add_reserved_def remainingOf_def)
    next
      case False
      with q have "r \<in> set (inr_account_day t)" by simp
      with lock_no_growth[OF ok c(5)] have "committed r \<le> 0 \<or> (\<exists>q \<in> set (inr_account_day s). day_key q = day_key r \<and> committed r \<le> committed q)"
        by (auto simp: no_growth_def)
      moreover have "0 \<le> ad_capacity r" using capacity_okD(8)[OF t'(1) r] .
      ultimately show ?thesis by auto
    qed
  qed
  with t'(1) show ?thesis by blast
qed

lemma reserve_never_constraint:
  assumes ok: "capacity_ok s" and run: "reserveCapacity ctx v amount subject o_day s = Inl e" and subject: "subject \<noteq> NO_PURPOSE"
  shows "e \<noteq> DatabaseError"
proof
  assume e: "e = DatabaseError"
  have noerr: "requireUuid v \<noteq> Inl DatabaseError" "resolveDay o_day False s \<noteq> Inl DatabaseError"
    "\<And>a d x. resolveDay o_day False s = Inr (d, x) \<Longrightarrow> lockAccountDay a d x \<noteq> Inl DatabaseError" "subject_columns subject \<noteq> Inl DatabaseError"
    using guard_errors(1) safe_callD(1)[OF safe_resolve ok] lock_never_constraint subject_errors[OF _ subject] by blast+
  from run e noerr obtain a d s1 day t where c: "requireUuid v = Inr a" "currency amount = INR" "isPositive amount"
    "resolveDay o_day False s = Inr (d, s1)" "lockAccountDay a d s1 = Inr (day, t)"
    by (auto simp: reserveCapacity_def bindC_run resolve_state split: sum.splits prod.splits if_splits)
  from resolve_state[OF c(4)] have s1: "s1 = s" .
  from lock_ok[OF ok c(5)[unfolded s1]] have l: "capacity_ok t" "find_day a d t = Some day"
    "inr_settlement_account t = inr_settlement_account s" by auto
  from run e c obtain account where acc: "find_account a t = Some account"
    by (cases "find_account a t") (auto simp: reserveCapacity_def bindC_run split: if_splits)
  then have acc': "find_account a s = Some account" using l(3) by (simp add: find_account_def)
  from run e c acc s1 have b: "ia_status account = INR_ACTIVE" "ia_direction account \<noteq> COLLECTS" "minor amount \<le> remainingOf day"
    by (auto simp: reserveCapacity_def bindC_run Let_def split: if_splits)
  show False
  proof (cases "subject_columns subject")
    case (Inr cols)
    from reserve_run[OF ok c(1-3) _ _ acc' b Inr, of o_day d t ctx] c(4,5) s1 run show False by auto
  next
    case (Inl e')
    have "update_day a d (\<lambda>r. r\<lparr>ad_reserved := ad_reserved day + minor amount\<rparr>) t \<noteq> Inl DatabaseError"
      using reserve_day_guard[OF l(1,2) c(3) b(3)] by (simp add: add_reserved_def)
    with run e c acc s1 b Inl noerr(4) show False
      by (auto simp: reserveCapacity_def bindC_run Let_def split: if_splits sum.splits)
  qed
qed

section \<open>The calls, and what they promise\<close>

datatype capacity_call =
    Reserve tx_ctx js money reservation_subject "string option"
  | ReserveCommand operator_actor tx_ctx js
  | Consume tx_ctx js money
  | Release tx_ctx js string
  | Refund tx_ctx js money string
  | SetDay operator_actor tx_ctx js
  | SetDefault operator_actor tx_ctx js
  | Rollover tx_ctx nat

fun run_call :: "capacity_call \<Rightarrow> ('x capacity_db_scheme, unit) cmd" where
  "run_call (Reserve ctx v amount subject day) = bindC (reserveCapacity ctx v amount subject day) (\<lambda>_. returnC ())"
| "run_call (ReserveCommand a ctx p) = bindC (reserveCapacityCommand a ctx p) (\<lambda>_. returnC ())"
| "run_call (Consume ctx v amount) = bindC (consumeReservation ctx v amount) (\<lambda>_. returnC ())"
| "run_call (Release ctx v reason) = bindC (releaseReservation ctx v reason) (\<lambda>_. returnC ())"
| "run_call (Refund ctx v amount reason) = bindC (refundConsumedCapacity ctx v amount reason) (\<lambda>_. returnC ())"
| "run_call (SetDay a ctx p) = bindC (setDayCapacity a ctx p) (\<lambda>_. returnC ())"
| "run_call (SetDefault a ctx p) = bindC (setDefaultDailyCapacity a ctx p) (\<lambda>_. returnC ())"
| "run_call (Rollover ctx limit) = bindC (releasePastDayReservations ctx limit) (\<lambda>_. returnC ())"

text \<open>A call whose subject, where it has one, names one of the three purposes.\<close>

fun named_subject :: "capacity_call \<Rightarrow> bool" where
  "named_subject (Reserve ctx v amount subject day) = (subject \<noteq> NO_PURPOSE)"
| "named_subject (ReserveCommand a ctx p) = (subject_of (js_field ''subject'' p) \<noteq> NO_PURPOSE)"
| "named_subject c = True"

text \<open>A sequence of calls, each in a transaction of its own.\<close>

definition run_calls :: "capacity_call list \<Rightarrow> 'x capacity_db_scheme \<Rightarrow> 'x capacity_db_scheme" where
  "run_calls cs s = foldl (\<lambda>t c. snd (withTransaction (run_call c) t)) s cs"

definition within_capacity :: "'x capacity_db_scheme \<Rightarrow> 'x capacity_db_scheme \<Rightarrow> bool" where
  "within_capacity s t \<longleftrightarrow> (\<forall>r \<in> set (inr_account_day t). committed r \<le> ad_capacity r \<or>
     (\<exists>q \<in> set (inr_account_day s). day_key q = day_key r \<and> committed r \<le> committed q))"

lemma no_growth_within: "capacity_ok t \<Longrightarrow> no_growth s t \<Longrightarrow> within_capacity s t"
  using capacity_okD(8) by (fastforce simp: no_growth_def within_capacity_def)

definition keeps_promises :: "('x capacity_db_scheme, 'a) cmd \<Rightarrow> bool" where
  "keeps_promises m \<longleftrightarrow> (\<forall>s. capacity_ok s \<longrightarrow>
     (case m s of Inl e \<Rightarrow> e \<noteq> DatabaseError | Inr (x, t) \<Rightarrow> capacity_ok t \<and> within_capacity s t))"

lemma safe_promises: "safe_call m \<Longrightarrow> keeps_promises m"
  using no_growth_within by (fastforce simp: safe_call_def keeps_promises_def split: sum.splits prod.splits)

lemma promises_return: "keeps_promises m \<Longrightarrow> keeps_promises (bindC m (\<lambda>x. returnC (h x)))"
  by (auto simp: keeps_promises_def bindC_run split: sum.splits prod.splits)

lemma reserve_promises: "subject \<noteq> NO_PURPOSE \<Longrightarrow> keeps_promises (reserveCapacity ctx v amount subject day)"
  using reserve_effect reserve_never_constraint
  by (fastforce simp: keeps_promises_def within_capacity_def split: sum.splits prod.splits)

lemma promises_after_reads:
  fixes m :: "('x capacity_db_scheme, 'a) cmd"
  assumes m: "safe_call m" "\<And>s x t. m s = Inr (x, t) \<Longrightarrow> t = s" and f: "\<And>x. keeps_promises (f x)"
  shows "keeps_promises (bindC m f)"
  unfolding keeps_promises_def
proof (intro allI impI)
  fix s :: "'x capacity_db_scheme" assume ok: "capacity_ok s"
  show "case bindC m f s of Inl e \<Rightarrow> e \<noteq> DatabaseError | Inr (x, t) \<Rightarrow> capacity_ok t \<and> within_capacity s t"
  proof (cases "m s")
    case (Inl e)
    with safe_callD(1)[OF m(1) ok Inl] show ?thesis by (simp add: bindC_run)
  next
    case (Inr y)
    obtain x t where y: "y = (x, t)" by (cases y)
    with Inr m(2) have "t = s" by blast
    with f[of x] ok Inr y show ?thesis by (simp add: keeps_promises_def bindC_run)
  qed
qed

lemma reserve_command_promises:
  assumes "subject_of (js_field ''subject'' p) \<noteq> NO_PURPOSE"
  shows "keeps_promises (reserveCapacityCommand a ctx p)"
  unfolding reserveCapacityCommand_def operatorHandle_def
  by (intro promises_after_reads promises_return reserve_promises assms safe_authorize safe_errors)
    (auto dest: authorize_state parse_money_error split: if_splits)

lemma call_promises: "named_subject c \<Longrightarrow> keeps_promises (run_call c)"
  by (cases c) (auto intro!: promises_return reserve_promises reserve_command_promises
      safe_promises[OF safe_consume] safe_promises[OF safe_release] safe_promises[OF safe_refund] safe_promises[OF safe_set_day]
      safe_promises[OF safe_set_default] safe_promises[OF safe_rollover])

lemma call_promise:
  fixes s :: "'x capacity_db_scheme"
  shows "capacity_ok s \<Longrightarrow> named_subject c \<Longrightarrow>
    case run_call c s of Inl e \<Rightarrow> e \<noteq> DatabaseError | Inr (u, t) \<Rightarrow> capacity_ok t \<and> within_capacity s t"
  using call_promises[where 'a = 'x, of c] by (auto simp: keeps_promises_def)

text \<open>C14: no call can overcommit a day: after any reservation, consumption, release, refund, capacity change or
  rollover a day's commitments (used plus reserved) are within its capacity or no higher than they were, each day's
  reserved total is exactly what its active reservations still hold, and no constraint of the database ever has to
  refuse a call: the checks of the code come first (FI-30).\<close>

theorem capacity_never_overcommitted:
  assumes "capacity_ok s" and "named_subject c"
  shows "case run_call c s of Inl e \<Rightarrow> e \<noteq> DatabaseError | Inr (u, t) \<Rightarrow> capacity_ok t \<and> within_capacity s t"
  by (rule call_promise[OF assms])

text \<open>C15: after any sequence of calls, each in its own transaction, successful or refused, every day's reserved total is the
  sum of what its active reservations still hold, usage is never negative, and every reservation's amount is the sum
  of what was consumed, what was released and what is still open.\<close>

theorem capacity_totals_agree:
  assumes "capacity_ok s" and "\<forall>c \<in> set cs. named_subject c"
  shows "(\<forall>d \<in> set (inr_account_day (run_calls cs s)). 0 \<le> ad_used d \<and>
      ad_reserved d = (\<Sum>r \<leftarrow> capacity_reservation (run_calls cs s). if rv_account r = ad_account d \<and> rv_day r = ad_day d then open_part r else 0)) \<and>
    (\<forall>r \<in> set (capacity_reservation (run_calls cs s)). rv_amount r = rv_consumed r + rv_released r + open_part r)"
proof -
  have ok: "capacity_ok (run_calls cs s)"
    using assms
  proof (induction cs arbitrary: s)
    case (Cons c cs)
    have "capacity_ok (snd (withTransaction (run_call c) s))"
      using call_promise[of "s\<lparr>tx_rank := - 1\<rparr>" c] Cons.prems by (auto simp: withTransaction_def split: sum.splits prod.splits)
    with Cons.IH Cons.prems(2) show ?case by (simp add: run_calls_def)
  qed (simp add: run_calls_def)
  have total: "open_total a d rs = (\<Sum>r \<leftarrow> rs. if rv_account r = a \<and> rv_day r = d then open_part r else 0)" for a d rs
    by (induction rs) (auto simp: on_day_def)
  have parts: "rv_amount r = rv_consumed r + rv_released r + open_part r" if "reservation_checks r" for r
    using that by (auto simp: reservation_checks_def open_part_def split: reservation_status.splits)
  show ?thesis using capacity_okD(4,6,7)[OF ok] parts by (simp add: total)
qed

text \<open>A reservation is released exactly once (FI-31): after a release that gave capacity back, any further release of it, for
  whatever reason and by whoever, returns nothing and changes neither the days nor the reservations, and it can no longer be
  consumed.\<close>

theorem release_happens_once:
  assumes ok: "capacity_ok s" and rel: "releaseReservation ctx (JStr i) reason s = Inr (out, t)" "ro_released out"
    and later: "reason' \<in> set RELEASE_REASONS" "tx_rank t' \<le> 11" "capacity_ok t'"
    and kept: "inr_account_day t' = inr_account_day t" "capacity_reservation t' = capacity_reservation t"
    and day: "\<And>r. r \<in> set (capacity_reservation t') \<Longrightarrow> calendar_date (rv_day r)"
    and amount: "currency amount = INR" "isPositive amount"
  shows "(\<exists>u. releaseReservation ctx' (JStr i) reason' t' = Inr (\<lparr>ro_released = False, ro_amount = inr 0\<rparr>, u) \<and>
      inr_account_day u = inr_account_day t \<and> capacity_reservation u = capacity_reservation t) \<and>
    consumeReservation ctx' (JStr i) amount t' = Inl (ReferenceError RESERVATION_NOT_ACTIVE)"
proof -
  from rel obtain day res t1 where loc: "locateReservation (JStr i) s = Inr ((day, res), t1)" and c: "reason \<in> set RELEASE_REASONS"
    and st: "rv_status res = RS_ACTIVE"
    by (auto simp: releaseReservation_def Let_def requireOneOf_def split: if_splits)
  from locate_ok[OF ok loc] have l: "find_reservation i t1 = Some res" "isUuid i" "rv_id res = i"
    "find_day (rv_account res) (rv_day res) t1 = Some day" by auto
  let ?n = "rv_amount res - rv_consumed res"
  let ?g = "release_res ?n reason (clock t1)"
  from release_run[OF ok c loc st, of ctx] rel(1)
  have m: "moved day (release_day day ?n) res ?g t1 t" by auto
  have "find_reservation i t = Some (?g res)"
    using find_update_Some[of "\<lambda>r. rv_id r = i" "capacity_reservation t1" res ?g] l m
    by (simp add: moved_def find_reservation_def release_res_def)
  then have found: "find_reservation i t' = Some (?g res)" using kept by (simp add: find_reservation_def)
  have "\<exists>d. find_day (rv_account res) (rv_day res) t = Some d"
    using find_update_Some[of "is_day (rv_account res) (rv_day res)" "inr_account_day t1" day "release_day day ?n"] l(4) m
    by (simp add: moved_def find_day_def is_day_def release_day_def)
  then obtain d where d: "find_day (rv_account res) (rv_day res) t' = Some d" using kept by (auto simp: find_day_def)
  have g: "rv_account (?g res) = rv_account res" "rv_day (?g res) = rv_day res" "rv_status (?g res) = RS_RELEASED" "rv_id (?g res) = i"
    using l(3) by (simp_all add: release_res_def)
  have "calendar_date (rv_day res)" using day find_reservation_Some[OF found] g(2) by metis
  then have lock: "lockAccountDay (rv_account res) (rv_day res) t' = Inr (d, t'\<lparr>tx_rank := 11\<rparr>)"
    using d later(2) by (simp add: lockAccountDay_def bindC_run open_day_def assertLockOrder_def find_day_def)
  have "locateReservation (JStr i) t' = Inr ((d, ?g res), t'\<lparr>tx_rank := 11\<rparr>)"
    using l(2) found g lock
    by (simp add: locateReservation_def bindC_run requireUuid_def isUuid_def find_reservation_def)
  with released_again[OF later(1) this g(3), of ctx'] g(3) amount kept show ?thesis
    by (simp add: consumeReservation_def bindC_run)
qed

section \<open>A sample account\<close>

definition account_uuid :: string where "account_uuid = ''00000000-0000-7000-8000-0000000000aa''"
definition reservation_uuid :: string where "reservation_uuid = ''00000000-0000-7000-8000-0000000000bb''"

definition sample_account :: inr_account_row where
  "sample_account = \<lparr>ia_id = account_uuid, ia_entity = ''e'', ia_label = ''Main'', ia_bank_name = ''Bank'', ia_ifsc = ''HDFC0000001'',
     ia_number_enc = ''x'', ia_last4 = ''1234'', ia_hmac = ''h'', ia_rails = [''IMPS''], ia_direction = PAYS_AND_COLLECTS,
     ia_status = INR_ACTIVE, ia_default_capacity = 1000, ia_notes = None, ia_upi_vpa = None, ia_beneficiary = None,
     ia_created_by = ''u1'', ia_version = 1\<rparr>"

text \<open>The first identifier the database gives out is a well-formed one; the others are made of its number.\<close>

definition sample_ids :: "nat \<Rightarrow> string" where
  "sample_ids n = (if n = 0 then reservation_uuid else ''id-'' @ digits_of (int n))"

definition sample_bank :: capacity_db where
  "sample_bank = \<lparr>clock = 1000, uuidv7 = sample_ids, uuids = 0, tx_rank = - 1,
     audit_event = [], audit_seal = [], outbox_event = [], outbox_delivery = [], idempotency_key = [], rate_limit_counter = [],
     auth_user = [], auth_session = [], session_activity = [], step_up_verification = [], operator_user_role = [],
     operator_permission_grant = [], operator_role_request = [], ledger_account = [], ledger_journal = [], ledger_entry = [],
     ist_day = (\<lambda>n. ''2026-01-05''), inr_settlement_account = [sample_account], inr_account_day = [], capacity_reservation = []\<rparr>"

lemma digits_inj: "0 \<le> a \<Longrightarrow> 0 \<le> b \<Longrightarrow> digits_of a = digits_of b \<Longrightarrow> a = b"
  by (metis digits_of_value)

lemma sample_bank_ok: "capacity_ok sample_bank"
proof -
  have "inj sample_ids"
  proof (rule injI)
    fix m n assume "sample_ids m = sample_ids n"
    then show "m = n" using digits_inj[of "int m" "int n"]
      by (auto simp: sample_ids_def reservation_uuid_def split: if_splits)
  qed
  then show ?thesis by (simp add: capacity_ok_def days_ok_def reservations_ok_def sample_bank_def fresh_ids_def sample_account_def)
qed

definition sample_reserve :: capacity_call where
  "sample_reserve = Reserve sample_ctx (JStr account_uuid) (inr 600) (FOR_CLIENT_PAYOUT (JStr account_uuid)) None"

definition sample_release :: capacity_call where
  "sample_release = Release sample_ctx (JStr reservation_uuid) ''OPERATOR''"

definition sample_reserved :: capacity_db where
  "sample_reserved = run_or sample_bank (run_call sample_reserve)"

theorem capacity_never_overcommitted_witness:
  "within_capacity sample_bank sample_reserved \<and> map committed (inr_account_day sample_reserved) = [600]"
proof -
  have ran: "case run_call sample_reserve sample_bank of Inl e \<Rightarrow> False | Inr (u, t) \<Rightarrow> True" by code_simp
  from run_or_eq[of "run_call sample_reserve", OF ran] have run: "run_call sample_reserve sample_bank = Inr ((), sample_reserved)"
    by (simp add: sample_reserved_def)
  have "named_subject sample_reserve" by (simp add: sample_reserve_def)
  from capacity_never_overcommitted[OF sample_bank_ok this] run have "within_capacity sample_bank sample_reserved" by simp
  moreover have "map committed (inr_account_day sample_reserved) = [600]" by code_simp
  ultimately show ?thesis ..
qed

text \<open>The second reservation does not fit and is refused.\<close>

theorem capacity_totals_agree_witness:
  "length (capacity_reservation (run_calls [sample_reserve, sample_reserve] sample_bank)) = 1 \<and>
   list_all (\<lambda>r. rv_amount r = rv_consumed r + rv_released r + open_part r) (capacity_reservation (run_calls [sample_reserve, sample_reserve] sample_bank))"
proof -
  have "\<forall>c \<in> set [sample_reserve, sample_reserve]. named_subject c" by (simp add: sample_reserve_def)
  from capacity_totals_agree[OF sample_bank_ok this]
  have "list_all (\<lambda>r. rv_amount r = rv_consumed r + rv_released r + open_part r) (capacity_reservation (run_calls [sample_reserve, sample_reserve] sample_bank))"
    unfolding list_all_iff by blast
  moreover have "length (capacity_reservation (run_calls [sample_reserve, sample_reserve] sample_bank)) = 1" by code_simp
  ultimately show ?thesis by blast
qed

definition sample_free :: "(capacity_db, release_outcome) cmd" where
  "sample_free = releaseReservation sample_ctx (JStr reservation_uuid) ''OPERATOR''"

definition sample_released :: capacity_db where
  "sample_released = run_or sample_reserved sample_free"

theorem release_happens_once_witness:
  "consumeReservation sample_ctx (JStr reservation_uuid) (inr 100) sample_released = Inl (ReferenceError RESERVATION_NOT_ACTIVE) \<and>
   map ad_reserved (inr_account_day sample_released) = [0]"
proof -
  have ran: "case run_call sample_reserve sample_bank of Inl e \<Rightarrow> False | Inr (u, t) \<Rightarrow> True" by code_simp
  from run_or_eq[of "run_call sample_reserve", OF ran] have run: "run_call sample_reserve sample_bank = Inr ((), sample_reserved)"
    by (simp add: sample_reserved_def)
  have named: "named_subject sample_reserve" by (simp add: sample_reserve_def)
  from call_promise[OF sample_bank_ok named] run have ok: "capacity_ok sample_reserved" by simp
  have ran': "case sample_free sample_reserved of Inl e \<Rightarrow> False | Inr (x, t) \<Rightarrow> ro_released x" by code_simp
  then obtain out where rel: "releaseReservation sample_ctx (JStr reservation_uuid) ''OPERATOR'' sample_reserved = Inr (out, sample_released)" "ro_released out"
    by (auto simp: sample_free_def sample_released_def run_or_def split: sum.splits prod.splits)
  have ok': "capacity_ok sample_released" using safe_callD(2)[OF safe_release ok rel(1)] by simp
  have rank: "tx_rank sample_released \<le> 11" by code_simp
  have days: "list_all (\<lambda>r. calendar_date (rv_day r)) (capacity_reservation sample_released)" by code_simp
  have reason: "''OPERATOR'' \<in> set RELEASE_REASONS" by (simp add: RELEASE_REASONS_def)
  have "consumeReservation sample_ctx (JStr reservation_uuid) (inr 100) sample_released = Inl (ReferenceError RESERVATION_NOT_ACTIVE)"
    using release_happens_once[OF ok rel reason rank ok' refl refl, of "inr 100" sample_ctx] days by (simp add: list_all_iff inr_def isPositive_def)
  moreover have "map ad_reserved (inr_account_day sample_released) = [0]" by code_simp
  ultimately show ?thesis ..
qed

end
