(* ===== verification/Reservations.thy ===== *)
theory Reservations
  imports Prelude
begin

text \<open>
  The bookkeeping shared by every store of reservations: pools (a day of a rupee account, a treasury wallet) that carry
  the total they have promised, and reservations that each hold an open part of one pool. The locale states what a
  provider fixes and proves, once, that changing a reservation together with its pool keeps the totals in agreement.
\<close>

locale reservation_book =
  fixes pool_key :: "'p \<Rightarrow> 'k"
    and promised :: "'p \<Rightarrow> int"
    and res_id :: "'r \<Rightarrow> string"
    and res_key :: "'r \<Rightarrow> 'k"
    and open_of :: "'r \<Rightarrow> int"
    and legal :: "'r \<Rightarrow> bool"
  assumes open_nonneg: "legal r \<Longrightarrow> 0 \<le> open_of r"
begin

definition open_sum :: "'k \<Rightarrow> 'r list \<Rightarrow> int" where
  "open_sum k rs = sum_list (map open_of (filter (\<lambda>r. res_key r = k) rs))"

definition agree :: "'p list \<Rightarrow> 'r list \<Rightarrow> bool" where
  "agree ps rs \<longleftrightarrow> distinct (map pool_key ps) \<and> distinct (map res_id rs) \<and>
     (\<forall>r \<in> set rs. legal r \<and> res_key r \<in> pool_key ` set ps) \<and> (\<forall>p \<in> set ps. promised p = open_sum (pool_key p) rs)"

lemma open_sum_simps [simp]:
  "open_sum k [] = 0"
  "open_sum k (r # rs) = (if res_key r = k then open_of r else 0) + open_sum k rs"
  "open_sum k (xs @ ys) = open_sum k xs + open_sum k ys"
  by (simp_all add: open_sum_def)

lemma open_sum_nonneg: "(\<And>r. r \<in> set rs \<Longrightarrow> legal r) \<Longrightarrow> 0 \<le> open_sum k rs"
  by (induction rs) (auto intro!: add_nonneg_nonneg open_nonneg)

lemma open_le_sum: "r \<in> set rs \<Longrightarrow> (\<And>r. r \<in> set rs \<Longrightarrow> legal r) \<Longrightarrow> open_of r \<le> open_sum (res_key r) rs"
proof (induction rs)
  case (Cons x rs)
  then have "0 \<le> open_sum (res_key r) rs" "0 \<le> open_of x" by (auto intro: open_sum_nonneg open_nonneg)
  with Cons show ?case by (cases "r = x") (auto intro: add_increasing)
qed simp

lemma agree_promised_nonneg: "agree ps rs \<Longrightarrow> p \<in> set ps \<Longrightarrow> 0 \<le> promised p"
  by (auto simp: agree_def intro!: open_sum_nonneg)

lemma agree_open_le: "agree ps rs \<Longrightarrow> p \<in> set ps \<Longrightarrow> r \<in> set rs \<Longrightarrow> res_key r = pool_key p \<Longrightarrow> open_of r \<le> promised p"
  using open_le_sum by (fastforce simp: agree_def)

lemma same_pool: "agree ps rs \<Longrightarrow> p \<in> set ps \<Longrightarrow> q \<in> set ps \<Longrightarrow> pool_key q = pool_key p \<Longrightarrow> q = p"
  by (auto simp: agree_def distinct_map dest: inj_onD)

lemma same_res: "agree ps rs \<Longrightarrow> r \<in> set rs \<Longrightarrow> q \<in> set rs \<Longrightarrow> res_id q = res_id r \<Longrightarrow> q = r"
  by (auto simp: agree_def distinct_map dest: inj_onD)

lemma update_absent: "i \<notin> res_id ` set rs \<Longrightarrow> update_where (\<lambda>x. res_id x = i) g rs = rs"
proof -
  assume "i \<notin> res_id ` set rs"
  then have "\<forall>y \<in> set rs. res_id y \<noteq> i" by (metis image_eqI)
  then show ?thesis by (simp add: update_where_def map_idI)
qed

lemma open_sum_update:
  assumes "distinct (map res_id rs)" "r \<in> set rs" "res_key (g r) = res_key r"
  shows "open_sum k (update_where (\<lambda>x. res_id x = res_id r) g rs) = open_sum k rs + (if res_key r = k then open_of (g r) - open_of r else 0)"
  using assms(1,2)
proof (induction rs)
  case (Cons x rs)
  show ?case
  proof (cases "x = r")
    case True
    with Cons.prems have "res_id r \<notin> res_id ` set rs" by simp
    with True assms(3) show ?thesis by (simp add: update_absent)
  next
    case False
    with Cons.prems have "r \<in> set rs" "res_id x \<noteq> res_id r" by auto
    with Cons show ?thesis by simp
  qed
qed simp

text \<open>Every field but the promise may change on the pool, every field but identity and pool on the reservation.\<close>

lemma keys_update: "(\<And>p. p \<in> set ps \<Longrightarrow> q p \<Longrightarrow> pool_key (f p) = pool_key p) \<Longrightarrow> map pool_key (update_where q f ps) = map pool_key ps"
  by (simp add: update_where_def)

lemma ids_update: "(\<And>r. r \<in> set rs \<Longrightarrow> q r \<Longrightarrow> res_id (g r) = res_id r) \<Longrightarrow> map res_id (update_where q g rs) = map res_id rs"
  by (simp add: update_where_def)

lemma agree_move:
  assumes ok: "agree ps rs" and p: "p \<in> set ps" and r: "r \<in> set rs" "res_key r = pool_key p"
    and f: "pool_key (f p) = pool_key p" "promised (f p) = promised p + open_of (g r) - open_of r"
    and g: "res_id (g r) = res_id r" "res_key (g r) = res_key r" "legal (g r)"
  shows "agree (update_where (\<lambda>x. pool_key x = pool_key p) f ps) (update_where (\<lambda>x. res_id x = res_id r) g rs)"
proof -
  let ?ps = "update_where (\<lambda>x. pool_key x = pool_key p) f ps" and ?rs = "update_where (\<lambda>x. res_id x = res_id r) g rs"
  have keys: "map pool_key ?ps = map pool_key ps" by (rule keys_update) (use same_pool[OF ok p] f in auto)
  have ids: "map res_id ?rs = map res_id rs" by (rule ids_update) (use same_res[OF ok r(1)] g in auto)
  have sums: "open_sum k ?rs = open_sum k rs + (if res_key r = k then open_of (g r) - open_of r else 0)" for k
    using ok r g by (intro open_sum_update) (auto simp: agree_def)
  have "legal x \<and> res_key x \<in> pool_key ` set ?ps" if "x \<in> set ?rs" for x
  proof -
    from that obtain y where y: "y \<in> set rs" "x = (if res_id y = res_id r then g y else y)" by (auto simp: set_update_where)
    have "legal x \<and> res_key x = res_key y" using y same_res[OF ok r(1) y(1)] g ok by (auto simp: agree_def)
    moreover have "pool_key ` set ?ps = pool_key ` set ps" using keys by (metis list.set_map)
    ultimately show ?thesis using ok y(1) by (simp add: agree_def)
  qed
  moreover have "promised x = open_sum (pool_key x) ?rs" if "x \<in> set ?ps" for x
  proof -
    from that obtain y where y: "y \<in> set ps" "x = (if pool_key y = pool_key p then f y else y)" by (auto simp: set_update_where)
    show ?thesis
    proof (cases "pool_key y = pool_key p")
      case True
      with y same_pool[OF ok p y(1)] have "x = f p" "y = p" by auto
      then show ?thesis using ok p f r by (simp add: sums agree_def)
    next
      case False
      with y ok r show ?thesis by (simp add: sums agree_def)
    qed
  qed
  moreover have "distinct (map pool_key ?ps)" "distinct (map res_id ?rs)" using ok keys ids by (simp_all add: agree_def)
  ultimately show ?thesis by (simp add: agree_def)
qed

lemma agree_add:
  assumes ok: "agree ps rs" and p: "p \<in> set ps" and f: "pool_key (f p) = pool_key p" "promised (f p) = promised p + open_of r"
    and r: "res_id r \<notin> res_id ` set rs" "res_key r = pool_key p" "legal r"
  shows "agree (update_where (\<lambda>x. pool_key x = pool_key p) f ps) (rs @ [r])"
proof -
  let ?ps = "update_where (\<lambda>x. pool_key x = pool_key p) f ps"
  have keys: "map pool_key ?ps = map pool_key ps" by (rule keys_update) (use same_pool[OF ok p] f in auto)
  then have "pool_key ` set ?ps = pool_key ` set ps" by (metis list.set_map)
  then have "legal x \<and> res_key x \<in> pool_key ` set ?ps" if "x \<in> set (rs @ [r])" for x
    using that ok r p by (auto simp: agree_def)
  moreover have "promised x = open_sum (pool_key x) (rs @ [r])" if "x \<in> set ?ps" for x
  proof -
    from that obtain y where y: "y \<in> set ps" "x = (if pool_key y = pool_key p then f y else y)" by (auto simp: set_update_where)
    show ?thesis
    proof (cases "pool_key y = pool_key p")
      case True
      with y same_pool[OF ok p y(1)] have "x = f p" by auto
      then show ?thesis using ok p f r by (simp add: agree_def)
    next
      case False
      with y ok r show ?thesis by (simp add: agree_def)
    qed
  qed
  ultimately show ?thesis using ok r keys by (simp add: agree_def)
qed

lemma agree_pool:
  assumes ok: "agree ps rs" and f: "\<And>p. p \<in> set ps \<Longrightarrow> q p \<Longrightarrow> pool_key (f p) = pool_key p \<and> promised (f p) = promised p"
  shows "agree (update_where q f ps) rs"
proof -
  have keys: "map pool_key (update_where q f ps) = map pool_key ps" by (rule keys_update) (use f in auto)
  then have "pool_key ` set (update_where q f ps) = pool_key ` set ps" by (metis list.set_map)
  with keys ok f show ?thesis by (auto simp: agree_def set_update_where)
qed

lemma agree_new_pool:
  "agree ps rs \<Longrightarrow> pool_key p \<notin> pool_key ` set ps \<Longrightarrow> promised p = 0 \<Longrightarrow> agree (ps @ [p]) rs"
proof -
  assume ok: "agree ps rs" and new: "pool_key p \<notin> pool_key ` set ps" and z: "promised p = 0"
  have "\<forall>r \<in> set rs. res_key r \<noteq> pool_key p" using ok new unfolding agree_def by metis
  then have "filter (\<lambda>r. res_key r = pool_key p) rs = []" by (simp add: filter_empty_conv)
  then have "open_sum (pool_key p) rs = 0" by (simp add: open_sum_def)
  with ok new z show ?thesis by (auto simp: agree_def)
qed

end

end
