(* ===== verification/Tron.thy ===== *)
theory Tron
  imports Ids "HOL-Library.Word"
begin

text \<open>
  TRON addresses (\<^verbatim>\<open>packages/kernel/src/tron.ts\<close>): base58 with a checksum. A \<^verbatim>\<open>Uint8Array\<close> is a list of 8-bit words; the
  loops over \<^verbatim>\<open>bigint\<close> are recursions over \<open>nat\<close>. SHA-256 is the parameter \<open>H\<close>; what is proved of it holds for every function
  with at least four bytes of output.
\<close>

type_synonym byte = "8 word"

section \<open>Base 58\<close>

definition ALPHABET :: string where
  "ALPHABET = ''123456789ABCDEFGHJKLMNPQRSTUVWXYZabcdefghijkmnopqrstuvwxyz''"

fun position :: "'a \<Rightarrow> 'a list \<Rightarrow> nat option" where
  "position x [] = None"
| "position x (y # ys) = (if y = x then Some 0 else map_option Suc (position x ys))"

definition INDEX :: "char \<Rightarrow> nat option" where
  "INDEX c = position c ALPHABET"

fun decode_digits :: "string \<Rightarrow> nat \<Rightarrow> nat option" where
  "decode_digits [] n = Some n"
| "decode_digits (c # cs) n = (case INDEX c of None \<Rightarrow> None | Some v \<Rightarrow> decode_digits cs (n * 58 + v))"

fun unshift_bytes :: "nat \<Rightarrow> byte list \<Rightarrow> byte list" where
  "unshift_bytes n bytes = (if n = 0 then bytes else unshift_bytes (n div 256) (of_nat (n mod 256) # bytes))"

definition base58Decode :: "string \<Rightarrow> byte list option" where
  "base58Decode s = (case decode_digits s 0 of None \<Rightarrow> None
     | Some n \<Rightarrow> Some (replicate (length (takeWhile (\<lambda>c. c = CHR ''1'') s)) 0 @ unshift_bytes n []))"

text \<open>The number a buffer spells, as \<^verbatim>\<open>BigInt('0x...')\<close> of its hexadecimal text.\<close>

definition big_endian :: "byte list \<Rightarrow> nat" where
  "big_endian buf = foldl (\<lambda>n b. n * 256 + unat b) 0 buf"

fun encode_digits :: "nat \<Rightarrow> string \<Rightarrow> string" where
  "encode_digits n out = (if n = 0 then out else encode_digits (n div 58) (ALPHABET ! (n mod 58) # out))"

definition base58Encode :: "byte list \<Rightarrow> string" where
  "base58Encode buf = replicate (length (takeWhile (\<lambda>b. b = 0) buf)) (CHR ''1'') @ encode_digits (big_endian buf) []"

section \<open>Addresses\<close>

definition TRON_VERSION :: byte where "TRON_VERSION = 0x41"

definition sha256d :: "(byte list \<Rightarrow> byte list) \<Rightarrow> byte list \<Rightarrow> byte list" where
  "sha256d H buf = H (H buf)"

definition isBase58 :: "char \<Rightarrow> bool" where
  "isBase58 c \<longleftrightarrow> (let n = code_of c in 49 \<le> n \<and> n \<le> 57 \<or> 65 \<le> n \<and> n \<le> 72 \<or> 74 \<le> n \<and> n \<le> 78 \<or> 80 \<le> n \<and> n \<le> 90 \<or>
     97 \<le> n \<and> n \<le> 107 \<or> 109 \<le> n \<and> n \<le> 122)"

definition TRON_RE :: "(char \<Rightarrow> bool) list" where
  "TRON_RE = (\<lambda>c. c = CHR ''T'') # replicate 33 isBase58"

definition isTronAddress :: "(byte list \<Rightarrow> byte list) \<Rightarrow> string \<Rightarrow> bool" where
  "isTronAddress H value \<longleftrightarrow> matches TRON_RE value \<and>
     (case base58Decode value of None \<Rightarrow> False
      | Some raw \<Rightarrow> length raw = 25 \<and> raw ! 0 = TRON_VERSION \<and> drop 21 raw = take 4 (sha256d H (take 21 raw)))"

definition parseTronAddress :: "(byte list \<Rightarrow> byte list) \<Rightarrow> string \<Rightarrow> string result" where
  "parseTronAddress H value = (if isTronAddress H value then Inr value else Inl (ReferenceError INVALID_ADDRESS))"

definition encodeTronAddress :: "(byte list \<Rightarrow> byte list) \<Rightarrow> byte list \<Rightarrow> string result" where
  "encodeTronAddress H accountId20 =
     (if length accountId20 \<noteq> 20 then Inl (CoreError INVALID_ARGUMENT)
      else let payload = TRON_VERSION # accountId20 in Inr (base58Encode (payload @ take 4 (sha256d H payload))))"

definition hex_char :: "nat \<Rightarrow> char" where
  "hex_char n = ''0123456789abcdef'' ! n"

definition hex_text :: "byte list \<Rightarrow> string" where
  "hex_text buf = concat (map (\<lambda>b. [hex_char (unat b div 16), hex_char (unat b mod 16)]) buf)"

definition tronAddressToHex :: "(byte list \<Rightarrow> byte list) \<Rightarrow> string \<Rightarrow> string result" where
  "tronAddressToHex H value =
     (if \<not> isTronAddress H value then Inl (ReferenceError INVALID_ADDRESS)
      else case base58Decode value of None \<Rightarrow> Inl TypeError | Some raw \<Rightarrow> Inr (hex_text (take 21 raw)))"

definition hex_value :: "char \<Rightarrow> nat option" where
  "hex_value c = (let n = code_of c in
     if 48 \<le> n \<and> n \<le> 57 then Some (n - 48) else if 97 \<le> n \<and> n \<le> 102 then Some (n - 87)
     else if 65 \<le> n \<and> n \<le> 70 then Some (n - 55) else None)"

text \<open>\<^verbatim>\<open>Buffer.from(hex, 'hex')\<close>, on text of hexadecimal digits of even length.\<close>

fun bytes_of_hex :: "string \<Rightarrow> byte list" where
  "bytes_of_hex (a # b # rest) = of_nat (16 * the (hex_value a) + the (hex_value b)) # bytes_of_hex rest"
| "bytes_of_hex _ = []"

definition normalizeTronAddress :: "(byte list \<Rightarrow> byte list) \<Rightarrow> js \<Rightarrow> string result" where
  "normalizeTronAddress H v = (case v of
     JStr value \<Rightarrow>
       (if take 1 value = ''T'' then parseTronAddress H value
        else let hex = (if take 2 value = ''0x'' then drop 2 value else value)
          in if hex = [] \<or> \<not> list_all (\<lambda>c. hex_value c \<noteq> None) hex then Inl (ReferenceError INVALID_ADDRESS)
             else if length hex = 42
               then (if take 2 hex \<noteq> ''41'' then Inl (ReferenceError INVALID_ADDRESS) else encodeTronAddress H (bytes_of_hex (drop 2 hex)))
             else if length hex = 40 then encodeTronAddress H (bytes_of_hex hex)
             else Inl (ReferenceError INVALID_ADDRESS))
   | _ \<Rightarrow> Inl (ReferenceError INVALID_ADDRESS))"

declare unshift_bytes.simps [simp del] encode_digits.simps [simp del]

section \<open>Positional notation\<close>

function to_base :: "nat \<Rightarrow> nat \<Rightarrow> nat list" where
  "to_base b n = (if n = 0 \<or> b < 2 then [] else to_base b (n div b) @ [n mod b])"
  by pat_completeness auto
termination by (relation "measure snd") auto

declare to_base.simps [simp del]

lemma to_base_0 [simp]: "to_base b 0 = []"
  by (simp add: to_base.simps)

definition of_base :: "nat \<Rightarrow> nat list \<Rightarrow> nat" where
  "of_base b ds = foldl (\<lambda>n d. n * b + d) 0 ds"

lemma of_base_simps [simp]: "of_base b [] = 0" "of_base b (ds @ [d]) = of_base b ds * b + d"
  by (simp_all add: of_base_def)

lemma of_to_base: "2 \<le> b \<Longrightarrow> of_base b (to_base b n) = n"
proof (induction b n rule: to_base.induct)
  case (1 b n)
  then show ?case by (cases "n = 0") (simp_all add: to_base.simps[of b n])
qed

lemma to_of_base: "2 \<le> b \<Longrightarrow> list_all (\<lambda>d. d < b) ds \<Longrightarrow> to_base b (of_base b ds) = dropWhile (\<lambda>d. d = 0) ds"
proof (induction ds rule: rev_induct)
  case Nil
  show ?case by (simp add: to_base.simps)
next
  case (snoc d ds)
  let ?n = "of_base b ds"
  from snoc.prems have d: "d < b" and ds: "list_all (\<lambda>d. d < b) ds" by simp_all
  have ih: "to_base b ?n = dropWhile (\<lambda>d. d = 0) ds" using snoc ds by simp
  have all: "(?n = 0) = (\<forall>x \<in> set ds. x = 0)"
  proof
    assume "?n = 0"
    then have "dropWhile (\<lambda>d. d = 0) ds = []" using ih by (simp add: to_base.simps)
    then show "\<forall>x \<in> set ds. x = 0" by (simp add: dropWhile_eq_Nil_conv)
  next
    assume "\<forall>x \<in> set ds. x = 0"
    then have "dropWhile (\<lambda>d. d = 0) ds = []" by (simp add: dropWhile_eq_Nil_conv)
    then have "to_base b ?n = []" using ih by simp
    then show "?n = 0" using of_to_base[OF snoc.prems(1), of ?n] by simp
  qed
  have "(?n * b + d) div b = ?n" "(?n * b + d) mod b = d" using d by simp_all
  then show ?case
    using snoc.prems(1) ih all by (cases "?n * b + d = 0") (auto simp: to_base.simps[of b "?n * b + d"] dropWhile_append to_base.simps[of b 0])
qed

lemma to_base_digits: "2 \<le> b \<Longrightarrow> list_all (\<lambda>d. d < b) (to_base b n)"
  by (induction b n rule: to_base.induct) (simp add: to_base.simps)

lemma to_base_hd: "2 \<le> b \<Longrightarrow> to_base b n = d # ds \<Longrightarrow> d \<noteq> 0"
proof -
  assume b: "2 \<le> b" and eq: "to_base b n = d # ds"
  have "to_base b (of_base b (to_base b n)) = dropWhile (\<lambda>d. d = 0) (to_base b n)"
    by (rule to_of_base[OF b to_base_digits[OF b]])
  then have "to_base b n = dropWhile (\<lambda>d. d = 0) (to_base b n)" by (simp add: of_to_base[OF b])
  with eq show "d \<noteq> 0" using hd_dropWhile[of "\<lambda>d. d = 0" "to_base b n"] by (metis list.distinct(1) list.sel(1))
qed

text \<open>A number between \<open>d b\<^sup>k\<close> and \<open>(d + 1) b\<^sup>k\<close> has \<open>k + 1\<close> digits, the first of them \<open>d\<close>.\<close>

lemma leading_digit:
  assumes "2 \<le> b" "0 < d" "d < b"
  shows "d * b ^ k \<le> n \<Longrightarrow> n < (d + 1) * b ^ k \<Longrightarrow> \<exists>ds. to_base b n = d # ds \<and> length ds = k"
proof (induction k arbitrary: n)
  case 0
  then have "n = d" by simp
  with assms show ?case by (simp add: to_base.simps[of b d] to_base.simps[of b 0])
next
  case (Suc k)
  have "d * b ^ k * b \<le> n" "n < (d + 1) * b ^ k * b" using Suc.prems by (simp_all add: algebra_simps)
  then have "d * b ^ k \<le> n div b" "n div b < (d + 1) * b ^ k"
    using assms(1) by (simp_all add: less_eq_div_iff_mult_less_eq div_less_iff_less_mult)
  from Suc.IH[OF this] obtain ds where ds: "to_base b (n div b) = d # ds" "length ds = k" by blast
  then have "n \<noteq> 0" by (cases "n = 0") auto
  with ds assms show ?case by (simp add: to_base.simps[of b n])
qed

section \<open>Base 58 is read back\<close>

lemma byte_bound: "unat (b::byte) < 256"
  using unsigned_less[of b] by simp

lemma unshift_bytes_digits: "unshift_bytes n bytes = map of_nat (to_base 256 n) @ bytes"
proof (induction n bytes rule: unshift_bytes.induct)
  case (1 n bytes)
  then show ?case by (cases "n = 0") (simp_all add: unshift_bytes.simps[of n] unshift_bytes.simps[of 0] to_base.simps[of 256 n])
qed

lemma encode_digits_digits: "encode_digits n out = map ((!) ALPHABET) (to_base 58 n) @ out"
proof (induction n out rule: encode_digits.induct)
  case (1 n out)
  then show ?case by (cases "n = 0") (simp_all add: encode_digits.simps[of n] encode_digits.simps[of 0] to_base.simps[of 58 n])
qed

lemma big_endian_digits: "big_endian buf = of_base 256 (map unat buf)"
proof -
  have "foldl (\<lambda>n b. n * 256 + unat b) k buf = foldl (\<lambda>n d. n * 256 + d) k (map unat buf)" for k
    by (induction buf arbitrary: k) simp_all
  then show ?thesis by (simp add: big_endian_def of_base_def)
qed

lemma position_nth: "distinct xs \<Longrightarrow> i < length xs \<Longrightarrow> position (xs ! i) xs = Some i"
  by (induction xs arbitrary: i) (auto simp: nth_Cons split: nat.splits)

lemma distinct_ALPHABET: "distinct ALPHABET" and length_ALPHABET: "length ALPHABET = 58"
  unfolding ALPHABET_def by code_simp+

lemma INDEX_nth: "d < 58 \<Longrightarrow> INDEX (ALPHABET ! d) = Some d"
  by (simp add: INDEX_def position_nth distinct_ALPHABET length_ALPHABET)

lemma decode_digits_text: "list_all (\<lambda>d. d < 58) ds \<Longrightarrow> decode_digits (map ((!) ALPHABET) ds) n = Some (foldl (\<lambda>n d. n * 58 + d) n ds)"
  by (induction ds arbitrary: n) (simp_all add: INDEX_nth)

lemma alphabet_zero: "ALPHABET ! 0 = CHR ''1''"
  by (simp add: ALPHABET_def)

lemma alphabet_nonzero: "d < 58 \<Longrightarrow> d \<noteq> 0 \<Longrightarrow> ALPHABET ! d \<noteq> CHR ''1''"
proof
  assume d: "d < 58" "d \<noteq> 0" and eq: "ALPHABET ! d = CHR ''1''"
  then have "ALPHABET ! d = ALPHABET ! 0" by (simp add: alphabet_zero)
  with d distinct_ALPHABET show False by (simp add: nth_eq_iff_index_eq length_ALPHABET)
qed

text \<open>What a zero byte, and any text of the alphabet, turns into.\<close>

lemma takeWhile_zeros: "takeWhile P (replicate k x @ ys) = (if P x then replicate k x @ takeWhile P ys else if k = 0 then takeWhile P ys else [])"
  by (induction k) auto

lemma base58_digits:
  "base58Encode buf = map ((!) ALPHABET) (replicate (length (takeWhile (\<lambda>b. b = 0) buf)) 0 @ to_base 58 (of_base 256 (map unat buf)))"
  by (simp add: base58Encode_def encode_digits_digits big_endian_digits alphabet_zero map_replicate)

lemma zeros_of_digits: "list_all (\<lambda>d. d < 58) (d # ds) \<Longrightarrow> d \<noteq> 0 \<Longrightarrow> takeWhile (\<lambda>c. c = CHR ''1'') (map ((!) ALPHABET) (d # ds)) = []"
  using alphabet_nonzero by simp

lemma foldl_zeros: "foldl (\<lambda>n d. n * 58 + d) (0::nat) (replicate k 0 @ ds) = foldl (\<lambda>n d. n * 58 + d) 0 ds"
  by (induction k) simp_all

lemma foldl_zeros_any: "foldl (\<lambda>n d. n * b + d) (0::nat) (replicate k 0) = 0"
  by (induction k) simp_all

lemma leading_zeros: "map unat (takeWhile (\<lambda>b::byte. b = 0) buf) = replicate (length (takeWhile (\<lambda>b. b = 0) buf)) 0"
  by (induction buf) auto

lemma base58Decode_encode: "base58Decode (base58Encode buf) = Some buf"
proof -
  let ?k = "length (takeWhile (\<lambda>b. b = 0) buf)" and ?n = "of_base 256 (map unat buf)"
  let ?ds = "to_base 58 ?n"
  have small: "list_all (\<lambda>d. d < 58) (replicate ?k 0 @ ?ds)" using to_base_digits[of 58 ?n] by (auto simp: list_all_iff)
  have decoded: "decode_digits (base58Encode buf) 0 = Some ?n"
    unfolding base58_digits decode_digits_text[OF small] foldl_zeros using of_to_base[of 58 ?n] by (simp add: of_base_def)
  have ones: "takeWhile (\<lambda>c. c = CHR ''1'') (map ((!) ALPHABET) ?ds) = []"
  proof (cases ?ds)
    case (Cons d ds)
    then have "d \<noteq> 0" using to_base_hd[of 58] by simp
    with Cons zeros_of_digits[of d ds] to_base_digits[of 58 ?n] show ?thesis by simp
  qed simp
  have "takeWhile (\<lambda>c. c = CHR ''1'') (base58Encode buf) = replicate ?k (CHR ''1'')"
    unfolding base58_digits by (simp add: takeWhile_zeros alphabet_zero map_replicate ones)
  moreover have "map of_nat (to_base 256 ?n) = (dropWhile (\<lambda>b. b = 0) buf :: byte list)"
  proof -
    have "list_all (\<lambda>d. d < 256) (map unat buf)" using byte_bound by (auto simp: list_all_iff)
    then have "to_base 256 ?n = dropWhile (\<lambda>d. d = 0) (map unat buf)" by (rule to_of_base[rotated]) simp
    also have "\<dots> = map unat (dropWhile (\<lambda>b. b = 0) buf)" by (simp add: dropWhile_map comp_def unat_eq_zero)
    finally show ?thesis by (simp add: comp_def)
  qed
  moreover have "replicate ?k (0::byte) = takeWhile (\<lambda>b. b = 0) buf" by (induction buf) auto
  ultimately show ?thesis using decoded
    by (simp add: base58Decode_def unshift_bytes_digits takeWhile_dropWhile_id)
qed

section \<open>Encoded accounts are addresses\<close>

lemma of_base_bounds:
  "list_all (\<lambda>d. d < b) ds \<Longrightarrow> d * b ^ length ds \<le> of_base b (d # ds) \<and> of_base b (d # ds) < (d + 1) * b ^ length ds"
proof (induction ds rule: rev_induct)
  case Nil
  show ?case by (simp add: of_base_def)
next
  case (snoc x ds)
  let ?n = "of_base b (d # ds)" and ?k = "b ^ length ds"
  have n: "of_base b (d # ds @ [x]) = ?n * b + x" using of_base_simps(2)[of b "d # ds" x] by simp
  from snoc have ih: "d * ?k \<le> ?n" "?n + 1 \<le> (d + 1) * ?k" and x: "x < b" by auto
  have "d * ?k * b \<le> ?n * b" using ih(1) by (rule mult_le_mono1)
  moreover have "(?n + 1) * b \<le> (d + 1) * ?k * b" using ih(2) by (rule mult_le_mono1)
  moreover have "(?n + 1) * b = ?n * b + b" "d * b ^ length (ds @ [x]) = d * ?k * b" "(d + 1) * b ^ length (ds @ [x]) = (d + 1) * ?k * b"
    by (simp_all add: algebra_simps)
  ultimately show ?case using x unfolding n by linarith
qed

lemma alphabet_class: "d < 58 \<Longrightarrow> isBase58 (ALPHABET ! d)"
proof -
  have "list_all isBase58 ALPHABET" unfolding ALPHABET_def isBase58_def Let_def code_of_def by code_simp
  then show "d < 58 \<Longrightarrow> isBase58 (ALPHABET ! d)" by (simp add: list_all_length length_ALPHABET)
qed

lemma encoded_shape:
  assumes "length rest = 24"
  shows "matches TRON_RE (base58Encode (TRON_VERSION # rest))"
proof -
  let ?n = "of_base 256 (65 # map unat rest)"
  have small: "list_all (\<lambda>d. d < 256) (map unat rest)" using byte_bound by (auto simp: list_all_iff)
  from of_base_bounds[OF this, of 65] have n: "65 * 256 ^ 24 \<le> ?n" "?n < (65 + 1) * 256 ^ 24" using assms by simp_all
  have "(26::nat) * 58 ^ 33 \<le> 65 * 256 ^ 24" "(65 + 1) * (256::nat) ^ 24 \<le> (26 + 1) * 58 ^ 33" by simp_all
  with n have "26 * 58 ^ 33 \<le> ?n" "?n < (26 + 1) * 58 ^ 33" by linarith+
  from leading_digit[OF _ _ _ this] obtain ds where ds: "to_base 58 ?n = 26 # ds" "length ds = 33" by auto
  have "base58Encode (TRON_VERSION # rest) = map ((!) ALPHABET) (to_base 58 ?n)"
    unfolding base58_digits by (simp add: TRON_VERSION_def)
  moreover have "list_all (\<lambda>d. d < 58) ds" using to_base_digits[of 58 ?n] ds by simp
  then have "list_all2 (\<lambda>p c. p c) (replicate 33 isBase58) (map ((!) ALPHABET) ds)"
    using ds(2) alphabet_class by (auto simp: list_all2_conv_all_nth list_all_length)
  moreover have "ALPHABET ! 26 = CHR ''T''" by (simp add: ALPHABET_def)
  ultimately show ?thesis by (simp add: matches_def TRON_RE_def ds)
qed

lemma encode_run:
  assumes H: "\<And>x. 4 \<le> length (H x)" and len: "length account = 20"
  defines "a \<equiv> base58Encode (TRON_VERSION # account @ take 4 (sha256d H (TRON_VERSION # account)))"
  shows "encodeTronAddress H account = Inr a" "isTronAddress H a" "tronAddressToHex H a = Inr (''41'' @ hex_text account)"
proof -
  let ?sum = "take 4 (sha256d H (TRON_VERSION # account))"
  have sum: "length ?sum = 4" using H by (simp add: sha256d_def)
  show "encodeTronAddress H account = Inr a" using len by (simp add: encodeTronAddress_def a_def)
  have raw: "base58Decode a = Some (TRON_VERSION # account @ ?sum)" unfolding a_def by (rule base58Decode_encode)
  have "matches TRON_RE a" unfolding a_def by (rule encoded_shape) (use sum len in simp)
  then show ok: "isTronAddress H a" using sum len by (simp add: isTronAddress_def raw)
  show "tronAddressToHex H a = Inr (''41'' @ hex_text account)"
    using ok len by (simp add: tronAddressToHex_def raw hex_text_def TRON_VERSION_def hex_char_def)
qed

text \<open>Hexadecimal text spells its bytes back, in either case.\<close>

lemma hex_value_char: "n < 16 \<Longrightarrow> hex_value (hex_char n) = Some n"
proof -
  have "\<forall>n \<in> set [0..<16]. hex_value (hex_char n) = Some n" unfolding hex_value_def hex_char_def code_of_def Let_def by code_simp
  then show "n < 16 \<Longrightarrow> hex_value (hex_char n) = Some n" by simp
qed

lemma bytes_of_hex_text: "bytes_of_hex (hex_text buf) = buf"
proof (induction buf)
  case (Cons b buf)
  have "unat b < 256" using byte_bound[of b] by simp
  then have "unat b div 16 < 16" "unat b mod 16 < 16" by auto
  then have "(of_nat (16 * the (hex_value (hex_char (unat b div 16))) + the (hex_value (hex_char (unat b mod 16)))) :: byte) = b"
    by (simp add: hex_value_char)
  with Cons show ?case by (simp add: hex_text_def)
qed (simp add: hex_text_def)

lemma hex_text_digits: "list_all (\<lambda>c. hex_value c \<noteq> None) (hex_text buf)" "length (hex_text buf) = 2 * length buf"
proof -
  have "unat (b::byte) div 16 < 16" "unat b mod 16 < 16" for b using byte_bound[of b] by auto
  then show "list_all (\<lambda>c. hex_value c \<noteq> None) (hex_text buf)" by (induction buf) (simp_all add: hex_text_def hex_value_char)
  show "length (hex_text buf) = 2 * length buf" by (induction buf) (simp_all add: hex_text_def)
qed

lemma hex_text_not_T: "take 1 (hex_text buf) \<noteq> ''T''" "take 2 (hex_text buf) \<noteq> ''0x''"
proof -
  have T: "hex_value (CHR ''T'') = None" "hex_value (CHR ''x'') = None" by (simp_all add: hex_value_def code_of_def)
  have d: "c \<in> set (hex_text buf) \<Longrightarrow> hex_value c \<noteq> None" for c using hex_text_digits(1)[of buf] by (simp add: list_all_iff)
  show "take 1 (hex_text buf) \<noteq> ''T''" using d[of "CHR ''T''"] T in_set_takeD[of "CHR ''T''" 1 "hex_text buf"] by auto
  show "take 2 (hex_text buf) \<noteq> ''0x''" using d[of "CHR ''x''"] T in_set_takeD[of "CHR ''x''" 2 "hex_text buf"] by auto
qed

lemma position_Some: "position x xs = Some i \<Longrightarrow> i < length xs \<and> xs ! i = x"
  by (induction xs arbitrary: i) (auto split: if_splits)

lemma decoded_text: "decode_digits s n = Some m \<Longrightarrow>
  \<exists>ds. list_all (\<lambda>d. d < 58) ds \<and> s = map ((!) ALPHABET) ds \<and> m = foldl (\<lambda>n d. n * 58 + d) n ds"
proof (induction s arbitrary: n)
  case (Cons c s)
  then obtain d where d: "INDEX c = Some d" and rest: "decode_digits s (n * 58 + d) = Some m" by (auto split: option.splits)
  from Cons.IH[OF rest] obtain ds where "list_all (\<lambda>d. d < 58) ds" "s = map ((!) ALPHABET) ds" "m = foldl (\<lambda>n d. n * 58 + d) (n * 58 + d) ds" by blast
  with position_Some[of c ALPHABET d] d show ?case by (intro exI[of _ "d # ds"]) (simp add: INDEX_def length_ALPHABET)
qed simp

lemma ones_are_zeros:
  "list_all (\<lambda>d. d < 58) ds \<Longrightarrow> length (takeWhile (\<lambda>c. c = CHR ''1'') (map ((!) ALPHABET) ds)) = length (takeWhile (\<lambda>d. d = 0) ds)"
  by (induction ds) (auto simp: alphabet_zero alphabet_nonzero)

lemma split_zeros: "replicate (length (takeWhile (\<lambda>d. d = 0) ds)) (0::nat) @ dropWhile (\<lambda>d. d = 0) ds = ds"
  by (induction ds) auto

lemma base58Encode_decode:
  assumes "base58Decode s = Some raw"
  shows "base58Encode raw = s"
proof -
  from assms obtain n where n: "decode_digits s 0 = Some n" by (auto simp: base58Decode_def split: option.splits)
  from decoded_text[OF n] obtain ds where ds: "list_all (\<lambda>d. d < 58) ds" "s = map ((!) ALPHABET) ds" "n = of_base 58 ds"
    by (auto simp: of_base_def)
  let ?k = "length (takeWhile (\<lambda>d. d = 0) ds)" and ?rest = "map of_nat (to_base 256 n) :: byte list"
  have raw: "raw = replicate ?k 0 @ ?rest"
    using assms by (simp add: base58Decode_def n unshift_bytes_digits) (simp add: ds ones_are_zeros)
  have small: "list_all (\<lambda>d. d < 256) (to_base 256 n)" by (rule to_base_digits) simp
  then have again: "map unat ?rest = to_base 256 n"
    by (auto simp: list_all_iff unat_of_nat intro!: map_idI)
  have "takeWhile (\<lambda>b. b = 0) ?rest = []"
  proof (cases "to_base 256 n")
    case (Cons d es)
    then have "d \<noteq> 0" using to_base_hd[of 256] by simp
    moreover have "unat (of_nat d :: byte) = d" using small Cons by (simp add: unat_of_nat)
    ultimately have "(of_nat d :: byte) \<noteq> 0" by auto
    then show ?thesis using Cons by simp
  qed simp
  then have zeros: "length (takeWhile (\<lambda>b. b = 0) raw) = ?k" by (simp add: raw takeWhile_zeros)
  have "map unat raw = replicate ?k 0 @ to_base 256 n" using again by (simp add: raw map_replicate)
  then have "of_base 256 (map unat raw) = n"
    using of_to_base[of 256 n] by (simp add: of_base_def foldl_zeros_any)
  then show ?thesis
    unfolding base58_digits zeros using to_of_base[of 58 ds] ds split_zeros[of ds] by simp
qed

lemma address_decodes:
  assumes "isTronAddress H a"
  shows "\<exists>account. length account = 20 \<and> encodeTronAddress H account = Inr a"
proof -
  from assms obtain raw where raw: "base58Decode a = Some raw" and len: "length raw = 25" and v: "raw ! 0 = TRON_VERSION"
    and sum: "drop 21 raw = take 4 (sha256d H (take 21 raw))" by (auto simp: isTronAddress_def split: option.splits)
  from len v obtain rest where rest: "raw = TRON_VERSION # rest" by (cases raw) auto
  let ?account = "take 20 rest"
  have payload: "take 21 raw = TRON_VERSION # ?account" by (simp add: rest)
  have "raw = (TRON_VERSION # ?account) @ take 4 (sha256d H (TRON_VERSION # ?account))"
    using append_take_drop_id[of 21 raw] unfolding payload sum by simp
  then have "encodeTronAddress H ?account = Inr (base58Encode raw)" using len rest by (simp add: encodeTronAddress_def)
  moreover have "base58Encode raw = a" by (rule base58Encode_decode[OF raw])
  ultimately show ?thesis using len rest by (intro exI[of _ ?account]) simp
qed

section \<open>Properties\<close>

text \<open>C18: a text is accepted as a TRON address exactly when it is the encoding of a 20-byte account, so every
  account has an address, no account has two, and a text with a wrong checksum, length, alphabet or version byte is refused. \<open>H\<close>
  stands for SHA-256, of whose output at least four bytes are used.\<close>

theorem tron_addresses_are_encodings:
  assumes "\<And>x. 4 \<le> length (H x)"
  shows "isTronAddress H a = (\<exists>account. length account = 20 \<and> encodeTronAddress H account = Inr a)"
  using encode_run(1,2)[of H, OF assms] address_decodes[of H a] by auto

definition sample_hash :: "byte list \<Rightarrow> byte list" where
  "sample_hash x = replicate 4 (sum_list x)"

theorem tron_addresses_are_encodings_witness:
  "(case encodeTronAddress sample_hash (replicate 20 0) of Inl e \<Rightarrow> False | Inr a \<Rightarrow> isTronAddress sample_hash a) \<and>
   (\<nexists>account. length account = 20 \<and> encodeTronAddress sample_hash account = Inr ''T9yD'')"
proof -
  have H: "4 \<le> length (sample_hash x)" for x by (simp add: sample_hash_def)
  obtain a where a: "encodeTronAddress sample_hash (replicate 20 0) = Inr a" by (simp add: encodeTronAddress_def)
  then have "isTronAddress sample_hash a" using tron_addresses_are_encodings[of sample_hash a, OF H] by (auto intro!: exI[of _ "replicate 20 0"])
  moreover have "\<not> isTronAddress sample_hash ''T9yD''" by (auto simp: isTronAddress_def matches_def TRON_RE_def dest: list_all2_lengthD)
  ultimately show ?thesis using a tron_addresses_are_encodings[of sample_hash "''T9yD''", OF H] by simp
qed

text \<open>The three forms of an account TRON documents, the base58 address and the 20-byte and 21-byte hexadecimal
  texts with or without 0x, normalize to one address, from which the hexadecimal form is read back.\<close>

theorem tron_forms_agree:
  assumes H: "\<And>x. 4 \<le> length (H x)" and len: "length account = 20"
  shows "\<exists>a. encodeTronAddress H account = Inr a \<and> tronAddressToHex H a = Inr (''41'' @ hex_text account) \<and>
    list_all (\<lambda>form. normalizeTronAddress H (JStr form) = Inr a)
      [a, hex_text account, ''41'' @ hex_text account, ''0x'' @ hex_text account, ''0x41'' @ hex_text account]"
proof -
  let ?a = "base58Encode (TRON_VERSION # account @ take 4 (sha256d H (TRON_VERSION # account)))"
  note run = encode_run[of H, OF H len]
  have four: "hex_value CHR ''4'' \<noteq> None" "hex_value CHR ''1'' \<noteq> None" by (simp_all add: hex_value_def code_of_def)
  have T: "take 1 ?a = ''T''" using run(2) by (auto simp: isTronAddress_def matches_def TRON_RE_def list_all2_Cons1)
  have ne: "hex_text account \<noteq> []" using hex_text_digits(2)[of account] len by auto
  have "normalizeTronAddress H (JStr ?a) = Inr ?a" using T run(2) by (simp add: normalizeTronAddress_def parseTronAddress_def)
  moreover have "normalizeTronAddress H (JStr (hex_text account)) = Inr ?a" "normalizeTronAddress H (JStr (''0x'' @ hex_text account)) = Inr ?a"
    using hex_text_not_T[of account] hex_text_digits[of account] ne len run(1) by (simp_all add: normalizeTronAddress_def bytes_of_hex_text)
  moreover have "normalizeTronAddress H (JStr (''41'' @ hex_text account)) = Inr ?a" "normalizeTronAddress H (JStr (''0x41'' @ hex_text account)) = Inr ?a"
    using hex_text_digits[of account] four len run(1) by (simp_all add: normalizeTronAddress_def bytes_of_hex_text)
  ultimately show ?thesis using run(1,3) by auto
qed

theorem tron_forms_agree_witness:
  "\<exists>a. encodeTronAddress sample_hash (replicate 20 7) = Inr a \<and>
     list_all (\<lambda>form. normalizeTronAddress sample_hash (JStr form) = Inr a)
       [a, hex_text (replicate 20 7), ''41'' @ hex_text (replicate 20 7), ''0x'' @ hex_text (replicate 20 7), ''0x41'' @ hex_text (replicate 20 7)]"
proof -
  have "4 \<le> length (sample_hash x)" for x by (simp add: sample_hash_def)
  from tron_forms_agree[of sample_hash "replicate 20 7", OF this] show ?thesis by auto
qed

end
