(* ===== verification/Treasury.thy ===== *)
theory Treasury
  imports Capacity Reservations Tron
begin

text \<open>
  The exchange's USDT treasury (\<^verbatim>\<open>packages/treasury/src/reservations.ts\<close>, \<^verbatim>\<open>wallets.ts\<close>): the wallets it watches and
  the reservations trades hold on them, with the guards of the database (migrations 0011 and 0014) as checks that throw.
  Foreign keys to the trade are not modelled: a caller passes the trade it has just written.
\<close>

section \<open>Tables\<close>

datatype wallet_role = HOT | COLD | DEPOSIT_POOL | TRADER_RESERVE | NETWORK_BUDGET | REVENUE
datatype wallet_status = TW_ACTIVE | TW_PAUSED | TW_RETIRED
datatype wallet_custody = EXTERNAL | HD_SIGNER

record wallet_row =
  tw_id :: string
  tw_network :: string
  tw_address :: string
  tw_label :: string
  tw_role :: wallet_role
  tw_status :: wallet_status
  tw_custody :: wallet_custody
  tw_observed :: int
  tw_observed_at :: "int option"
  tw_reserved :: int
  tw_created_by :: string

record treasury_row =
  tv_id :: string
  tv_wallet :: string
  tv_trade :: string
  tv_amount :: int
  tv_consumed :: int
  tv_status :: reservation_status
  tv_reason :: "string option"
  tv_created_by :: string
  tv_closed_at :: "int option"

record treasury_db = capacity_db +
  treasury_wallet :: "wallet_row list"
  treasury_reservation :: "treasury_row list"

section \<open>What the database refuses\<close>

definition wallet_guard :: "wallet_row \<Rightarrow> wallet_row \<Rightarrow> bool" where
  "wallet_guard old new \<longleftrightarrow> 0 \<le> tw_reserved new \<and> \<not> (tw_reserved new > tw_observed new \<and> tw_reserved new > tw_reserved old)"

definition treasury_checks :: "treasury_row \<Rightarrow> bool" where
  "treasury_checks r \<longleftrightarrow> 0 < tv_amount r \<and> 0 \<le> tv_consumed r \<and> tv_consumed r \<le> tv_amount r \<and>
     (tv_status r = RS_ACTIVE \<longleftrightarrow> tv_closed_at r = None) \<and> (tv_status r = RS_RELEASED \<longleftrightarrow> tv_reason r \<noteq> None)"

definition treasury_guard :: "treasury_row \<Rightarrow> treasury_row \<Rightarrow> bool" where
  "treasury_guard old new \<longleftrightarrow> (tv_status new = tv_status old \<or> tv_status old = RS_ACTIVE) \<and> treasury_checks new"

text \<open>The unique index \<^verbatim>\<open>treasury_wallet_one_revenue\<close>: one active revenue wallet.\<close>

definition one_revenue :: "wallet_row list \<Rightarrow> bool" where
  "one_revenue ws \<longleftrightarrow> length (filter (\<lambda>w. tw_role w = REVENUE \<and> tw_status w = TW_ACTIVE) ws) \<le> 1"

definition update_wallet :: "string \<Rightarrow> (wallet_row \<Rightarrow> wallet_row) \<Rightarrow> ('x treasury_db_scheme, unit) cmd" where
  "update_wallet i f = (\<lambda>s.
     if list_all (\<lambda>r. tw_id r = i \<longrightarrow> wallet_guard r (f r)) (treasury_wallet s) \<and>
       one_revenue (update_where (\<lambda>r. tw_id r = i) f (treasury_wallet s))
     then Inr ((), s\<lparr>treasury_wallet := update_where (\<lambda>r. tw_id r = i) f (treasury_wallet s)\<rparr>) else Inl DatabaseError)"

definition update_treasury_reservation :: "string \<Rightarrow> (treasury_row \<Rightarrow> treasury_row) \<Rightarrow> ('x treasury_db_scheme, unit) cmd" where
  "update_treasury_reservation i f = (\<lambda>s.
     if list_all (\<lambda>r. tv_id r = i \<longrightarrow> treasury_guard r (f r)) (treasury_reservation s)
     then Inr ((), s\<lparr>treasury_reservation := update_where (\<lambda>r. tv_id r = i) f (treasury_reservation s)\<rparr>) else Inl DatabaseError)"

definition insert_treasury_reservation :: "treasury_row \<Rightarrow> ('x treasury_db_scheme, unit) cmd" where
  "insert_treasury_reservation r = (\<lambda>s.
     if treasury_checks r \<and> list_all (\<lambda>q. tv_trade q \<noteq> tv_trade r) (treasury_reservation s)
     then Inr ((), s\<lparr>treasury_reservation := treasury_reservation s @ [r]\<rparr>) else Inl DatabaseError)"

section \<open>Reserving\<close>

definition usdt :: "int \<Rightarrow> money" where "usdt n = \<lparr>minor = n, currency = USDT\<rparr>"

definition available :: "wallet_row \<Rightarrow> int" where
  "available w = tw_observed w - tw_reserved w"

text \<open>The candidates by available USDT, highest first, then by identifier; the first of them.\<close>

definition candidates :: "'x treasury_db_scheme \<Rightarrow> wallet_row list" where
  "candidates s = sort_key tw_id (filter (\<lambda>w. tw_network w = ''TRON'' \<and> tw_role w = HOT \<and> tw_status w = TW_ACTIVE) (treasury_wallet s))"

definition best_candidate :: "wallet_row list \<Rightarrow> wallet_row option" where
  "best_candidate ws = (case sort_key (\<lambda>w. - available w) (sort_key tw_id ws) of [] \<Rightarrow> None | w # _ \<Rightarrow> Some w)"

record treasury_reserved =
  ts_reservation :: string
  ts_wallet :: string

definition reserveTreasuryUsdt :: "tx_ctx \<Rightarrow> js \<Rightarrow> money \<Rightarrow> ('x treasury_db_scheme, treasury_reserved) cmd" where
  "reserveTreasuryUsdt ctx tradeId amount =
     bindC (liftC (requireUuid tradeId)) (\<lambda>tradeId.
     bindC (unlessC (currency amount = USDT \<and> isPositive amount) (CoreError INVALID_AMOUNT)) (\<lambda>_.
     bindC (assertLockOrder L_treasury_wallet) (\<lambda>_.
     bindC (readC candidates) (\<lambda>ws.
     bindC (foundC (QuotingError TREASURY_INSUFFICIENT) (best_candidate ws)) (\<lambda>best.
     bindC (unlessC (\<not> available best < minor amount) (QuotingError TREASURY_INSUFFICIENT)) (\<lambda>_.
     bindC (update_wallet (tw_id best) (\<lambda>w. w\<lparr>tw_reserved := tw_reserved best + minor amount\<rparr>)) (\<lambda>_.
     bindC freshId (\<lambda>i.
     bindC (insert_treasury_reservation \<lparr>tv_id = i, tv_wallet = tw_id best, tv_trade = tradeId, tv_amount = minor amount,
       tv_consumed = 0, tv_status = RS_ACTIVE, tv_reason = None, tv_created_by = actor_or_system ctx, tv_closed_at = None\<rparr>) (\<lambda>_.
     bindC (appendAudit ctx ''treasury.reserved'' ''treasury_reservation'' (Some i) JUndefined
       (JObj [(''trade_id'', JStr tradeId), (''wallet_id'', JStr (tw_id best)), (''amount'', js_money amount),
              (''available_after'', js_money (usdt (available best - minor amount)))])) (\<lambda>_.
     returnC \<lparr>ts_reservation = i, ts_wallet = tw_id best\<rparr>))))))))))"

section \<open>Consuming and releasing\<close>

definition treasury_reservation_of :: "string \<Rightarrow> 'x treasury_db_scheme \<Rightarrow> treasury_row option" where
  "treasury_reservation_of t s = List.find (\<lambda>r. tv_trade r = t) (treasury_reservation s)"

definition find_wallet :: "string \<Rightarrow> 'x treasury_db_scheme \<Rightarrow> wallet_row option" where
  "find_wallet i s = List.find (\<lambda>w. tw_id w = i) (treasury_wallet s)"

definition find_treasury_reservation :: "string \<Rightarrow> 'x treasury_db_scheme \<Rightarrow> treasury_row option" where
  "find_treasury_reservation i s = List.find (\<lambda>r. tv_id r = i) (treasury_reservation s)"

record treasury_consumed =
  tc_consumed :: bool
  tc_status :: reservation_status

definition consumeTreasuryReservation :: "tx_ctx \<Rightarrow> js \<Rightarrow> money \<Rightarrow> ('x treasury_db_scheme, treasury_consumed) cmd" where
  "consumeTreasuryReservation ctx tradeId amount =
     bindC (unlessC (currency amount = USDT \<and> isPositive amount) (CoreError INVALID_AMOUNT)) (\<lambda>_.
     bindC (liftC (requireUuid tradeId)) (\<lambda>tradeId.
     bindC (readC (treasury_reservation_of tradeId)) (\<lambda>found.
     case found of
       None \<Rightarrow> returnC \<lparr>tc_consumed = False, tc_status = RS_ACTIVE\<rparr>
     | Some r \<Rightarrow>
         bindC (assertLockOrder L_treasury_wallet) (\<lambda>_.
         bindC (readC (find_wallet (tv_wallet r))) (\<lambda>row.
         bindC (foundC NoResultError row) (\<lambda>w.
         bindC (readC (find_treasury_reservation (tv_id r))) (\<lambda>row.
         bindC (foundC NoResultError row) (\<lambda>res.
         if tv_status res \<noteq> RS_ACTIVE
         then returnC \<lparr>tc_consumed = False, tc_status = (if tv_status res = RS_CONSUMED then RS_CONSUMED else RS_ACTIVE)\<rparr>
         else let taken = (if minor amount < tv_amount res - tv_consumed res then minor amount else tv_amount res - tv_consumed res);
                  consumed = tv_consumed res + taken;
                  full = (consumed = tv_amount res)
           in bindC (readC clock) (\<lambda>now.
              bindC (update_wallet (tv_wallet r) (\<lambda>x. x\<lparr>tw_reserved := tw_reserved w - taken\<rparr>)) (\<lambda>_.
              bindC (update_treasury_reservation (tv_id r) (\<lambda>x. if full
                then x\<lparr>tv_consumed := consumed, tv_status := RS_CONSUMED, tv_closed_at := Some now\<rparr> else x\<lparr>tv_consumed := consumed\<rparr>)) (\<lambda>_.
              bindC (appendAudit ctx ''treasury.consumed'' ''treasury_reservation'' (Some (tv_id r)) JUndefined
                (JObj [(''amount'', js_money amount), (''consumed_total'', js_money (usdt consumed)),
                       (''status'', JStr (reservation_status_name (if full then RS_CONSUMED else RS_ACTIVE)))])) (\<lambda>_.
              returnC \<lparr>tc_consumed = True, tc_status = (if full then RS_CONSUMED else RS_ACTIVE)\<rparr>))))))))))))"

definition TREASURY_RELEASE_REASONS :: "string list" where
  "TREASURY_RELEASE_REASONS = [''TRADE_CANCELLED'', ''TRADE_COMPLETED'', ''OPERATOR'']"

definition releaseTreasuryReservation :: "tx_ctx \<Rightarrow> js \<Rightarrow> string \<Rightarrow> ('x treasury_db_scheme, bool) cmd" where
  "releaseTreasuryReservation ctx tradeId reason =
     bindC (liftC (requireOneOf (JStr reason) TREASURY_RELEASE_REASONS)) (\<lambda>reason.
     bindC (liftC (requireUuid tradeId)) (\<lambda>tradeId.
     bindC (readC (treasury_reservation_of tradeId)) (\<lambda>found.
     case found of
       None \<Rightarrow> returnC False
     | Some r \<Rightarrow>
         bindC (assertLockOrder L_treasury_wallet) (\<lambda>_.
         bindC (readC (find_wallet (tv_wallet r))) (\<lambda>row.
         bindC (foundC NoResultError row) (\<lambda>w.
         bindC (readC (find_treasury_reservation (tv_id r))) (\<lambda>row.
         bindC (foundC NoResultError row) (\<lambda>res.
         if tv_status res \<noteq> RS_ACTIVE then returnC False
         else let remainder = tv_amount res - tv_consumed res
           in bindC (readC clock) (\<lambda>now.
              bindC (update_wallet (tv_wallet r) (\<lambda>x. x\<lparr>tw_reserved := tw_reserved w - remainder\<rparr>)) (\<lambda>_.
              bindC (update_treasury_reservation (tv_id r) (\<lambda>x. x\<lparr>tv_status := RS_RELEASED, tv_reason := Some reason, tv_closed_at := Some now\<rparr>)) (\<lambda>_.
              bindC (appendAudit ctx ''treasury.released'' ''treasury_reservation'' (Some (tv_id r)) JUndefined
                (JObj [(''released'', js_money (usdt remainder)), (''reason'', JStr reason)])) (\<lambda>_.
              returnC True))))))))))))"

section \<open>Watching wallets\<close>

definition wallet_status_name :: "wallet_status \<Rightarrow> string" where
  "wallet_status_name x = (case x of TW_ACTIVE \<Rightarrow> ''ACTIVE'' | TW_PAUSED \<Rightarrow> ''PAUSED'' | TW_RETIRED \<Rightarrow> ''RETIRED'')"

definition wallet_status_of :: "string \<Rightarrow> wallet_status" where
  "wallet_status_of t = (if t = ''ACTIVE'' then TW_ACTIVE else if t = ''PAUSED'' then TW_PAUSED else TW_RETIRED)"

definition wallet_role_name :: "wallet_role \<Rightarrow> string" where
  "wallet_role_name x = (case x of HOT \<Rightarrow> ''HOT'' | COLD \<Rightarrow> ''COLD'' | DEPOSIT_POOL \<Rightarrow> ''DEPOSIT_POOL'' | TRADER_RESERVE \<Rightarrow> ''TRADER_RESERVE''
     | NETWORK_BUDGET \<Rightarrow> ''NETWORK_BUDGET'' | REVENUE \<Rightarrow> ''REVENUE'')"

definition wallet_role_of :: "string \<Rightarrow> wallet_role" where
  "wallet_role_of t = (if t = ''HOT'' then HOT else if t = ''COLD'' then COLD else if t = ''DEPOSIT_POOL'' then DEPOSIT_POOL else REVENUE)"

text \<open>An insert the unique constraints (address, label, one active revenue wallet) refuse throws \<open>DatabaseError\<close>, which the command
  turns into INVALID_ARGUMENT.\<close>

definition insert_wallet :: "wallet_row \<Rightarrow> ('x treasury_db_scheme, unit) cmd" where
  "insert_wallet w = (\<lambda>s.
     if list_all (\<lambda>x. (tw_network x, tw_address x) \<noteq> (tw_network w, tw_address w) \<and> tw_label x \<noteq> tw_label w) (treasury_wallet s) \<and>
       one_revenue (treasury_wallet s @ [w])
     then Inr ((), s\<lparr>treasury_wallet := treasury_wallet s @ [w]\<rparr>) else Inl (CoreError INVALID_ARGUMENT))"

definition registerTreasuryWallet :: "(byte list \<Rightarrow> byte list) \<Rightarrow> operator_actor \<Rightarrow> tx_ctx \<Rightarrow> js \<Rightarrow> ('x treasury_db_scheme, js) cmd" where
  "registerTreasuryWallet H a = operatorHandle a ''treasury:manage_wallets'' (\<lambda>ctx p d.
     bindC (liftC (parseTronAddress H (case js_field ''address'' p of JStr t \<Rightarrow> trim t | _ \<Rightarrow> []))) (\<lambda>address.
     bindC (liftC (requireOneOf (js_field ''network'' p) [''TRON''])) (\<lambda>network.
     bindC (liftC (requireText (js_field ''label'' p) 80)) (\<lambda>label.
     bindC (liftC (requireOneOf (js_field ''role'' p) [''HOT'', ''COLD'', ''DEPOSIT_POOL'', ''REVENUE''])) (\<lambda>role.
     bindC freshId (\<lambda>i.
     bindC (insert_wallet \<lparr>tw_id = i, tw_network = network, tw_address = address, tw_label = label, tw_role = wallet_role_of role,
       tw_status = TW_ACTIVE, tw_custody = EXTERNAL, tw_observed = 0, tw_observed_at = None, tw_reserved = 0, tw_created_by = actorLabel ctx\<rparr>) (\<lambda>_.
     bindC (appendAudit ctx ''treasury_wallet.registered'' ''treasury_wallet'' (Some i) JUndefined
       (JObj [(''id'', JStr i), (''network'', JStr network), (''address'', JStr address), (''label'', JStr label), (''role'', JStr role),
              (''status'', JStr ''ACTIVE''), (''custody'', JStr ''EXTERNAL'')])) (\<lambda>_.
     returnC (JObj [(''walletId'', JStr i)])))))))))"

definition setTreasuryWalletStatus :: "operator_actor \<Rightarrow> tx_ctx \<Rightarrow> js \<Rightarrow> ('x treasury_db_scheme, js) cmd" where
  "setTreasuryWalletStatus a = operatorHandle a ''treasury:manage_wallets'' (\<lambda>ctx p d.
     bindC (liftC (requireOneOf (js_field ''status'' p) [''ACTIVE'', ''PAUSED'', ''RETIRED''])) (\<lambda>name.
     let status = wallet_status_of name
     in bindC (liftC (requireText (js_field ''reason'' p) 500)) (\<lambda>reason.
     bindC (liftC (requireUuid (js_field ''walletId'' p))) (\<lambda>i.
     bindC (readC (find_wallet i)) (\<lambda>row.
     bindC (foundC (CoreError NOT_FOUND) row) (\<lambda>before.
     if tw_status before = status then returnC (JObj [(''changed'', JBool False)])
     else bindC (unlessC (tw_status before \<noteq> TW_RETIRED) (ReferenceError INVALID_TRANSITION)) (\<lambda>_.
       bindC (update_wallet (tw_id before) (\<lambda>w. w\<lparr>tw_status := status\<rparr>)) (\<lambda>_.
       bindC (appendAudit ctx ''treasury_wallet.status_changed'' ''treasury_wallet'' (Some (tw_id before))
         (JObj [(''status'', JStr (wallet_status_name (tw_status before)))])
         (JObj [(''status'', JStr name), (''reason'', JStr reason)])) (\<lambda>_.
       returnC (JObj [(''changed'', JBool True)]))))))))))"

section \<open>Invariant\<close>

definition unspent :: "treasury_row \<Rightarrow> int" where
  "unspent r = (if tv_status r = RS_ACTIVE then tv_amount r - tv_consumed r else 0)"

interpretation wallets: reservation_book tw_id tw_reserved tv_id tv_wallet unspent treasury_checks
  by unfold_locales (simp add: unspent_def treasury_checks_def)

definition treasury_ok :: "'x treasury_db_scheme \<Rightarrow> bool" where
  "treasury_ok s \<longleftrightarrow> wallets.agree (treasury_wallet s) (treasury_reservation s) \<and> one_revenue (treasury_wallet s) \<and> fresh_ids s \<and>
     (\<forall>w \<in> set (treasury_wallet s). given_id s (tw_id w)) \<and> (\<forall>r \<in> set (treasury_reservation s). given_id s (tv_id r)) \<and> distinct (map tv_trade (treasury_reservation s))"

lemma treasury_okD:
  assumes "treasury_ok s"
  shows "wallets.agree (treasury_wallet s) (treasury_reservation s)" "fresh_ids s"
    "r \<in> set (treasury_reservation s) \<Longrightarrow> given_id s (tv_id r)" "distinct (map tv_trade (treasury_reservation s))"
    "r \<in> set (treasury_reservation s) \<Longrightarrow> treasury_checks r"
    "distinct (map tw_id (treasury_wallet s))" "distinct (map tv_id (treasury_reservation s))"
    "one_revenue (treasury_wallet s)" "w \<in> set (treasury_wallet s) \<Longrightarrow> given_id s (tw_id w)"
  using assms by (auto simp: treasury_ok_def wallets.agree_def)

lemma treasury_ok_cong:
  assumes "treasury_ok s" "treasury_wallet t = treasury_wallet s" "treasury_reservation t = treasury_reservation s"
    "uuidv7 t = uuidv7 s" "uuids s \<le> uuids t"
  shows "treasury_ok t"
  using assms given_id_mono[OF _ assms(4,5)] by (auto simp: treasury_ok_def fresh_ids_def)

lemma list_all_unique: "distinct (map k xs) \<Longrightarrow> x \<in> set xs \<Longrightarrow> list_all (\<lambda>r. k r = k x \<longrightarrow> P r) xs \<longleftrightarrow> P x"
  by (auto simp: list_all_iff distinct_map dest: inj_onD)

lemma find_wallet_Some: "find_wallet i s = Some w \<Longrightarrow> w \<in> set (treasury_wallet s) \<and> tw_id w = i"
  using find_Some_mem by (fastforce simp: find_wallet_def)

lemma reservation_of_Some: "treasury_reservation_of i s = Some r \<Longrightarrow> r \<in> set (treasury_reservation s) \<and> tv_trade r = i"
  using find_Some_mem by (fastforce simp: treasury_reservation_of_def)

lemma one_revenue_update:
  "(\<And>w. tw_role (f w) = tw_role w) \<Longrightarrow> (\<And>w. tw_status (f w) = tw_status w) \<Longrightarrow> one_revenue (update_where p f ws) = one_revenue ws"
proof -
  assume f: "\<And>w. tw_role (f w) = tw_role w" "\<And>w. tw_status (f w) = tw_status w"
  have "length (filter (\<lambda>w. tw_role w = REVENUE \<and> tw_status w = TW_ACTIVE) (update_where p f ws)) =
    length (filter (\<lambda>w. tw_role w = REVENUE \<and> tw_status w = TW_ACTIVE) ws)" by (induction ws) (simp_all add: f)
  then show ?thesis by (simp add: one_revenue_def)
qed

lemma update_wallet_run:
  assumes "treasury_ok s" "w \<in> set (treasury_wallet s)" "\<And>w. tw_role (f w) = tw_role w" "\<And>w. tw_status (f w) = tw_status w"
  shows "update_wallet (tw_id w) f s = (if wallet_guard w (f w)
    then Inr ((), s\<lparr>treasury_wallet := update_where (\<lambda>r. tw_id r = tw_id w) f (treasury_wallet s)\<rparr>) else Inl DatabaseError)"
  using list_all_unique[OF treasury_okD(6)[OF assms(1)] assms(2), of "\<lambda>r. wallet_guard r (f r)"]
    one_revenue_update[OF assms(3,4)] treasury_okD(8)[OF assms(1)] by (simp add: update_wallet_def)

lemma update_treasury_reservation_run:
  assumes "distinct (map tv_id (treasury_reservation s))" "r \<in> set (treasury_reservation s)"
  shows "update_treasury_reservation (tv_id r) f s = (if treasury_guard r (f r)
    then Inr ((), s\<lparr>treasury_reservation := update_where (\<lambda>q. tv_id q = tv_id r) f (treasury_reservation s)\<rparr>) else Inl DatabaseError)"
  using list_all_unique[OF assms, of "\<lambda>q. treasury_guard q (f q)"] by (simp add: update_treasury_reservation_def)

text \<open>A reservation and its wallet change together.\<close>

lemma wallet_move:
  fixes s :: "'x treasury_db_scheme"
  assumes ok: "treasury_ok s" and w: "w \<in> set (treasury_wallet s)" and r: "r \<in> set (treasury_reservation s)" "tv_wallet r = tw_id w"
    and st: "tv_status r = RS_ACTIVE" and n: "0 \<le> n" "n \<le> tv_amount r - tv_consumed r"
    and f: "f = (\<lambda>x. x\<lparr>tw_reserved := tw_reserved w - n\<rparr>)"
    and g: "\<And>x. tv_id (g x) = tv_id x" "\<And>x. tv_wallet (g x) = tv_wallet x" "\<And>x. tv_trade (g x) = tv_trade x"
      "treasury_checks (g r)" "unspent (g r) = unspent r - n"
  defines "t1 \<equiv> s\<lparr>treasury_wallet := update_where (\<lambda>x. tw_id x = tw_id w) f (treasury_wallet s)\<rparr>"
  defines "t2 \<equiv> t1\<lparr>treasury_reservation := update_where (\<lambda>q. tv_id q = tv_id r) g (treasury_reservation s)\<rparr>"
  shows "update_wallet (tw_id w) f s = Inr ((), t1)" "update_treasury_reservation (tv_id r) g t1 = Inr ((), t2)" "treasury_ok t2"
proof -
  note agree = treasury_okD(1)[OF ok]
  have "unspent r = tv_amount r - tv_consumed r" using st by (simp add: unspent_def)
  with wallets.agree_open_le[OF agree w r] n(2) have "n \<le> tw_reserved w" by simp
  then have "wallet_guard w (f w)" using n by (simp add: wallet_guard_def f)
  then show "update_wallet (tw_id w) f s = Inr ((), t1)" by (simp add: update_wallet_run[OF ok w] t1_def f)
  have "treasury_guard r (g r)" using st g by (simp add: treasury_guard_def)
  moreover have "distinct (map tv_id (treasury_reservation t1))" "r \<in> set (treasury_reservation t1)"
    using treasury_okD(7)[OF ok] r by (simp_all add: t1_def)
  ultimately show "update_treasury_reservation (tv_id r) g t1 = Inr ((), t2)"
    by (simp add: update_treasury_reservation_run t2_def) (simp add: t1_def)
  have "wallets.agree (update_where (\<lambda>x. tw_id x = tw_id w) f (treasury_wallet s)) (update_where (\<lambda>q. tv_id q = tv_id r) g (treasury_reservation s))"
    by (rule wallets.agree_move[OF agree w r]) (use g in \<open>simp_all add: f\<close>)
  moreover have "map tv_trade (update_where (\<lambda>q. tv_id q = tv_id r) g (treasury_reservation s)) = map tv_trade (treasury_reservation s)"
    using g by simp
  moreover have "given_id t2 (tv_id x)" if "x \<in> set (treasury_reservation t2)" for x
  proof -
    from that g(1) obtain y where "y \<in> set (treasury_reservation s)" "tv_id x = tv_id y" by (auto simp: t2_def set_update_where)
    with treasury_okD(3)[OF ok] show ?thesis by (auto simp: t2_def t1_def given_id_def)
  qed
  moreover have "one_revenue (treasury_wallet t2)"
    using treasury_okD(8)[OF ok] one_revenue_update[of f] by (simp add: t2_def t1_def f)
  moreover have "given_id t2 (tw_id x)" if "x \<in> set (treasury_wallet t2)" for x
  proof -
    from that obtain y where "y \<in> set (treasury_wallet s)" "tw_id x = tw_id y" by (auto simp: t2_def t1_def f set_update_where)
    with treasury_okD(9)[OF ok] show ?thesis by (auto simp: t2_def t1_def given_id_def)
  qed
  ultimately show "treasury_ok t2" using ok by (simp add: treasury_ok_def t1_def t2_def fresh_ids_def)
qed

section \<open>Reserving keeps the totals and picks the best wallet\<close>

lemma best_candidate_Some:
  assumes "best_candidate ws = Some w"
  shows "w \<in> set ws" "x \<in> set ws \<Longrightarrow> available x \<le> available w"
proof -
  let ?sorted = "sort_key (\<lambda>w. - available w) (sort_key tw_id ws)"
  from assms obtain rest where eq: "?sorted = w # rest" by (auto simp: best_candidate_def split: list.splits)
  then have "w \<in> set ?sorted" by simp
  then show "w \<in> set ws" by simp
  have "sorted (map (\<lambda>w. - available w) ?sorted)" by simp
  moreover assume "x \<in> set ws"
  then have "x \<in> set ?sorted" by simp
  ultimately show "available x \<le> available w" by (auto simp: eq)
qed

lemma best_candidate_None: "best_candidate ws = None \<longleftrightarrow> ws = []"
  by (auto simp: best_candidate_def split: list.splits dest: arg_cong[of _ _ length])

definition eligible :: "wallet_row \<Rightarrow> bool" where
  "eligible w \<longleftrightarrow> tw_network w = ''TRON'' \<and> tw_role w = HOT \<and> tw_status w = TW_ACTIVE"

lemma candidates_set: "set (candidates s) = {w \<in> set (treasury_wallet s). eligible w}"
  by (auto simp: candidates_def eligible_def)

definition new_treasury_row :: "tx_ctx \<Rightarrow> string \<Rightarrow> string \<Rightarrow> string \<Rightarrow> int \<Rightarrow> treasury_row" where
  "new_treasury_row ctx i w t n = \<lparr>tv_id = i, tv_wallet = w, tv_trade = t, tv_amount = n, tv_consumed = 0, tv_status = RS_ACTIVE,
     tv_reason = None, tv_created_by = actor_or_system ctx, tv_closed_at = None\<rparr>"

lemma new_treasury_row_simps [simp]:
  "tv_id (new_treasury_row ctx i w t n) = i" "tv_wallet (new_treasury_row ctx i w t n) = w"
  "tv_trade (new_treasury_row ctx i w t n) = t" "unspent (new_treasury_row ctx i w t n) = n"
  "treasury_checks (new_treasury_row ctx i w t n) \<longleftrightarrow> 0 < n"
  by (auto simp: new_treasury_row_def unspent_def treasury_checks_def)

lemma reserve_usdt_run:
  fixes s :: "'x treasury_db_scheme"
  assumes ok: "treasury_ok s" and v: "requireUuid v = Inr i" and amount: "currency amount = USDT" "isPositive amount"
    and rank: "tx_rank s \<le> lock_rank L_treasury_wallet" and best: "best_candidate (candidates s) = Some w" "minor amount \<le> available w"
    and unused: "i \<notin> tv_trade ` set (treasury_reservation s)"
  shows "\<exists>t. reserveTreasuryUsdt ctx v amount s = Inr (\<lparr>ts_reservation = uuidv7 s (uuids s), ts_wallet = tw_id w\<rparr>, t) \<and> treasury_ok t \<and>
    treasury_wallet t = update_where (\<lambda>x. tw_id x = tw_id w) (\<lambda>x. x\<lparr>tw_reserved := tw_reserved w + minor amount\<rparr>) (treasury_wallet s) \<and>
    treasury_reservation t = treasury_reservation s @ [new_treasury_row ctx (uuidv7 s (uuids s)) (tw_id w) i (minor amount)]"
proof -
  let ?f = "\<lambda>x. x\<lparr>tw_reserved := tw_reserved w + minor amount\<rparr>" and ?i = "uuidv7 s (uuids s)"
  let ?s = "s\<lparr>tx_rank := lock_rank L_treasury_wallet\<rparr>"
  let ?r = "new_treasury_row ctx ?i (tw_id w) i (minor amount)"
  have pos: "0 < minor amount" using amount(2) by (simp add: isPositive_def)
  have w: "w \<in> set (treasury_wallet s)" using best_candidate_Some(1)[OF best(1)] by (simp add: candidates_set)
  have ok': "treasury_ok ?s" by (rule treasury_ok_cong[OF ok]) simp_all
  have "0 \<le> tw_reserved w" by (rule wallets.agree_promised_nonneg[OF treasury_okD(1)[OF ok] w])
  then have "wallet_guard w (?f w)" using pos best(2) by (simp add: wallet_guard_def available_def)
  with update_wallet_run[OF ok', of w ?f] w
  have up: "update_wallet (tw_id w) ?f ?s = Inr ((), ?s\<lparr>treasury_wallet := update_where (\<lambda>r. tw_id r = tw_id w) ?f (treasury_wallet s)\<rparr>)" by simp
  have new: "?i \<notin> tv_id ` set (treasury_reservation s)"
    using next_id_new[OF treasury_okD(2)[OF ok], of 0] treasury_okD(3)[OF ok] by auto
  have agree: "wallets.agree (update_where (\<lambda>x. tw_id x = tw_id w) ?f (treasury_wallet s)) (treasury_reservation s @ [?r])"
    by (rule wallets.agree_add[OF treasury_okD(1)[OF ok] w]) (use new pos in simp_all)
  have free: "list_all (\<lambda>q. tv_trade q \<noteq> i) (treasury_reservation s)" using unused by (auto simp: list_all_iff)
  define t where "t = ?s\<lparr>treasury_wallet := update_where (\<lambda>r. tw_id r = tw_id w) ?f (treasury_wallet s), uuids := Suc (uuids s),
    treasury_reservation := treasury_reservation s @ [?r]\<rparr>"
  have "given_id t (tv_id x)" if "x \<in> set (treasury_reservation t)" for x
    using that treasury_okD(3)[OF ok, of x] by (auto simp: t_def given_id_def intro: less_SucI)
  moreover have "given_id t (tw_id x)" if "x \<in> set (treasury_wallet t)" for x
  proof -
    from that obtain y where "y \<in> set (treasury_wallet s)" "tw_id x = tw_id y" by (auto simp: t_def set_update_where)
    with treasury_okD(9)[OF ok] show ?thesis by (auto simp: t_def given_id_def intro: less_SucI)
  qed
  moreover have "one_revenue (treasury_wallet t)" using treasury_okD(8)[OF ok] one_revenue_update[of ?f] by (simp add: t_def)
  ultimately have okt: "treasury_ok t" using ok agree unused by (auto simp: treasury_ok_def t_def fresh_ids_def)
  have best': "best_candidate (candidates ?s) = Some w" using best(1) by (simp add: candidates_def)
  have row: "\<lparr>tv_id = ?i, tv_wallet = tw_id w, tv_trade = i, tv_amount = minor amount, tv_consumed = 0, tv_status = RS_ACTIVE,
     tv_reason = None, tv_created_by = actor_or_system ctx, tv_closed_at = None\<rparr> = ?r" by (simp add: new_treasury_row_def)
  have "\<exists>rows. reserveTreasuryUsdt ctx v amount s = Inr (\<lparr>ts_reservation = ?i, ts_wallet = tw_id w\<rparr>, t\<lparr>audit_event := rows\<rparr>)"
    unfolding reserveTreasuryUsdt_def
    using v amount best' best(2) up rank free pos
    by (simp add: bindC_run assertLockOrder_def insert_treasury_reservation_def row t_def) (rule exI, rule refl)
  then obtain rows where "reserveTreasuryUsdt ctx v amount s = Inr (\<lparr>ts_reservation = ?i, ts_wallet = tw_id w\<rparr>, t\<lparr>audit_event := rows\<rparr>)" ..
  moreover have "treasury_ok (t\<lparr>audit_event := rows\<rparr>)" by (rule treasury_ok_cong[OF okt]) simp_all
  ultimately show ?thesis by (auto simp: t_def)
qed

section \<open>Consuming and releasing never fail on the database\<close>

lemma held_wallet: "treasury_ok s \<Longrightarrow> r \<in> set (treasury_reservation s) \<Longrightarrow> \<exists>w. find_wallet (tv_wallet r) s = Some w"
proof -
  assume ok: "treasury_ok s" and r: "r \<in> set (treasury_reservation s)"
  then have "tv_wallet r \<in> tw_id ` set (treasury_wallet s)" by (auto simp: treasury_ok_def wallets.agree_def)
  then have "find_wallet (tv_wallet r) s \<noteq> None" by (auto simp: find_wallet_def find_None_not_mem)
  then show ?thesis by simp
qed

lemma find_own: "treasury_ok s \<Longrightarrow> r \<in> set (treasury_reservation s) \<Longrightarrow> find_treasury_reservation (tv_id r) s = Some r"
  by (simp add: find_treasury_reservation_def find_unique treasury_okD(7))

text \<open>What a call takes from the reservation \<open>r\<close>: \<open>n\<close> leaves the wallet's total and \<open>g\<close> records it.\<close>

definition taken :: "treasury_row \<Rightarrow> int \<Rightarrow> (treasury_row \<Rightarrow> treasury_row) \<Rightarrow> 'x treasury_db_scheme \<Rightarrow> 'x treasury_db_scheme \<Rightarrow> bool" where
  "taken r n g s t \<longleftrightarrow> treasury_ok t \<and> (\<exists>w. find_wallet (tv_wallet r) s = Some w \<and>
     treasury_wallet t = update_where (\<lambda>x. tw_id x = tw_id w) (\<lambda>x. x\<lparr>tw_reserved := tw_reserved w - n\<rparr>) (treasury_wallet s) \<and>
     treasury_reservation t = update_where (\<lambda>q. tv_id q = tv_id r) g (treasury_reservation s))"

definition consume_row :: "treasury_row \<Rightarrow> int \<Rightarrow> int \<Rightarrow> treasury_row \<Rightarrow> treasury_row" where
  "consume_row r n now = (\<lambda>x. if tv_consumed r + n = tv_amount r
     then x\<lparr>tv_consumed := tv_consumed r + n, tv_status := RS_CONSUMED, tv_closed_at := Some now\<rparr> else x\<lparr>tv_consumed := tv_consumed r + n\<rparr>)"

definition release_row :: "string \<Rightarrow> int \<Rightarrow> treasury_row \<Rightarrow> treasury_row" where
  "release_row reason now = (\<lambda>x. x\<lparr>tv_status := RS_RELEASED, tv_reason := Some reason, tv_closed_at := Some now\<rparr>)"

lemma consume_wallet_run:
  fixes s :: "'x treasury_db_scheme"
  assumes ok: "treasury_ok s" and v: "requireUuid v = Inr i" and amount: "currency amount = USDT" "isPositive amount"
    and rank: "tx_rank s \<le> lock_rank L_treasury_wallet" and r: "treasury_reservation_of i s = Some r" and st: "tv_status r = RS_ACTIVE"
  defines "n \<equiv> min (minor amount) (tv_amount r - tv_consumed r)"
  shows "\<exists>t. consumeTreasuryReservation ctx v amount s =
      Inr (\<lparr>tc_consumed = True, tc_status = (if tv_consumed r + n = tv_amount r then RS_CONSUMED else RS_ACTIVE)\<rparr>, t) \<and>
    taken r n (consume_row r n (clock s)) s t"
proof -
  let ?s = "s\<lparr>tx_rank := lock_rank L_treasury_wallet\<rparr>" and ?g = "consume_row r n (clock s)"
  have mem: "r \<in> set (treasury_reservation s)" using reservation_of_Some[OF r] by simp
  obtain w where w: "find_wallet (tv_wallet r) s = Some w" using held_wallet[OF ok mem] by blast
  let ?f = "\<lambda>x. x\<lparr>tw_reserved := tw_reserved w - n\<rparr>"
  have wm: "w \<in> set (treasury_wallet s)" "tw_id w = tv_wallet r" using find_wallet_Some[OF w] by auto
  have checks: "treasury_checks r" by (rule treasury_okD(5)[OF ok mem])
  then have n: "0 \<le> n" "n \<le> tv_amount r - tv_consumed r" using amount(2) by (auto simp: n_def isPositive_def treasury_checks_def)
  have ok': "treasury_ok ?s" by (rule treasury_ok_cong[OF ok]) simp_all
  have g: "treasury_checks (?g r)" "unspent (?g r) = unspent r - n" using checks n st by (auto simp: consume_row_def treasury_checks_def unspent_def)
  have move: "update_wallet (tw_id w) ?f ?s = Inr ((), ?s\<lparr>treasury_wallet := update_where (\<lambda>x. tw_id x = tw_id w) ?f (treasury_wallet ?s)\<rparr>)"
    "update_treasury_reservation (tv_id r) ?g (?s\<lparr>treasury_wallet := update_where (\<lambda>x. tw_id x = tw_id w) ?f (treasury_wallet ?s)\<rparr>) =
      Inr ((), ?s\<lparr>treasury_wallet := update_where (\<lambda>x. tw_id x = tw_id w) ?f (treasury_wallet ?s),
        treasury_reservation := update_where (\<lambda>q. tv_id q = tv_id r) ?g (treasury_reservation ?s)\<rparr>)"
    "treasury_ok (?s\<lparr>treasury_wallet := update_where (\<lambda>x. tw_id x = tw_id w) ?f (treasury_wallet ?s),
        treasury_reservation := update_where (\<lambda>q. tv_id q = tv_id r) ?g (treasury_reservation ?s)\<rparr>)"
    using wallet_move[OF ok', of w r n ?f ?g] wm mem st n g by (simp_all add: consume_row_def)
  have min: "(if minor amount < tv_amount r - tv_consumed r then minor amount else tv_amount r - tv_consumed r) = n" by (simp add: n_def)
  have fg: "(\<lambda>x. if tv_consumed r + n = tv_amount r then x\<lparr>tv_consumed := tv_consumed r + n, tv_status := RS_CONSUMED, tv_closed_at := Some (clock s)\<rparr>
      else x\<lparr>tv_consumed := tv_consumed r + n\<rparr>) = ?g" by (simp add: consume_row_def)
  have finds: "find_wallet (tv_wallet r) ?s = Some w" "find_treasury_reservation (tv_id r) ?s = Some r" "treasury_reservation_of i s = Some r"
    using w find_own[OF ok' ] mem r by (simp_all add: find_wallet_def)
  obtain rows where "consumeTreasuryReservation ctx v amount s =
      Inr (\<lparr>tc_consumed = True, tc_status = (if tv_consumed r + n = tv_amount r then RS_CONSUMED else RS_ACTIVE)\<rparr>,
        ?s\<lparr>treasury_wallet := update_where (\<lambda>x. tw_id x = tw_id w) ?f (treasury_wallet ?s),
        treasury_reservation := update_where (\<lambda>q. tv_id q = tv_id r) ?g (treasury_reservation ?s), audit_event := rows\<rparr>)"
    unfolding consumeTreasuryReservation_def
    using v amount rank finds st move(1,2)[unfolded wm(2)]
    by (simp add: bindC_run assertLockOrder_def min fg Let_def wm(2))
  moreover have "treasury_ok (?s\<lparr>treasury_wallet := update_where (\<lambda>x. tw_id x = tw_id w) ?f (treasury_wallet ?s),
        treasury_reservation := update_where (\<lambda>q. tv_id q = tv_id r) ?g (treasury_reservation ?s), audit_event := rows\<rparr>)"
    by (rule treasury_ok_cong[OF move(3)]) simp_all
  ultimately show ?thesis using w by (auto simp: taken_def)
qed

lemma release_wallet_run:
  fixes s :: "'x treasury_db_scheme"
  assumes ok: "treasury_ok s" and v: "requireUuid v = Inr i" and reason: "reason \<in> set TREASURY_RELEASE_REASONS"
    and rank: "tx_rank s \<le> lock_rank L_treasury_wallet" and r: "treasury_reservation_of i s = Some r" and st: "tv_status r = RS_ACTIVE"
  shows "\<exists>t. releaseTreasuryReservation ctx v reason s = Inr (True, t) \<and>
    taken r (tv_amount r - tv_consumed r) (release_row reason (clock s)) s t"
proof -
  let ?s = "s\<lparr>tx_rank := lock_rank L_treasury_wallet\<rparr>" and ?g = "release_row reason (clock s)" and ?n = "tv_amount r - tv_consumed r"
  have mem: "r \<in> set (treasury_reservation s)" using reservation_of_Some[OF r] by simp
  obtain w where w: "find_wallet (tv_wallet r) s = Some w" using held_wallet[OF ok mem] by blast
  let ?f = "\<lambda>x. x\<lparr>tw_reserved := tw_reserved w - ?n\<rparr>"
  let ?t = "?s\<lparr>treasury_wallet := update_where (\<lambda>x. tw_id x = tw_id w) ?f (treasury_wallet ?s),
        treasury_reservation := update_where (\<lambda>q. tv_id q = tv_id r) ?g (treasury_reservation ?s)\<rparr>"
  have wm: "w \<in> set (treasury_wallet s)" "tw_id w = tv_wallet r" using find_wallet_Some[OF w] by auto
  have checks: "treasury_checks r" by (rule treasury_okD(5)[OF ok mem])
  have ok': "treasury_ok ?s" by (rule treasury_ok_cong[OF ok]) simp_all
  have g: "treasury_checks (?g r)" "unspent (?g r) = unspent r - ?n" "0 \<le> ?n"
    using checks st by (auto simp: release_row_def treasury_checks_def unspent_def)
  have move: "update_wallet (tw_id w) ?f ?s = Inr ((), ?s\<lparr>treasury_wallet := update_where (\<lambda>x. tw_id x = tw_id w) ?f (treasury_wallet ?s)\<rparr>)"
    "update_treasury_reservation (tv_id r) ?g (?s\<lparr>treasury_wallet := update_where (\<lambda>x. tw_id x = tw_id w) ?f (treasury_wallet ?s)\<rparr>) = Inr ((), ?t)"
    "treasury_ok ?t"
    using wallet_move[OF ok', of w r ?n ?f ?g] wm mem st g by (simp_all add: release_row_def)
  have fg: "(\<lambda>x. x\<lparr>tv_status := RS_RELEASED, tv_reason := Some reason, tv_closed_at := Some (clock s)\<rparr>) = ?g" by (simp add: release_row_def)
  have finds: "find_wallet (tv_wallet r) ?s = Some w" "find_treasury_reservation (tv_id r) ?s = Some r" "treasury_reservation_of i s = Some r"
    using w find_own[OF ok'] mem r by (simp_all add: find_wallet_def)
  obtain rows where "releaseTreasuryReservation ctx v reason s = Inr (True, ?t\<lparr>audit_event := rows\<rparr>)"
    unfolding releaseTreasuryReservation_def
    using v reason rank finds st move(1,2)[unfolded wm(2)]
    by (simp add: bindC_run assertLockOrder_def requireOneOf_def fg Let_def wm(2))
  moreover have "treasury_ok (?t\<lparr>audit_event := rows\<rparr>)" by (rule treasury_ok_cong[OF move(3)]) simp_all
  ultimately show ?thesis using w by (auto simp: taken_def)
qed

lemma consume_result:
  assumes ok: "treasury_ok s"
  shows "case consumeTreasuryReservation ctx v amount s of Inl e \<Rightarrow> e \<noteq> DatabaseError
    | Inr (x, t) \<Rightarrow> treasury_ok t \<and> (tc_consumed x \<longrightarrow> (\<exists>i r. requireUuid v = Inr i \<and> treasury_reservation_of i s = Some r \<and> tv_status r = RS_ACTIVE \<and>
        taken r (min (minor amount) (tv_amount r - tv_consumed r)) (consume_row r (min (minor amount) (tv_amount r - tv_consumed r)) (clock s)) s t)) \<and>
      (\<not> tc_consumed x \<longrightarrow> treasury_wallet t = treasury_wallet s \<and> treasury_reservation t = treasury_reservation s)"
proof (cases "currency amount = USDT \<and> isPositive amount \<and> (\<exists>i. requireUuid v = Inr i \<and> treasury_reservation_of i s \<noteq> None) \<and>
    tx_rank s \<le> lock_rank L_treasury_wallet")
  case True
  then obtain i r where i: "requireUuid v = Inr i" and r: "treasury_reservation_of i s = Some r" by auto
  show ?thesis
  proof (cases "tv_status r = RS_ACTIVE")
    case act: True
    obtain x t where run: "consumeTreasuryReservation ctx v amount s = Inr (x, t)" "tc_consumed x"
      "taken r (min (minor amount) (tv_amount r - tv_consumed r)) (consume_row r (min (minor amount) (tv_amount r - tv_consumed r)) (clock s)) s t"
      using consume_wallet_run[OF ok i _ _ _ r act, of amount ctx] True by auto
    then have "treasury_ok t" by (simp add: taken_def)
    with run i r act show ?thesis by auto
  next
    case False
    let ?s = "s\<lparr>tx_rank := lock_rank L_treasury_wallet\<rparr>"
    have ok': "treasury_ok ?s" by (rule treasury_ok_cong[OF ok]) simp_all
    have mem: "r \<in> set (treasury_reservation s)" using reservation_of_Some[OF r] by simp
    obtain w where "find_wallet (tv_wallet r) s = Some w" using held_wallet[OF ok mem] by blast
    then have finds: "find_wallet (tv_wallet r) ?s = Some w" "find_treasury_reservation (tv_id r) ?s = Some r"
      using find_own[OF ok'] mem by (simp_all add: find_wallet_def)
    have "consumeTreasuryReservation ctx v amount s = Inr (\<lparr>tc_consumed = False, tc_status = (if tv_status r = RS_CONSUMED then RS_CONSUMED else RS_ACTIVE)\<rparr>, ?s)"
      unfolding consumeTreasuryReservation_def using True i r finds False by (simp add: bindC_run assertLockOrder_def)
    with ok' show ?thesis by simp
  qed
next
  case False
  then show ?thesis using ok guard_errors(1)[of v]
    by (cases "requireUuid v") (auto simp: consumeTreasuryReservation_def bindC_run assertLockOrder_def split: option.splits)
qed

lemma release_result:
  assumes ok: "treasury_ok s"
  shows "case releaseTreasuryReservation ctx v reason s of Inl e \<Rightarrow> e \<noteq> DatabaseError
    | Inr (x, t) \<Rightarrow> treasury_ok t \<and> (x \<longrightarrow> (\<exists>i r. requireUuid v = Inr i \<and> treasury_reservation_of i s = Some r \<and> tv_status r = RS_ACTIVE \<and>
        taken r (tv_amount r - tv_consumed r) (release_row reason (clock s)) s t)) \<and>
      (\<not> x \<longrightarrow> treasury_wallet t = treasury_wallet s \<and> treasury_reservation t = treasury_reservation s)"
proof (cases "reason \<in> set TREASURY_RELEASE_REASONS \<and> (\<exists>i. requireUuid v = Inr i \<and> treasury_reservation_of i s \<noteq> None) \<and>
    tx_rank s \<le> lock_rank L_treasury_wallet")
  case True
  then obtain i r where i: "requireUuid v = Inr i" and r: "treasury_reservation_of i s = Some r" by auto
  show ?thesis
  proof (cases "tv_status r = RS_ACTIVE")
    case act: True
    obtain t where run: "releaseTreasuryReservation ctx v reason s = Inr (True, t)"
      "taken r (tv_amount r - tv_consumed r) (release_row reason (clock s)) s t"
      using release_wallet_run[OF ok i _ _ r act, of reason ctx] True by auto
    then have "treasury_ok t" by (simp add: taken_def)
    with run i r act show ?thesis by auto
  next
    case False
    let ?s = "s\<lparr>tx_rank := lock_rank L_treasury_wallet\<rparr>"
    have ok': "treasury_ok ?s" by (rule treasury_ok_cong[OF ok]) simp_all
    have mem: "r \<in> set (treasury_reservation s)" using reservation_of_Some[OF r] by simp
    obtain w where "find_wallet (tv_wallet r) s = Some w" using held_wallet[OF ok mem] by blast
    then have finds: "find_wallet (tv_wallet r) ?s = Some w" "find_treasury_reservation (tv_id r) ?s = Some r"
      using find_own[OF ok'] mem by (simp_all add: find_wallet_def)
    have "releaseTreasuryReservation ctx v reason s = Inr (False, ?s)"
      unfolding releaseTreasuryReservation_def using True i r finds False by (simp add: bindC_run assertLockOrder_def requireOneOf_def)
    with ok' show ?thesis by simp
  qed
next
  case False
  then show ?thesis using ok guard_errors(1)[of v]
    by (cases "requireUuid v") (auto simp: releaseTreasuryReservation_def bindC_run assertLockOrder_def requireOneOf_def split: option.splits)
qed

section \<open>Any sequence of calls\<close>

datatype treasury_call =
    ReserveUsdt tx_ctx js money
  | ConsumeUsdt tx_ctx js money
  | ReleaseUsdt tx_ctx js string
  | SetWalletStatus operator_actor tx_ctx js
  | RegisterWallet "byte list \<Rightarrow> byte list" operator_actor tx_ctx js

fun run_treasury :: "treasury_call \<Rightarrow> ('x treasury_db_scheme, unit) cmd" where
  "run_treasury (ReserveUsdt ctx v amount) = bindC (reserveTreasuryUsdt ctx v amount) (\<lambda>_. returnC ())"
| "run_treasury (ConsumeUsdt ctx v amount) = bindC (consumeTreasuryReservation ctx v amount) (\<lambda>_. returnC ())"
| "run_treasury (ReleaseUsdt ctx v reason) = bindC (releaseTreasuryReservation ctx v reason) (\<lambda>_. returnC ())"
| "run_treasury (SetWalletStatus a ctx p) = bindC (setTreasuryWalletStatus a ctx p) (\<lambda>_. returnC ())"
| "run_treasury (RegisterWallet H a ctx p) = bindC (registerTreasuryWallet H a ctx p) (\<lambda>_. returnC ())"

text \<open>Each call in its own transaction, which starts with no lock held.\<close>

definition run_treasuries :: "treasury_call list \<Rightarrow> 'x treasury_db_scheme \<Rightarrow> 'x treasury_db_scheme" where
  "run_treasuries cs s = fold (\<lambda>c s. snd (runTx (run_treasury c) (s\<lparr>tx_rank := - 1\<rparr>))) cs s"

lemma treasury_rank [simp]: "treasury_ok (s\<lparr>tx_rank := n\<rparr>) = treasury_ok s"
  by (auto intro!: treasury_ok_cong[of "s\<lparr>tx_rank := n\<rparr>" s] treasury_ok_cong[of s "s\<lparr>tx_rank := n\<rparr>"])

lemma reserve_keeps: "keeps treasury_ok (reserveTreasuryUsdt ctx v amount)"
proof (rule keepsI)
  fix s :: "'a treasury_db_scheme" and x t
  assume ok: "treasury_ok s" and run: "reserveTreasuryUsdt ctx v amount s = Inr (x, t)"
  then obtain i w where i: "requireUuid v = Inr i" and c: "currency amount = USDT" "isPositive amount"
    "tx_rank s \<le> lock_rank L_treasury_wallet" and w: "best_candidate (candidates s) = Some w" "minor amount \<le> available w"
    and "\<forall>q \<in> set (treasury_reservation s). tv_trade q \<noteq> i"
    by (auto simp: reserveTreasuryUsdt_def assertLockOrder_def insert_treasury_reservation_def list_all_iff candidates_def update_wallet_def
        split: if_splits)
  then have free: "i \<notin> tv_trade ` set (treasury_reservation s)" by blast
  from reserve_usdt_run[OF ok i c w free, of ctx] run show "treasury_ok t" by auto
qed

lemma consume_keeps: "keeps treasury_ok (consumeTreasuryReservation ctx v amount)"
proof (rule keepsI)
  fix s :: "'a treasury_db_scheme" and x t
  assume ok: "treasury_ok s" and run: "consumeTreasuryReservation ctx v amount s = Inr (x, t)"
  from consume_result[OF ok, where ctx = ctx and v = v and amount = amount] show "treasury_ok t" by (simp add: run)
qed

lemma release_keeps: "keeps treasury_ok (releaseTreasuryReservation ctx v reason)"
proof (rule keepsI)
  fix s :: "'a treasury_db_scheme" and x t
  assume ok: "treasury_ok s" and run: "releaseTreasuryReservation ctx v reason s = Inr (x, t)"
  from release_result[OF ok, where ctx = ctx and v = v and reason = reason] show "treasury_ok t" by (simp add: run)
qed

lemma wallet_update_keeps:
  assumes f: "\<And>w. tw_id (f w) = tw_id w" "\<And>w. tw_reserved (f w) = tw_reserved w"
  shows "keeps treasury_ok (update_wallet i f)"
proof (rule keepsI)
  fix s :: "'a treasury_db_scheme" and u t
  assume ok: "treasury_ok s" and "update_wallet i f s = Inr (u, t)"
  then have t: "t = s\<lparr>treasury_wallet := update_where (\<lambda>r. tw_id r = i) f (treasury_wallet s)\<rparr>"
    and one: "one_revenue (update_where (\<lambda>r. tw_id r = i) f (treasury_wallet s))" by (simp_all add: update_wallet_def split: if_splits)
  have agree: "wallets.agree (update_where (\<lambda>r. tw_id r = i) f (treasury_wallet s)) (treasury_reservation s)"
    by (rule wallets.agree_pool[OF treasury_okD(1)[OF ok]]) (simp add: f)
  have "given_id t (tw_id x)" if "x \<in> set (treasury_wallet t)" for x
  proof -
    from that f(1) obtain y where "y \<in> set (treasury_wallet s)" "tw_id x = tw_id y" by (auto simp: t set_update_where split: if_splits)
    with treasury_okD(9)[OF ok] show ?thesis by (auto simp: t given_id_def)
  qed
  with ok t one agree show "treasury_ok t" by (auto simp: treasury_ok_def fresh_ids_def given_id_def)
qed

lemma treasury_frames [inv_intros]:
  "keeps treasury_ok (appendAudit ctx action ty i before after)" "keeps treasury_ok (authorizeOperator a permission)"
  by (auto simp: keeps_def intro: treasury_ok_cong dest: authorize_state)

lemma status_keeps: "keeps treasury_ok (setTreasuryWalletStatus a ctx p)"
  unfolding setTreasuryWalletStatus_def operatorHandle_def Let_def
  by (rule inv_intros wallet_update_keeps | simp)+

lemma register_keeps: "keeps treasury_ok (registerTreasuryWallet H a ctx p)"
proof (rule keepsI)
  fix s :: "'a treasury_db_scheme" and x t
  assume ok: "treasury_ok s" and run: "registerTreasuryWallet H a ctx p s = Inr (x, t)"
  then obtain w where t: "treasury_wallet t = treasury_wallet s @ [w]" "treasury_reservation t = treasury_reservation s" "uuidv7 t = uuidv7 s"
      "uuids t = Suc (uuids s)" and w: "tw_id w = uuidv7 s (uuids s)" "tw_reserved w = 0" and one: "one_revenue (treasury_wallet s @ [w])"
    by (auto simp: registerTreasuryWallet_def operatorHandle_def insert_wallet_def split: if_splits dest!: authorize_state)
  have mono: "given_id t i" if "given_id s i" for i by (rule given_id_mono[OF that]) (use t in simp_all)
  have new: "tw_id w \<notin> tw_id ` set (treasury_wallet s)"
    using next_id_new[OF treasury_okD(2)[OF ok], of 0] treasury_okD(9)[OF ok] w by auto
  have "given_id t (tw_id w)" using w t by (auto simp: given_id_def)
  with wallets.agree_new_pool[OF treasury_okD(1)[OF ok] new w(2)] one t ok mono show "treasury_ok t"
    by (auto simp: treasury_ok_def fresh_ids_def)
qed

lemma treasury_keeps: "keeps treasury_ok (run_treasury c)"
  by (cases c) (auto intro!: keeps_bind keeps_basic reserve_keeps consume_keeps release_keeps status_keeps register_keeps)

lemma treasuries_keep: "treasury_ok s \<Longrightarrow> treasury_ok (run_treasuries cs s)"
proof (induction cs arbitrary: s)
  case (Cons c cs)
  have "treasury_ok (snd (runTx (run_treasury c) (s\<lparr>tx_rank := - 1\<rparr>)))"
    using keepsD[OF treasury_keeps[of c], of "s\<lparr>tx_rank := - 1\<rparr>"] Cons.prems by (auto simp: runTx_def split: sum.splits)
  with Cons.IH show ?case by (simp add: run_treasuries_def)
qed (simp add: run_treasuries_def)

section \<open>Properties\<close>


text \<open>Reserving USDT for a trade that has none succeeds exactly when some active hot wallet has the
  amount available; then it takes the wallet with the most available USDT and leaves it promising no more than it holds.\<close>

theorem treasury_reserves_best_wallet:
  assumes ok: "treasury_ok s" and i: "requireUuid v = Inr i" and amount: "currency amount = USDT" "isPositive amount"
    and rank: "tx_rank s \<le> lock_rank L_treasury_wallet" and unused: "i \<notin> tv_trade ` set (treasury_reservation s)"
  shows "case reserveTreasuryUsdt ctx v amount s of
      Inl e \<Rightarrow> e = QuotingError TREASURY_INSUFFICIENT \<and> (\<forall>w \<in> set (treasury_wallet s). eligible w \<longrightarrow> available w < minor amount)
    | Inr (r, t) \<Rightarrow> \<exists>w \<in> set (treasury_wallet s). tw_id w = ts_wallet r \<and> eligible w \<and> minor amount \<le> available w \<and>
        (\<forall>x \<in> set (treasury_wallet s). eligible x \<longrightarrow> available x \<le> available w) \<and>
        (\<exists>w' \<in> set (treasury_wallet t). tw_id w' = tw_id w \<and> tw_reserved w' = tw_reserved w + minor amount \<and> tw_reserved w' \<le> tw_observed w')"
proof (cases "\<exists>w. best_candidate (candidates s) = Some w \<and> minor amount \<le> available w")
  case True
  then obtain w where w: "best_candidate (candidates s) = Some w" "minor amount \<le> available w" by blast
  have mem: "w \<in> set (treasury_wallet s)" "eligible w" and best: "x \<in> set (treasury_wallet s) \<Longrightarrow> eligible x \<Longrightarrow> available x \<le> available w" for x
    using best_candidate_Some[OF w(1)] by (auto simp: candidates_set)
  obtain r t where run: "reserveTreasuryUsdt ctx v amount s = Inr (r, t)" and r: "ts_wallet r = tw_id w"
    and t: "treasury_wallet t = update_where (\<lambda>x. tw_id x = tw_id w) (\<lambda>x. x\<lparr>tw_reserved := tw_reserved w + minor amount\<rparr>) (treasury_wallet s)"
    using reserve_usdt_run[OF ok i amount rank w unused, of ctx] by auto
  let ?w = "w\<lparr>tw_reserved := tw_reserved w + minor amount\<rparr>"
  have "?w \<in> set (treasury_wallet t)" unfolding t set_update_where using mem by force
  then have "\<exists>w' \<in> set (treasury_wallet t). tw_id w' = tw_id w \<and> tw_reserved w' = tw_reserved w + minor amount \<and> tw_reserved w' \<le> tw_observed w'"
    by (rule bexI[rotated]) (use w(2) in \<open>simp add: available_def\<close>)
  with mem best w(2) r show ?thesis by (auto simp: run)
next
  case False
  have "reserveTreasuryUsdt ctx v amount s = Inl (QuotingError TREASURY_INSUFFICIENT)"
    unfolding reserveTreasuryUsdt_def using i amount rank False
    by (cases "best_candidate (candidates (s\<lparr>tx_rank := lock_rank L_treasury_wallet\<rparr>))")
      (auto simp: bindC_run assertLockOrder_def candidates_def)
  moreover have "available x < minor amount" if "x \<in> set (treasury_wallet s)" "eligible x" for x
  proof (cases "best_candidate (candidates s)")
    case None
    then have "set (candidates s) = {}" by (simp add: best_candidate_None)
    with that show ?thesis by (auto simp: candidates_set)
  next
    case (Some w)
    with False that best_candidate_Some(2)[OF Some, of x] show ?thesis by (auto simp: candidates_set)
  qed
  ultimately show ?thesis by simp
qed

section \<open>A sample treasury\<close>

definition sample_wallet :: "string \<Rightarrow> int \<Rightarrow> wallet_row" where
  "sample_wallet i n = \<lparr>tw_id = i, tw_network = ''TRON'', tw_address = ''T'' @ i, tw_label = i, tw_role = HOT, tw_status = TW_ACTIVE,
     tw_custody = EXTERNAL, tw_observed = n, tw_observed_at = None, tw_reserved = 0, tw_created_by = ''u1''\<rparr>"

definition sample_treasury :: treasury_db where
  "sample_treasury = capacity_db.extend (sample_bank\<lparr>uuids := 3\<rparr>)
     (treasury_db.fields [sample_wallet ''id-1'' 500, sample_wallet ''id-2'' 900] [])"

lemma sample_treasury_ok: "treasury_ok sample_treasury"
proof -
  have "inj (uuidv7 sample_treasury)" using sample_bank_ok
    by (simp add: capacity_ok_def reservations_ok_def fresh_ids_def sample_treasury_def capacity_db.defs)
  moreover have "given_id sample_treasury ''id-1''" "given_id sample_treasury ''id-2''"
    unfolding given_id_def by (rule exI[of _ 1], code_simp) (rule exI[of _ 2], code_simp)
  ultimately show ?thesis
    by (simp add: treasury_ok_def wallets.agree_def wallets.open_sum_def fresh_ids_def sample_treasury_def capacity_db.defs treasury_db.defs
        sample_wallet_def one_revenue_def)
qed

definition sample_usdt :: "treasury_call list" where
  "sample_usdt = [ReserveUsdt sample_ctx (JStr account_uuid) (usdt 700), ConsumeUsdt sample_ctx (JStr account_uuid) (usdt 250),
     ReserveUsdt sample_ctx (JStr account_uuid) (usdt 100)]"


theorem treasury_reserves_best_wallet_witness:
  "case reserveTreasuryUsdt sample_ctx (JStr account_uuid) (usdt 700) sample_treasury of Inl e \<Rightarrow> False
   | Inr (r, t) \<Rightarrow> \<exists>w \<in> set (treasury_wallet sample_treasury). tw_id w = ''id-2'' \<and> ts_wallet r = ''id-2'' \<and> 700 \<le> available w"
proof -
  let ?run = "reserveTreasuryUsdt sample_ctx (JStr account_uuid) (usdt 700) sample_treasury"
  have i: "requireUuid (JStr account_uuid) = Inr account_uuid" by code_simp
  have ran: "case ?run of Inl e \<Rightarrow> False | Inr (r, t) \<Rightarrow> ts_wallet r = ''id-2''" by code_simp
  have "tx_rank sample_treasury \<le> lock_rank L_treasury_wallet" "account_uuid \<notin> tv_trade ` set (treasury_reservation sample_treasury)"
    by code_simp+
  from treasury_reserves_best_wallet[OF sample_treasury_ok i _ _ this, of "usdt 700" sample_ctx] ran show ?thesis
    by (auto simp: usdt_def isPositive_def split: sum.splits)
qed

end
