(* ===== verification/Custody.thy ===== *)
theory Custody
  imports Treasury
begin

text \<open>
  Deposit addresses (\<^verbatim>\<open>packages/treasury/src/custody.ts\<close>): the recorded capability of the custody provider, the pool of
  addresses, their assignment to one trade, trader or route obligation, release, cooldown and retirement. The provider behind
  the port \<^verbatim>\<open>CustodyAdapter\<close> is a parameter. Row locks that skip (\<^verbatim>\<open>SKIP LOCKED\<close>) skip nothing here: one transaction runs
  at a time. The account of the exchange's own HD wallet (\<^verbatim>\<open>recordCustodyHdAccount\<close>) is not modelled.
\<close>

section \<open>The port and the tables\<close>

datatype deposit_capability = DERIVED | POOL | UNSUPPORTED

record provided_address =
  pa_address :: string
  pa_reference :: string

record custody_adapter =
  ca_provider :: string
  ca_capabilities :: "string \<Rightarrow> deposit_capability result"
  ca_allocate :: "string \<Rightarrow> string \<Rightarrow> int \<Rightarrow> provided_address result"
  ca_list :: "string \<Rightarrow> provided_address list result"

record custody_config_row =
  cc_id :: string
  cc_provider :: string
  cc_network :: string
  cc_capability :: deposit_capability
  cc_consolidation :: "string option"
  cc_notes :: "string option"
  cc_verified_by :: string
  cc_verified_at :: int

datatype address_status = AVAILABLE | ASSIGNED | COOLDOWN | RETIRED

datatype address_source = FROM_DERIVED | FROM_POOL

record address_row =
  da_id :: string
  da_wallet :: string
  da_network :: string
  da_address :: string
  da_source :: address_source
  da_provider :: string
  da_reference :: string
  da_status :: address_status
  da_cooldown_until :: "int option"
  da_created_by :: string
  da_created_at :: int

record assignment_row =
  as_id :: string
  as_address :: string
  as_trade :: "string option"
  as_trader :: "string option"
  as_obligation :: "string option"
  as_expected :: int
  as_assigned_at :: int
  as_released_at :: "int option"
  as_reason :: "string option"
  as_created_by :: string

record custody_db = treasury_db +
  custody_provider_config :: "custody_config_row list"
  custody_derivation_index :: int
  deposit_address :: "address_row list"
  deposit_assignment :: "assignment_row list"

section \<open>What the database refuses\<close>

definition address_step :: "address_status \<Rightarrow> address_status \<Rightarrow> bool" where
  "address_step a b \<longleftrightarrow> a = b \<or> (a, b) \<in> {(AVAILABLE, ASSIGNED), (ASSIGNED, COOLDOWN), (COOLDOWN, AVAILABLE), (COOLDOWN, RETIRED), (AVAILABLE, RETIRED)}"

definition address_checks :: "address_row \<Rightarrow> bool" where
  "address_checks d \<longleftrightarrow> (da_status d = COOLDOWN \<longleftrightarrow> da_cooldown_until d \<noteq> None) \<and> (da_source d = FROM_POOL \<or> da_status d \<noteq> AVAILABLE)"

definition new_address_clash :: "address_row \<Rightarrow> 'x custody_db_scheme \<Rightarrow> bool" where
  "new_address_clash d s \<longleftrightarrow> list_ex (\<lambda>q. (da_network q, da_address q) = (da_network d, da_address d) \<or>
     (da_provider q, da_reference q) = (da_provider d, da_reference d)) (deposit_address s)"

definition update_address :: "string \<Rightarrow> (address_row \<Rightarrow> address_row) \<Rightarrow> ('x custody_db_scheme, unit) cmd" where
  "update_address i f = (\<lambda>s.
     if list_all (\<lambda>d. da_id d = i \<longrightarrow> address_step (da_status d) (da_status (f d)) \<and> address_checks (f d)) (deposit_address s)
     then Inr ((), s\<lparr>deposit_address := update_where (\<lambda>d. da_id d = i) f (deposit_address s)\<rparr>) else Inl DatabaseError)"

text \<open>The unique indexes of \<^verbatim>\<open>deposit_assignment\<close>: one open per address, one per trade, one open per trader, one per obligation.\<close>

definition is_open :: "assignment_row \<Rightarrow> bool" where
  "is_open a \<longleftrightarrow> as_released_at a = None"

definition assignment_clash :: "assignment_row \<Rightarrow> assignment_row \<Rightarrow> bool" where
  "assignment_clash a q \<longleftrightarrow> as_address q = as_address a \<and> is_open q \<and> is_open a \<or>
     as_trade a \<noteq> None \<and> as_trade q = as_trade a \<or>
     as_trader a \<noteq> None \<and> as_trader q = as_trader a \<and> is_open q \<and> is_open a \<or>
     as_obligation a \<noteq> None \<and> as_obligation q = as_obligation a"

definition insert_assignment :: "assignment_row \<Rightarrow> ('x custody_db_scheme, unit) cmd" where
  "insert_assignment a = (\<lambda>s. if 0 < as_expected a \<and> \<not> list_ex (assignment_clash a) (deposit_assignment s)
     then Inr ((), s\<lparr>deposit_assignment := deposit_assignment s @ [a]\<rparr>) else Inl DatabaseError)"

section \<open>The recorded capability\<close>

definition NETWORKS :: "string list" where "NETWORKS = [''TRON'']"

definition DEFAULT_DEPOSIT_COOLDOWN_SECONDS :: int where
  "DEFAULT_DEPOSIT_COOLDOWN_SECONDS = 7 * 24 * 3600"

record custody_capability =
  cp_network :: string
  cp_capability :: deposit_capability
  cp_provider :: "string option"
  cp_verified_at :: "int option"
  cp_config :: "string option"

definition getDepositAddressCapability :: "js \<Rightarrow> 'x custody_db_scheme \<Rightarrow> custody_capability result" where
  "getDepositAddressCapability network s =
     bindR (requireOneOf network NETWORKS) (\<lambda>n.
     case rev (sort_key cc_verified_at (sort_key cc_id (filter (\<lambda>c. cc_network c = n) (custody_provider_config s)))) of
       [] \<Rightarrow> Inr \<lparr>cp_network = n, cp_capability = UNSUPPORTED, cp_provider = None, cp_verified_at = None, cp_config = None\<rparr>
     | c # _ \<Rightarrow> Inr \<lparr>cp_network = n, cp_capability = cc_capability c, cp_provider = Some (cc_provider c),
          cp_verified_at = Some (cc_verified_at c), cp_config = Some (cc_id c)\<rparr>)"

definition capabilityC :: "js \<Rightarrow> ('x custody_db_scheme, custody_capability) cmd" where
  "capabilityC network = (\<lambda>s. liftC (getDepositAddressCapability network s) s)"

definition assertSellAcceptanceSupported :: "js \<Rightarrow> ('x custody_db_scheme, custody_capability) cmd" where
  "assertSellAcceptanceSupported network =
     bindC (capabilityC network) (\<lambda>cap.
     bindC (unlessC (cp_capability cap \<noteq> UNSUPPORTED) (ReferenceError CUSTODY_CAPABILITY_UNSUPPORTED)) (\<lambda>_.
     returnC cap))"

definition capability_name :: "deposit_capability \<Rightarrow> string" where
  "capability_name c = (case c of DERIVED \<Rightarrow> ''DERIVED'' | POOL \<Rightarrow> ''POOL'' | UNSUPPORTED \<Rightarrow> ''UNSUPPORTED'')"

definition capability_of :: "string \<Rightarrow> deposit_capability" where
  "capability_of t = (if t = ''DERIVED'' then DERIVED else if t = ''POOL'' then POOL else UNSUPPORTED)"

text \<open>\<^verbatim>\<open>/^[a-z0-9][a-z0-9_-]{1,40}$/\<close> on a provider name.\<close>

definition PROVIDER_RE :: "string \<Rightarrow> bool" where
  "PROVIDER_RE t \<longleftrightarrow> 2 \<le> length t \<and> length t \<le> 41 \<and> isLowerDigit (hd t) \<and>
     list_all (\<lambda>c. isLowerDigit c \<or> c = CHR ''_'' \<or> c = CHR ''-'') (tl t)"

definition js_opt :: "string option \<Rightarrow> js" where
  "js_opt t = (case t of None \<Rightarrow> JNull | Some x \<Rightarrow> JStr x)"

definition recordCustodyCapability :: "operator_actor \<Rightarrow> tx_ctx \<Rightarrow> js \<Rightarrow> ('x custody_db_scheme, js) cmd" where
  "recordCustodyCapability a = operatorHandle a ''custody:configure'' (\<lambda>ctx p d.
     bindC (liftC (requireOneOf (js_field ''network'' p) NETWORKS)) (\<lambda>network.
     bindC (liftC (requireOneOf (js_field ''capability'' p) [''DERIVED'', ''POOL'', ''UNSUPPORTED''])) (\<lambda>capability.
     bindC (liftC (requireText (js_field ''provider'' p) 41)) (\<lambda>text.
     let provider = toLower text
     in bindC (unlessC (PROVIDER_RE provider) (CoreError INVALID_ARGUMENT)) (\<lambda>_.
     bindC (liftC (optionalText (js_field ''consolidationNotes'' p) 4000)) (\<lambda>consolidation.
     bindC (unlessC (\<not> (capability \<noteq> ''UNSUPPORTED'' \<and> consolidation = None)) (CoreError INVALID_ARGUMENT)) (\<lambda>_.
     bindC (capabilityC (JStr network)) (\<lambda>before.
     bindC (liftC (optionalText (js_field ''notes'' p) 4000)) (\<lambda>notes.
     bindC (readC clock) (\<lambda>now.
     bindC freshId (\<lambda>i.
     bindC (writeC (\<lambda>s. s\<lparr>custody_provider_config := custody_provider_config s @ [\<lparr>cc_id = i, cc_provider = provider, cc_network = network,
       cc_capability = capability_of capability, cc_consolidation = consolidation, cc_notes = notes, cc_verified_by = actorLabel ctx,
       cc_verified_at = now\<rparr>]\<rparr>)) (\<lambda>_.
     bindC (appendAudit ctx ''custody.capability_changed'' ''custody_provider_config'' (Some i)
       (JObj [(''provider'', js_opt (cp_provider before)), (''capability'', JStr (capability_name (cp_capability before)))])
       (JObj [(''provider'', JStr provider), (''network'', JStr network), (''capability'', JStr capability),
              (''consolidation_notes'', js_opt consolidation)])) (\<lambda>_.
     returnC (JObj [(''configId'', JStr i)]))))))))))))))"

definition requireAdapterMatchesRecord ::
    "custody_adapter \<Rightarrow> string \<Rightarrow> deposit_capability \<Rightarrow> ('x custody_db_scheme, custody_capability) cmd" where
  "requireAdapterMatchesRecord adapter network expected =
     bindC (capabilityC (JStr network)) (\<lambda>cap.
     bindC (unlessC (cp_capability cap \<noteq> UNSUPPORTED) (ReferenceError CUSTODY_CAPABILITY_UNSUPPORTED)) (\<lambda>_.
     bindC (unlessC (cp_capability cap = expected) (ReferenceError CUSTODY_CAPABILITY_MISMATCH)) (\<lambda>_.
     bindC (unlessC (cp_provider cap = Some (ca_provider adapter)) (ReferenceError CUSTODY_CAPABILITY_MISMATCH)) (\<lambda>_.
     bindC (liftC (ca_capabilities adapter network)) (\<lambda>live.
     bindC (unlessC (live = cp_capability cap) (ReferenceError CUSTODY_CAPABILITY_MISMATCH)) (\<lambda>_.
     returnC cap))))))"

text \<open>Wallets are listed in the order they were registered.\<close>

definition requireDepositPoolWallet :: "string \<Rightarrow> js \<Rightarrow> ('x custody_db_scheme, string) cmd" where
  "requireDepositPoolWallet network walletId =
     bindC (if walletId = JUndefined \<or> walletId = JNull \<or> walletId = JStr [] then returnC None
            else bindC (liftC (requireUuid walletId)) (\<lambda>w. returnC (Some w))) (\<lambda>wanted.
     bindC (readC (\<lambda>s. filter (\<lambda>w. tw_network w = network \<and> tw_role w = DEPOSIT_POOL \<and> tw_status w = TW_ACTIVE \<and>
       (case wanted of None \<Rightarrow> True | Some i \<Rightarrow> tw_id w = i)) (treasury_wallet s))) (\<lambda>rows.
     bindC (unlessC (rows \<noteq> []) (ReferenceError WALLET_NOT_ACTIVE)) (\<lambda>_.
     bindC (unlessC (\<not> (wanted = None \<and> length rows > 1)) (CoreError INVALID_ARGUMENT)) (\<lambda>_.
     returnC (tw_id (hd rows))))))"

section \<open>Importing and assigning addresses\<close>

text \<open>Inserting an address: \<^verbatim>\<open>onConflict doNothing\<close> on import, an error on a derived address.\<close>

definition insert_address :: "address_row \<Rightarrow> ('x custody_db_scheme, bool) cmd" where
  "insert_address d = (\<lambda>s. if new_address_clash d s then Inr (False, s)
     else Inr (True, s\<lparr>deposit_address := deposit_address s @ [d]\<rparr>))"

definition new_address :: "custody_adapter \<Rightarrow> tx_ctx \<Rightarrow> string \<Rightarrow> string \<Rightarrow> provided_address \<Rightarrow> address_source \<Rightarrow> string \<Rightarrow> int \<Rightarrow> address_row" where
  "new_address adapter ctx walletId network p source i now = \<lparr>da_id = i, da_wallet = walletId, da_network = network, da_address = pa_address p,
     da_source = source, da_provider = ca_provider adapter, da_reference = pa_reference p,
     da_status = (if source = FROM_POOL then AVAILABLE else ASSIGNED), da_cooldown_until = None, da_created_by = actorLabel ctx, da_created_at = now\<rparr>"

fun import_each :: "(byte list \<Rightarrow> byte list) \<Rightarrow> custody_adapter \<Rightarrow> tx_ctx \<Rightarrow> string \<Rightarrow> string \<Rightarrow> provided_address list \<Rightarrow> nat \<Rightarrow>
    ('x custody_db_scheme, nat) cmd" where
  "import_each H adapter ctx walletId network [] imported = returnC imported"
| "import_each H adapter ctx walletId network (a # rest) imported =
     bindC (unlessC (isTronAddress H (pa_address a)) (ReferenceError INVALID_ADDRESS)) (\<lambda>_.
     bindC freshId (\<lambda>i.
     bindC (readC clock) (\<lambda>now.
     bindC (insert_address (new_address adapter ctx walletId network a FROM_POOL i now)) (\<lambda>r.
     import_each H adapter ctx walletId network rest (if r then Suc imported else imported)))))"

definition importPoolAddresses :: "(byte list \<Rightarrow> byte list) \<Rightarrow> operator_actor \<Rightarrow> custody_adapter \<Rightarrow> tx_ctx \<Rightarrow> js \<Rightarrow> ('x custody_db_scheme, js) cmd" where
  "importPoolAddresses H a adapter = operatorHandle a ''custody:configure'' (\<lambda>ctx p d.
     bindC (liftC (requireOneOf (js_field ''network'' p) NETWORKS)) (\<lambda>network.
     bindC (requireAdapterMatchesRecord adapter network POOL) (\<lambda>_.
     bindC (requireDepositPoolWallet network (js_field ''treasuryWalletId'' p)) (\<lambda>walletId.
     bindC (liftC (ca_list adapter network)) (\<lambda>provided.
     bindC (import_each H adapter ctx walletId network provided 0) (\<lambda>imported.
     bindC (appendAudit ctx ''deposit_address.imported'' ''treasury_wallet'' (Some walletId) JUndefined
       (JObj [(''network'', JStr network), (''provider'', JStr (ca_provider adapter)), (''offered'', JNum (int (length provided))),
              (''imported'', JNum (int imported))])) (\<lambda>_.
     returnC (JObj [(''imported'', JNum (int imported)), (''skipped'', JNum (int (length provided) - int imported))]))))))))"

datatype deposit_subject = FOR_TRADE js | FOR_TRADER_RESERVE js | FOR_ROUTE_OBLIGATION js

definition subjectColumns :: "deposit_subject \<Rightarrow> (string option \<times> string option \<times> string option) result" where
  "subjectColumns subject = (case subject of
     FOR_TRADE v \<Rightarrow> bindR (requireUuid v) (\<lambda>i. Inr (Some i, None, None))
   | FOR_TRADER_RESERVE v \<Rightarrow> bindR (requireUuid v) (\<lambda>i. Inr (None, Some i, None))
   | FOR_ROUTE_OBLIGATION v \<Rightarrow> bindR (requireUuid v) (\<lambda>i. Inr (None, None, Some i)))"

definition subject_audit :: "deposit_subject \<Rightarrow> (string \<times> js) list" where
  "subject_audit subject = (case subject of
     FOR_TRADE v \<Rightarrow> [(''trade_id'', v)]
   | FOR_TRADER_RESERVE v \<Rightarrow> [(''subject'', JObj [(''kind'', JStr ''TRADER_RESERVE''), (''traderId'', v)])]
   | FOR_ROUTE_OBLIGATION v \<Rightarrow> [(''subject'', JObj [(''kind'', JStr ''ROUTE_OBLIGATION''), (''routeObligationId'', v)])])"

record deposit_allocation =
  dp_address_id :: string
  dp_assignment_id :: string
  dp_address :: string
  dp_source :: address_source

text \<open>The oldest available address of the provider, by creation and identifier.\<close>

definition pool_candidate :: "custody_adapter \<Rightarrow> string \<Rightarrow> 'x custody_db_scheme \<Rightarrow> address_row option" where
  "pool_candidate adapter network s =
     (case sort_key da_created_at (sort_key da_id (filter (\<lambda>d. da_network d = network \<and> da_status d = AVAILABLE \<and>
        da_provider d = ca_provider adapter) (deposit_address s))) of [] \<Rightarrow> None | d # _ \<Rightarrow> Some d)"

definition take_from_pool :: "custody_adapter \<Rightarrow> string \<Rightarrow> ('x custody_db_scheme, string \<times> string) cmd" where
  "take_from_pool adapter network =
     bindC (readC (pool_candidate adapter network)) (\<lambda>row.
     bindC (foundC (ReferenceError DEPOSIT_ADDRESS_UNAVAILABLE) row) (\<lambda>d.
     bindC (update_address (da_id d) (\<lambda>x. x\<lparr>da_status := ASSIGNED\<rparr>)) (\<lambda>_.
     returnC (da_id d, da_address d))))"

definition derive_new :: "(byte list \<Rightarrow> byte list) \<Rightarrow> custody_adapter \<Rightarrow> tx_ctx \<Rightarrow> string \<Rightarrow> js \<Rightarrow> js \<Rightarrow> ('x custody_db_scheme, string \<times> string) cmd" where
  "derive_new H adapter ctx network reference walletId =
     bindC (requireDepositPoolWallet network walletId) (\<lambda>wallet.
     bindC (readC custody_derivation_index) (\<lambda>n.
     bindC (writeC (\<lambda>s. s\<lparr>custody_derivation_index := n + 1\<rparr>)) (\<lambda>_.
     bindC (liftC (requireText reference 40)) (\<lambda>ref.
     bindC (liftC (ca_allocate adapter network ref n)) (\<lambda>provided.
     bindC (unlessC (isTronAddress H (pa_address provided)) (ReferenceError INVALID_ADDRESS)) (\<lambda>_.
     bindC freshId (\<lambda>i.
     bindC (readC clock) (\<lambda>now.
     bindC (insert_address (new_address adapter ctx wallet network provided FROM_DERIVED i now)) (\<lambda>inserted.
     bindC (unlessC inserted (ReferenceError DEPOSIT_ADDRESS_UNAVAILABLE)) (\<lambda>_.
     returnC (i, pa_address provided)))))))))))"

definition assign_address :: "custody_adapter \<Rightarrow> tx_ctx \<Rightarrow> deposit_capability \<Rightarrow> deposit_subject \<Rightarrow> money \<Rightarrow> string \<Rightarrow> string \<Rightarrow>
    ('x custody_db_scheme, deposit_allocation) cmd" where
  "assign_address adapter ctx capability subject expected address_id address =
     bindC (liftC (subjectColumns subject)) (\<lambda>(trade, trader, obligation).
     bindC freshId (\<lambda>i.
     bindC (readC clock) (\<lambda>now.
     bindC (insert_assignment \<lparr>as_id = i, as_address = address_id, as_trade = trade, as_trader = trader, as_obligation = obligation,
       as_expected = minor expected, as_assigned_at = now, as_released_at = None, as_reason = None, as_created_by = actorLabel ctx\<rparr>) (\<lambda>_.
     bindC (appendAudit ctx ''deposit_address.assigned'' ''deposit_address'' (Some address_id) JUndefined
       (JObj (subject_audit subject @ [(''assignment_id'', JStr i), (''source'', JStr (capability_name capability)),
         (''provider'', JStr (ca_provider adapter)), (''expected'', js_money expected)]))) (\<lambda>_.
     returnC \<lparr>dp_address_id = address_id, dp_assignment_id = i, dp_address = address,
       dp_source = (if capability = POOL then FROM_POOL else FROM_DERIVED)\<rparr>)))))"

definition allocateAddressFor :: "(byte list \<Rightarrow> byte list) \<Rightarrow> custody_adapter \<Rightarrow> tx_ctx \<Rightarrow> js \<Rightarrow> deposit_subject \<Rightarrow> js \<Rightarrow> money \<Rightarrow> js \<Rightarrow>
    ('x custody_db_scheme, deposit_allocation) cmd" where
  "allocateAddressFor H adapter ctx network_js subject reference expected walletId =
     bindC (liftC (requireOneOf network_js NETWORKS)) (\<lambda>network.
     bindC (unlessC (currency expected = USDT \<and> isPositive expected) (CoreError INVALID_AMOUNT)) (\<lambda>_.
     bindC (capabilityC (JStr network)) (\<lambda>cap.
     bindC (unlessC (cp_capability cap \<noteq> UNSUPPORTED) (ReferenceError CUSTODY_CAPABILITY_UNSUPPORTED)) (\<lambda>_.
     bindC (requireAdapterMatchesRecord adapter network (cp_capability cap)) (\<lambda>_.
     bindC (assertLockOrder L_deposit_address) (\<lambda>_.
     bindC (if cp_capability cap = POOL then take_from_pool adapter network
            else derive_new H adapter ctx network reference walletId) (\<lambda>(address_id, address).
     assign_address adapter ctx (cp_capability cap) subject expected address_id address)))))))"

definition find_address :: "string \<Rightarrow> 'x custody_db_scheme \<Rightarrow> address_row option" where
  "find_address i s = List.find (\<lambda>d. da_id d = i) (deposit_address s)"

definition allocation_of :: "assignment_row \<Rightarrow> 'x custody_db_scheme \<Rightarrow> deposit_allocation option" where
  "allocation_of a s = map_option (\<lambda>d. \<lparr>dp_address_id = as_address a, dp_assignment_id = as_id a, dp_address = da_address d,
     dp_source = da_source d\<rparr>) (find_address (as_address a) s)"

definition openAssignment :: "deposit_subject \<Rightarrow> ('x custody_db_scheme, deposit_allocation option) cmd" where
  "openAssignment subject =
     bindC (liftC (subjectColumns subject)) (\<lambda>(trade, trader, obligation).
     readC (\<lambda>s. case List.find (\<lambda>a. is_open a \<and> (trade \<noteq> None \<longrightarrow> as_trade a = trade) \<and> (trader \<noteq> None \<longrightarrow> as_trader a = trader) \<and>
         (obligation \<noteq> None \<longrightarrow> as_obligation a = obligation) \<and> find_address (as_address a) s \<noteq> None) (deposit_assignment s) of
       None \<Rightarrow> None | Some a \<Rightarrow> allocation_of a s))"

definition allocateDepositAddress :: "(byte list \<Rightarrow> byte list) \<Rightarrow> custody_adapter \<Rightarrow> tx_ctx \<Rightarrow> js \<Rightarrow> js \<Rightarrow> js \<Rightarrow> money \<Rightarrow> js \<Rightarrow>
    ('x custody_db_scheme, deposit_allocation) cmd" where
  "allocateDepositAddress H adapter ctx network tradeId tradeRef expected walletId =
     bindC (liftC (requireUuid tradeId)) (\<lambda>trade.
     bindC (readC (\<lambda>s. list_ex (\<lambda>a. as_trade a = Some trade) (deposit_assignment s))) (\<lambda>existing.
     bindC (unlessC (\<not> existing) (ReferenceError DEPOSIT_ASSIGNMENT_EXISTS)) (\<lambda>_.
     allocateAddressFor H adapter ctx network (FOR_TRADE (JStr trade)) tradeRef expected walletId)))"

definition allocateTraderReserveAddress :: "(byte list \<Rightarrow> byte list) \<Rightarrow> custody_adapter \<Rightarrow> tx_ctx \<Rightarrow> js \<Rightarrow> js \<Rightarrow> js \<Rightarrow> money \<Rightarrow>
    ('x custody_db_scheme, deposit_allocation) cmd" where
  "allocateTraderReserveAddress H adapter ctx network traderId traderRef expected =
     bindC (openAssignment (FOR_TRADER_RESERVE traderId)) (\<lambda>open_one.
     case open_one of Some a \<Rightarrow> returnC a
     | None \<Rightarrow> allocateAddressFor H adapter ctx network (FOR_TRADER_RESERVE traderId) traderRef expected JUndefined)"

definition allocateObligationDeliveryAddress :: "(byte list \<Rightarrow> byte list) \<Rightarrow> custody_adapter \<Rightarrow> tx_ctx \<Rightarrow> js \<Rightarrow> js \<Rightarrow> js \<Rightarrow> money \<Rightarrow>
    ('x custody_db_scheme, deposit_allocation) cmd" where
  "allocateObligationDeliveryAddress H adapter ctx network obligationId reference expected =
     bindC (liftC (requireUuid obligationId)) (\<lambda>obligation.
     bindC (readC (\<lambda>s. List.find (\<lambda>a. as_obligation a = Some obligation \<and> find_address (as_address a) s \<noteq> None) (deposit_assignment s))) (\<lambda>found.
     case found of
       Some a \<Rightarrow> bindC (unlessC (is_open a) (TraderError DEPOSIT_ASSIGNMENT_CLOSED)) (\<lambda>_.
         bindC (readC (allocation_of a)) (\<lambda>allocation. foundC NoResultError allocation))
     | None \<Rightarrow> allocateAddressFor H adapter ctx network (FOR_ROUTE_OBLIGATION obligationId) reference expected JUndefined))"

section \<open>Releasing, cooling down, retiring\<close>

definition find_assignment :: "string \<Rightarrow> 'x custody_db_scheme \<Rightarrow> assignment_row option" where
  "find_assignment i s = List.find (\<lambda>a. as_id a = i) (deposit_assignment s)"

text \<open>An assignment that is released already is refused by the trigger \<^verbatim>\<open>deposit_assignment_release_once\<close>.\<close>

definition update_assignment :: "string \<Rightarrow> (assignment_row \<Rightarrow> assignment_row) \<Rightarrow> ('x custody_db_scheme, unit) cmd" where
  "update_assignment i f = (\<lambda>s.
     if list_all (\<lambda>a. as_id a = i \<longrightarrow> is_open a) (deposit_assignment s)
     then Inr ((), s\<lparr>deposit_assignment := update_where (\<lambda>a. as_id a = i) f (deposit_assignment s)\<rparr>) else Inl DatabaseError)"

definition releaseAssignment :: "tx_ctx \<Rightarrow> string \<Rightarrow> string \<Rightarrow> int option \<Rightarrow> (string \<times> js) list \<Rightarrow> ('x custody_db_scheme, bool) cmd" where
  "releaseAssignment ctx assignmentId reason cooldownSeconds auditSubject =
     (let cooldown = (case cooldownSeconds of None \<Rightarrow> DEFAULT_DEPOSIT_COOLDOWN_SECONDS | Some c \<Rightarrow> c)
      in bindC (unlessC (\<not> cooldown < 0) (CoreError INVALID_ARGUMENT)) (\<lambda>_.
         bindC (readC (find_assignment assignmentId)) (\<lambda>row.
         bindC (foundC NoResultError row) (\<lambda>a.
         bindC (assertLockOrder L_deposit_address) (\<lambda>_.
         bindC (readC (find_address (as_address a))) (\<lambda>locked.
         bindC (foundC NoResultError locked) (\<lambda>_.
         bindC (readC (find_assignment (as_id a))) (\<lambda>row.
         bindC (foundC NoResultError row) (\<lambda>current.
         if \<not> is_open current then returnC False
         else bindC (readC clock) (\<lambda>now.
           bindC (update_assignment (as_id a) (\<lambda>x. x\<lparr>as_released_at := Some now, as_reason := Some reason\<rparr>)) (\<lambda>_.
           bindC (update_address (as_address a) (\<lambda>x. x\<lparr>da_status := COOLDOWN, da_cooldown_until := Some (now + cooldown)\<rparr>)) (\<lambda>_.
           bindC (appendAudit ctx ''deposit_address.released'' ''deposit_address'' (Some (as_address a)) JUndefined
             (JObj (auditSubject @ [(''reason'', JStr reason), (''cooldown_seconds'', JNum cooldown)]))) (\<lambda>_.
           returnC True)))))))))))))"

definition releaseDepositAssignment :: "tx_ctx \<Rightarrow> js \<Rightarrow> string \<Rightarrow> int option \<Rightarrow> ('x custody_db_scheme, bool) cmd" where
  "releaseDepositAssignment ctx tradeId reason cooldownSeconds =
     bindC (liftC (requireOneOf (JStr reason) [''TRADE_COMPLETED'', ''TRADE_CANCELLED''])) (\<lambda>reason.
     bindC (liftC (requireUuid tradeId)) (\<lambda>trade.
     bindC (readC (\<lambda>s. List.find (\<lambda>a. as_trade a = Some trade) (deposit_assignment s))) (\<lambda>row.
     bindC (foundC (CoreError NOT_FOUND) row) (\<lambda>a.
     releaseAssignment ctx (as_id a) reason cooldownSeconds [(''trade_id'', JStr trade)]))))"

definition releaseSubjectAssignment :: "tx_ctx \<Rightarrow> deposit_subject \<Rightarrow> string \<Rightarrow> int option \<Rightarrow> ('x custody_db_scheme, bool) cmd" where
  "releaseSubjectAssignment ctx subject reason cooldownSeconds =
     bindC (liftC (requireOneOf (JStr reason) [''OBLIGATION_SETTLED'', ''OBLIGATION_CANCELLED'', ''TRADER_CLOSED''])) (\<lambda>reason.
     bindC (openAssignment subject) (\<lambda>open_one.
     case open_one of None \<Rightarrow> returnC False
     | Some a \<Rightarrow> releaseAssignment ctx (dp_assignment_id a) reason cooldownSeconds (subject_audit subject)))"

text \<open>\<open>earmarked\<close> is \<^verbatim>\<open>inrp2p_address_earmarked\<close>: the money a trade still has to pay on from an address.\<close>

definition due_addresses :: "('x custody_db_scheme \<Rightarrow> string \<Rightarrow> int) \<Rightarrow> nat \<Rightarrow> 'x custody_db_scheme \<Rightarrow> address_row list" where
  "due_addresses earmarked limit s = take limit (sort_key (\<lambda>d. the (da_cooldown_until d)) (sort_key da_id
     (filter (\<lambda>d. da_status d = COOLDOWN \<and> the (da_cooldown_until d) \<le> clock s \<and> earmarked s (da_address d) = 0) (deposit_address s))))"

fun cool_each :: "tx_ctx \<Rightarrow> address_row list \<Rightarrow> nat \<times> nat \<Rightarrow> ('x custody_db_scheme, nat \<times> nat) cmd" where
  "cool_each ctx [] counts = returnC counts"
| "cool_each ctx (row # rows) (free, retired) =
     (let next_status = (if da_source row = FROM_POOL then AVAILABLE else RETIRED)
      in bindC (update_address (da_id row) (\<lambda>x. x\<lparr>da_status := next_status, da_cooldown_until := None\<rparr>)) (\<lambda>_.
         bindC (appendAudit ctx (if next_status = AVAILABLE then ''deposit_address.cooldown_elapsed'' else ''deposit_address.retired'')
           ''deposit_address'' (Some (da_id row)) JUndefined
           (JObj [(''status'', JStr (if next_status = AVAILABLE then ''AVAILABLE'' else ''RETIRED'')), (''by'', JStr ''cooldown'')])) (\<lambda>_.
         cool_each ctx rows (if next_status = AVAILABLE then (Suc free, retired) else (free, Suc retired)))))"

definition releaseCooledDownAddresses ::
    "('x custody_db_scheme \<Rightarrow> string \<Rightarrow> int) \<Rightarrow> tx_ctx \<Rightarrow> nat \<Rightarrow> ('x custody_db_scheme, nat \<times> nat) cmd" where
  "releaseCooledDownAddresses earmarked ctx limit =
     bindC (assertLockOrder L_deposit_address) (\<lambda>_.
     bindC (readC (due_addresses earmarked limit)) (\<lambda>due.
     cool_each ctx due (0, 0)))"

definition address_status_name :: "address_status \<Rightarrow> string" where
  "address_status_name x = (case x of AVAILABLE \<Rightarrow> ''AVAILABLE'' | ASSIGNED \<Rightarrow> ''ASSIGNED'' | COOLDOWN \<Rightarrow> ''COOLDOWN'' | RETIRED \<Rightarrow> ''RETIRED'')"

definition retireDepositAddress :: "operator_actor \<Rightarrow> tx_ctx \<Rightarrow> js \<Rightarrow> ('x custody_db_scheme, js) cmd" where
  "retireDepositAddress a = operatorHandle a ''custody:configure'' (\<lambda>ctx p d.
     bindC (liftC (requireText (js_field ''reason'' p) 500)) (\<lambda>reason.
     bindC (assertLockOrder L_deposit_address) (\<lambda>_.
     bindC (liftC (requireUuid (js_field ''depositAddressId'' p))) (\<lambda>i.
     bindC (readC (find_address i)) (\<lambda>row.
     bindC (foundC (CoreError NOT_FOUND) row) (\<lambda>before.
     if da_status before = RETIRED then returnC (JObj [(''changed'', JBool False)])
     else bindC (unlessC (da_status before \<noteq> ASSIGNED) (ReferenceError INVALID_TRANSITION)) (\<lambda>_.
       bindC (update_address (da_id before) (\<lambda>x. x\<lparr>da_status := RETIRED, da_cooldown_until := None\<rparr>)) (\<lambda>_.
       bindC (appendAudit ctx ''deposit_address.retired'' ''deposit_address'' (Some (da_id before))
         (JObj [(''status'', JStr (address_status_name (da_status before)))]) (JObj [(''status'', JStr ''RETIRED''), (''reason'', JStr reason)])) (\<lambda>_.
       returnC (JObj [(''changed'', JBool True)]))))))))))"

record deposit_pool_status =
  ps_capability :: deposit_capability
  ps_provider :: "string option"
  ps_available :: nat
  ps_assigned :: nat
  ps_cooldown :: nat
  ps_retired :: nat

definition getDepositPoolStatus :: "js \<Rightarrow> 'x custody_db_scheme \<Rightarrow> deposit_pool_status result" where
  "getDepositPoolStatus network s =
     bindR (getDepositAddressCapability network s) (\<lambda>cap.
     let count = (\<lambda>st. length (filter (\<lambda>d. da_network d = cp_network cap \<and> da_status d = st) (deposit_address s)))
     in Inr \<lparr>ps_capability = cp_capability cap, ps_provider = cp_provider cap, ps_available = count AVAILABLE,
        ps_assigned = count ASSIGNED, ps_cooldown = count COOLDOWN, ps_retired = count RETIRED\<rparr>)"

section \<open>Invariant: an address is assigned exactly while one assignment of it is open\<close>

definition open_on :: "string \<Rightarrow> assignment_row list \<Rightarrow> nat" where
  "open_on i xs = length (filter (\<lambda>a. is_open a \<and> as_address a = i) xs)"

definition addresses_ok :: "address_row list \<Rightarrow> assignment_row list \<Rightarrow> bool" where
  "addresses_ok ds xs \<longleftrightarrow> distinct (map da_id ds) \<and> distinct (map as_id xs) \<and>
     distinct (map (\<lambda>d. (da_network d, da_address d)) ds) \<and>
     (\<forall>d \<in> set ds. address_checks d \<and> open_on (da_id d) xs = (if da_status d = ASSIGNED then 1 else 0)) \<and>
     (\<forall>a \<in> set xs. as_address a \<in> da_id ` set ds)"

definition custody_ok :: "'x custody_db_scheme \<Rightarrow> bool" where
  "custody_ok s \<longleftrightarrow> addresses_ok (deposit_address s) (deposit_assignment s) \<and> fresh_ids s \<and>
     (\<forall>d \<in> set (deposit_address s). given_id s (da_id d)) \<and> (\<forall>a \<in> set (deposit_assignment s). given_id s (as_id a))"

lemma custody_ok_cong:
  assumes "custody_ok s" "deposit_address t = deposit_address s" "deposit_assignment t = deposit_assignment s"
    "uuidv7 t = uuidv7 s" "uuids s \<le> uuids t"
  shows "custody_ok t"
  using assms given_id_mono[OF _ assms(4,5)] by (auto simp: custody_ok_def fresh_ids_def)

lemma open_on_simps [simp]:
  "open_on i [] = 0"
  "open_on i (a # xs) = (if is_open a \<and> as_address a = i then 1 else 0) + open_on i xs"
  "open_on i (xs @ ys) = open_on i xs + open_on i ys"
  by (simp_all add: open_on_def)

lemma open_on_update:
  assumes "distinct (map as_id xs)" "a \<in> set xs" "is_open a" "\<not> is_open (f a)"
  shows "open_on i (update_where (\<lambda>x. as_id x = as_id a) f xs) = open_on i xs - (if as_address a = i then 1 else 0)"
  using assms(1,2)
proof (induction xs)
  case (Cons x xs)
  show ?case
  proof (cases "x = a")
    case True
    with Cons.prems have "as_id a \<notin> as_id ` set xs" by simp
    then have "\<forall>y \<in> set xs. as_id y \<noteq> as_id a" by (metis image_eqI)
    then have "update_where (\<lambda>x. as_id x = as_id a) f xs = xs" by (simp add: update_where_def map_idI)
    with True assms(3,4) show ?thesis by simp
  next
    case False
    with Cons.prems have a: "a \<in> set xs" "as_id x \<noteq> as_id a" by auto
    have "0 < open_on (as_address a) xs" using a(1) assms(3) by (auto simp: open_on_def length_greater_0_conv filter_empty_conv)
    with Cons a show ?thesis by auto
  qed
qed simp

lemma addresses_okD:
  assumes "addresses_ok ds xs"
  shows "distinct (map da_id ds)" "distinct (map as_id xs)" "distinct (map (\<lambda>d. (da_network d, da_address d)) ds)"
    "d \<in> set ds \<Longrightarrow> address_checks d" "d \<in> set ds \<Longrightarrow> open_on (da_id d) xs = (if da_status d = ASSIGNED then 1 else 0)"
    "a \<in> set xs \<Longrightarrow> as_address a \<in> da_id ` set ds"
  using assms by (auto simp: addresses_ok_def)

lemma same_address: "distinct (map da_id ds) \<Longrightarrow> d \<in> set ds \<Longrightarrow> e \<in> set ds \<Longrightarrow> da_id e = da_id d \<Longrightarrow> e = d"
  by (auto simp: distinct_map dest: inj_onD)

text \<open>One address and the assignments change together.\<close>

lemma addresses_move:
  assumes ok: "addresses_ok ds xs" and d: "d \<in> set ds"
    and f: "\<And>x. da_id (f x) = da_id x" "\<And>x. da_network (f x) = da_network x" "\<And>x. da_address (f x) = da_address x" "address_checks (f d)"
    and xs': "distinct (map as_id xs')" "\<And>a. a \<in> set xs' \<Longrightarrow> as_address a \<in> da_id ` set ds"
      "open_on (da_id d) xs' = (if da_status (f d) = ASSIGNED then 1 else 0)" "\<And>i. i \<noteq> da_id d \<Longrightarrow> open_on i xs' = open_on i xs"
  shows "addresses_ok (update_where (\<lambda>x. da_id x = da_id d) f ds) xs'"
proof -
  let ?ds = "update_where (\<lambda>x. da_id x = da_id d) f ds"
  have ids: "map da_id ?ds = map da_id ds" and texts: "map (\<lambda>d. (da_network d, da_address d)) ?ds = map (\<lambda>d. (da_network d, da_address d)) ds"
    using f by (simp_all add: update_where_def)
  have "da_id ` set ?ds = da_id ` set ds" using ids by (metis list.set_map)
  moreover have "address_checks x \<and> open_on (da_id x) xs' = (if da_status x = ASSIGNED then 1 else 0)" if "x \<in> set ?ds" for x
  proof -
    from that obtain y where y: "y \<in> set ds" "x = (if da_id y = da_id d then f y else y)" by (auto simp: set_update_where)
    show ?thesis
    proof (cases "da_id y = da_id d")
      case True
      then have "y = d" using same_address[OF addresses_okD(1)[OF ok] d y(1)] by simp
      with y f xs' show ?thesis by simp
    next
      case False
      with y xs'(4)[of "da_id y"] addresses_okD(4,5)[OF ok y(1)] show ?thesis by simp
    qed
  qed
  ultimately show ?thesis using addresses_okD(1,3)[OF ok] xs' by (simp add: addresses_ok_def ids texts)
qed

lemma addresses_add:
  assumes ok: "addresses_ok ds xs" and d: "da_id d \<notin> da_id ` set ds" "address_checks d"
    and free: "\<And>q. q \<in> set ds \<Longrightarrow> (da_network q, da_address q) \<noteq> (da_network d, da_address d)"
    and xs': "xs' = xs \<or> (\<exists>a. xs' = xs @ [a] \<and> as_address a = da_id d \<and> as_id a \<notin> as_id ` set xs)"
      "open_on (da_id d) xs' = (if da_status d = ASSIGNED then 1 else 0)"
  shows "addresses_ok (ds @ [d]) xs'"
proof -
  have other: "open_on (da_id q) xs' = open_on (da_id q) xs" if "q \<in> set ds" for q using that xs'(1) d(1) by auto
  have "(da_network d, da_address d) \<notin> (\<lambda>d. (da_network d, da_address d)) ` set ds" using free by (metis (no_types, lifting) imageE)
  then have "distinct (map (\<lambda>d. (da_network d, da_address d)) (ds @ [d]))" using addresses_okD(3)[OF ok] by simp
  moreover have "distinct (map as_id xs')" using addresses_okD(2)[OF ok] xs'(1) by auto
  ultimately show ?thesis
    using addresses_okD[OF ok] d xs' other unfolding addresses_ok_def by auto
qed

lemma no_open_elsewhere: "addresses_ok ds xs \<Longrightarrow> i \<notin> da_id ` set ds \<Longrightarrow> open_on i xs = 0"
  using addresses_okD(6) by (fastforce simp: open_on_def filter_empty_conv)

section \<open>Every operation keeps it\<close>

lemma readonly:
  "capabilityC n s = Inr (x, t) \<Longrightarrow> t = s" "requireAdapterMatchesRecord adapter network c s = Inr (y, t) \<Longrightarrow> t = s"
  "requireDepositPoolWallet network w s = Inr (z, t) \<Longrightarrow> t = s" "openAssignment subject s = Inr (o', t) \<Longrightarrow> t = s"
  by (auto simp: capabilityC_def requireAdapterMatchesRecord_def requireDepositPoolWallet_def openAssignment_def split: if_splits prod.splits)

lemma custody_frames [inv_intros]:
  "keeps custody_ok (appendAudit ctx action ty i before after)" "keeps custody_ok (authorizeOperator a permission)"
  "keeps custody_ok (capabilityC n)" "keeps custody_ok (requireAdapterMatchesRecord adapter network c)"
  "keeps custody_ok (requireDepositPoolWallet network w)" "keeps custody_ok (openAssignment subject)"
  "keeps custody_ok freshId" "keeps custody_ok (assertLockOrder l)"
  by (auto simp: keeps_def assertLockOrder_def intro: custody_ok_cong dest: readonly authorize_state split: if_splits)

lemma custody_okD:
  assumes "custody_ok s"
  shows "addresses_ok (deposit_address s) (deposit_assignment s)" "fresh_ids s"
    "d \<in> set (deposit_address s) \<Longrightarrow> given_id s (da_id d)" "a \<in> set (deposit_assignment s) \<Longrightarrow> given_id s (as_id a)"
  using assms by (auto simp: custody_ok_def)

lemma new_ids:
  assumes ok: "custody_ok s"
  shows "uuidv7 s (uuids s) \<notin> da_id ` set (deposit_address s)" "uuidv7 s (uuids s) \<notin> as_id ` set (deposit_assignment s)"
    "uuidv7 s (Suc (uuids s)) \<notin> as_id ` set (deposit_assignment s)"
  using next_id_new[OF custody_okD(2)[OF ok], of 0] next_id_new[OF custody_okD(2)[OF ok], of 1] custody_okD(3,4)[OF ok] by auto

lemma pool_candidate_Some: "pool_candidate adapter network s = Some d \<Longrightarrow> d \<in> set (deposit_address s) \<and> da_status d = AVAILABLE"
proof -
  let ?rows = "sort_key da_created_at (sort_key da_id (filter (\<lambda>d. da_network d = network \<and> da_status d = AVAILABLE \<and>
        da_provider d = ca_provider adapter) (deposit_address s)))"
  assume "pool_candidate adapter network s = Some d"
  then obtain rest where eq: "?rows = d # rest" by (auto simp: pool_candidate_def split: list.splits)
  have "d \<in> set ?rows" unfolding eq by simp
  then show ?thesis by simp
qed

lemma update_address_run:
  assumes "distinct (map da_id (deposit_address s))" "d \<in> set (deposit_address s)"
  shows "update_address (da_id d) f s = (if address_step (da_status d) (da_status (f d)) \<and> address_checks (f d)
    then Inr ((), s\<lparr>deposit_address := update_where (\<lambda>x. da_id x = da_id d) f (deposit_address s)\<rparr>) else Inl DatabaseError)"
  using list_all_unique[OF assms, of "\<lambda>d. address_step (da_status d) (da_status (f d)) \<and> address_checks (f d)"]
  by (simp add: update_address_def)

lemma import_one_keeps:
  "keeps custody_ok (bindC freshId (\<lambda>i. bindC (readC clock) (\<lambda>now.
     insert_address (new_address adapter ctx walletId network a FROM_POOL i now))) :: ('x custody_db_scheme, bool) cmd)"
proof (rule keepsI)
  fix s :: "'x custody_db_scheme" and r t
  assume ok: "custody_ok s" and run: "bindC freshId (\<lambda>i. bindC (readC clock) (\<lambda>now. insert_address (new_address adapter ctx walletId network a FROM_POOL i now))) s = Inr (r, t)"
  let ?i = "uuidv7 s (uuids s)"
  let ?d = "new_address adapter ctx walletId network a FROM_POOL ?i (clock s)"
  have mono: "given_id (s\<lparr>uuids := Suc (uuids s)\<rparr>) i" if "given_id s i" for i by (rule given_id_mono[OF that]) simp_all
  show "custody_ok t"
  proof (cases "new_address_clash ?d (s\<lparr>uuids := Suc (uuids s)\<rparr>)")
    case True
    with run show ?thesis by (auto simp: insert_address_def intro: custody_ok_cong[OF ok])
  next
    case False
    then have t: "t = s\<lparr>uuids := Suc (uuids s), deposit_address := deposit_address s @ [?d]\<rparr>" using run by (simp add: insert_address_def)
    have "addresses_ok (deposit_address s @ [?d]) (deposit_assignment s)"
    proof (rule addresses_add[OF custody_okD(1)[OF ok]])
      show "open_on (da_id ?d) (deposit_assignment s) = (if da_status ?d = ASSIGNED then 1 else 0)"
        using no_open_elsewhere[OF custody_okD(1)[OF ok] new_ids(1)[OF ok]] by (simp add: new_address_def)
    qed (use new_ids(1)[OF ok] False in \<open>auto simp: new_address_def address_checks_def new_address_clash_def list_ex_iff\<close>)
    moreover have "given_id t ?i" by (auto simp: given_id_def t)
    ultimately show ?thesis using ok mono by (auto simp: custody_ok_def t new_address_def fresh_ids_def given_id_def)
  qed
qed

lemma import_keeps: "keeps custody_ok (import_each H adapter ctx walletId network provided n)"
proof (induction provided arbitrary: n)
  case (Cons a rest)
  have eq: "import_each H adapter ctx walletId network (a # rest) n = bindC (unlessC (isTronAddress H (pa_address a)) (ReferenceError INVALID_ADDRESS)) (\<lambda>_.
      bindC (bindC freshId (\<lambda>i. bindC (readC clock) (\<lambda>now. insert_address (new_address adapter ctx walletId network a FROM_POOL i now))))
        (\<lambda>r. import_each H adapter ctx walletId network rest (if r then Suc n else n)))" by (simp add: bindC_assoc)
  show ?case unfolding eq by (intro keeps_bind keeps_basic import_one_keeps Cons.IH)
qed (simp add: keeps_basic)

text \<open>Taking or deriving an address, and the assignment written right after it.\<close>

definition obtains_address :: "('x custody_db_scheme, string \<times> string) cmd \<Rightarrow> bool" where
  "obtains_address m \<longleftrightarrow> (\<forall>s i address t a. custody_ok s \<longrightarrow> m s = Inr ((i, address), t) \<longrightarrow>
     as_address a = i \<longrightarrow> is_open a \<longrightarrow> as_id a = uuidv7 t (uuids t) \<longrightarrow>
     custody_ok (t\<lparr>uuids := Suc (uuids t), deposit_assignment := deposit_assignment t @ [a]\<rparr>))"

lemma given_update:
  "\<forall>d \<in> set ds. given_id s (k d) \<Longrightarrow> (\<And>x. k (f x) = k x) \<Longrightarrow> (\<And>j. given_id s j \<Longrightarrow> given_id t j) \<Longrightarrow>
   \<forall>d \<in> set (update_where p f ds). given_id t (k d)"
  by (auto simp: set_update_where)

lemma given_more:
  "given_id s j \<Longrightarrow> uuidv7 t = uuidv7 s \<Longrightarrow> uuids s \<le> uuids t \<Longrightarrow> given_id t j"
  "n < uuids t \<Longrightarrow> given_id t (uuidv7 t n)"
  using given_id_mono by (auto simp: given_id_def intro: order_less_le_trans)

lemma pool_obtains: "obtains_address (take_from_pool adapter network :: ('x custody_db_scheme, string \<times> string) cmd)"
  unfolding obtains_address_def
proof (intro allI impI)
  fix s t :: "'x custody_db_scheme" and i address a
  assume ok: "custody_ok s" and run: "take_from_pool adapter network s = Inr ((i, address), t)"
    and a: "as_address a = i" "is_open a" "as_id a = uuidv7 t (uuids t)"
  let ?f = "\<lambda>x. x\<lparr>da_status := ASSIGNED\<rparr>" and ?t = "t\<lparr>uuids := Suc (uuids t), deposit_assignment := deposit_assignment t @ [a]\<rparr>"
  from run obtain d where d: "pool_candidate adapter network s = Some d" and up: "update_address (da_id d) ?f s = Inr ((), t)" and i: "i = da_id d"
    by (auto simp: take_from_pool_def)
  from pool_candidate_Some[OF d] have mem: "d \<in> set (deposit_address s)" "da_status d = AVAILABLE" by auto
  note A = custody_okD(1)[OF ok]
  have t: "t = s\<lparr>deposit_address := update_where (\<lambda>x. da_id x = da_id d) ?f (deposit_address s)\<rparr>" and chk: "address_checks (?f d)"
    using up update_address_run[OF addresses_okD(1)[OF A] mem(1), of ?f] by (simp_all split: if_splits)
  have none: "open_on (da_id d) (deposit_assignment s) = 0" using addresses_okD(5)[OF A mem(1)] mem(2) by simp
  have "addresses_ok (update_where (\<lambda>x. da_id x = da_id d) ?f (deposit_address s)) (deposit_assignment s @ [a])"
    by (rule addresses_move[OF A mem(1)])
      (use chk none a i t new_ids(2)[OF ok] addresses_okD(2,6)[OF A] mem in auto)
  moreover have keep: "given_id ?t j" if "given_id s j" for j by (rule given_more(1)[OF that]) (simp_all add: t)
  moreover have "given_id ?t (as_id a)" using given_more(2)[of "uuids t" ?t] a by simp
  moreover have "\<forall>d \<in> set (update_where (\<lambda>x. da_id x = da_id d) ?f (deposit_address s)). given_id ?t (da_id d)"
    by (rule given_update[of _ s]) (use custody_okD(3)[OF ok] keep in simp_all)
  ultimately show "custody_ok ?t" using custody_okD(2,4)[OF ok] by (auto simp: custody_ok_def fresh_ids_def t)
qed

lemma derive_obtains: "obtains_address (derive_new H adapter ctx network reference walletId :: ('x custody_db_scheme, string \<times> string) cmd)"
  unfolding obtains_address_def
proof (intro allI impI)
  fix s t :: "'x custody_db_scheme" and i address a
  assume ok: "custody_ok s" and run: "derive_new H adapter ctx network reference walletId s = Inr ((i, address), t)"
    and a: "as_address a = i" "is_open a" "as_id a = uuidv7 t (uuids t)"
  let ?t = "t\<lparr>uuids := Suc (uuids t), deposit_assignment := deposit_assignment t @ [a]\<rparr>"
  let ?new = "\<lambda>wallet provided. new_address adapter ctx wallet network provided FROM_DERIVED (uuidv7 s (uuids s)) (clock s)"
  let ?s = "s\<lparr>custody_derivation_index := custody_derivation_index s + 1, uuids := Suc (uuids s)\<rparr>"
  from run obtain wallet provided where clash: "\<not> new_address_clash (?new wallet provided) ?s" and i: "i = uuidv7 s (uuids s)"
    and t: "t = ?s\<lparr>deposit_address := deposit_address s @ [?new wallet provided]\<rparr>"
    by (auto simp: derive_new_def insert_address_def split: if_splits dest!: readonly(3))
  define d where "d = ?new wallet provided"
  have d: "da_id d = i" "da_status d = ASSIGNED" "address_checks d" by (simp_all add: d_def new_address_def address_checks_def i)
  have free: "(da_network q, da_address q) \<noteq> (da_network d, da_address d)" if "q \<in> set (deposit_address s)" for q
    using clash that by (auto simp: new_address_clash_def list_ex_iff d_def)
  note A = custody_okD(1)[OF ok]
  have new: "da_id d \<notin> da_id ` set (deposit_address s)" using new_ids(1)[OF ok] d i by simp
  have aid: "as_id a = uuidv7 s (Suc (uuids s))" using a t by simp
  have "addresses_ok (deposit_address s @ [d]) (deposit_assignment s @ [a])"
    by (rule addresses_add[OF A new d(3) free])
      (use a aid d new_ids(3)[OF ok] no_open_elsewhere[OF A new] in auto)
  moreover have "given_id ?t j" if "given_id s j" for j by (rule given_more(1)[OF that]) (simp_all add: t)
  moreover have "given_id ?t (as_id a)" "given_id ?t (da_id d)"
    using given_more(2)[of "Suc (uuids s)" ?t] given_more(2)[of "uuids s" ?t] aid d i by (simp_all add: t)
  ultimately show "custody_ok ?t" using custody_okD(2-4)[OF ok] by (auto simp: custody_ok_def fresh_ids_def t simp flip: d_def)
qed

lemma custody_rank [simp]: "custody_ok (s\<lparr>tx_rank := n\<rparr>) = custody_ok s"
  by (auto intro!: custody_ok_cong[of "s\<lparr>tx_rank := n\<rparr>" s] custody_ok_cong[of s "s\<lparr>tx_rank := n\<rparr>"])

lemma assign_after:
  fixes m :: "('x custody_db_scheme, string \<times> string) cmd"
  assumes m: "obtains_address m"
  shows "keeps custody_ok (bindC m (\<lambda>(i, address). assign_address adapter ctx capability subject expected i address))"
proof (rule keepsI)
  fix s :: "'x custody_db_scheme" and x t
  assume ok: "custody_ok s" and run: "bindC m (\<lambda>(i, address). assign_address adapter ctx capability subject expected i address) s = Inr (x, t)"
  then obtain i address s' where got: "m s = Inr ((i, address), s')" and fin: "assign_address adapter ctx capability subject expected i address s' = Inr (x, t)"
    by auto
  from fin obtain trade trader obligation where cols: "subjectColumns subject = Inr (trade, trader, obligation)"
    by (auto simp: assign_address_def split: prod.splits)
  let ?a = "\<lparr>as_id = uuidv7 s' (uuids s'), as_address = i, as_trade = trade, as_trader = trader, as_obligation = obligation,
       as_expected = minor expected, as_assigned_at = clock s', as_released_at = None, as_reason = None, as_created_by = actorLabel ctx\<rparr>"
  obtain rows where t: "t = s'\<lparr>uuids := Suc (uuids s'), deposit_assignment := deposit_assignment s' @ [?a]\<rparr>\<lparr>audit_event := rows\<rparr>"
    using fin cols by (auto simp: assign_address_def insert_assignment_def split: if_splits)
  have "custody_ok (s'\<lparr>uuids := Suc (uuids s'), deposit_assignment := deposit_assignment s' @ [?a]\<rparr>)"
    using m got ok unfolding obtains_address_def by (simp add: is_open_def)
  then show "custody_ok t" by (rule custody_ok_cong) (simp_all add: t)
qed

lemma allocate_keeps: "keeps custody_ok (allocateAddressFor H adapter ctx network subject reference expected walletId)"
  unfolding allocateAddressFor_def
  by (intro inv_intros assign_after) (simp add: pool_obtains derive_obtains)

lemma allocations_keep:
  "keeps custody_ok (allocateDepositAddress H adapter ctx network tradeId tradeRef expected walletId)"
  "keeps custody_ok (allocateTraderReserveAddress H adapter ctx network traderId traderRef expected)"
  "keeps custody_ok (allocateObligationDeliveryAddress H adapter ctx network obligationId reference expected)"
  unfolding allocateDepositAddress_def allocateTraderReserveAddress_def allocateObligationDeliveryAddress_def
  by (auto intro!: inv_intros allocate_keeps split: option.splits)

lemma release_assignment_keeps: "keeps custody_ok (releaseAssignment ctx i reason cooldown subject)"
proof (rule keepsI)
  fix s :: "'a custody_db_scheme" and x t
  assume ok: "custody_ok s" and run: "releaseAssignment ctx i reason cooldown subject s = Inr (x, t)"
  let ?s = "s\<lparr>tx_rank := lock_rank L_deposit_address\<rparr>"
  let ?f = "\<lambda>c x. x\<lparr>da_status := COOLDOWN, da_cooldown_until := Some (clock s + c)\<rparr>"
  let ?g = "\<lambda>x. x\<lparr>as_released_at := Some (clock s), as_reason := Some reason\<rparr>"
  note A = custody_okD(1)[OF ok]
  from run obtain a where a: "find_assignment i s = Some a" by (auto simp: releaseAssignment_def Let_def split: if_splits)
  then have mem: "a \<in> set (deposit_assignment s)" "as_id a = i" using find_Some_mem by (fastforce simp: find_assignment_def)+
  show "custody_ok t"
  proof (cases "is_open a")
    case False
    then have "t = ?s" using run a mem by (auto simp: releaseAssignment_def Let_def assertLockOrder_def find_assignment_def find_address_def split: if_splits)
    with ok show ?thesis by simp
  next
    case True
    define c where "c = (case cooldown of None \<Rightarrow> DEFAULT_DEPOSIT_COOLDOWN_SECONDS | Some c \<Rightarrow> c)"
    from addresses_okD(6)[OF A mem(1)] obtain d where d: "d \<in> set (deposit_address s)" "da_id d = as_address a" by auto
    obtain rows where t: "t = s\<lparr>tx_rank := lock_rank L_deposit_address, deposit_assignment := update_where (\<lambda>x. as_id x = as_id a) ?g (deposit_assignment s),
        deposit_address := update_where (\<lambda>x. da_id x = da_id d) (?f c) (deposit_address s), audit_event := rows\<rparr>"
      using run a mem True d(2) by (auto simp: releaseAssignment_def Let_def assertLockOrder_def find_assignment_def find_address_def update_assignment_def
          update_address_def c_def split: if_splits)
    have "0 < open_on (da_id d) (deposit_assignment s)" using mem True d by (auto simp: open_on_def filter_empty_conv)
    then have one: "open_on (da_id d) (deposit_assignment s) = 1" using addresses_okD(5)[OF A d(1)] by (simp split: if_splits)
    note upd = open_on_update[OF addresses_okD(2)[OF A] mem(1) True, of ?g]
    have "addresses_ok (update_where (\<lambda>x. da_id x = da_id d) (?f c) (deposit_address s)) (update_where (\<lambda>x. as_id x = as_id a) ?g (deposit_assignment s))"
    proof (rule addresses_move[OF A d(1)])
      show "distinct (map as_id (update_where (\<lambda>x. as_id x = as_id a) ?g (deposit_assignment s)))" using addresses_okD(2)[OF A] by simp
      show "y \<in> set (update_where (\<lambda>x. as_id x = as_id a) ?g (deposit_assignment s)) \<Longrightarrow> as_address y \<in> da_id ` set (deposit_address s)" for y
        using addresses_okD(6)[OF A] by (auto simp: set_update_where split: if_splits)
    qed (use d one upd in \<open>simp_all add: is_open_def address_checks_def\<close>)
    moreover have keep: "given_id t j" if "given_id s j" for j by (rule given_more(1)[OF that]) (simp_all add: t)
    moreover have "\<forall>x \<in> set (update_where (\<lambda>x. da_id x = da_id d) (?f c) (deposit_address s)). given_id t (da_id x)"
      "\<forall>x \<in> set (update_where (\<lambda>x. as_id x = as_id a) ?g (deposit_assignment s)). given_id t (as_id x)"
      by (rule given_update[of _ s], use custody_okD(3,4)[OF ok] keep in simp_all)+
    ultimately show ?thesis using custody_okD(2)[OF ok] by (simp add: custody_ok_def t fresh_ids_def)
  qed
qed

text \<open>An address that is not being assigned or cooled down may change freely: the status steps keep an assigned one out.\<close>

lemma calm_update_keeps:
  assumes f: "\<And>x. da_id (f x) = da_id x" "\<And>x. da_network (f x) = da_network x" "\<And>x. da_address (f x) = da_address x"
    and st: "\<And>x. da_status (f x) \<in> {AVAILABLE, RETIRED}"
  shows "keeps custody_ok (update_address i f :: ('x custody_db_scheme, unit) cmd)"
proof (rule keepsI)
  fix s :: "'x custody_db_scheme" and u t
  assume ok: "custody_ok s" and run: "update_address i f s = Inr (u, t)"
  then have t: "t = s\<lparr>deposit_address := update_where (\<lambda>d. da_id d = i) f (deposit_address s)\<rparr>"
    and guard: "\<And>d. d \<in> set (deposit_address s) \<Longrightarrow> da_id d = i \<Longrightarrow> address_step (da_status d) (da_status (f d)) \<and> address_checks (f d)"
    by (auto simp: update_address_def list_all_iff split: if_splits)
  note A = custody_okD(1)[OF ok]
  have "addresses_ok (update_where (\<lambda>d. da_id d = i) f (deposit_address s)) (deposit_assignment s)"
  proof (cases "\<exists>d \<in> set (deposit_address s). da_id d = i")
    case True
    then obtain d where d: "d \<in> set (deposit_address s)" "da_id d = i" by blast
    have calm: "da_status d \<noteq> ASSIGNED" "da_status (f d) \<noteq> ASSIGNED" "address_checks (f d)" using guard[OF d] st[of d] by (auto simp: address_step_def)
    show ?thesis unfolding d(2)[symmetric]
      by (rule addresses_move[OF A d(1)]) (use f calm addresses_okD[OF A] d in auto)
  next
    case False
    then have "update_where (\<lambda>d. da_id d = i) f (deposit_address s) = deposit_address s" by (auto simp: update_where_def intro: map_idI)
    with A show ?thesis by simp
  qed
  moreover have "\<forall>d \<in> set (update_where (\<lambda>d. da_id d = i) f (deposit_address s)). given_id t (da_id d)"
    by (rule given_update[of _ s]) (use custody_okD(3)[OF ok] f in \<open>auto simp: t given_id_def\<close>)
  ultimately show "custody_ok t" using custody_okD(2,4)[OF ok] by (auto simp: custody_ok_def t fresh_ids_def given_id_def)
qed

lemma cool_keeps: "keeps custody_ok (cool_each ctx rows counts)"
proof (induction rows arbitrary: counts)
  case (Cons row rows)
  show ?case
  proof (cases counts)
    case (Pair free retired)
    show ?thesis unfolding Pair cool_each.simps Let_def
      by (intro keeps_bind custody_frames Cons.IH calm_update_keeps) auto
  qed
qed (simp add: keeps_basic)

lemma record_capability_keeps: "keeps custody_ok (recordCustodyCapability a ctx p)"
proof -
  have w: "keeps custody_ok (writeC (\<lambda>s. s\<lparr>custody_provider_config := custody_provider_config s @ [c]\<rparr>))" for c
    by (rule keeps_write) (auto intro: custody_ok_cong)
  show ?thesis unfolding recordCustodyCapability_def operatorHandle_def Let_def by (intro inv_intros w)
qed

lemma import_pool_keeps: "keeps custody_ok (importPoolAddresses H a adapter ctx p)"
  unfolding importPoolAddresses_def operatorHandle_def by (intro inv_intros import_keeps)

lemma releases_keep:
  "keeps custody_ok (releaseDepositAssignment ctx tradeId reason cooldown)"
  "keeps custody_ok (releaseSubjectAssignment ctx subject reason cooldown)"
  unfolding releaseDepositAssignment_def releaseSubjectAssignment_def
  by (auto intro!: inv_intros release_assignment_keeps split: option.splits)

lemma cooldown_keeps: "keeps custody_ok (releaseCooledDownAddresses earmarked ctx limit)"
  unfolding releaseCooledDownAddresses_def by (intro inv_intros cool_keeps)

lemma retire_keeps: "keeps custody_ok (retireDepositAddress a ctx p)"
  unfolding retireDepositAddress_def operatorHandle_def
  by (intro inv_intros calm_update_keeps) simp_all

section \<open>Any sequence of calls\<close>

datatype 'x custody_call =
    RecordCapability operator_actor tx_ctx js
  | ImportPool "byte list \<Rightarrow> byte list" operator_actor custody_adapter tx_ctx js
  | AssignTrade "byte list \<Rightarrow> byte list" custody_adapter tx_ctx js js js money js
  | AssignTrader "byte list \<Rightarrow> byte list" custody_adapter tx_ctx js js js money
  | AssignObligation "byte list \<Rightarrow> byte list" custody_adapter tx_ctx js js js money
  | ReleaseTrade tx_ctx js string "int option"
  | ReleaseSubject tx_ctx deposit_subject string "int option"
  | CoolDown "'x custody_db_scheme \<Rightarrow> string \<Rightarrow> int" tx_ctx nat
  | Retire operator_actor tx_ctx js

definition done_with :: "('s, 'a) cmd \<Rightarrow> ('s, unit) cmd" where
  "done_with m = bindC m (\<lambda>_. returnC ())"

fun run_custody :: "'x custody_call \<Rightarrow> ('x custody_db_scheme, unit) cmd" where
  "run_custody (RecordCapability a ctx p) = done_with (recordCustodyCapability a ctx p)"
| "run_custody (ImportPool H a adapter ctx p) = done_with (importPoolAddresses H a adapter ctx p)"
| "run_custody (AssignTrade H adapter ctx network i ref amount w) = done_with (allocateDepositAddress H adapter ctx network i ref amount w)"
| "run_custody (AssignTrader H adapter ctx network i ref amount) = done_with (allocateTraderReserveAddress H adapter ctx network i ref amount)"
| "run_custody (AssignObligation H adapter ctx network i ref amount) = done_with (allocateObligationDeliveryAddress H adapter ctx network i ref amount)"
| "run_custody (ReleaseTrade ctx i reason c) = done_with (releaseDepositAssignment ctx i reason c)"
| "run_custody (ReleaseSubject ctx subject reason c) = done_with (releaseSubjectAssignment ctx subject reason c)"
| "run_custody (CoolDown earmarked ctx limit) = done_with (releaseCooledDownAddresses earmarked ctx limit)"
| "run_custody (Retire a ctx p) = done_with (retireDepositAddress a ctx p)"

definition run_custodies :: "'x custody_call list \<Rightarrow> 'x custody_db_scheme \<Rightarrow> 'x custody_db_scheme" where
  "run_custodies cs s = fold (\<lambda>c s. snd (runTx (run_custody c) (s\<lparr>tx_rank := - 1\<rparr>))) cs s"

lemma done_keeps: "keeps I m \<Longrightarrow> keeps I (done_with m)"
  unfolding done_with_def by (intro keeps_bind keeps_basic)

lemma custody_keeps: "keeps custody_ok (run_custody c)"
  by (cases c) (auto intro!: done_keeps record_capability_keeps import_pool_keeps allocations_keep releases_keep cooldown_keeps retire_keeps)

lemma custodies_keep: "custody_ok s \<Longrightarrow> custody_ok (run_custodies cs s)"
proof (induction cs arbitrary: s)
  case (Cons c cs)
  have "custody_ok (snd (runTx (run_custody c) (s\<lparr>tx_rank := - 1\<rparr>)))"
    using keepsD[OF custody_keeps[of c], of "s\<lparr>tx_rank := - 1\<rparr>"] Cons.prems by (auto simp: runTx_def split: sum.splits)
  with Cons.IH show ?case by (simp add: run_custodies_def)
qed (simp add: run_custodies_def)

section \<open>Properties\<close>

text \<open>C17: after any sequence of assignments, releases, imports, cooldowns and retirements, successful or
  refused and whatever the provider answers, no deposit address belongs to two open assignments, even under two records, so money
  arriving there has one owner (FI-26); an address is marked assigned exactly while an assignment of it is open.\<close>

theorem deposit_address_never_shared:
  fixes s :: "'x custody_db_scheme" and cs :: "'x custody_call list"
  assumes "custody_ok s"
  defines "t \<equiv> run_custodies cs s"
  shows "(\<forall>a \<in> set (deposit_assignment t). \<forall>b \<in> set (deposit_assignment t). \<forall>d \<in> set (deposit_address t). \<forall>e \<in> set (deposit_address t).
      is_open a \<and> is_open b \<and> as_address a = da_id d \<and> as_address b = da_id e \<and> da_network d = da_network e \<and> da_address d = da_address e \<longrightarrow> a = b) \<and>
    (\<forall>d \<in> set (deposit_address t). da_status d = ASSIGNED \<longleftrightarrow> (\<exists>a \<in> set (deposit_assignment t). is_open a \<and> as_address a = da_id d))"
proof -
  have A: "addresses_ok (deposit_address t) (deposit_assignment t)" unfolding t_def by (rule custody_okD(1)[OF custodies_keep[OF assms(1)]])
  have "a = b" if a: "a \<in> set (deposit_assignment t)" "is_open a" "as_address a = da_id d" and b: "b \<in> set (deposit_assignment t)" "is_open b" "as_address b = da_id e"
    and d: "d \<in> set (deposit_address t)" and e: "e \<in> set (deposit_address t)" and eq: "da_network d = da_network e" "da_address d = da_address e" for a b d e
  proof -
    have "d = e" using addresses_okD(3)[OF A] d e eq by (auto simp: distinct_map dest: inj_onD)
    let ?open = "filter (\<lambda>x. is_open x \<and> as_address x = da_id d) (deposit_assignment t)"
    have "length ?open \<le> 1" using addresses_okD(5)[OF A d] by (simp add: open_on_def split: if_splits)
    moreover have "a \<in> set ?open" "b \<in> set ?open" using a b \<open>d = e\<close> by simp_all
    ultimately show "a = b" by (cases ?open) auto
  qed
  moreover have "da_status d = ASSIGNED \<longleftrightarrow> (\<exists>a \<in> set (deposit_assignment t). is_open a \<and> as_address a = da_id d)" if "d \<in> set (deposit_address t)" for d
  proof -
    have "da_status d = ASSIGNED \<longleftrightarrow> open_on (da_id d) (deposit_assignment t) \<noteq> 0" using addresses_okD(5)[OF A that] by (simp split: if_splits)
    then show ?thesis by (auto simp: open_on_def filter_empty_conv)
  qed
  ultimately show ?thesis by blast
qed

section \<open>A sample pool\<close>

definition sample_adapter :: custody_adapter where
  "sample_adapter = \<lparr>ca_provider = ''pool'', ca_capabilities = (\<lambda>n. Inr POOL), ca_allocate = (\<lambda>n r i. Inl TypeError), ca_list = (\<lambda>n. Inr [])\<rparr>"

definition sample_pool :: custody_db where
  "sample_pool = treasury_db.extend sample_treasury (custody_db.fields
     [\<lparr>cc_id = ''c'', cc_provider = ''pool'', cc_network = ''TRON'', cc_capability = POOL, cc_consolidation = None, cc_notes = None,
       cc_verified_by = ''u1'', cc_verified_at = 1\<rparr>] 0
     [\<lparr>da_id = reservation_uuid, da_wallet = ''id-1'', da_network = ''TRON'', da_address = ''Taddr'', da_source = FROM_POOL, da_provider = ''pool'',
       da_reference = ''1'', da_status = AVAILABLE, da_cooldown_until = None, da_created_by = ''u1'', da_created_at = 1\<rparr>] [])"

lemma sample_pool_ok: "custody_ok sample_pool"
proof -
  have "fresh_ids sample_pool" using sample_treasury_ok
    by (simp add: treasury_ok_def fresh_ids_def sample_pool_def treasury_db.defs custody_db.defs)
  moreover have "given_id sample_pool reservation_uuid" unfolding given_id_def by (rule exI[of _ 0]) code_simp
  ultimately show ?thesis
    by (simp add: custody_ok_def addresses_ok_def address_checks_def sample_pool_def treasury_db.defs custody_db.defs)
qed

definition sample_assignments :: "unit custody_call list" where
  "sample_assignments = [AssignTrade sample_hash sample_adapter sample_ctx (JStr ''TRON'') (JStr account_uuid) (JStr ''IX-1'') (usdt 5) JUndefined,
     AssignTrade sample_hash sample_adapter sample_ctx (JStr ''TRON'') (JStr reservation_uuid) (JStr ''IX-2'') (usdt 5) JUndefined]"

text \<open>The second trade finds the pool empty.\<close>

theorem deposit_address_never_shared_witness:
  "map da_status (deposit_address (run_custodies sample_assignments sample_pool)) = [ASSIGNED] \<and>
   map as_trade (deposit_assignment (run_custodies sample_assignments sample_pool)) = [Some account_uuid] \<and>
   list_ex is_open (deposit_assignment (run_custodies sample_assignments sample_pool))"
proof -
  let ?t = "run_custodies sample_assignments sample_pool"
  have run: "map da_status (deposit_address ?t) = [ASSIGNED]" "map as_trade (deposit_assignment ?t) = [Some account_uuid]" by code_simp+
  then obtain d where d: "deposit_address ?t = [d]" "da_status d = ASSIGNED" by auto
  with deposit_address_never_shared[OF sample_pool_ok, of sample_assignments] have "\<exists>a \<in> set (deposit_assignment ?t). is_open a" by auto
  with run show ?thesis by (auto simp: list_ex_iff)
qed

end
