(* ===== verification/Routes.thy ===== *)
theory Routes
  imports Custody
begin

text \<open>
  Liquidity routes (\<^verbatim>\<open>packages/routes/src/routes.ts\<close>): who the exchange trades through, which of them are traders' own, and
  the obligation a trade opens on one. The tables' constraints (migrations 0010, 0014, 0022, 0039) are checks that throw.
  Foreign keys are not modelled.
\<close>

section \<open>Tables\<close>

datatype route_direction = SERVES direction | BOTH
datatype route_status = RT_ACTIVE | RT_PAUSED | RT_RETIRED
datatype settlement_model = PER_TRADE | PREFUNDED | NET_SETTLED
datatype execution_mode = DIRECT_TO_CLIENT | TO_EXCHANGE | P2P

record route_row =
  lr_id :: string
  lr_name :: string
  lr_direction :: route_direction
  lr_status :: route_status
  lr_model :: settlement_model
  lr_mode :: execution_mode
  lr_identity :: "string option"
  lr_address :: "string option"
  lr_available :: int
  lr_notes :: "string option"
  lr_trader :: "string option"
  lr_created_by :: string
  lr_version :: int

text \<open>The frozen terms of a trade, one row per trade.\<close>

record economics_row =
  ec_trade :: string
  ec_direction :: direction
  ec_fixed_side :: fixed_side
  ec_base :: int
  ec_quote_inr :: int
  ec_client_rate :: int
  ec_route_rate :: int
  ec_route_inr :: int
  ec_margin_inr :: int
  ec_route :: string
  ec_snapshot :: string
  ec_mode :: execution_mode
  ec_route_base :: "int option"
  ec_margin_base :: "int option"
  ec_fee_bps :: "int option"
  ec_fee_base :: "int option"
  ec_bank_account :: "string option"
  ec_wallet :: "string option"

datatype obligation_status = OB_OPEN | OB_PARTIALLY_SETTLED | OB_SETTLED | OB_CANCELLED

record obligation_row =
  ro_id :: string
  ro_ref :: string
  ro_route :: string
  ro_trade :: "string option"
  ro_direction :: direction
  ro_exchange_asset :: currency
  ro_exchange_minor :: int
  ro_route_asset :: currency
  ro_route_minor :: int
  ro_mode :: execution_mode
  ro_status :: obligation_status
  ro_settled_at :: "int option"
  ro_cancelled_at :: "int option"
  ro_created_by :: string

record route_db = custody_db +
  liquidity_route :: "route_row list"
  trader_program_mode :: "execution_mode option"
  trade_economics :: "economics_row list"
  route_obligation :: "obligation_row list"
  route_obligation_ref_seq :: nat

section \<open>What the database refuses\<close>

definition route_checks :: "route_row \<Rightarrow> bool" where
  "route_checks r \<longleftrightarrow> lr_model r = PER_TRADE \<and> 0 \<le> lr_available r \<and> lr_available r < 2 ^ 63 \<and>
     (case lr_trader r of None \<Rightarrow> lr_mode r \<noteq> P2P | Some _ \<Rightarrow> lr_mode r \<in> {TO_EXCHANGE, P2P} \<and> lr_direction r \<noteq> BOTH)"

definition route_step :: "route_status \<Rightarrow> route_status \<Rightarrow> bool" where
  "route_step x y \<longleftrightarrow> x = y \<or> (x, y) \<in> {(RT_ACTIVE, RT_PAUSED), (RT_PAUSED, RT_ACTIVE), (RT_ACTIVE, RT_RETIRED), (RT_PAUSED, RT_RETIRED)}"

definition route_clash :: "route_row \<Rightarrow> route_row \<Rightarrow> bool" where
  "route_clash r q \<longleftrightarrow> lr_name q = lr_name r \<or> lr_trader r \<noteq> None \<and> lr_trader q = lr_trader r \<and> lr_direction q = lr_direction r"

text \<open>A constraint that fails, and a unique index that refuses: the second error is the one a caller may translate.\<close>

definition insert_route :: "js_error \<Rightarrow> route_row \<Rightarrow> ('x route_db_scheme, unit) cmd" where
  "insert_route duplicate r = (\<lambda>s. if \<not> route_checks r then Inl DatabaseError
     else if list_ex (route_clash r) (liquidity_route s) then Inl duplicate
     else Inr ((), s\<lparr>liquidity_route := liquidity_route s @ [r]\<rparr>))"

definition update_route :: "js_error \<Rightarrow> string \<Rightarrow> (route_row \<Rightarrow> route_row) \<Rightarrow> ('x route_db_scheme, unit) cmd" where
  "update_route violated i f = (\<lambda>s.
     if list_all (\<lambda>r. lr_id r = i \<longrightarrow> route_step (lr_status r) (lr_status (f r))) (liquidity_route s)
     then if list_all (\<lambda>r. lr_id r = i \<longrightarrow> route_checks (f r)) (liquidity_route s)
          then Inr ((), s\<lparr>liquidity_route := update_where (\<lambda>r. lr_id r = i) f (liquidity_route s)\<rparr>) else Inl violated
     else Inl DatabaseError)"

section \<open>Names of the values\<close>

definition direction_name :: "direction \<Rightarrow> string" where
  "direction_name d = (case d of SELL_USDT \<Rightarrow> ''SELL_USDT'' | BUY_USDT \<Rightarrow> ''BUY_USDT'')"

definition direction_of :: "string \<Rightarrow> direction" where
  "direction_of t = (if t = ''SELL_USDT'' then SELL_USDT else BUY_USDT)"

definition route_direction_name :: "route_direction \<Rightarrow> string" where
  "route_direction_name x = (case x of SERVES d \<Rightarrow> direction_name d | BOTH \<Rightarrow> ''BOTH'')"

definition route_direction_of :: "string \<Rightarrow> route_direction" where
  "route_direction_of t = (if t = ''BOTH'' then BOTH else SERVES (direction_of t))"

definition execution_mode_name :: "execution_mode \<Rightarrow> string" where
  "execution_mode_name m = (case m of DIRECT_TO_CLIENT \<Rightarrow> ''DIRECT_TO_CLIENT'' | TO_EXCHANGE \<Rightarrow> ''TO_EXCHANGE'' | P2P \<Rightarrow> ''P2P'')"

definition execution_mode_of :: "string \<Rightarrow> execution_mode" where
  "execution_mode_of t = (if t = ''DIRECT_TO_CLIENT'' then DIRECT_TO_CLIENT else TO_EXCHANGE)"

definition model_name :: "settlement_model \<Rightarrow> string" where
  "model_name m = (case m of PER_TRADE \<Rightarrow> ''PER_TRADE'' | PREFUNDED \<Rightarrow> ''PREFUNDED'' | NET_SETTLED \<Rightarrow> ''NET_SETTLED'')"

definition model_of :: "string \<Rightarrow> settlement_model" where
  "model_of t = (if t = ''PER_TRADE'' then PER_TRADE else if t = ''PREFUNDED'' then PREFUNDED else NET_SETTLED)"

definition route_status_name :: "route_status \<Rightarrow> string" where
  "route_status_name x = (case x of RT_ACTIVE \<Rightarrow> ''ACTIVE'' | RT_PAUSED \<Rightarrow> ''PAUSED'' | RT_RETIRED \<Rightarrow> ''RETIRED'')"

definition route_status_of :: "string \<Rightarrow> route_status" where
  "route_status_of t = (if t = ''ACTIVE'' then RT_ACTIVE else if t = ''PAUSED'' then RT_PAUSED else RT_RETIRED)"

definition DIRECTIONS :: "string list" where "DIRECTIONS = [''SELL_USDT'', ''BUY_USDT'']"

section \<open>Reading a command's payload\<close>

definition IMPLEMENTED_SETTLEMENT_MODELS :: "settlement_model list" where
  "IMPLEMENTED_SETTLEMENT_MODELS = [PER_TRADE]"

definition ALL_MODELS :: "string list" where
  "ALL_MODELS = [''PER_TRADE'', ''PREFUNDED'', ''NET_SETTLED'']"

definition acceptedModel :: "js \<Rightarrow> settlement_model result" where
  "acceptedModel v = bindR (requireOneOf v ALL_MODELS) (\<lambda>t.
     if model_of t \<in> set IMPLEMENTED_SETTLEMENT_MODELS then Inr (model_of t) else Inl (ReferenceError ROUTE_SETTLEMENT_MODEL_UNSUPPORTED))"

definition baseAmount :: "js \<Rightarrow> int result" where
  "baseAmount v = (if v = JUndefined then Inr 0
     else bindR (parse_money v USDT) (\<lambda>m. if isNegative m then Inl (CoreError INVALID_AMOUNT) else Inr (minor m)))"

text \<open>\<^verbatim>\<open>p.registeredRouteAddress ? parseTronAddress(p.registeredRouteAddress.trim()) : null\<close>.\<close>

definition routeAddress :: "(byte list \<Rightarrow> byte list) \<Rightarrow> js \<Rightarrow> string option result" where
  "routeAddress H v = (if \<not> js_truthy v then Inr None
     else case v of JStr t \<Rightarrow> bindR (parseTronAddress H (trim t)) (\<lambda>a. Inr (Some a)) | _ \<Rightarrow> Inl TypeError)"

section \<open>Configuring routes\<close>

definition js_nullish :: "js \<Rightarrow> js \<Rightarrow> js" where
  "js_nullish v d = (if v = JUndefined \<or> v = JNull then d else v)"

definition createRoute :: "(byte list \<Rightarrow> byte list) \<Rightarrow> operator_actor \<Rightarrow> tx_ctx \<Rightarrow> js \<Rightarrow> ('x route_db_scheme, js) cmd" where
  "createRoute H a = operatorHandle a ''routes:configure'' (\<lambda>ctx p d.
     bindC (liftC (acceptedModel (js_nullish (js_field ''settlementModel'' p) (JStr ''PER_TRADE'')))) (\<lambda>model.
     bindC (liftC (requireText (js_field ''name'' p) 80)) (\<lambda>name.
     bindC (liftC (requireOneOf (js_field ''direction'' p) [''SELL_USDT'', ''BUY_USDT'', ''BOTH''])) (\<lambda>direction.
     bindC (liftC (requireOneOf (js_field ''executionMode'' p) [''DIRECT_TO_CLIENT'', ''TO_EXCHANGE''])) (\<lambda>mode.
     bindC (liftC (optionalText (js_field ''registeredPayoutIdentity'' p) 200)) (\<lambda>identity.
     bindC (liftC (routeAddress H (js_field ''registeredRouteAddress'' p))) (\<lambda>address.
     bindC (liftC (baseAmount (js_field ''availableBaseUsdt'' p))) (\<lambda>available.
     bindC (liftC (optionalText (js_field ''notes'' p) 2000)) (\<lambda>notes.
     bindC freshId (\<lambda>i.
     bindC (insert_route (CoreError INVALID_ARGUMENT) \<lparr>lr_id = i, lr_name = name, lr_direction = route_direction_of direction,
       lr_status = RT_ACTIVE, lr_model = model, lr_mode = execution_mode_of mode, lr_identity = identity, lr_address = address,
       lr_available = available, lr_notes = notes, lr_trader = None, lr_created_by = actorLabel ctx, lr_version = 1\<rparr>) (\<lambda>_.
     bindC (appendAudit ctx ''routes.created'' ''liquidity_route'' (Some i) JUndefined
       (JObj [(''id'', JStr i), (''name'', JStr name), (''direction'', JStr direction), (''status'', JStr ''ACTIVE''),
              (''settlement_model'', JStr (model_name model)), (''execution_mode'', JStr mode),
              (''registered_route_address'', js_opt address), (''available_base_minor'', JBig available)])) (\<lambda>_.
     returnC (JObj [(''routeId'', JStr i)])))))))))))))"

definition find_route :: "string \<Rightarrow> 'x route_db_scheme \<Rightarrow> route_row option" where
  "find_route i s = List.find (\<lambda>r. lr_id r = i) (liquidity_route s)"

definition lockRoute :: "js \<Rightarrow> ('x route_db_scheme, route_row) cmd" where
  "lockRoute routeId =
     bindC (liftC (requireUuid routeId)) (\<lambda>i.
     bindC (readC (find_route i)) (\<lambda>row.
     foundC (CoreError NOT_FOUND) row))"

definition refuseTraderRoute :: "route_row \<Rightarrow> ('x route_db_scheme, unit) cmd" where
  "refuseTraderRoute r = unlessC (lr_trader r = None) (TraderError TRADER_ROUTE_MANAGED)"

definition setSettlementModel :: "operator_actor \<Rightarrow> tx_ctx \<Rightarrow> js \<Rightarrow> ('x route_db_scheme, js) cmd" where
  "setSettlementModel a = operatorHandle a ''routes:configure'' (\<lambda>ctx p d.
     bindC (liftC (acceptedModel (js_field ''settlementModel'' p))) (\<lambda>model.
     bindC (liftC (requireText (js_field ''reason'' p) 500)) (\<lambda>reason.
     bindC (lockRoute (js_field ''routeId'' p)) (\<lambda>before.
     bindC (refuseTraderRoute before) (\<lambda>_.
     if lr_model before = model then returnC (JObj [(''changed'', JBool False)])
     else bindC (update_route (ReferenceError ROUTE_SETTLEMENT_MODEL_UNSUPPORTED) (lr_id before)
         (\<lambda>r. r\<lparr>lr_model := model, lr_version := lr_version before + 1\<rparr>)) (\<lambda>_.
       bindC (appendAudit ctx ''routes.settlement_model_changed'' ''liquidity_route'' (Some (lr_id before))
         (JObj [(''settlement_model'', JStr (model_name (lr_model before)))])
         (JObj [(''settlement_model'', JStr (model_name model)), (''reason'', JStr reason)])) (\<lambda>_.
       returnC (JObj [(''changed'', JBool True)]))))))))"

text \<open>The columns \<^verbatim>\<open>configureRoute\<close> changes: only those the payload names.\<close>

definition setting :: "js \<Rightarrow> (js \<Rightarrow> 'a result) \<Rightarrow> ('a \<Rightarrow> route_row \<Rightarrow> route_row) \<Rightarrow> (route_row \<Rightarrow> route_row) result" where
  "setting v parse put = (if v \<noteq> JUndefined then bindR (parse v) (\<lambda>x. Inr (put x)) else Inr (\<lambda>r. r))"

definition route_changes :: "(byte list \<Rightarrow> byte list) \<Rightarrow> js \<Rightarrow> (route_row \<Rightarrow> route_row) result" where
  "route_changes H p =
     bindR (setting (js_field ''executionMode'' p) (\<lambda>v. requireOneOf v [''DIRECT_TO_CLIENT'', ''TO_EXCHANGE'']) (\<lambda>x. lr_mode_update (\<lambda>_. execution_mode_of x))) (\<lambda>mode.
     bindR (setting (js_field ''registeredPayoutIdentity'' p) (\<lambda>v. optionalText v 200) (\<lambda>x. lr_identity_update (\<lambda>_. x))) (\<lambda>identity.
     bindR (setting (js_field ''registeredRouteAddress'' p) (routeAddress H) (\<lambda>x. lr_address_update (\<lambda>_. x))) (\<lambda>address.
     bindR (setting (js_field ''availableBaseUsdt'' p) baseAmount (\<lambda>x. lr_available_update (\<lambda>_. x))) (\<lambda>available.
     bindR (setting (js_field ''notes'' p) (\<lambda>v. optionalText v 2000) (\<lambda>x. lr_notes_update (\<lambda>_. x))) (\<lambda>notes.
     Inr (\<lambda>r. notes (available (address (identity (mode r))))))))))"

definition route_settings :: "route_row \<Rightarrow> (string \<times> js) list" where
  "route_settings r = [(''execution_mode'', JStr (execution_mode_name (lr_mode r))), (''registered_payout_identity'', js_opt (lr_identity r)),
     (''registered_route_address'', js_opt (lr_address r)), (''available_base_minor'', JBig (lr_available r)), (''notes'', js_opt (lr_notes r)),
     (''version'', JNum (lr_version r))]"

definition configureRoute :: "(byte list \<Rightarrow> byte list) \<Rightarrow> operator_actor \<Rightarrow> tx_ctx \<Rightarrow> js \<Rightarrow> ('x route_db_scheme, js) cmd" where
  "configureRoute H a = operatorHandle a ''routes:configure'' (\<lambda>ctx p d.
     bindC (liftC (requireText (js_field ''reason'' p) 500)) (\<lambda>reason.
     bindC (lockRoute (js_field ''routeId'' p)) (\<lambda>before.
     bindC (refuseTraderRoute before) (\<lambda>_.
     bindC (unlessC (js_field ''expectedVersion'' p = JNum (lr_version before)) (ReferenceError STALE_VERSION)) (\<lambda>_.
     bindC (liftC (route_changes H p)) (\<lambda>changes.
     let after = (changes before)\<lparr>lr_version := lr_version before + 1\<rparr>
     in bindC (update_route DatabaseError (lr_id before) (\<lambda>r. (changes r)\<lparr>lr_version := lr_version before + 1\<rparr>)) (\<lambda>_.
        bindC (appendAudit ctx (if lr_mode before \<noteq> lr_mode after then ''routes.execution_mode_changed'' else ''routes.configured'')
          ''liquidity_route'' (Some (lr_id before)) (JObj (route_settings before)) (JObj (route_settings after @ [(''reason'', JStr reason)]))) (\<lambda>_.
        returnC (JObj [(''version'', JNum (lr_version after))])))))))))"

definition setRouteStatus :: "operator_actor \<Rightarrow> tx_ctx \<Rightarrow> js \<Rightarrow> ('x route_db_scheme, js) cmd" where
  "setRouteStatus a = operatorHandle a ''routes:configure'' (\<lambda>ctx p d.
     bindC (liftC (requireOneOf (js_field ''status'' p) [''ACTIVE'', ''PAUSED'', ''RETIRED''])) (\<lambda>name.
     bindC (liftC (requireText (js_field ''reason'' p) 500)) (\<lambda>reason.
     bindC (lockRoute (js_field ''routeId'' p)) (\<lambda>before.
     bindC (refuseTraderRoute before) (\<lambda>_.
     if lr_status before = route_status_of name then returnC (JObj [(''changed'', JBool False)])
     else bindC (unlessC (lr_status before \<noteq> RT_RETIRED) (ReferenceError INVALID_TRANSITION)) (\<lambda>_.
       bindC (update_route DatabaseError (lr_id before) (\<lambda>r. r\<lparr>lr_status := route_status_of name, lr_version := lr_version before + 1\<rparr>)) (\<lambda>_.
       bindC (appendAudit ctx ''routes.status_changed'' ''liquidity_route'' (Some (lr_id before))
         (JObj [(''status'', JStr (route_status_name (lr_status before)))]) (JObj [(''status'', JStr name), (''reason'', JStr reason)])) (\<lambda>_.
       returnC (JObj [(''changed'', JBool True)])))))))))"

section \<open>Reading routes\<close>

record route_view =
  rw_id :: string
  rw_name :: string
  rw_trader :: "string option"
  rw_direction :: route_direction
  rw_status :: route_status
  rw_model :: settlement_model
  rw_mode :: execution_mode
  rw_available :: money
  rw_version :: int

definition routeView :: "route_row \<Rightarrow> route_view" where
  "routeView r = \<lparr>rw_id = lr_id r, rw_name = lr_name r, rw_trader = lr_trader r, rw_direction = lr_direction r, rw_status = lr_status r,
     rw_model = lr_model r, rw_mode = lr_mode r, rw_available = ofMinor (lr_available r) USDT, rw_version = lr_version r\<rparr>"

definition getRoute :: "js \<Rightarrow> ('x route_db_scheme, route_view) cmd" where
  "getRoute routeId = bindC (lockRoute routeId) (\<lambda>r. returnC (routeView r))"

definition requireUsableRoute :: "js \<Rightarrow> direction \<Rightarrow> ('x route_db_scheme, route_view) cmd" where
  "requireUsableRoute routeId direction =
     bindC (lockRoute routeId) (\<lambda>r.
     bindC (unlessC (lr_status r = RT_ACTIVE) (ReferenceError ROUTE_INACTIVE)) (\<lambda>_.
     bindC (unlessC (lr_model r \<in> set IMPLEMENTED_SETTLEMENT_MODELS) (ReferenceError ROUTE_SETTLEMENT_MODEL_UNSUPPORTED)) (\<lambda>_.
     bindC (unlessC (lr_direction r = BOTH \<or> lr_direction r = SERVES direction) (ReferenceError ROUTE_DIRECTION_MISMATCH)) (\<lambda>_.
     returnC (routeView r)))))"

section \<open>Obligations\<close>

text \<open>Reference numbers: at least \<open>width\<close> digits, more when the sequence needs them (\<^verbatim>\<open>inrp2p_ref_number\<close>, migration 0020).\<close>

definition ref_number :: "nat \<Rightarrow> int \<Rightarrow> string" where
  "ref_number n width = padStart (digits_of (int n)) width"

text \<open>What the database re-checks when an obligation is written: its amounts are the trade's frozen terms, on a P2P route
  the trader's own USDT.\<close>

definition obligation_matches :: "obligation_row \<Rightarrow> economics_row \<Rightarrow> bool" where
  "obligation_matches o_row e \<longleftrightarrow> ec_route e = ro_route o_row \<and> ec_direction e = ro_direction o_row \<and> ec_mode e = ro_mode o_row \<and>
     (let base = (case ec_route_base e of Some b \<Rightarrow> b | None \<Rightarrow> ec_base e)
      in if ro_direction o_row = SELL_USDT then ro_exchange_minor o_row = base \<and> ro_route_minor o_row = ec_route_inr e
         else ro_exchange_minor o_row = ec_route_inr e \<and> ro_route_minor o_row = base)"

definition obligation_checks :: "obligation_row \<Rightarrow> bool" where
  "obligation_checks o_row \<longleftrightarrow> 0 < ro_exchange_minor o_row \<and> 0 < ro_route_minor o_row \<and> ro_trade o_row \<noteq> None \<and>
     (if ro_direction o_row = SELL_USDT then ro_exchange_asset o_row = USDT \<and> ro_route_asset o_row = INR
      else ro_exchange_asset o_row = INR \<and> ro_route_asset o_row = USDT)"

definition insert_obligation :: "obligation_row \<Rightarrow> ('x route_db_scheme, unit) cmd" where
  "insert_obligation o_row = (\<lambda>s.
     if obligation_checks o_row \<and> list_ex (\<lambda>e. Some (ec_trade e) = ro_trade o_row \<and> obligation_matches o_row e) (trade_economics s) \<and>
       list_all (\<lambda>q. ro_id q \<noteq> ro_id o_row \<and> ro_trade q \<noteq> ro_trade o_row \<and> ro_ref q \<noteq> ro_ref o_row) (route_obligation s)
     then Inr ((), s\<lparr>route_obligation := route_obligation s @ [o_row]\<rparr>) else Inl DatabaseError)"

definition next_obligation_ref :: "('x route_db_scheme, string) cmd" where
  "next_obligation_ref = (\<lambda>s. Inr (''RO-'' @ ref_number (Suc (route_obligation_ref_seq s)) 6,
     s\<lparr>route_obligation_ref_seq := Suc (route_obligation_ref_seq s)\<rparr>))"

record open_obligation_input =
  oi_trade :: string
  oi_route :: string
  oi_direction :: direction
  oi_mode :: execution_mode
  oi_base :: money
  oi_route_inr :: money

definition obligation_of :: "tx_ctx \<Rightarrow> open_obligation_input \<Rightarrow> string \<Rightarrow> string \<Rightarrow> obligation_row" where
  "obligation_of ctx input i ref = (let sell = oi_direction input = SELL_USDT in
     \<lparr>ro_id = i, ro_ref = ref, ro_route = oi_route input, ro_trade = Some (oi_trade input), ro_direction = oi_direction input,
      ro_exchange_asset = (if sell then USDT else INR),
      ro_exchange_minor = (if sell then minor (oi_base input) else minor (oi_route_inr input)),
      ro_route_asset = (if sell then INR else USDT),
      ro_route_minor = (if sell then minor (oi_route_inr input) else minor (oi_base input)),
      ro_mode = oi_mode input, ro_status = OB_OPEN, ro_settled_at = None, ro_cancelled_at = None, ro_created_by = actor_or_system ctx\<rparr>)"

definition openRouteObligation :: "tx_ctx \<Rightarrow> open_obligation_input \<Rightarrow> ('x route_db_scheme, string \<times> string) cmd" where
  "openRouteObligation ctx input =
     bindC next_obligation_ref (\<lambda>ref.
     bindC freshId (\<lambda>i.
     bindC (insert_obligation (obligation_of ctx input i ref)) (\<lambda>_.
     bindC (appendAudit ctx ''route_obligation.created'' ''route_obligation'' (Some i) JUndefined
       (JObj [(''trade_id'', JStr (oi_trade input)), (''route_id'', JStr (oi_route input)), (''direction'', JStr (direction_name (oi_direction input))),
              (''execution_mode'', JStr (execution_mode_name (oi_mode input))),
              (''exchange_delivers'', js_money (if oi_direction input = SELL_USDT then oi_base input else oi_route_inr input)),
              (''route_delivers'', js_money (if oi_direction input = SELL_USDT then oi_route_inr input else oi_base input))])) (\<lambda>_.
     returnC (i, ref)))))"

section \<open>A trader's own routes\<close>

definition createTraderRoute ::
    "(byte list \<Rightarrow> byte list) \<Rightarrow> tx_ctx \<Rightarrow> js \<Rightarrow> js \<Rightarrow> js \<Rightarrow> string \<Rightarrow> js \<Rightarrow> ('x route_db_scheme, string) cmd" where
  "createTraderRoute H ctx traderId name direction registeredRouteAddress registeredPayoutIdentity =
     bindC (readC trader_program_mode) (\<lambda>program.
     bindC (liftC (requireText name 80)) (\<lambda>name.
     bindC (liftC (requireOneOf direction DIRECTIONS)) (\<lambda>direction.
     bindC (liftC (optionalText registeredPayoutIdentity 200)) (\<lambda>identity.
     bindC (liftC (parseTronAddress H (trim registeredRouteAddress))) (\<lambda>address.
     bindC (liftC (requireUuid traderId)) (\<lambda>trader.
     bindC freshId (\<lambda>i.
     let mode = (case program of Some m \<Rightarrow> m | None \<Rightarrow> TO_EXCHANGE)
     in bindC (insert_route DatabaseError \<lparr>lr_id = i, lr_name = name, lr_direction = route_direction_of direction, lr_status = RT_ACTIVE,
          lr_model = PER_TRADE, lr_mode = mode, lr_identity = identity, lr_address = Some address, lr_available = 0, lr_notes = None,
          lr_trader = Some trader, lr_created_by = actorLabel ctx, lr_version = 1\<rparr>) (\<lambda>_.
        bindC (appendAudit ctx ''routes.created'' ''liquidity_route'' (Some i) JUndefined
          (JObj [(''id'', JStr i), (''name'', JStr name), (''direction'', JStr direction), (''execution_mode'', JStr (execution_mode_name mode)),
                 (''registered_route_address'', JStr address), (''trader_id'', JStr trader)])) (\<lambda>_.
        returnC i)))))))))"

definition updateTraderRouteRegistration ::
    "(byte list \<Rightarrow> byte list) \<Rightarrow> tx_ctx \<Rightarrow> js \<Rightarrow> string \<Rightarrow> string \<Rightarrow> string \<Rightarrow> ('x route_db_scheme, nat) cmd" where
  "updateTraderRouteRegistration H ctx traderId registeredRouteAddress registeredPayoutIdentity reason =
     bindC (liftC (requireUuid traderId)) (\<lambda>trader.
     bindC (readC (\<lambda>s. sort_key lr_id (filter (\<lambda>r. lr_trader r = Some trader) (liquidity_route s)))) (\<lambda>routes.
     bindC (liftC (parseTronAddress H (trim registeredRouteAddress))) (\<lambda>address.
     bindC (forC routes (\<lambda>r.
       bindC (liftC (optionalText (JStr registeredPayoutIdentity) 200)) (\<lambda>identity.
       bindC (update_route DatabaseError (lr_id r) (\<lambda>x. x\<lparr>lr_address := Some address, lr_identity := identity, lr_version := lr_version r + 1\<rparr>)) (\<lambda>_.
       appendAudit ctx ''routes.configured'' ''liquidity_route'' (Some (lr_id r))
         (JObj [(''registered_route_address'', js_opt (lr_address r)), (''registered_payout_identity'', js_opt (lr_identity r)),
                (''version'', JNum (lr_version r))])
         (JObj [(''registered_route_address'', JStr address), (''registered_payout_identity'', JStr registeredPayoutIdentity),
                (''version'', JNum (lr_version r + 1)), (''reason'', JStr reason)]))))) (\<lambda>_.
     returnC (length routes)))))"

section \<open>Invariant\<close>

definition trader_side :: "route_row \<Rightarrow> string option \<times> route_direction" where
  "trader_side r = (lr_trader r, lr_direction r)"

definition routes_legal :: "route_row list \<Rightarrow> bool" where
  "routes_legal rs \<longleftrightarrow> distinct (map lr_id rs) \<and> distinct (map lr_name rs) \<and>
     distinct (map trader_side (filter (\<lambda>r. lr_trader r \<noteq> None) rs)) \<and> (\<forall>r \<in> set rs. route_checks r)"

definition routes_ok :: "'x route_db_scheme \<Rightarrow> bool" where
  "routes_ok s \<longleftrightarrow> routes_legal (liquidity_route s) \<and> fresh_ids s \<and> (\<forall>r \<in> set (liquidity_route s). given_id s (lr_id r))"

text \<open>What may ever happen to a route, and to all of them.\<close>

definition same_route :: "route_row \<Rightarrow> route_row \<Rightarrow> bool" where
  "same_route r q \<longleftrightarrow> lr_id q = lr_id r \<and> lr_name q = lr_name r \<and> lr_direction q = lr_direction r \<and> lr_trader q = lr_trader r"

definition route_succ :: "route_row \<Rightarrow> route_row \<Rightarrow> bool" where
  "route_succ r q \<longleftrightarrow> same_route r q \<and> lr_version r \<le> lr_version q \<and> (lr_status r = RT_RETIRED \<longrightarrow> lr_status q = RT_RETIRED)"

definition routes_evolve :: "route_row list \<Rightarrow> route_row list \<Rightarrow> bool" where
  "routes_evolve rs qs \<longleftrightarrow> (\<exists>old new. qs = old @ new \<and> list_all2 route_succ rs old)"

definition routes_from :: "route_row list \<Rightarrow> 'x route_db_scheme \<Rightarrow> bool" where
  "routes_from rs s \<longleftrightarrow> routes_ok s \<and> routes_evolve rs (liquidity_route s)"

lemma same_route_refl [simp]: "same_route r r"
  by (simp add: same_route_def)

lemma route_succ_refl [simp]: "route_succ r r"
  by (simp add: route_succ_def)

lemma routes_evolve_refl [simp]: "routes_evolve rs rs"
  unfolding routes_evolve_def by (rule exI[of _ rs]) (simp add: list_all2_refl)

lemma routes_evolve_trans: "routes_evolve rs qs \<Longrightarrow> routes_evolve qs ps \<Longrightarrow> routes_evolve rs ps"
proof -
  assume "routes_evolve rs qs" "routes_evolve qs ps"
  then obtain old new old' new' where q: "qs = old @ new" "list_all2 route_succ rs old" and p: "ps = old' @ new'" "list_all2 route_succ (old @ new) old'"
    by (auto simp: routes_evolve_def)
  from p(2) obtain a b where ab: "old' = a @ b" "list_all2 route_succ old a" by (auto simp: list_all2_append1)
  have "list_all2 route_succ rs a"
    by (rule list_all2_trans[OF _ q(2) ab(2)]) (auto simp: route_succ_def same_route_def)
  with p ab show ?thesis by (auto simp: routes_evolve_def)
qed

lemma routes_evolve_add: "routes_evolve rs qs \<Longrightarrow> routes_evolve rs (qs @ ps)"
  unfolding routes_evolve_def by (metis append.assoc)

lemma routes_evolve_update:
  assumes "routes_evolve rs qs" "\<And>q. q \<in> set qs \<Longrightarrow> p q \<Longrightarrow> route_succ q (f q)"
  shows "routes_evolve rs (update_where p f qs)"
proof -
  have "list_all2 route_succ qs (update_where p f qs)"
    unfolding update_where_def list_all2_map2 by (rule list_all2_same[THEN iffD2]) (auto intro: assms(2))
  then have "routes_evolve qs (update_where p f qs)" by (auto simp: routes_evolve_def)
  with routes_evolve_trans[OF assms(1)] show ?thesis by blast
qed

lemma routes_okD:
  assumes "routes_ok s"
  shows "distinct (map lr_id (liquidity_route s))" "r \<in> set (liquidity_route s) \<Longrightarrow> route_checks r" "fresh_ids s"
    "r \<in> set (liquidity_route s) \<Longrightarrow> given_id s (lr_id r)" "routes_legal (liquidity_route s)"
  using assms by (auto simp: routes_ok_def routes_legal_def)

lemma routes_from_cong:
  assumes "routes_from rs s" "liquidity_route t = liquidity_route s" "uuidv7 t = uuidv7 s" "uuids s \<le> uuids t"
  shows "routes_from rs t"
  using assms given_id_mono[OF _ assms(3,4)] by (auto simp: routes_from_def routes_ok_def fresh_ids_def)

lemma routes_legal_update:
  assumes legal: "routes_legal rs" and r: "r \<in> set rs" and f: "\<And>x. same_route x (f x)" and ok: "route_checks (f r)"
  shows "routes_legal (update_where (\<lambda>x. lr_id x = lr_id r) f rs)"
proof -
  let ?rs = "update_where (\<lambda>x. lr_id x = lr_id r) f rs"
  have same: "map lr_id ?rs = map lr_id rs" "map lr_name ?rs = map lr_name rs" "map trader_side ?rs = map trader_side rs"
    using f by (simp_all add: same_route_def trader_side_def update_where_def)
  have "map trader_side (filter (\<lambda>r. lr_trader r \<noteq> None) ?rs) = map trader_side (filter (\<lambda>r. lr_trader r \<noteq> None) rs)"
    using f by (induction rs) (auto simp: same_route_def trader_side_def)
  moreover have "route_checks x" if "x \<in> set ?rs" for x
  proof -
    from that obtain y where y: "y \<in> set rs" "x = (if lr_id y = lr_id r then f y else y)" by (auto simp: set_update_where)
    moreover have "lr_id y = lr_id r \<Longrightarrow> y = r" using legal y(1) r by (auto simp: routes_legal_def distinct_map dest: inj_onD)
    ultimately show ?thesis using legal ok by (auto simp: routes_legal_def)
  qed
  ultimately show ?thesis using legal same by (simp add: routes_legal_def)
qed

lemma update_route_keeps:
  assumes from_rs: "routes_from rs s" and r: "r \<in> set (liquidity_route s)" and f: "\<And>x. same_route x (f x)" and v: "lr_version r \<le> lr_version (f r)"
    and run: "update_route e (lr_id r) f s = Inr (u, t)"
  shows "routes_from rs t \<and> uuidv7 t = uuidv7 s \<and> uuids t = uuids s \<and> liquidity_route t = update_where (\<lambda>x. lr_id x = lr_id r) f (liquidity_route s)"
proof -
  have ok: "routes_ok s" and ev: "routes_evolve rs (liquidity_route s)" using from_rs by (simp_all add: routes_from_def)
  note one = list_all_unique[OF routes_okD(1)[OF ok] r]
  have t: "t = s\<lparr>liquidity_route := update_where (\<lambda>x. lr_id x = lr_id r) f (liquidity_route s)\<rparr>"
    and step: "route_step (lr_status r) (lr_status (f r))" and checks: "route_checks (f r)"
    using run one[of "\<lambda>x. route_step (lr_status x) (lr_status (f x))"] one[of "\<lambda>x. route_checks (f x)"]
    by (auto simp: update_route_def split: if_splits)
  have "route_succ x (f x)" if "x \<in> set (liquidity_route s)" "lr_id x = lr_id r" for x
  proof -
    have "x = r" using that r routes_okD(1)[OF ok] by (auto simp: distinct_map dest: inj_onD)
    with f[of r] v step show ?thesis by (auto simp: route_succ_def route_step_def)
  qed
  then have "routes_evolve rs (liquidity_route t)" unfolding t by (simp add: routes_evolve_update[OF ev])
  moreover have "given_id s (lr_id x)" if "x \<in> set (liquidity_route t)" for x
  proof -
    from that obtain y where "y \<in> set (liquidity_route s)" "x = (if lr_id y = lr_id r then f y else y)" by (auto simp: t set_update_where)
    moreover from this have "lr_id x = lr_id y" using f[of y] by (simp add: same_route_def)
    ultimately show ?thesis using routes_okD(4)[OF ok, of y] by simp
  qed
  ultimately show ?thesis
    using routes_legal_update[OF routes_okD(5)[OF ok] r f checks] routes_okD(3)[OF ok]
    by (auto simp: routes_from_def routes_ok_def t fresh_ids_def given_id_def)
qed

lemma insert_route_keeps:
  assumes from_rs: "routes_from rs s" and i: "lr_id r = uuidv7 s (uuids s)"
    and run: "insert_route e r (s\<lparr>uuids := Suc (uuids s)\<rparr>) = Inr (u, t)"
  shows "routes_from rs t \<and> liquidity_route t = liquidity_route s @ [r]"
proof -
  have ok: "routes_ok s" and ev: "routes_evolve rs (liquidity_route s)" using from_rs by (simp_all add: routes_from_def)
  have t: "t = s\<lparr>uuids := Suc (uuids s), liquidity_route := liquidity_route s @ [r]\<rparr>" and checks: "route_checks r"
    and free: "\<not> list_ex (route_clash r) (liquidity_route s)"
    using run by (auto simp: insert_route_def split: if_splits)
  have "lr_id r \<notin> lr_id ` set (liquidity_route s)" using next_id_new[OF routes_okD(3)[OF ok], of 0] routes_okD(4)[OF ok] i by auto
  moreover have "lr_name r \<notin> lr_name ` set (liquidity_route s)" using free by (auto simp: list_ex_iff route_clash_def)
  moreover have "lr_trader r \<noteq> None \<Longrightarrow> trader_side r \<notin> trader_side ` set (filter (\<lambda>r. lr_trader r \<noteq> None) (liquidity_route s))"
    using free by (auto simp: list_ex_iff route_clash_def trader_side_def)
  ultimately have "routes_legal (liquidity_route s @ [r])" using routes_okD(5)[OF ok] checks by (auto simp: routes_legal_def)
  moreover have "given_id t (lr_id x)" if "x \<in> set (liquidity_route t)" for x
  proof (cases "x = r")
    case True
    with i show ?thesis by (auto simp: t given_id_def)
  next
    case False
    with that have "given_id s (lr_id x)" using routes_okD(4)[OF ok] by (simp add: t)
    then show ?thesis by (rule given_id_mono) (simp_all add: t)
  qed
  ultimately show ?thesis
    using routes_okD(3)[OF ok] routes_evolve_add[OF ev] by (auto simp: routes_from_def routes_ok_def t fresh_ids_def)
qed

lemma lockRoute_Inr: "lockRoute v s = Inr (r, t) \<Longrightarrow> t = s \<and> r \<in> set (liquidity_route s)"
  by (auto simp: lockRoute_def find_route_def dest: find_Some_mem)

lemma refuseTraderRoute_Inr: "refuseTraderRoute r s = Inr (u, t) \<Longrightarrow> t = s \<and> lr_trader r = None"
  by (auto simp: refuseTraderRoute_def split: if_splits)

definition keeps_route :: "(route_row \<Rightarrow> route_row) \<Rightarrow> bool" where
  "keeps_route f \<longleftrightarrow> (\<forall>r. same_route r (f r) \<and> lr_version (f r) = lr_version r \<and> lr_status (f r) = lr_status r)"

lemma setting_keeps: "setting v parse put = Inr f \<Longrightarrow> (\<And>x. keeps_route (put x)) \<Longrightarrow> keeps_route f"
  by (auto simp: setting_def keeps_route_def split: if_splits)

lemma keeps_route_updates:
  "keeps_route (lr_mode_update g)" "keeps_route (lr_identity_update h)" "keeps_route (lr_address_update h)"
  "keeps_route (lr_available_update k)" "keeps_route (lr_notes_update h)"
  by (simp_all add: keeps_route_def same_route_def)

lemma route_changes_same: "route_changes H p = Inr f \<Longrightarrow> keeps_route f"
  unfolding route_changes_def bindR_Inr_iff
proof (elim exE conjE)
  fix mode identity address available remarks
  assume parts: "setting (js_field ''executionMode'' p) (\<lambda>v. requireOneOf v [''DIRECT_TO_CLIENT'', ''TO_EXCHANGE'']) (\<lambda>x. lr_mode_update (\<lambda>_. execution_mode_of x)) = Inr mode"
    "setting (js_field ''registeredPayoutIdentity'' p) (\<lambda>v. optionalText v 200) (\<lambda>x. lr_identity_update (\<lambda>_. x)) = Inr identity"
    "setting (js_field ''registeredRouteAddress'' p) (routeAddress H) (\<lambda>x. lr_address_update (\<lambda>_. x)) = Inr address"
    "setting (js_field ''availableBaseUsdt'' p) baseAmount (\<lambda>x. lr_available_update (\<lambda>_. x)) = Inr available"
    "setting (js_field ''notes'' p) (\<lambda>v. optionalText v 2000) (\<lambda>x. lr_notes_update (\<lambda>_. x)) = Inr remarks"
    and f: "Inr (\<lambda>r. remarks (available (address (identity (mode r))))) = (Inr f :: (route_row \<Rightarrow> route_row) result)"
  have "keeps_route mode" "keeps_route identity" "keeps_route address" "keeps_route available" "keeps_route remarks"
    using parts[THEN setting_keeps] keeps_route_updates by blast+
  with f show "keeps_route f" by (auto simp: keeps_route_def same_route_def)
qed

section \<open>Every command keeps it\<close>

lemma routes_frames [inv_intros]:
  "keeps (routes_from rs) (appendAudit ctx action ty i before after)" "keeps (routes_from rs) (authorizeOperator a permission)"
  "keeps (routes_from rs) freshId" "keeps (routes_from rs) (lockRoute v)" "keeps (routes_from rs) (refuseTraderRoute r)"
  by (auto intro!: keepsI elim!: routes_from_cong dest: authorize_state lockRoute_Inr refuseTraderRoute_Inr)

text \<open>What an operator's command does to the routes: nothing, a new route of the exchange, or new settings of one of them.\<close>

definition operator_effect :: "route_row list \<Rightarrow> route_row list \<Rightarrow> bool" where
  "operator_effect rs qs \<longleftrightarrow> qs = rs \<or> (\<exists>r. lr_trader r = None \<and> qs = rs @ [r]) \<or>
     (\<exists>r f. r \<in> set rs \<and> lr_trader r = None \<and> (\<forall>x. same_route x (f x)) \<and> qs = update_where (\<lambda>x. lr_id x = lr_id r) f rs)"

definition operated :: "route_row list \<Rightarrow> 'x route_db_scheme \<Rightarrow> 'x route_db_scheme \<Rightarrow> bool" where
  "operated rs s t \<longleftrightarrow> routes_from rs t \<and> operator_effect (liquidity_route s) (liquidity_route t)"

lemma insert_effect:
  assumes "insert_route e r (s\<lparr>uuids := Suc (uuids s)\<rparr>) = Inr (x, u)" "routes_from rs s" "lr_id r = uuidv7 s (uuids s)" "lr_trader r = None"
    "liquidity_route t = liquidity_route u" "uuidv7 t = uuidv7 u" "uuids t = uuids u"
  shows "operated rs s t"
proof -
  from insert_route_keeps[OF assms(2,3,1)] have u: "routes_from rs u" "liquidity_route u = liquidity_route s @ [r]" by auto
  moreover have "routes_from rs t" by (rule routes_from_cong[OF u(1) assms(5,6)]) (simp add: assms(7))
  moreover have "operator_effect (liquidity_route s) (liquidity_route t)" using assms(4,5) u(2) by (auto simp: operator_effect_def)
  ultimately show ?thesis by (simp add: operated_def)
qed

lemma create_route_effect:
  assumes "routes_from rs s" "createRoute H a ctx p s = Inr (x, t)"
  shows "operated rs s t"
  using assms unfolding createRoute_def by (auto dest!: operatorHandle_Inr elim!: insert_effect)

lemma update_effect:
  assumes "update_route e (lr_id r) f s = Inr (x, u)" "routes_from rs s" "r \<in> set (liquidity_route s)" "lr_trader r = None"
    "\<And>x. same_route x (f x)" "lr_version r \<le> lr_version (f r)" "liquidity_route t = liquidity_route u" "uuidv7 t = uuidv7 u" "uuids t = uuids u"
  shows "operated rs s t"
proof -
  from update_route_keeps[OF assms(2,3,5,6,1)] have u: "routes_from rs u"
    "liquidity_route u = update_where (\<lambda>x. lr_id x = lr_id r) f (liquidity_route s)" by auto
  moreover have "routes_from rs t" by (rule routes_from_cong[OF u(1) assms(7,8)]) (simp add: assms(9))
  moreover have "operator_effect (liquidity_route s) (liquidity_route t)" unfolding operator_effect_def
    using assms(3,4,5,7) u(2) by auto
  ultimately show ?thesis by (simp add: operated_def)
qed

lemma unchanged_effect: "routes_from rs s \<Longrightarrow> operated rs s s"
  by (simp add: operated_def operator_effect_def)

lemma settlement_model_effect:
  assumes "routes_from rs s" "setSettlementModel a ctx p s = Inr (x, t)"
  shows "operated rs s t"
  using assms unfolding setSettlementModel_def
  by (auto dest!: operatorHandle_Inr lockRoute_Inr refuseTraderRoute_Inr split: if_splits intro!: unchanged_effect
      elim!: update_effect simp: same_route_def)

lemma status_effect:
  assumes "routes_from rs s" "setRouteStatus a ctx p s = Inr (x, t)"
  shows "operated rs s t"
  using assms unfolding setRouteStatus_def
  by (auto dest!: operatorHandle_Inr lockRoute_Inr refuseTraderRoute_Inr split: if_splits intro!: unchanged_effect
      elim!: update_effect simp: same_route_def)

lemma configure_effect:
  assumes "routes_from rs s" "configureRoute H a ctx p s = Inr (x, t)"
  shows "operated rs s t"
  using assms unfolding configureRoute_def
  by (auto dest!: operatorHandle_Inr lockRoute_Inr refuseTraderRoute_Inr route_changes_same split: if_splits simp: Let_def
      elim!: update_effect) (auto simp: keeps_route_def same_route_def)

lemma trader_route_keeps: "keeps (routes_from rs) (createTraderRoute H ctx i name d a b)"
proof (rule keepsI)
  fix s x t assume from_rs: "routes_from rs s" and run: "createTraderRoute H ctx i name d a b s = Inr (x, t)"
  from run obtain r u where r: "insert_route DatabaseError r (s\<lparr>uuids := Suc (uuids s)\<rparr>) = Inr ((), u)" "lr_id r = uuidv7 s (uuids s)"
    and t: "liquidity_route t = liquidity_route u" "uuidv7 t = uuidv7 u" "uuids t = uuids u"
    unfolding createTraderRoute_def Let_def by auto
  have "routes_from rs u" using insert_route_keeps[OF from_rs r(2,1)] by blast
  then show "routes_from rs t" by (rule routes_from_cong) (simp_all add: t)
qed

text \<open>Registration: the rows were read before any of them changed, and each has its own identifier.\<close>

lemma register_each_keeps:
  assumes "\<And>r u v w. body r u = Inr (v, w) \<Longrightarrow> \<exists>f y. update_route DatabaseError (lr_id r) f u = Inr ((), y) \<and> (\<forall>x. same_route x (f x)) \<and>
    lr_version r \<le> lr_version (f r) \<and> liquidity_route w = liquidity_route y \<and> uuidv7 w = uuidv7 y \<and> uuids w = uuids y"
  shows "forC qs body s = Inr (x, t) \<Longrightarrow> routes_from rs s \<Longrightarrow> set qs \<subseteq> set (liquidity_route s) \<Longrightarrow> distinct (map lr_id qs) \<Longrightarrow> routes_from rs t"
proof (induction qs arbitrary: s)
  case (Cons q qs)
  from Cons.prems(1) obtain w where w: "body q s = Inr ((), w)" "forC qs body w = Inr (x, t)" by auto
  from assms[OF w(1)] obtain f y where f: "update_route DatabaseError (lr_id q) f s = Inr ((), y)" "\<And>x. same_route x (f x)"
    "lr_version q \<le> lr_version (f q)" and same: "liquidity_route w = liquidity_route y" "uuidv7 w = uuidv7 y" "uuids w = uuids y" by blast
  have q: "q \<in> set (liquidity_route s)" using Cons.prems(3) by simp
  from update_route_keeps[OF Cons.prems(2) q f(2,3,1)] have y: "routes_from rs y"
    "liquidity_route y = update_where (\<lambda>x. lr_id x = lr_id q) f (liquidity_route s)" by auto
  have "routes_from rs w" by (rule routes_from_cong[OF y(1) same(1,2)]) (simp add: same(3))
  moreover have "z \<in> set (liquidity_route w)" if z: "z \<in> set qs" for z
  proof -
    have "lr_id z \<noteq> lr_id q" using Cons.prems(4) z by (auto simp: image_iff)
    moreover have "z \<in> set (liquidity_route s)" using Cons.prems(3) z by auto
    ultimately show ?thesis unfolding same(1) y(2) set_update_where by (auto simp: image_iff)
  qed
  ultimately show ?case using Cons.IH[OF w(2)] Cons.prems(4) by auto
qed simp

lemma registration_keeps: "keeps (routes_from rs) (updateTraderRouteRegistration H ctx i a b reason)"
proof (rule keepsI)
  fix s x t assume from_rs: "routes_from rs s" and run: "updateTraderRouteRegistration H ctx i a b reason s = Inr (x, t)"
  have ids: "distinct (map lr_id (liquidity_route s))" using from_rs by (simp add: routes_from_def routes_ok_def routes_legal_def)
  let ?qs = "\<lambda>tr. sort_key lr_id (filter (\<lambda>r. lr_trader r = Some tr) (liquidity_route s))"
  from run obtain tr body where body: "forC (?qs tr) body s = Inr ((), t)"
    and each: "\<And>r u v w. body r u = Inr (v, w) \<Longrightarrow> \<exists>f y. update_route DatabaseError (lr_id r) f u = Inr ((), y) \<and> (\<forall>x. same_route x (f x)) \<and>
      lr_version r \<le> lr_version (f r) \<and> liquidity_route w = liquidity_route y \<and> uuidv7 w = uuidv7 y \<and> uuids w = uuids y"
  proof (atomize_elim, goal_cases)
    case 1
    then show ?case unfolding updateTraderRouteRegistration_def
      apply clarsimp
      apply (intro exI conjI, assumption)
      apply (fastforce simp: same_route_def)
      done
  qed
  have "distinct (map lr_id (?qs tr))" using ids by (simp add: distinct_map inj_on_def)
  then show "routes_from rs t" by (intro register_each_keeps[OF each body from_rs]) auto
qed

section \<open>Any sequence of calls\<close>

datatype route_call =
    CreateRoute "byte list \<Rightarrow> byte list" operator_actor tx_ctx js
  | SetModel operator_actor tx_ctx js
  | Configure "byte list \<Rightarrow> byte list" operator_actor tx_ctx js
  | SetStatus operator_actor tx_ctx js
  | CreateTraders "byte list \<Rightarrow> byte list" tx_ctx js js js string js
  | Register "byte list \<Rightarrow> byte list" tx_ctx js string string string

fun run_route :: "route_call \<Rightarrow> ('x route_db_scheme, unit) cmd" where
  "run_route (CreateRoute H a ctx p) = done_with (createRoute H a ctx p)"
| "run_route (SetModel a ctx p) = done_with (setSettlementModel a ctx p)"
| "run_route (Configure H a ctx p) = done_with (configureRoute H a ctx p)"
| "run_route (SetStatus a ctx p) = done_with (setRouteStatus a ctx p)"
| "run_route (CreateTraders H ctx i name d a b) = done_with (createTraderRoute H ctx i name d a b)"
| "run_route (Register H ctx i a b reason) = done_with (updateTraderRouteRegistration H ctx i a b reason)"

definition run_routes :: "route_call list \<Rightarrow> 'x route_db_scheme \<Rightarrow> 'x route_db_scheme" where
  "run_routes cs s = fold (\<lambda>c s. snd (runTx (run_route c) (s\<lparr>tx_rank := - 1\<rparr>))) cs s"

fun by_operator :: "route_call \<Rightarrow> bool" where
  "by_operator (CreateTraders H ctx i name d a b) = False"
| "by_operator (Register H ctx i a b reason) = False"
| "by_operator c = True"

lemma operator_run: "by_operator c \<Longrightarrow> run_route c s = Inr (x, t) \<Longrightarrow> routes_from rs s \<Longrightarrow> operated rs s t"
  by (cases c) (auto simp: done_with_def intro: create_route_effect settlement_model_effect configure_effect status_effect)

lemma route_keeps: "keeps (routes_from rs) (run_route c)"
proof (cases "by_operator c")
  case True
  then show ?thesis by (auto intro!: keepsI dest: operator_run simp: operated_def)
next
  case False
  then show ?thesis by (cases c) (auto intro!: done_keeps trader_route_keeps registration_keeps)
qed

lemma routes_keep: "routes_from rs s \<Longrightarrow> routes_from rs (run_routes cs s)"
proof (induction cs arbitrary: s)
  case (Cons c cs)
  have "routes_from rs (s\<lparr>tx_rank := - 1\<rparr>)" by (rule routes_from_cong[OF Cons.prems]) simp_all
  then have "routes_from rs (snd (runTx (run_route c) (s\<lparr>tx_rank := - 1\<rparr>)))"
    using keepsD[OF route_keeps[of rs c], of "s\<lparr>tx_rank := - 1\<rparr>"] Cons.prems by (auto simp: runTx_def split: sum.splits)
  with Cons.IH show ?case by (simp add: run_routes_def)
qed (simp add: run_routes_def)

section \<open>Properties\<close>

text \<open>C19: whatever is configured, in any order, successful or refused, every route settles per trade, only traders
  have P2P routes and a trader at most one route per direction; a route keeps its identity, name, direction and owner, its version
  never falls, and once retired it stays retired.\<close>

theorem routes_stay_legal:
  fixes s :: "'x route_db_scheme" and cs :: "route_call list"
  assumes "routes_ok s"
  defines "t \<equiv> run_routes cs s"
  shows "(\<forall>r \<in> set (liquidity_route t). lr_model r = PER_TRADE \<and> 0 \<le> lr_available r \<and> (lr_mode r = P2P \<longrightarrow> lr_trader r \<noteq> None)) \<and>
    (\<forall>r \<in> set (liquidity_route t). \<forall>q \<in> set (liquidity_route t).
      lr_name q = lr_name r \<or> lr_trader r \<noteq> None \<and> trader_side q = trader_side r \<longrightarrow> q = r) \<and>
    (\<forall>i < length (liquidity_route s). i < length (liquidity_route t) \<and> route_succ (liquidity_route s ! i) (liquidity_route t ! i))"
proof -
  have from_s: "routes_from (liquidity_route s) t" unfolding t_def by (rule routes_keep) (simp add: routes_from_def assms(1))
  then have legal: "routes_legal (liquidity_route t)" and ev: "routes_evolve (liquidity_route s) (liquidity_route t)"
    using routes_okD(5) by (auto simp: routes_from_def)
  have "lr_model r = PER_TRADE \<and> 0 \<le> lr_available r \<and> (lr_mode r = P2P \<longrightarrow> lr_trader r \<noteq> None)" if "r \<in> set (liquidity_route t)" for r
    using legal that by (auto simp: routes_legal_def route_checks_def split: option.splits)
  moreover have "q = r" if "r \<in> set (liquidity_route t)" "q \<in> set (liquidity_route t)"
    "lr_name q = lr_name r \<or> lr_trader r \<noteq> None \<and> trader_side q = trader_side r" for r q
  proof -
    have names: "inj_on lr_name (set (liquidity_route t))"
      and sides: "inj_on trader_side (set (filter (\<lambda>r. lr_trader r \<noteq> None) (liquidity_route t)))"
      using legal by (auto simp: routes_legal_def distinct_map)
    from that(3) show ?thesis
    proof
      assume "lr_name q = lr_name r"
      with that names show ?thesis by (auto dest: inj_onD)
    next
      assume side: "lr_trader r \<noteq> None \<and> trader_side q = trader_side r"
      then have "lr_trader q \<noteq> None" by (simp add: trader_side_def)
      with that side show ?thesis by (intro inj_onD[OF sides]) auto
    qed
  qed
  moreover have "i < length (liquidity_route t) \<and> route_succ (liquidity_route s ! i) (liquidity_route t ! i)" if "i < length (liquidity_route s)" for i
    using ev that by (auto simp: routes_evolve_def nth_append list_all2_conv_all_nth)
  ultimately show ?thesis by blast
qed

text \<open>No command of the route screens adds a trader's route or changes anything of one.\<close>

theorem trader_routes_left_alone:
  assumes "routes_ok s" "by_operator c" "run_route c s = Inr (x, t)"
  shows "filter (\<lambda>r. lr_trader r \<noteq> None) (liquidity_route t) = filter (\<lambda>r. lr_trader r \<noteq> None) (liquidity_route s)"
proof -
  have eff: "operator_effect (liquidity_route s) (liquidity_route t)"
    using operator_run[OF assms(2,3), of "liquidity_route s"] assms(1) by (simp add: operated_def routes_from_def)
  have "filter (\<lambda>r. lr_trader r \<noteq> None) (update_where (\<lambda>x. lr_id x = lr_id r) f rs) = filter (\<lambda>r. lr_trader r \<noteq> None) rs"
    if "\<forall>x \<in> set rs. lr_id x = lr_id r \<longrightarrow> x = r" "lr_trader r = None" "\<forall>x. same_route x (f x)" for r f rs
    using that by (induction rs) (auto simp: same_route_def)
  moreover have "\<forall>x \<in> set (liquidity_route s). lr_id x = lr_id r \<longrightarrow> x = r" if "r \<in> set (liquidity_route s)" for r
    using routes_okD(1)[OF assms(1)] that by (auto simp: distinct_map dest: inj_onD)
  ultimately show ?thesis using eff by (auto simp: operator_effect_def)
qed

section \<open>A sample\<close>

text \<open>One route of the exchange and one of a trader, with the owner of the sample desk signed in.\<close>

definition sample_route :: "string \<Rightarrow> string option \<Rightarrow> route_row" where
  "sample_route i trader = \<lparr>lr_id = i, lr_name = i, lr_direction = SERVES SELL_USDT, lr_status = RT_ACTIVE, lr_model = PER_TRADE,
     lr_mode = TO_EXCHANGE, lr_identity = None, lr_address = None, lr_available = 0, lr_notes = None, lr_trader = trader,
     lr_created_by = ''u1'', lr_version = 1\<rparr>"

definition staffed :: "'x identity_db_scheme \<Rightarrow> 'x identity_db_scheme" where
  "staffed s = s\<lparr>auth_user := auth_user sample_desk, auth_session := auth_session sample_desk,
     step_up_verification := step_up_verification sample_desk, operator_user_role := operator_user_role sample_desk\<rparr>"

definition sample_routes :: route_db where
  "sample_routes = custody_db.extend (staffed sample_pool) (route_db.fields
     [sample_route reservation_uuid None, sample_route ''id-1'' (Some account_uuid)] None [] [] 0)"

lemma sample_routes_ok: "routes_ok sample_routes"
proof -
  have "fresh_ids sample_routes" using sample_pool_ok
    by (simp add: custody_ok_def fresh_ids_def sample_routes_def staffed_def custody_db.defs route_db.defs)
  moreover have "given_id sample_routes reservation_uuid" unfolding given_id_def by (rule exI[of _ 0]) code_simp
  moreover have "given_id sample_routes ''id-1''" unfolding given_id_def by (rule exI[of _ 1]) code_simp
  ultimately show ?thesis
    by (simp add: routes_ok_def routes_legal_def route_checks_def sample_route_def sample_routes_def custody_db.defs route_db.defs reservation_uuid_def)
qed

definition sample_status :: "string \<Rightarrow> route_call" where
  "sample_status st = SetStatus (sample_actor CHR ''1'') sample_ctx
     (JObj [(''routeId'', JStr reservation_uuid), (''status'', JStr st), (''reason'', JStr ''moved'')])"

text \<open>Retiring works, reviving is refused.\<close>

theorem routes_stay_legal_witness:
  "map lr_status (liquidity_route (run_routes [sample_status ''RETIRED'', sample_status ''ACTIVE''] sample_routes)) = [RT_RETIRED, RT_ACTIVE] \<and>
   list_all (\<lambda>r. lr_model r = PER_TRADE) (liquidity_route (run_routes [sample_status ''RETIRED'', sample_status ''ACTIVE''] sample_routes))"
proof -
  have "map lr_status (liquidity_route (run_routes [sample_status ''RETIRED'', sample_status ''ACTIVE''] sample_routes)) = [RT_RETIRED, RT_ACTIVE]"
    by code_simp
  with routes_stay_legal[OF sample_routes_ok, of "[sample_status ''RETIRED'', sample_status ''ACTIVE'']"] show ?thesis
    by (simp add: list_all_iff)
qed

theorem trader_routes_left_alone_witness:
  "case run_route (sample_status ''PAUSED'') sample_routes of Inl e \<Rightarrow> False
   | Inr (x, t) \<Rightarrow> map lr_status (liquidity_route t) = [RT_PAUSED, RT_ACTIVE] \<and>
       map lr_id (filter (\<lambda>r. lr_trader r \<noteq> None) (liquidity_route t)) = [''id-1'']"
proof -
  have ran: "case run_route (sample_status ''PAUSED'') sample_routes of Inl e \<Rightarrow> False
    | Inr (x, t) \<Rightarrow> map lr_status (liquidity_route t) = [RT_PAUSED, RT_ACTIVE]" by code_simp
  have "filter (\<lambda>r. lr_trader r \<noteq> None) (liquidity_route t) = [sample_route ''id-1'' (Some account_uuid)]"
    if "run_route (sample_status ''PAUSED'') sample_routes = Inr (x, t)" for x t
    using trader_routes_left_alone[OF sample_routes_ok _ that] by (simp add: sample_status_def)
      (simp add: sample_routes_def sample_route_def custody_db.defs route_db.defs)
  with ran show ?thesis by (auto simp: sample_route_def split: sum.splits)
qed

end
