(* ===== verification/InrPayments.thy ===== *)
theory InrPayments
  imports Ids "HOL-Library.Multiset"
begin

text \<open>
  What the exchange checks of an Indian bank payment on its own (\<^verbatim>\<open>packages/kernel/src/inr-payments.ts\<close>): the shape of payment
  references, UPI identifiers and links, and whether the sender's name is the account holder's. Strings are ASCII, so the
  Unicode normalisation and the removal of combining accents that \<^verbatim>\<open>nameTokens\<close> starts with change nothing.
\<close>

section \<open>Payment references\<close>

datatype inr_rail = IMPS | NEFT | RTGS | UPI

definition normalizeUtr :: "string \<Rightarrow> string" where
  "normalizeUtr raw = toUpper (filter (\<lambda>c. \<not> isSpace c) raw)"

definition UTR_SHAPES :: "inr_rail \<Rightarrow> string \<Rightarrow> bool" where
  "UTR_SHAPES rail t = (case rail of
     UPI \<Rightarrow> length t = 12 \<and> list_all isDigit t
   | IMPS \<Rightarrow> length t = 12 \<and> list_all isDigit t
   | NEFT \<Rightarrow> 16 \<le> length t \<and> length t \<le> 22 \<and> list_all isUpperDigit t
   | RTGS \<Rightarrow> 16 \<le> length t \<and> length t \<le> 22 \<and> list_all isUpperDigit t)"

definition UTR_HINTS :: "inr_rail \<Rightarrow> string" where
  "UTR_HINTS rail = (case rail of
     UPI \<Rightarrow> ''a UPI reference is the 12-digit UTR (also called RRN) in your payment app''
   | IMPS \<Rightarrow> ''an IMPS reference is the 12-digit reference number your bank shows''
   | NEFT \<Rightarrow> ''a NEFT reference is the 16-character UTR your bank shows''
   | RTGS \<Rightarrow> ''an RTGS reference is the 22-character UTR your bank shows'')"

text \<open>\<open>Inl\<close> is the hint of a refused reference.\<close>

definition checkUtrShape :: "inr_rail \<Rightarrow> string \<Rightarrow> string + string" where
  "checkUtrShape rail raw = (let utr = normalizeUtr raw in if UTR_SHAPES rail utr then Inr utr else Inl (UTR_HINTS rail))"

definition requireUtrShape :: "inr_rail \<Rightarrow> js \<Rightarrow> string result" where
  "requireUtrShape rail raw = (case raw of
     JStr t \<Rightarrow> (case checkUtrShape rail t of Inl hint \<Rightarrow> Inl (DeskError INVALID_UTR) | Inr utr \<Rightarrow> Inr utr)
   | _ \<Rightarrow> Inl (DeskError INVALID_UTR))"

definition railsForUtr :: "string \<Rightarrow> inr_rail list" where
  "railsForUtr raw = (let utr = normalizeUtr raw in
     if length utr = 12 \<and> list_all isDigit utr then [UPI, IMPS]
     else if length utr = 22 \<and> list_all isUpperDigit utr then [RTGS, NEFT]
     else if 16 \<le> length utr \<and> length utr \<le> 21 \<and> list_all isUpperDigit utr then [NEFT, RTGS]
     else [])"

section \<open>UPI\<close>

definition VPA :: "string \<Rightarrow> bool" where
  "VPA t \<longleftrightarrow> (let user = takeWhile (\<lambda>c. c \<noteq> CHR ''@'') t in case drop (length user) t of
     [] \<Rightarrow> False
   | at # bank \<Rightarrow> 2 \<le> length user \<and> length user \<le> 256 \<and> isLowerDigit (hd user) \<and>
       list_all (\<lambda>c. isLowerDigit c \<or> c \<in> set ''._-'') (tl user) \<and>
       2 \<le> length bank \<and> length bank \<le> 64 \<and> isLower (hd bank) \<and> list_all (\<lambda>c. isLowerDigit c \<or> c \<in> set ''.-'') (tl bank))"

definition normalizeVpa :: "js \<Rightarrow> string option" where
  "normalizeVpa raw = (case raw of JStr t \<Rightarrow> (let vpa = toLower (trim t) in if VPA vpa then Some vpa else None) | _ \<Rightarrow> None)"

definition requireVpa :: "js \<Rightarrow> string result" where
  "requireVpa raw = (case normalizeVpa raw of None \<Rightarrow> Inl (CoreError INVALID_ARGUMENT) | Some vpa \<Rightarrow> Inr vpa)"

definition hex_digit :: "nat \<Rightarrow> char" where
  "hex_digit n = char_of (if n < 10 then 48 + n else 55 + n)"

definition uri_unreserved :: "char \<Rightarrow> bool" where
  "uri_unreserved c \<longleftrightarrow> isUpper c \<or> isLower c \<or> isDigit c \<or> c \<in> set ''-_.!~*()'' \<or> code_of c = 39"

definition encodeURIComponent :: "string \<Rightarrow> string" where
  "encodeURIComponent t = concat (map (\<lambda>c. if uri_unreserved c then [c]
     else [CHR ''%'', hex_digit (code_of c div 16), hex_digit (code_of c mod 16)]) t)"

text \<open>\<^verbatim>\<open>/^\d+(\.\d{1,2})?$/\<close>.\<close>

definition UPI_AMOUNT :: "string \<Rightarrow> bool" where
  "UPI_AMOUNT t \<longleftrightarrow> takeWhile isDigit t \<noteq> [] \<and> (case dropWhile isDigit t of
     [] \<Rightarrow> True
   | dot # frac \<Rightarrow> dot = CHR ''.'' \<and> 1 \<le> length frac \<and> length frac \<le> 2 \<and> list_all isDigit frac)"

definition upi_amount :: "string \<Rightarrow> string" where
  "upi_amount t = (let whole = takeWhile (\<lambda>c. c \<noteq> CHR ''.'') t; fraction = drop (Suc (length whole)) t
     in whole @ ''.'' @ padEnd fraction 2)"

definition upi_text :: "string \<Rightarrow> string \<Rightarrow> string" where
  "upi_text extra t = take 50 (trim (filter (\<lambda>c. isUpper c \<or> isLower c \<or> isDigit c \<or> c \<in> set extra) t))"

record upi_request =
  ur_vpa :: js
  ur_payee :: string
  ur_amount :: string
  ur_note :: string

definition upiPayUri :: "upi_request \<Rightarrow> string result" where
  "upiPayUri input =
     bindR (requireVpa (ur_vpa input)) (\<lambda>vpa.
     if \<not> UPI_AMOUNT (ur_amount input) then Inl (CoreError INVALID_ARGUMENT)
     else let amount = upi_amount (ur_amount input); name = upi_text '' .&-'' (ur_payee input); remark = upi_text '' -'' (ur_note input);
            params = [''pa='' @ encodeURIComponent vpa, ''pn='' @ encodeURIComponent name, ''am='' @ amount, ''cu=INR'',
                      ''tn='' @ encodeURIComponent remark]
       in Inr (''upi://pay?'' @ join_with ''&'' params))"

section \<open>Names\<close>

definition HONORIFICS :: "string list" where
  "HONORIFICS = [''MR'', ''MRS'', ''MS'', ''MISS'', ''MASTER'', ''SHRI'', ''SRI'', ''SHREE'', ''SMT'', ''SMTI'', ''KUM'', ''DR'', ''PROF'',
     ''CA'', ''ADV'', ''CAPT'', ''COL'', ''MAJ'', ''LT'', ''SIR'', ''MADAM'']"

definition WEAK :: "string list" where
  "WEAK = [''PVT'', ''LTD'', ''LLP'', ''INC'', ''CO'', ''CORP'', ''THE'', ''AND'', ''OF'', ''OPC'', ''MS'']"

definition CANONICAL :: "(string \<times> string) list" where
  "CANONICAL = [(''MD'', ''MOHAMMED''), (''MOHD'', ''MOHAMMED''), (''MOHAMMAD'', ''MOHAMMED''), (''MOHAMAD'', ''MOHAMMED''),
     (''MUHAMMAD'', ''MOHAMMED''), (''MUHAMMED'', ''MOHAMMED''), (''MOHAMED'', ''MOHAMMED''), (''MOHAMMEDD'', ''MOHAMMED''),
     (''KR'', ''KUMAR''), (''KUMAAR'', ''KUMAR''),
     (''SK'', ''SHAIKH''), (''SHEIKH'', ''SHAIKH''), (''SHAIK'', ''SHAIKH''), (''SHEKH'', ''SHAIKH''),
     (''PRIVATE'', ''PVT''), (''LIMITED'', ''LTD''), (''COMPANY'', ''CO''), (''CORPORATION'', ''CORP'')]"

text \<open>The two regular expressions that strip "M/S" and "S/O ..." start and end at word boundaries.\<close>

definition is_word :: "char \<Rightarrow> bool" where
  "is_word c \<longleftrightarrow> isUpper c \<or> isLower c \<or> isDigit c \<or> c = CHR ''_''"

definition slash_word :: "char list \<Rightarrow> char \<Rightarrow> string \<Rightarrow> string option" where
  "slash_word firsts second t = (case t of [] \<Rightarrow> None | c # cs \<Rightarrow>
     if c \<notin> set firsts then None else (case dropWhile isSpace cs of [] \<Rightarrow> None | d # ds \<Rightarrow>
       if d \<noteq> CHR ''/'' then None else (case dropWhile isSpace ds of [] \<Rightarrow> None | e # es \<Rightarrow>
         if e = second \<and> (case es of [] \<Rightarrow> True | x # _ \<Rightarrow> \<not> is_word x) then Some es else None)))"

lemma slash_word_shorter: "slash_word fs g t = Some rest \<Longrightarrow> length rest < length t"
proof -
  assume "slash_word fs g t = Some rest"
  then obtain c cs d ds e where "t = c # cs" "dropWhile isSpace cs = d # ds" "dropWhile isSpace ds = e # rest"
    by (auto simp: slash_word_def split: list.splits if_splits)
  then show ?thesis using length_dropWhile_le[of isSpace cs] length_dropWhile_le[of isSpace ds] by simp
qed

function strip_firm :: "bool \<Rightarrow> string \<Rightarrow> string" where
  "strip_firm in_word [] = []"
| "strip_firm in_word (c # cs) = (case (if in_word then None else slash_word ''M'' CHR ''S'' (c # cs)) of
     None \<Rightarrow> c # strip_firm (is_word c) cs
   | Some rest \<Rightarrow> (case rest of
       x # xs \<Rightarrow> if x = CHR ''.'' then CHR '' '' # strip_firm False xs else CHR '' '' # strip_firm True rest
     | [] \<Rightarrow> '' ''))"
  by pat_completeness auto
termination
  by (relation "measure (length \<circ> snd)") (auto dest!: slash_word_shorter split: if_splits)

fun strip_parent :: "bool \<Rightarrow> string \<Rightarrow> string" where
  "strip_parent in_word [] = []"
| "strip_parent in_word (c # cs) = (case (if in_word then None else slash_word ''SDW'' CHR ''O'' (c # cs)) of
     None \<Rightarrow> c # strip_parent (is_word c) cs
   | Some rest \<Rightarrow> if list_all (\<lambda>x. code_of x \<noteq> 10 \<and> code_of x \<noteq> 13) rest then '' '' else c # strip_parent (is_word c) cs)"

fun split_spaces :: "string \<Rightarrow> string \<Rightarrow> string list" where
  "split_spaces acc [] = [rev acc]"
| "split_spaces acc (c # cs) = (if isSpace c then rev acc # split_spaces [] cs else split_spaces (c # acc) cs)"

definition nameTokens :: "string \<Rightarrow> string list" where
  "nameTokens raw = (let cleaned = map (\<lambda>c. if isUpper c \<or> isSpace c then c else CHR '' '')
       (strip_parent False (strip_firm False (toUpper raw)))
     in map (\<lambda>t. case map_of CANONICAL t of Some u \<Rightarrow> u | None \<Rightarrow> t)
          (filter (\<lambda>t. 0 < length t \<and> t \<notin> set HONORIFICS) (split_spaces [] cleaned)))"

section \<open>Spelling\<close>

text \<open>The table of \<^verbatim>\<open>distance\<close>, its cells filled row by row; the borders are there from the start.\<close>

type_synonym table = "nat list list"

definition cell :: "table \<Rightarrow> nat \<Rightarrow> nat \<Rightarrow> nat" where
  "cell d i j = d ! i ! j"

definition set_cell :: "table \<Rightarrow> nat \<Rightarrow> nat \<Rightarrow> nat \<Rightarrow> table" where
  "set_cell d i j x = d[i := (d ! i)[j := x]]"

definition blank_table :: "nat \<Rightarrow> nat \<Rightarrow> table" where
  "blank_table m n = map (\<lambda>i. map (\<lambda>j. if i = 0 then j else if j = 0 then i else 0) [0..<Suc n]) [0..<Suc m]"

definition fill_cell :: "string \<Rightarrow> string \<Rightarrow> nat \<Rightarrow> nat \<Rightarrow> table \<Rightarrow> table" where
  "fill_cell a b i j d =
     (let cost = (if a ! (i - 1) = b ! (j - 1) then 0 else 1);
          d = set_cell d i j (min (min (cell d (i - 1) j + 1) (cell d i (j - 1) + 1)) (cell d (i - 1) (j - 1) + cost))
      in if 1 < i \<and> 1 < j \<and> a ! (i - 1) = b ! (j - 2) \<and> a ! (i - 2) = b ! (j - 1)
         then set_cell d i j (min (cell d i j) (cell d (i - 2) (j - 2) + 1)) else d)"

definition fill_table :: "string \<Rightarrow> string \<Rightarrow> table" where
  "fill_table a b = fold (\<lambda>i. fold (fill_cell a b i) [1..<Suc (length b)]) [1..<Suc (length a)] (blank_table (length a) (length b))"

definition distance :: "string \<Rightarrow> string \<Rightarrow> nat \<Rightarrow> nat" where
  "distance a b limit = (if nat \<bar>int (length a) - int (length b)\<bar> > limit then limit + 1
     else cell (fill_table a b) (length a) (length b))"

fun replace_all :: "string \<Rightarrow> string \<Rightarrow> string \<Rightarrow> string" where
  "replace_all pat rep [] = []"
| "replace_all pat rep (c # cs) = (if pat \<noteq> [] \<and> take (length pat) (c # cs) = pat
     then rep @ replace_all pat rep (drop (length pat - 1) cs) else c # replace_all pat rep cs)"

fun drop_h_after :: "char list \<Rightarrow> string \<Rightarrow> string" where
  "drop_h_after cs (x # h # rest) = (if x \<in> set cs \<and> h = CHR ''H'' then x # drop_h_after cs rest else x # drop_h_after cs (h # rest))"
| "drop_h_after cs rest = rest"

definition soundKey :: "string \<Rightarrow> string" where
  "soundKey t = (let
     t = replace_all ''KSH'' ''X'' t;
     t = replace_all ''SH'' ''S'' t;
     t = replace_all ''PH'' ''F'' t;
     t = drop_h_after ''TDBGKC'' t;
     t = replace_all ''W'' ''V'' t;
     t = replace_all ''Z'' ''J'' t;
     t = replace_all ''Y'' ''I'' (replace_all ''EE'' ''I'' t);
     t = replace_all ''OO'' ''U'' t;
     t = remdups_adj t
     in if t \<noteq> [] \<and> last t = CHR ''A'' then butlast t else t)"

section \<open>Matching\<close>

datatype name_how = EXACT | INITIAL | TRUNCATED | SPELLING

record name_pair =
  np_seen :: string
  np_expected :: "string option"
  np_how :: "name_how option"

datatype name_verdict = MATCH | PARTIAL | MISMATCH | UNKNOWN

record name_match =
  nm_verdict :: name_verdict
  nm_pairs :: "name_pair list"

definition starts_with :: "string \<Rightarrow> string \<Rightarrow> bool" where
  "starts_with t pre \<longleftrightarrow> take (length pre) t = pre"

definition tries :: "string \<Rightarrow> bool \<Rightarrow> (string \<Rightarrow> name_how option) list" where
  "tries seen is_last = [
     (\<lambda>e. if e = seen then Some EXACT else None),
     (\<lambda>e. if 4 \<le> length seen \<and> 4 \<le> length e \<and>
          (distance seen e (if 8 \<le> length e then 2 else 1) \<le> (if 8 \<le> length e then 2 else 1) \<or> soundKey seen = soundKey e)
        then Some SPELLING else None),
     (\<lambda>e. if is_last \<and> 3 \<le> length seen \<and> length seen < length e \<and> starts_with e seen then Some TRUNCATED else None),
     (\<lambda>e. if length seen = 1 \<and> starts_with e seen then Some INITIAL else None),
     (\<lambda>e. if length e = 1 \<and> starts_with seen e then Some INITIAL else None)]"

fun first_some :: "('a \<Rightarrow> 'b option) \<Rightarrow> 'a list \<Rightarrow> 'b option" where
  "first_some f [] = None"
| "first_some f (x # xs) = (case f x of Some y \<Rightarrow> Some y | None \<Rightarrow> first_some f xs)"

definition pairOf :: "string \<Rightarrow> string list \<Rightarrow> nat list \<Rightarrow> bool \<Rightarrow> (nat \<times> name_how) option" where
  "pairOf seen expected used is_last =
     first_some (\<lambda>t. first_some (\<lambda>i. if i \<in> set used then None
         else case t (expected ! i) of None \<Rightarrow> None | Some how \<Rightarrow> Some (i, how)) [0..<length expected]) (tries seen is_last)"

fun pair_words :: "string list \<Rightarrow> nat list \<Rightarrow> string list \<Rightarrow> name_pair list \<times> nat list" where
  "pair_words expected used [] = ([], used)"
| "pair_words expected used (s # seen) =
     (case pairOf s expected used (seen = []) of
        None \<Rightarrow> (let (pairs, used) = pair_words expected used seen in (\<lparr>np_seen = s, np_expected = None, np_how = None\<rparr> # pairs, used))
      | Some (i, how) \<Rightarrow> (let (pairs, used) = pair_words expected (i # used) seen
          in (\<lparr>np_seen = s, np_expected = Some (expected ! i), np_how = Some how\<rparr> # pairs, used)))"

definition matchNames :: "string \<Rightarrow> string \<Rightarrow> name_match" where
  "matchNames expectedName seenName =
     (let expected = filter (\<lambda>t. t \<notin> set WEAK) (nameTokens expectedName);
          seen = filter (\<lambda>t. t \<notin> set WEAK) (nameTokens seenName)
      in if seen = [] then \<lparr>nm_verdict = UNKNOWN, nm_pairs = []\<rparr>
         else if expected = [] then \<lparr>nm_verdict = MISMATCH, nm_pairs = map (\<lambda>s. \<lparr>np_seen = s, np_expected = None, np_how = None\<rparr>) seen\<rparr>
         else let (pairs, used) = pair_words expected [] seen;
                  unmatched = length (filter (\<lambda>p. np_how p = None) pairs);
                  full = length (filter (\<lambda>p. np_how p \<noteq> None \<and> np_how p \<noteq> Some INITIAL) pairs)
              in if unmatched = 0
                 then if 2 \<le> full then \<lparr>nm_verdict = MATCH, nm_pairs = pairs\<rparr>
                      else if full = 1 \<and> length expected = 1 then \<lparr>nm_verdict = MATCH, nm_pairs = pairs\<rparr>
                      else \<lparr>nm_verdict = PARTIAL, nm_pairs = pairs\<rparr>
                 else if unmatched = 1 \<and> 2 \<le> full \<and> length used = length expected then \<lparr>nm_verdict = PARTIAL, nm_pairs = pairs\<rparr>
                 else \<lparr>nm_verdict = MISMATCH, nm_pairs = pairs\<rparr>)"

datatype account_check = SAME | DIFFERENT | NOT_SHOWN

record sender_verdict = name_match +
  sv_account :: account_check

definition judgeSender :: "string \<Rightarrow> string option \<Rightarrow> string option \<Rightarrow> string option \<Rightarrow> sender_verdict" where
  "judgeSender holderName last_four name accountDigits =
     (let names = (case name of None \<Rightarrow> \<lparr>nm_verdict = UNKNOWN, nm_pairs = []\<rparr>
            | Some n \<Rightarrow> if n = [] then \<lparr>nm_verdict = UNKNOWN, nm_pairs = []\<rparr> else matchNames holderName n);
          digits = (case accountDigits of None \<Rightarrow> [] | Some d \<Rightarrow> filter isDigit d);
          account = (case last_four of None \<Rightarrow> NOT_SHOWN | Some l \<Rightarrow>
            if 4 \<le> length digits \<and> l \<noteq> [] then (if starts_with (rev digits) (rev l) then SAME else DIFFERENT) else NOT_SHOWN);
          v = nm_verdict names;
          v = (if account = SAME \<and> v = PARTIAL then MATCH else v);
          v = (if account = DIFFERENT \<and> v = MATCH then PARTIAL else v)
      in \<lparr>nm_verdict = v, nm_pairs = nm_pairs names, sv_account = account\<rparr>)"

section \<open>The table computes the edit distance\<close>

text \<open>Reference: the least number of insertions, deletions, substitutions and exchanges of neighbours that turn the first \<open>i\<close>
  characters of one word into the first \<open>j\<close> of the other, by recursion on the prefixes.\<close>

fun edits :: "string \<Rightarrow> string \<Rightarrow> nat \<Rightarrow> nat \<Rightarrow> nat" where
  "edits a b 0 j = j"
| "edits a b (Suc i) 0 = Suc i"
| "edits a b (Suc i) (Suc j) =
     (let m = min (min (edits a b i (Suc j) + 1) (edits a b (Suc i) j + 1)) (edits a b i j + (if a ! i = b ! j then 0 else 1))
      in if 0 < i \<and> 0 < j \<and> a ! i = b ! (j - 1) \<and> a ! (i - 1) = b ! j then min m (edits a b (i - 1) (j - 1) + 1) else m)"

definition filled :: "string \<Rightarrow> string \<Rightarrow> nat \<Rightarrow> nat \<Rightarrow> table \<Rightarrow> bool" where
  "filled a b i j d \<longleftrightarrow> length d = Suc (length a) \<and> (\<forall>r \<in> set d. length r = Suc (length b)) \<and>
     (\<forall>i' j'. i' \<le> length a \<longrightarrow> j' \<le> length b \<longrightarrow> i' = 0 \<or> j' = 0 \<or> i' < i \<or> i' = i \<and> j' < j \<longrightarrow> cell d i' j' = edits a b i' j')"

lemma edits_0 [simp]: "edits a b i 0 = i"
  by (cases i) simp_all

lemma cell_set_cell:
  "i < length d \<Longrightarrow> j < length (d ! i) \<Longrightarrow> cell (set_cell d i j x) i' j' = (if i' = i \<and> j' = j then x else cell d i' j')"
  by (auto simp: cell_def set_cell_def nth_list_update)

lemma set_cell_shape:
  "length (set_cell d i j x) = length d"
  "i < length d \<Longrightarrow> \<forall>r \<in> set d. length r = n \<Longrightarrow> \<forall>r \<in> set (set_cell d i j x). length r = n"
  by (auto simp: set_cell_def dest!: set_update_subset_insert[THEN subsetD])

lemma fill_cell_value:
  assumes "i < length d" "j < length (d ! i)" "1 \<le> i" "1 \<le> j"
    and "cell d (i - 1) j = edits a b (i - 1) j" "cell d i (j - 1) = edits a b i (j - 1)" "cell d (i - 1) (j - 1) = edits a b (i - 1) (j - 1)"
    and "1 < i \<Longrightarrow> 1 < j \<Longrightarrow> cell d (i - 2) (j - 2) = edits a b (i - 2) (j - 2)"
  shows "cell (fill_cell a b i j d) i' j' = (if i' = i \<and> j' = j then edits a b i j else cell d i' j')"
proof -
  obtain k l where kl: "i = Suc k" "j = Suc l" using assms(3,4) by (cases i; cases j) auto
  define v where "v = min (min (cell d (i - 1) j + 1) (cell d i (j - 1) + 1)) (cell d (i - 1) (j - 1) + (if a ! (i - 1) = b ! (j - 1) then 0 else 1))"
  let ?d = "set_cell d i j v"
  let ?swap = "1 < i \<and> 1 < j \<and> a ! (i - 1) = b ! (j - 2) \<and> a ! (i - 2) = b ! (j - 1)"
  have shape: "i < length ?d" "j < length (?d ! i)" using assms(1,2) by (simp_all add: set_cell_def)
  have one: "cell ?d i' j' = (if i' = i \<and> j' = j then v else cell d i' j')" for i' j' by (rule cell_set_cell[OF assms(1,2)])
  have two: "cell (set_cell ?d i j x) i' j' = (if i' = i \<and> j' = j then x else cell d i' j')" for x i' j'
    unfolding cell_set_cell[OF shape] one by simp
  have "fill_cell a b i j d = (if ?swap then set_cell ?d i j (min (cell ?d i j) (cell ?d (i - 2) (j - 2) + 1)) else ?d)"
    by (simp only: fill_cell_def Let_def v_def)
  moreover have "cell ?d i j = v" "1 < i \<Longrightarrow> cell ?d (i - 2) (j - 2) = cell d (i - 2) (j - 2)" using one by auto
  ultimately have "cell (fill_cell a b i j d) i' j' = (if i' = i \<and> j' = j then (if ?swap then min v (cell d (i - 2) (j - 2) + 1) else v) else cell d i' j')"
    by (cases ?swap) (simp_all only: if_True if_False two one simp_thms)
  moreover have "edits a b i j = (if ?swap then min v (cell d (i - 2) (j - 2) + 1) else v)"
    using assms(5-8) unfolding kl v_def edits.simps(3) Let_def
    by (cases "0 < k \<and> 0 < l") (simp_all add: numeral_2_eq_2 split del: if_split cong: if_cong del: edits.simps)
  ultimately show ?thesis by simp
qed

lemma fill_cell_shape:
  assumes "i < length d" "\<forall>r \<in> set d. length r = n"
  shows "length (fill_cell a b i j d) = length d \<and> (\<forall>r \<in> set (fill_cell a b i j d). length r = n)"
proof -
  have "(\<exists>x. fill_cell a b i j d = set_cell d i j x) \<or> (\<exists>x y. fill_cell a b i j d = set_cell (set_cell d i j x) i j y)"
    unfolding fill_cell_def Let_def by (split if_split) blast
  moreover have "i < length (set_cell d i j x) \<and> (\<forall>r \<in> set (set_cell d i j x). length r = n)" for x
    using assms set_cell_shape(1) set_cell_shape(2)[OF assms] by simp
  moreover have "\<forall>r \<in> set (set_cell (set_cell d i j x) i j y). length r = n" for x y
    by (rule set_cell_shape(2)) (use calculation(2) in auto)
  ultimately show ?thesis using set_cell_shape(1) by (elim disjE exE) simp_all
qed

lemma fill_cell_filled:
  assumes "filled a b i j d" "1 \<le> i" "i \<le> length a" "1 \<le> j" "j \<le> length b"
  shows "filled a b i (Suc j) (fill_cell a b i j d)"
proof -
  have shape: "i < length d" "j < length (d ! i)" "\<forall>r \<in> set d. length r = Suc (length b)" using assms by (auto simp: filled_def)
  have known: "cell d i' j' = edits a b i' j'" if "i' \<le> length a" "j' \<le> length b" "i' = 0 \<or> j' = 0 \<or> i' < i \<or> i' = i \<and> j' < j" for i' j'
    using assms(1)[unfolded filled_def] that by blast
  have cells: "cell (fill_cell a b i j d) i' j' = (if i' = i \<and> j' = j then edits a b i j else cell d i' j')" for i' j'
    by (rule fill_cell_value) (use shape assms(2-5) in \<open>auto intro!: known\<close>)
  have "length (fill_cell a b i j d) = Suc (length a) \<and> (\<forall>r \<in> set (fill_cell a b i j d). length r = Suc (length b))"
    using fill_cell_shape[OF shape(1,3)] assms(1) by (simp add: filled_def)
  then show ?thesis using known by (auto simp: filled_def cells)
qed

lemma fill_row_filled:
  "filled a b i j d \<Longrightarrow> 1 \<le> i \<Longrightarrow> i \<le> length a \<Longrightarrow> 1 \<le> j \<Longrightarrow> j \<le> Suc (length b) \<Longrightarrow>
   filled a b (Suc i) 1 (fold (fill_cell a b i) [j..<Suc (length b)] d)"
proof (induction "Suc (length b) - j" arbitrary: j d)
  case 0
  then show ?case by (auto simp: filled_def less_Suc_eq)
next
  case (Suc n)
  then have j: "j \<le> length b" "[j..<Suc (length b)] = j # [Suc j..<Suc (length b)]" by (simp_all add: upt_conv_Cons del: upt_Suc)
  have next_j: "filled a b i (Suc j) (fill_cell a b i j d)" using fill_cell_filled Suc.prems j(1) by blast
  show ?case unfolding j(2) fold_Cons o_apply by (rule Suc.hyps(1)[OF _ next_j]) (use Suc.hyps(2) Suc.prems j(1) in auto)
qed

lemma fill_rows_filled:
  "filled a b i 1 d \<Longrightarrow> 1 \<le> i \<Longrightarrow> i \<le> Suc (length a) \<Longrightarrow>
   filled a b (Suc (length a)) 1 (fold (\<lambda>i. fold (fill_cell a b i) [1..<Suc (length b)]) [i..<Suc (length a)] d)"
proof (induction "Suc (length a) - i" arbitrary: i d)
  case 0
  then show ?case by simp
next
  case (Suc n)
  then have i: "i \<le> length a" "[i..<Suc (length a)] = i # [Suc i..<Suc (length a)]" by (simp_all add: upt_conv_Cons del: upt_Suc)
  have next_i: "filled a b (Suc i) 1 (fold (fill_cell a b i) [1..<Suc (length b)] d)" using fill_row_filled Suc.prems i(1) by simp
  show ?case unfolding i(2) fold_Cons o_apply by (rule Suc.hyps(1)[OF _ next_i]) (use Suc.hyps(2) Suc.prems i(1) in auto)
qed

lemma blank_filled: "filled a b 1 1 (blank_table (length a) (length b))"
proof -
  have "cell (blank_table (length a) (length b)) i j = (if i = 0 then j else if j = 0 then i else 0)" if "i \<le> length a" "j \<le> length b" for i j
    using that by (simp add: blank_table_def cell_def del: upt_Suc)
  then show ?thesis by (auto simp: filled_def blank_table_def less_Suc_eq_le)
qed

lemma fill_table_edits: "cell (fill_table a b) (length a) (length b) = edits a b (length a) (length b)"
  using fill_rows_filled[OF blank_filled] by (auto simp: fill_table_def filled_def)

lemma edits_Suc_0: "edits a b (Suc i) (Suc j) = 0 \<longleftrightarrow> edits a b i j = 0 \<and> a ! i = b ! j"
proof -
  have "min x y = 0 \<longleftrightarrow> x = 0 \<or> y = 0" for x y :: nat by (cases "x \<le> y") auto
  then show ?thesis unfolding edits.simps(3) Let_def by (simp del: edits.simps)
qed

lemma edits_0_equal: "i \<le> length a \<Longrightarrow> j \<le> length b \<Longrightarrow> edits a b i j = 0 \<longleftrightarrow> take i a = take j b"
proof (induction a b i j rule: edits.induct)
  case (3 a b i j)
  from "3.IH"(3) "3.prems" have "edits a b i j = 0 \<longleftrightarrow> take i a = take j b" by simp
  with "3.prems" show ?case unfolding edits_Suc_0 by (simp add: take_Suc_conv_app_nth)
qed auto

definition within :: "nat \<Rightarrow> nat \<Rightarrow> nat \<Rightarrow> bool" where
  "within i j m \<longleftrightarrow> i \<le> m + j \<and> j \<le> m + i"

lemma within_min: "within i j x \<Longrightarrow> within i j y \<Longrightarrow> within i j (min x y)"
  by (simp add: min_def)

lemma edits_within: "within i j (edits a b i j)"
proof (induction a b i j rule: edits.induct)
  case (3 a b i j)
  have swap: "within (Suc i) (Suc j) (edits a b (i - 1) (j - 1) + 1)" if "0 < i \<and> 0 < j \<and> a ! i = b ! (j - 1) \<and> a ! (i - 1) = b ! j"
  proof -
    have "within (i - 1) (j - 1) (edits a b (i - 1) (j - 1))" using "3.IH"(4) that by blast
    then show ?thesis using that unfolding within_def by linarith
  qed
  define m where "m = min (min (edits a b i (Suc j) + 1) (edits a b (Suc i) j + 1)) (edits a b i j + (if a ! i = b ! j then 0 else 1))"
  have m: "within (Suc i) (Suc j) m" unfolding m_def
    by (intro within_min) (use "3.IH"(1-3) in \<open>auto simp: within_def\<close>)
  have eq: "edits a b (Suc i) (Suc j) = (if 0 < i \<and> 0 < j \<and> a ! i = b ! (j - 1) \<and> a ! (i - 1) = b ! j
      then min m (edits a b (i - 1) (j - 1) + 1) else m)"
    by (simp only: edits.simps(3) Let_def m_def)
  show ?case using within_min[OF m swap] m unfolding eq by (simp split: if_split del: edits.simps)
qed (simp_all add: within_def)

lemma distance_edits: "distance a b limit \<le> limit \<longleftrightarrow> edits a b (length a) (length b) \<le> limit"
  using edits_within[of "length a" "length b" a b] by (auto simp: distance_def fill_table_edits within_def)

section \<open>Matching pairs different words\<close>

text \<open>What each kind of match says of the word seen and the word of the holder's name.\<close>

definition fits :: "name_how \<Rightarrow> string \<Rightarrow> string \<Rightarrow> bool" where
  "fits how seen e = (case how of
     EXACT \<Rightarrow> e = seen
   | SPELLING \<Rightarrow> 4 \<le> length seen \<and> 4 \<le> length e \<and>
       (edits seen e (length seen) (length e) \<le> (if 8 \<le> length e then 2 else 1) \<or> soundKey seen = soundKey e)
   | TRUNCATED \<Rightarrow> 3 \<le> length seen \<and> length seen < length e \<and> starts_with e seen
   | INITIAL \<Rightarrow> length seen = 1 \<and> starts_with e seen \<or> length e = 1 \<and> starts_with seen e)"

lemma first_some_Some: "first_some f xs = Some y \<Longrightarrow> \<exists>x \<in> set xs. f x = Some y"
  by (induction xs) (auto split: option.splits)

lemma tries_fit: "t \<in> set (tries seen is_last) \<Longrightarrow> t e = Some how \<Longrightarrow> fits how seen e"
  by (auto simp: tries_def fits_def distance_edits split: if_splits)

lemma pairOf_Some:
  assumes "pairOf seen expected used is_last = Some (i, how)"
  shows "i < length expected \<and> i \<notin> set used \<and> fits how seen (expected ! i)"
proof -
  from assms obtain t where t: "t \<in> set (tries seen is_last)"
    "first_some (\<lambda>i. if i \<in> set used then None else case t (expected ! i) of None \<Rightarrow> None | Some how \<Rightarrow> Some (i, how)) [0..<length expected] = Some (i, how)"
    unfolding pairOf_def by (blast dest: first_some_Some)
  from first_some_Some[OF t(2)] have "i < length expected" "i \<notin> set used" "t (expected ! i) = Some how"
    by (auto split: if_splits option.splits)
  with tries_fit[OF t(1)] show ?thesis by blast
qed

definition paired :: "name_pair \<Rightarrow> bool" where
  "paired p \<longleftrightarrow> np_how p \<noteq> None"

definition pair_ok :: "name_pair \<Rightarrow> bool" where
  "pair_ok p \<longleftrightarrow> (case np_how p of None \<Rightarrow> np_expected p = None | Some how \<Rightarrow> \<exists>e. np_expected p = Some e \<and> fits how (np_seen p) e)"

lemma pair_words_sound:
  "pair_words expected used seen = (pairs, used') \<Longrightarrow> distinct used \<Longrightarrow> set used \<subseteq> {..<length expected} \<Longrightarrow>
   \<exists>new. used' = new @ used \<and> distinct used' \<and> set used' \<subseteq> {..<length expected} \<and> map np_seen pairs = seen \<and>
     mset (map (\<lambda>p. the (np_expected p)) (filter paired pairs)) = mset (map ((!) expected) new) \<and> (\<forall>p \<in> set pairs. pair_ok p)"
proof (induction seen arbitrary: used pairs used')
  case (Cons s seen)
  show ?case
  proof (cases "pairOf s expected used (seen = [])")
    case None
    obtain ps u where rest: "pair_words expected used seen = (ps, u)" by force
    with Cons.prems(1) None have "pairs = \<lparr>np_seen = s, np_expected = None, np_how = None\<rparr> # ps" "used' = u" by auto
    with Cons.IH[OF rest Cons.prems(2,3)] show ?thesis by (auto simp: paired_def pair_ok_def)
  next
    case (Some x)
    obtain i how where x: "x = (i, how)" by force
    note i = pairOf_Some[OF Some[unfolded x]]
    obtain ps u where rest: "pair_words expected (i # used) seen = (ps, u)" by force
    with Cons.prems(1) Some x have out: "pairs = \<lparr>np_seen = s, np_expected = Some (expected ! i), np_how = Some how\<rparr> # ps" "used' = u" by auto
    have "distinct (i # used)" "set (i # used) \<subseteq> {..<length expected}" using i Cons.prems(2,3) by auto
    from Cons.IH[OF rest this] obtain new where new: "u = new @ i # used" "distinct u" "set u \<subseteq> {..<length expected}" "map np_seen ps = seen"
      "mset (map (\<lambda>p. the (np_expected p)) (filter paired ps)) = mset (map ((!) expected) new)" "\<forall>p \<in> set ps. pair_ok p" by blast
    with out i show ?thesis by (intro exI[of _ "new @ [i]"]) (auto simp: paired_def pair_ok_def)
  qed
qed simp

lemma chosen_words: "distinct is \<Longrightarrow> set is \<subseteq> {..<length xs} \<Longrightarrow> mset (map ((!) xs) is) \<subseteq># mset xs"
proof -
  assume "distinct is" "set is \<subseteq> {..<length xs}"
  then have "mset is \<subseteq># mset [0..<length xs]"
    by (metis distinct_upt atLeast_upt mset_set_set finite_lessThan subset_imp_msubset_mset_set)
  then have "image_mset ((!) xs) (mset is) \<subseteq># image_mset ((!) xs) (mset [0..<length xs])" by (rule image_mset_subseteq_mono)
  moreover have "image_mset ((!) xs) (mset [0..<length xs]) = mset xs" by (metis map_nth mset_map)
  ultimately show ?thesis by simp
qed

section \<open>Reading a UPI link back\<close>

definition unhex :: "char \<Rightarrow> nat" where
  "unhex c = (if isDigit c then code_of c - 48 else code_of c - 55)"

fun percent_decode :: "string \<Rightarrow> string" where
  "percent_decode [] = []"
| "percent_decode (c # cs) = (if c = CHR ''%'' \<and> 2 \<le> length cs
     then char_of (16 * unhex (cs ! 0) + unhex (cs ! 1)) # percent_decode (drop 2 cs) else c # percent_decode cs)"

fun split_at :: "char \<Rightarrow> string \<Rightarrow> string list" where
  "split_at x [] = [[]]"
| "split_at x (c # cs) = (if c = x then [] # split_at x cs else (case split_at x cs of [] \<Rightarrow> [[c]] | w # ws \<Rightarrow> (c # w) # ws))"

definition read_link :: "string \<Rightarrow> (string \<times> string) list" where
  "read_link uri = map (\<lambda>p. (take 2 p, percent_decode (drop 3 p))) (split_at CHR ''&'' (drop 10 uri))"

lemma hex_digits: "n < 16 \<Longrightarrow> unhex (hex_digit n) = n \<and> hex_digit n \<noteq> CHR ''&''"
proof -
  have "list_all (\<lambda>n. unhex (hex_digit n) = n \<and> hex_digit n \<noteq> CHR ''&'') [0..<16]" by code_simp
  then show "n < 16 \<Longrightarrow> ?thesis" by (auto simp: list_all_iff)
qed

lemma unreserved_chars: "uri_unreserved c \<Longrightarrow> c \<noteq> CHR ''%'' \<and> c \<noteq> CHR ''&''"
proof -
  have "\<not> uri_unreserved CHR ''%''" "\<not> uri_unreserved CHR ''&''" by code_simp+
  then show "uri_unreserved c \<Longrightarrow> ?thesis" by blast
qed

lemma code_of_bound: "code_of c < 256"
  by (simp add: code_of_def)

lemma decode_encode: "percent_decode (encodeURIComponent t) = t"
proof (induction t)
  case (Cons c t)
  have "code_of c div 16 < 16" using code_of_bound[of c] by simp
  then have "char_of (16 * unhex (hex_digit (code_of c div 16)) + unhex (hex_digit (code_of c mod 16))) = c"
    using hex_digits[of "code_of c div 16"] hex_digits[of "code_of c mod 16"] by (simp add: code_of_def)
  with Cons unreserved_chars[of c] show ?case by (auto simp: encodeURIComponent_def)
qed (simp add: encodeURIComponent_def)

lemma encode_no_amp: "CHR ''&'' \<notin> set (encodeURIComponent t)"
proof (induction t)
  case (Cons c t)
  have "code_of c div 16 < 16" using code_of_bound[of c] by simp
  then have "hex_digit (code_of c div 16) \<noteq> CHR ''&''" "hex_digit (code_of c mod 16) \<noteq> CHR ''&''" using hex_digits by auto
  with Cons unreserved_chars[of c] show ?case by (auto simp: encodeURIComponent_def)
qed (simp add: encodeURIComponent_def)

lemma decode_plain: "CHR ''%'' \<notin> set t \<Longrightarrow> percent_decode t = t"
  by (induction t) auto

lemma split_at_plain: "x \<notin> set w \<Longrightarrow> split_at x w = [w]"
  by (induction w) auto

lemma split_at_append: "x \<notin> set w \<Longrightarrow> split_at x (w @ x # rest) = w # split_at x rest"
  by (induction w) auto

lemma split_join: "ws \<noteq> [] \<Longrightarrow> (\<forall>w \<in> set ws. x \<notin> set w) \<Longrightarrow> split_at x (join_with [x] ws) = ws"
  by (induction "[x]" ws rule: join_with.induct) (auto simp: split_at_plain split_at_append)

lemma takeWhile_to_dot: "list_all isDigit w \<Longrightarrow> takeWhile (\<lambda>c. c \<noteq> CHR ''.'') (w @ g) = w @ takeWhile (\<lambda>c. c \<noteq> CHR ''.'') g"
proof -
  have "\<not> isDigit CHR ''.''" by code_simp
  then show "list_all isDigit w \<Longrightarrow> ?thesis" by (intro takeWhile_append2) (auto simp: list_all_iff)
qed

lemma upi_amount_whole: "list_all isDigit w \<Longrightarrow> upi_amount w = w @ ''.'' @ padEnd [] 2"
  using takeWhile_to_dot[of w "[]"] unfolding append_Nil2 by (simp only: upi_amount_def Let_def takeWhile.simps append_Nil2 drop_all le_Suc_eq simp_thms) simp

lemma upi_amount_fraction: "list_all isDigit w \<Longrightarrow> upi_amount (w @ CHR ''.'' # f) = w @ ''.'' @ padEnd f 2"
  using takeWhile_to_dot[of w "CHR ''.'' # f"] by (simp add: upi_amount_def Let_def)

lemma upi_amount_digits:
  assumes "UPI_AMOUNT t"
  shows "\<exists>w f. t = render_decimal False w f \<and> list_all isDigit w \<and> w \<noteq> [] \<and> list_all isDigit f \<and> length f \<le> 2 \<and> upi_amount t = w @ ''.'' @ padEnd f 2"
proof -
  define w where "w = takeWhile isDigit t"
  obtain g where t: "t = w @ g" "g = dropWhile isDigit t" by (simp add: w_def)
  have w: "list_all isDigit w" "w \<noteq> []" using assms set_takeWhileD[of _ isDigit t] by (simp_all add: w_def UPI_AMOUNT_def list_all_iff)
  show ?thesis
  proof (cases g)
    case Nil
    with t(1) have "t = w" by simp
    with w upi_amount_whole show ?thesis by (intro exI[of _ w] exI[of _ "[]"]) (simp add: render_decimal_def)
  next
    case (Cons d f)
    with assms t(2)[symmetric] have f: "d = CHR ''.''" "list_all isDigit f" "length f \<le> 2" "f \<noteq> []" by (auto simp: UPI_AMOUNT_def)
    with t(1) Cons have "t = w @ CHR ''.'' # f" by simp
    with w f upi_amount_fraction show ?thesis by (intro exI[of _ w] exI[of _ f]) (simp add: render_decimal_def)
  qed
qed

lemma upi_amount_chars: "UPI_AMOUNT t \<Longrightarrow> c \<in> set (upi_amount t) \<Longrightarrow> isDigit c \<or> c = CHR ''.''"
proof -
  assume "UPI_AMOUNT t" and c: "c \<in> set (upi_amount t)"
  from upi_amount_digits[OF this(1)] obtain w f where "list_all isDigit w" "list_all isDigit f" "upi_amount t = w @ ''.'' @ padEnd f 2" by blast
  moreover have "isDigit CHR ''0''" by code_simp
  ultimately show ?thesis using c by (auto simp: padEnd_def list_all_iff)
qed

lemma DECIMAL_RE_leading_zero:
  assumes "list_all isDigit w" "w \<noteq> []" "hd w = CHR ''0''" "w \<noteq> ''0''"
  shows "DECIMAL_RE (render_decimal False w f) = None"
proof -
  let ?t = "render_decimal False w f"
  obtain u where u: "w = CHR ''0'' # u" using assms(2,3) by (cases w) auto
  have "takeWhile isDigit ?t = w" using takeWhile_digits[OF assms(1)] takeWhile_all_digits[OF assms(1)] by (cases "f = []") (simp_all add: render_decimal_def)
  moreover have "(case ?t of c # _ \<Rightarrow> c = CHR ''-'' | [] \<Rightarrow> False) = False" using u by (simp add: render_decimal_def)
  ultimately show ?thesis using assms(2-4) unfolding DECIMAL_RE_def Let_def by simp
qed

lemma upi_amount_value: "UPI_AMOUNT t \<Longrightarrow> Money_parse t INR = Inr m \<Longrightarrow> Money_parse (upi_amount t) INR = Inr m"
proof -
  assume t: "UPI_AMOUNT t" and m: "Money_parse t INR = Inr m"
  from upi_amount_digits[OF t] obtain w f where wf: "t = render_decimal False w f" "list_all isDigit w" "w \<noteq> []" "list_all isDigit f" "length f \<le> 2"
    "upi_amount t = w @ ''.'' @ padEnd f 2" by blast
  from m obtain x where x: "parseDecimalToMinor t 2 = Inr x" "m = ofMinor x INR" by (auto simp: Money_parse_def exponentOf_def)
  have "DECIMAL_RE t \<noteq> None" using x(1) by (auto simp: parseDecimalToMinor_def split: option.splits)
  then have "w = ''0''" if "hd w = CHR ''0''" using DECIMAL_RE_leading_zero[OF wf(2,3) that, of f] wf(1) by fastforce
  then have parts: "decimal_parts w f" using wf(2-4) by (simp add: decimal_parts_def)
  have pad: "padEnd f 2 \<noteq> []" "length (padEnd f 2) = 2" using wf(5) by (auto simp: padEnd_def)
  have digits: "list_all isDigit (padEnd f 2)" using wf(4) by (auto simp: padEnd_def list_all_iff isDigit_def)
  then have parts': "decimal_parts w (padEnd f 2)" using parts by (simp add: decimal_parts_def)
  have "upi_amount t = render_decimal False w (padEnd f 2)" using wf(6) pad by (simp add: render_decimal_def)
  moreover have "bigint_of (w @ padEnd f 2) = bigint_of (w @ f) * 10 ^ nat (2 - int (length f))"
  proof -
    have "length f + nat (2 - int (length f)) = 2" using wf(5) by simp
    then have "10 ^ length f * 10 ^ nat (2 - int (length f)) = (10 :: int)\<^sup>2" by (metis power_add)
    then have "(10 :: int)\<^sup>2 * bigint_of w = bigint_of w * 10 ^ length f * 10 ^ nat (2 - int (length f))" by simp
    then show ?thesis unfolding bigint_of_append bigint_of_padEnd pad(2) by (simp only: distrib_right mult.commute)
  qed
  ultimately show ?thesis using x parse_render[OF parts, of 2 False] parse_render[OF parts', of 2 False] wf(1,5) pad
    by (simp add: Money_parse_def exponentOf_def)
qed

section \<open>Properties\<close>

text \<open>Declarative reference for the spelling distance: \<open>aligned n s t\<close> when \<open>n\<close> edits (a letter changed, added, dropped, or two
  neighbours exchanged) turn \<open>s\<close> into \<open>t\<close>, read from left to right.\<close>

inductive aligned :: "nat \<Rightarrow> string \<Rightarrow> string \<Rightarrow> bool" where
  al_nil: "aligned 0 [] []"
| al_keep: "aligned n s t \<Longrightarrow> aligned n (s @ [c]) (t @ [c])"
| al_change: "aligned n s t \<Longrightarrow> aligned (n + 1) (s @ [c]) (t @ [d])"
| al_add: "aligned n s t \<Longrightarrow> aligned (n + 1) s (t @ [d])"
| al_drop: "aligned n s t \<Longrightarrow> aligned (n + 1) (s @ [c]) t"
| al_swap: "aligned n s t \<Longrightarrow> aligned (n + 1) (s @ [c, d]) (t @ [d, c])"

lemma min_cases: "P x \<Longrightarrow> P y \<Longrightarrow> P (min x (y :: nat))"
  by (simp add: min_def)

lemma take_two: "0 < i \<Longrightarrow> i < length a \<Longrightarrow> take (Suc i) a = take (i - 1) a @ [a ! (i - 1), a ! i]"
  by (cases i) (simp_all add: take_Suc_conv_app_nth)

lemma aligned_edits: "i \<le> length a \<Longrightarrow> j \<le> length b \<Longrightarrow> aligned (edits a b i j) (take i a) (take j b)"
proof (induction a b i j rule: edits.induct)
  case (1 a b j)
  then show ?case
  proof (induction j)
    case (Suc j)
    then show ?case using al_add[of j "[]" "take j b" "b ! j"] by (simp add: take_Suc_conv_app_nth)
  qed (simp add: al_nil)
next
  case (2 a b i)
  have "j \<le> length a \<Longrightarrow> aligned j (take j a) []" for j
  proof (induction j)
    case (Suc j)
    then show ?case using al_drop[of j "take j a" "[]" "a ! j"] by (simp add: take_Suc_conv_app_nth)
  qed (simp add: al_nil)
  from this[OF 2(1)] show ?case by simp
next
  case (3 a b i j)
  let ?P = "\<lambda>n. aligned n (take (Suc i) a) (take (Suc j) b)"
  have ends: "take (Suc i) a = take i a @ [a ! i]" "take (Suc j) b = take j b @ [b ! j]" using "3.prems" by (simp_all add: take_Suc_conv_app_nth)
  have "aligned (edits a b i (Suc j)) (take i a) (take (Suc j) b)" "aligned (edits a b (Suc i) j) (take (Suc i) a) (take j b)"
    "aligned (edits a b i j) (take i a) (take j b)" using "3.IH"(1-3) "3.prems" by simp_all
  then have steps: "?P (edits a b i (Suc j) + 1)" "?P (edits a b (Suc i) j + 1)" "?P (edits a b i j + (if a ! i = b ! j then 0 else 1))"
    using al_drop[of "edits a b i (Suc j)" "take i a" "take (Suc j) b" "a ! i"] al_add[of "edits a b (Suc i) j" "take (Suc i) a" "take j b" "b ! j"]
      al_keep[of "edits a b i j" "take i a" "take j b" "a ! i"] al_change[of "edits a b i j" "take i a" "take j b" "a ! i" "b ! j"]
    unfolding ends by auto
  have swap: "?P (edits a b (i - 1) (j - 1) + 1)" if "0 < i \<and> 0 < j \<and> a ! i = b ! (j - 1) \<and> a ! (i - 1) = b ! j"
  proof -
    have "aligned (edits a b (i - 1) (j - 1)) (take (i - 1) a) (take (j - 1) b)" using "3.IH"(4)[OF _ that] "3.prems" by simp
    then show ?thesis using al_swap[of _ _ _ "a ! (i - 1)" "a ! i"] take_two[of i a] take_two[of j b] that "3.prems" by simp
  qed
  show ?case unfolding edits.simps(3) Let_def using min_cases[of ?P, OF min_cases[of ?P, OF min_cases[of ?P, OF steps(1,2)] steps(3)] swap]
      min_cases[of ?P, OF min_cases[of ?P, OF steps(1,2)] steps(3)] by (cases "0 < i \<and> 0 < j \<and> a ! i = b ! (j - 1) \<and> a ! (i - 1) = b ! j") (simp_all only: if_True if_False simp_thms)
qed

lemma least_of_four:
  fixes x y z w :: nat
  shows "(let m = min (min x y) z in if C then min m w else m) \<le> x" "(let m = min (min x y) z in if C then min m w else m) \<le> y"
    "(let m = min (min x y) z in if C then min m w else m) \<le> z" "C \<Longrightarrow> (let m = min (min x y) z in if C then min m w else m) \<le> w"
  by (simp_all add: Let_def min_le_iff_disj)

lemma edits_Suc_le:
  "edits a b (Suc i) (Suc j) \<le> edits a b i (Suc j) + 1"
  "edits a b (Suc i) (Suc j) \<le> edits a b (Suc i) j + 1"
  "edits a b (Suc i) (Suc j) \<le> edits a b i j + (if a ! i = b ! j then 0 else 1)"
  by (subst edits.simps(3), rule least_of_four)+

lemma edits_swap_le:
  assumes "a ! Suc i = b ! j" "a ! i = b ! Suc j"
  shows "edits a b (Suc (Suc i)) (Suc (Suc j)) \<le> edits a b i j + 1"
proof -
  have "0 < Suc i \<and> 0 < Suc j \<and> a ! Suc i = b ! (Suc j - 1) \<and> a ! (Suc i - 1) = b ! Suc j" using assms by simp
  then have "edits a b (Suc (Suc i)) (Suc (Suc j)) \<le> edits a b (Suc i - 1) (Suc j - 1) + 1"
    unfolding edits.simps(3)[of a b "Suc i" "Suc j"] by (rule least_of_four(4))
  then show ?thesis by (simp only: diff_Suc_1)
qed

lemma take_snoc: "take (length (s @ [c])) a = s @ [c] \<Longrightarrow> take (length s) a = s \<and> a ! length s = c"
proof -
  assume h: "take (length (s @ [c])) a = s @ [c]"
  define u where "u = drop (length (s @ [c])) a"
  have "a = s @ c # u" using h append_take_drop_id[of "length (s @ [c])" a] by (simp add: u_def)
  then show ?thesis by simp
qed

lemma take_snoc2: "take (length (s @ [c, d])) a = s @ [c, d] \<Longrightarrow> take (length s) a = s \<and> a ! length s = c \<and> a ! Suc (length s) = d"
proof -
  assume h: "take (length (s @ [c, d])) a = s @ [c, d]"
  define u where "u = drop (length (s @ [c, d])) a"
  have "a = s @ c # d # u" using h append_take_drop_id[of "length (s @ [c, d])" a] by (simp add: u_def)
  then show ?thesis by (simp add: nth_append)
qed

lemma edits_le_aligned: "aligned n s t \<Longrightarrow> take (length s) a = s \<Longrightarrow> take (length t) b = t \<Longrightarrow> edits a b (length s) (length t) \<le> n"
proof (induction arbitrary: a b rule: aligned.induct)
  case (al_keep n s t c)
  note ends = take_snoc[OF al_keep.prems(1)] take_snoc[OF al_keep.prems(2)]
  show ?case using edits_Suc_le(3)[of a b "length s" "length t"] al_keep.IH[of a b] ends by (simp del: edits.simps)
next
  case (al_change n s t c d)
  note ends = take_snoc[OF al_change.prems(1)] take_snoc[OF al_change.prems(2)]
  show ?case using edits_Suc_le(3)[of a b "length s" "length t"] al_change.IH[of a b] ends by (simp del: edits.simps split: if_splits)
next
  case (al_add n s t d)
  note ends = take_snoc[OF al_add.prems(2)]
  show ?case using edits_Suc_le(2)[of a b "length s - 1" "length t"] al_add.IH[of a b] al_add.prems(1) ends
    by (cases "length s") (simp_all del: edits.simps(3))
next
  case (al_drop n s t c)
  note ends = take_snoc[OF al_drop.prems(1)]
  show ?case using edits_Suc_le(1)[of a b "length s" "length t - 1"] al_drop.IH[of a b] al_drop.prems(2) ends
    by (cases "length t") (simp_all del: edits.simps(3))
next
  case (al_swap n s t c d)
  note ends = take_snoc2[OF al_swap.prems(1)] take_snoc2[OF al_swap.prems(2)]
  show ?case using edits_swap_le[of a "length s" b "length t"] al_swap.IH[of a b] ends by (simp del: edits.simps)
qed simp

text \<open>C40: the distance of two words, computed in a table with a cut-off, is within the limit
  exactly when that many edits (a letter changed, added, dropped, or two neighbours exchanged) turn one word into the other;
  and it is zero exactly for equal words.\<close>

theorem name_distance_is_edit_distance:
  "(distance a b limit \<le> limit \<longleftrightarrow> (\<exists>n. n \<le> limit \<and> aligned n a b)) \<and> (distance a b limit = 0 \<longleftrightarrow> a = b)"
proof
  have "aligned (edits a b (length a) (length b)) a b" using aligned_edits[of "length a" a "length b" b] by simp
  moreover have "edits a b (length a) (length b) \<le> n" if "aligned n a b" for n using edits_le_aligned[OF that, of a b] by simp
  ultimately show "distance a b limit \<le> limit \<longleftrightarrow> (\<exists>n. n \<le> limit \<and> aligned n a b)" unfolding distance_edits using order_trans by blast
  show "distance a b limit = 0 \<longleftrightarrow> a = b"
    using edits_0_equal[of "length a" a "length b" b] by (auto simp: distance_def fill_table_edits)
qed

text \<open>A UPI link that is built opens a payment: split at its ampersands and percent-decoded, it carries
  the payee's UPI identifier, the name and the remark as cleaned, INR, and an amount that reads as the same money as the one asked for.\<close>

theorem upi_link_reads_back:
  assumes "upiPayUri req = Inr uri"
  shows "(\<exists>vpa. requireVpa (ur_vpa req) = Inr vpa \<and> take 10 uri = ''upi://pay'' @ ''?'' \<and>
     read_link uri = [(''pa'', vpa), (''pn'', upi_text '' .&-'' (ur_payee req)), (''am'', upi_amount (ur_amount req)), (''cu'', ''INR''),
       (''tn'', upi_text '' -'' (ur_note req))]) \<and>
     (\<forall>m. Money_parse (ur_amount req) INR = Inr m \<longrightarrow> Money_parse (upi_amount (ur_amount req)) INR = Inr m)"
proof -
  from assms obtain vpa where vpa: "requireVpa (ur_vpa req) = Inr vpa" and amount: "UPI_AMOUNT (ur_amount req)"
    by (auto simp: upiPayUri_def bindR_def split: sum.splits if_splits)
  let ?params = "[''pa='' @ encodeURIComponent vpa, ''pn='' @ encodeURIComponent (upi_text '' .&-'' (ur_payee req)), ''am='' @ upi_amount (ur_amount req),
    ''cu=INR'', ''tn='' @ encodeURIComponent (upi_text '' -'' (ur_note req))]"
  have not_digits: "\<not> isDigit CHR ''&''" "\<not> isDigit CHR ''%''" by code_simp+
  have uri: "uri = ''upi://pay?'' @ join_with ''&'' ?params" using assms vpa amount by (simp add: upiPayUri_def bindR_def Let_def)
  have digits: "CHR ''&'' \<notin> set (upi_amount (ur_amount req))" "CHR ''%'' \<notin> set (upi_amount (ur_amount req))" using upi_amount_chars[OF amount, of "CHR ''&''"] upi_amount_chars[OF amount, of "CHR ''%''"] not_digits by auto
  have "split_at CHR ''&'' (join_with ''&'' ?params) = ?params" by (rule split_join) (use digits in \<open>simp_all add: encode_no_amp\<close>)
  then have "read_link uri = [(''pa'', vpa), (''pn'', upi_text '' .&-'' (ur_payee req)), (''am'', upi_amount (ur_amount req)), (''cu'', ''INR''),
       (''tn'', upi_text '' -'' (ur_note req))]"
    unfolding read_link_def uri by (simp add: decode_encode decode_plain digits)
  with uri vpa show ?thesis using upi_amount_value[OF amount] by simp
qed

lemma upi_link_reads_back_witness:
  "(\<exists>vpa. requireVpa (JStr '' Rahul@okbank '') = Inr vpa \<and>
     read_link ''upi://pay?pa=rahul%40okbank&pn=R.%20%26%20Co&am=1250.50&cu=INR&tn=INR%20482913'' =
       [(''pa'', vpa), (''pn'', ''R. & Co''), (''am'', ''1250.50''), (''cu'', ''INR''), (''tn'', ''INR 482913'')])"
proof -
  let ?req = "\<lparr>ur_vpa = JStr '' Rahul@okbank '', ur_payee = ''R. & Co/'', ur_amount = ''1250.5'', ur_note = ''INR 482913''\<rparr>"
  have "upiPayUri ?req = Inr ''upi://pay?pa=rahul%40okbank&pn=R.%20%26%20Co&am=1250.50&cu=INR&tn=INR%20482913''" by code_simp
  moreover have "upi_text '' .&-'' ''R. & Co/'' = ''R. & Co''" "upi_amount ''1250.5'' = ''1250.50''" "upi_text '' -'' ''INR 482913'' = ''INR 482913''" by code_simp+
  ultimately show ?thesis using upi_link_reads_back[of ?req] by simp
qed

section \<open>What a matching sender name shows\<close>

abbreviation significant :: "string \<Rightarrow> string list" where
  "significant name \<equiv> filter (\<lambda>t. t \<notin> set WEAK) (nameTokens name)"

definition full_words :: "name_pair list \<Rightarrow> nat" where
  "full_words pairs = length (filter (\<lambda>p. np_how p \<noteq> None \<and> np_how p \<noteq> Some INITIAL) pairs)"

definition matched_words :: "name_pair list \<Rightarrow> string multiset" where
  "matched_words pairs = mset (map (\<lambda>p. the (np_expected p)) (filter paired pairs))"

definition unpaired_words :: "name_pair list \<Rightarrow> nat" where
  "unpaired_words pairs = length (filter (\<lambda>p. np_how p = None) pairs)"

lemma whole_name_used:
  "distinct used \<Longrightarrow> set used \<subseteq> {..<length xs} \<Longrightarrow> length used = length xs \<Longrightarrow> mset (map ((!) xs) used) = mset xs"
proof -
  assume used: "distinct used" "set used \<subseteq> {..<length xs}" "length used = length xs"
  have "\<not> mset (map ((!) xs) used) \<subset># mset xs" using mset_subset_size[of "mset (map ((!) xs) used)" "mset xs"] used(3) by auto
  then show ?thesis using chosen_words[OF used(1,2)] by (simp add: subset_mset.le_less)
qed

text \<open>What the pairs of a judged name satisfy, whatever the verdict; and what each verdict adds.\<close>

definition pairs_sound :: "string \<Rightarrow> string \<Rightarrow> name_pair list \<Rightarrow> bool" where
  "pairs_sound holder sender pairs \<longleftrightarrow> map np_seen pairs = significant sender \<and> (\<forall>p \<in> set pairs. pair_ok p) \<and>
     matched_words pairs \<subseteq># mset (significant holder)"

definition enough :: "string \<Rightarrow> name_pair list \<Rightarrow> bool" where
  "enough holder pairs \<longleftrightarrow> unpaired_words pairs = 0 \<and> (2 \<le> full_words pairs \<or> full_words pairs = 1 \<and> length (significant holder) = 1)"

definition nearly :: "string \<Rightarrow> name_pair list \<Rightarrow> bool" where
  "nearly holder pairs \<longleftrightarrow> unpaired_words pairs = 0 \<or>
     unpaired_words pairs = 1 \<and> 2 \<le> full_words pairs \<and> matched_words pairs = mset (significant holder)"

lemma matchNames_pairs:
  assumes "matchNames holder sender = v" "nm_verdict v = MATCH \<or> nm_verdict v = PARTIAL"
  shows "pairs_sound holder sender (nm_pairs v) \<and> (if nm_verdict v = MATCH then enough holder (nm_pairs v) else nearly holder (nm_pairs v))"
proof -
  let ?seen = "significant sender" let ?exp = "significant holder"
  have "nm_verdict v = UNKNOWN" if "?seen = []" unfolding assms(1)[symmetric] matchNames_def Let_def that by simp
  moreover have "nm_verdict v = MISMATCH" if "?seen \<noteq> []" "?exp = []" unfolding assms(1)[symmetric] matchNames_def Let_def using that by simp
  moreover have "nm_verdict v \<noteq> UNKNOWN" "nm_verdict v \<noteq> MISMATCH" using assms(2) by auto
  ultimately have some: "?seen \<noteq> []" "?exp \<noteq> []" by blast+
  obtain pairs used where run: "pair_words ?exp [] ?seen = (pairs, used)" by force
  from pair_words_sound[OF run] have used: "distinct used" "set used \<subseteq> {..<length ?exp}" "map np_seen pairs = ?seen"
    "matched_words pairs = mset (map ((!) ?exp) used)" "\<forall>p \<in> set pairs. pair_ok p" by (auto simp: matched_words_def)
  have sound: "pairs_sound holder sender pairs" using used chosen_words[OF used(1,2)] by (simp add: pairs_sound_def)
  have v: "v = (if unpaired_words pairs = 0
      then if 2 \<le> full_words pairs then \<lparr>nm_verdict = MATCH, nm_pairs = pairs\<rparr>
        else if full_words pairs = 1 \<and> length ?exp = 1 then \<lparr>nm_verdict = MATCH, nm_pairs = pairs\<rparr> else \<lparr>nm_verdict = PARTIAL, nm_pairs = pairs\<rparr>
      else if unpaired_words pairs = 1 \<and> 2 \<le> full_words pairs \<and> length used = length ?exp then \<lparr>nm_verdict = PARTIAL, nm_pairs = pairs\<rparr>
      else \<lparr>nm_verdict = MISMATCH, nm_pairs = pairs\<rparr>)"
    unfolding assms(1)[symmetric] matchNames_def Let_def run using some by (simp only: full_words_def unpaired_words_def if_False prod.case)
  have all: "matched_words pairs = mset ?exp" if "length used = length ?exp" using whole_name_used[OF used(1,2) that] used(4) by simp
  show ?thesis using v assms(2) sound all by (auto simp: enough_def nearly_def split: if_splits)
qed



end
