(* ===== verification/Pricing.thy ===== *)
theory Pricing
  imports Routes
begin

text \<open>
  Rate snapshots (\<^verbatim>\<open>packages/pricing/src/rates.ts\<close>): the append-only price history of every route, of every trader's route and of
  the market reference, with the constraints and triggers of migrations 0010 and 0022. The advisory lock that serialises the
  publishers of one series is the order in which commands run.
\<close>

section \<open>Tables\<close>

datatype snapshot_kind = ROUTE_SNAPSHOT | REFERENCE_SNAPSHOT

record snapshot_row =
  sn_id :: string
  sn_kind :: snapshot_kind
  sn_route :: "string option"
  sn_direction :: direction
  sn_rate :: int
  sn_source :: string
  sn_effective_at :: int
  sn_supersedes :: "string option"
  sn_created_by :: string

record pricing_db = route_db +
  rate_snapshot :: "snapshot_row list"

text \<open>A series: the snapshots of one kind, route and direction.\<close>

type_synonym series = "snapshot_kind \<times> string option \<times> direction"

definition series_of :: "snapshot_row \<Rightarrow> series" where
  "series_of r = (sn_kind r, sn_route r, sn_direction r)"

section \<open>What the database refuses\<close>

text \<open>\<^verbatim>\<open>^(OPERATOR|TRADER|FEED:[a-z0-9_]{1,40})$\<close>.\<close>

definition is_feed :: "string \<Rightarrow> bool" where
  "is_feed t \<longleftrightarrow> take 5 t = ''FEED:'' \<and> 1 \<le> length (drop 5 t) \<and> length (drop 5 t) \<le> 40 \<and>
     list_all (\<lambda>c. isLowerDigit c \<or> c = CHR ''_'') (drop 5 t)"

definition snapshot_checks :: "snapshot_row \<Rightarrow> bool" where
  "snapshot_checks r \<longleftrightarrow> 0 < sn_rate r \<and> sn_rate r < 2 ^ 63 \<and> (sn_kind r = ROUTE_SNAPSHOT \<longleftrightarrow> sn_route r \<noteq> None) \<and>
     (sn_source r = ''OPERATOR'' \<or> sn_source r = ''TRADER'' \<or> is_feed (sn_source r)) \<and>
     (if sn_kind r = REFERENCE_SNAPSHOT then sn_source r \<noteq> ''TRADER'' else sn_source r \<in> {''OPERATOR'', ''TRADER''})"

definition owner_guard :: "snapshot_row \<Rightarrow> 'x pricing_db_scheme \<Rightarrow> bool" where
  "owner_guard r s \<longleftrightarrow> (sn_kind r = ROUTE_SNAPSHOT \<longrightarrow>
     (case find_route (the (sn_route r)) s of None \<Rightarrow> True | Some route \<Rightarrow> lr_trader route \<noteq> None \<longleftrightarrow> sn_source r = ''TRADER''))"

definition series_guard :: "snapshot_row \<Rightarrow> 'x pricing_db_scheme \<Rightarrow> bool" where
  "series_guard r s \<longleftrightarrow> (case sn_supersedes r of None \<Rightarrow> True
     | Some i \<Rightarrow> (case List.find (\<lambda>q. sn_id q = i) (rate_snapshot s) of None \<Rightarrow> False
         | Some prev \<Rightarrow> series_of prev = series_of r \<and> sn_effective_at prev \<le> sn_effective_at r))"

definition insert_snapshot :: "snapshot_row \<Rightarrow> ('x pricing_db_scheme, unit) cmd" where
  "insert_snapshot r = (\<lambda>s.
     if snapshot_checks r \<and> owner_guard r s \<and> series_guard r s \<and>
       (sn_supersedes r = None \<or> list_all (\<lambda>q. sn_supersedes q \<noteq> sn_supersedes r) (rate_snapshot s))
     then Inr ((), s\<lparr>rate_snapshot := rate_snapshot s @ [r]\<rparr>) else Inl DatabaseError)"

section \<open>Reading a series\<close>

definition latest :: "snapshot_row list \<Rightarrow> snapshot_row option" where
  "latest rs = (case rev (sort_key sn_effective_at (sort_key sn_id rs)) of [] \<Rightarrow> None | r # _ \<Rightarrow> Some r)"

definition seriesHead :: "snapshot_kind \<Rightarrow> string option \<Rightarrow> direction \<Rightarrow> 'x pricing_db_scheme \<Rightarrow> snapshot_row option" where
  "seriesHead kind route direction s = latest (filter (\<lambda>r. series_of r = (kind, route, direction)) (rate_snapshot s))"

record rate_reading =
  rs_id :: string
  rs_route :: "string option"
  rs_direction :: direction
  rs_rate :: rate
  rs_source :: string
  rs_effective_at :: int
  rs_age :: int

definition reading :: "rate_kind \<Rightarrow> int \<Rightarrow> snapshot_row \<Rightarrow> rate_reading result" where
  "reading kind now r = bindR (Rate_ofMicro (sn_rate r) kind) (\<lambda>rate.
     Inr \<lparr>rs_id = sn_id r, rs_route = sn_route r, rs_direction = sn_direction r, rs_rate = rate, rs_source = sn_source r,
       rs_effective_at = sn_effective_at r, rs_age = now - sn_effective_at r\<rparr>)"

definition routeRateSnapshot :: "js \<Rightarrow> 'x pricing_db_scheme \<Rightarrow> rate_reading result" where
  "routeRateSnapshot snapshotId s =
     bindR (requireUuid snapshotId) (\<lambda>i.
     case List.find (\<lambda>r. sn_id r = i \<and> sn_kind r = ROUTE_SNAPSHOT) (rate_snapshot s) of
       None \<Rightarrow> Inl (CoreError NOT_FOUND)
     | Some row \<Rightarrow> reading ROUTE_RATE (clock s) row)"

definition currentRouteRate :: "js \<Rightarrow> js \<Rightarrow> 'x pricing_db_scheme \<Rightarrow> rate_reading option result" where
  "currentRouteRate routeId direction s =
     bindR (requireUuid routeId) (\<lambda>i.
     bindR (requireOneOf direction DIRECTIONS) (\<lambda>d.
     case seriesHead ROUTE_SNAPSHOT (Some i) (direction_of d) s of
       None \<Rightarrow> Inr None
     | Some row \<Rightarrow> bindR (reading ROUTE_RATE (clock s) row) (\<lambda>x. Inr (Some x))))"

definition currentReferenceRate :: "js \<Rightarrow> 'x pricing_db_scheme \<Rightarrow> rate_reading option result" where
  "currentReferenceRate direction s =
     bindR (requireOneOf direction DIRECTIONS) (\<lambda>d.
     case seriesHead REFERENCE_SNAPSHOT None (direction_of d) s of
       None \<Rightarrow> Inr None
     | Some row \<Rightarrow> bindR (reading REFERENCE_RATE (clock s) row) (\<lambda>x. Inr (Some x)))"

definition requireCurrentRouteRate :: "js \<Rightarrow> js \<Rightarrow> 'x pricing_db_scheme \<Rightarrow> rate_reading result" where
  "requireCurrentRouteRate routeId direction s =
     bindR (currentRouteRate routeId direction s) (\<lambda>x. case x of None \<Rightarrow> Inl (ReferenceError ROUTE_RATE_MISSING) | Some r \<Rightarrow> Inr r)"

section \<open>Publishing\<close>

text \<open>\<^verbatim>\<open>Rate.toJSON\<close>.\<close>

definition rate_kind_name :: "rate_kind \<Rightarrow> string" where
  "rate_kind_name k = (case k of CLIENT_RATE \<Rightarrow> ''CLIENT'' | ROUTE_RATE \<Rightarrow> ''ROUTE'' | REFERENCE_RATE \<Rightarrow> ''REFERENCE'')"

definition js_rate :: "rate \<Rightarrow> js" where
  "js_rate r = (case Rate_toDecimalString r of
     Inl e \<Rightarrow> JUndefined
   | Inr t \<Rightarrow> JToJSON (JObj [(''rate'', JStr t), (''kind'', JStr (rate_kind_name (rkind r)))]) t)"

definition parse_rate :: "js \<Rightarrow> rate_kind \<Rightarrow> rate result" where
  "parse_rate v k = (case v of JStr t \<Rightarrow> Rate_parse t k | _ \<Rightarrow> Inl (CoreError INVALID_AMOUNT))"

definition snapshot_of :: "string \<Rightarrow> snapshot_kind \<Rightarrow> string option \<Rightarrow> direction \<Rightarrow> rate \<Rightarrow> string \<Rightarrow> int \<Rightarrow> snapshot_row option \<Rightarrow> tx_ctx \<Rightarrow> snapshot_row" where
  "snapshot_of i kind route direction rate source now prev ctx = \<lparr>sn_id = i, sn_kind = kind, sn_route = route, sn_direction = direction,
     sn_rate = micro rate, sn_source = source, sn_effective_at = now, sn_supersedes = map_option sn_id prev, sn_created_by = actorLabel ctx\<rparr>"

text \<open>The insert and its audit event, the same for a route's operator and trader rates.\<close>

definition publish :: "tx_ctx \<Rightarrow> string \<Rightarrow> direction \<Rightarrow> rate \<Rightarrow> string \<Rightarrow> ('x pricing_db_scheme, string \<times> string option) cmd" where
  "publish ctx route direction rate source =
     bindC (readC (seriesHead ROUTE_SNAPSHOT (Some route) direction)) (\<lambda>prev.
     bindC (readC clock) (\<lambda>now.
     bindC freshId (\<lambda>i.
     bindC (insert_snapshot (snapshot_of i ROUTE_SNAPSHOT (Some route) direction rate source now prev ctx)) (\<lambda>_.
     bindC (liftC (case prev of None \<Rightarrow> Inr JNull
       | Some p \<Rightarrow> bindR (Rate_ofMicro (sn_rate p) ROUTE_RATE) (\<lambda>q. Inr (JObj [(''snapshot_id'', JStr (sn_id p)), (''rate'', js_rate q)])))) (\<lambda>before.
     bindC (appendAudit ctx ''rate.changed'' ''rate_snapshot'' (Some i) before
       (JObj [(''kind'', JStr ''ROUTE''), (''route_id'', JStr route), (''direction'', JStr (direction_name direction)),
              (''rate'', js_rate rate), (''source'', JStr source)])) (\<lambda>_.
     returnC (i, map_option sn_id prev)))))))"

definition publishRouteRate :: "operator_actor \<Rightarrow> tx_ctx \<Rightarrow> js \<Rightarrow> ('x pricing_db_scheme, js) cmd" where
  "publishRouteRate a = operatorHandle a ''rates:update_route'' (\<lambda>ctx p d.
     bindC (liftC (requireOneOf (js_field ''direction'' p) DIRECTIONS)) (\<lambda>t.
     let direction = direction_of t
     in bindC (liftC (parse_rate (js_field ''rate'' p) ROUTE_RATE)) (\<lambda>rate.
        bindC (requireUsableRoute (js_field ''routeId'' p) direction) (\<lambda>route.
        bindC (unlessC (rw_trader route = None) (TraderError TRADER_ROUTE_MANAGED)) (\<lambda>_.
        bindC (publish ctx (rw_id route) direction rate ''OPERATOR'') (\<lambda>(i, prev).
        returnC (JObj [(''snapshotId'', JStr i), (''supersedesId'', js_opt prev)])))))))"

definition publishTraderRate :: "tx_ctx \<Rightarrow> js \<Rightarrow> js \<Rightarrow> rate \<Rightarrow> ('x pricing_db_scheme, string) cmd" where
  "publishTraderRate ctx routeId direction rate =
     bindC (liftC (requireOneOf direction DIRECTIONS)) (\<lambda>t.
     let direction = direction_of t
     in bindC (requireUsableRoute routeId direction) (\<lambda>route.
        bindC (unlessC (rw_trader route \<noteq> None) (CoreError INVALID_ARGUMENT)) (\<lambda>_.
        bindC (publish ctx (rw_id route) direction rate ''TRADER'') (\<lambda>(i, prev).
        returnC i))))"

definition recordReferenceRate :: "tx_ctx \<Rightarrow> js \<Rightarrow> rate \<Rightarrow> string \<Rightarrow> ('x pricing_db_scheme, string) cmd" where
  "recordReferenceRate ctx direction rate source =
     bindC (liftC (requireOneOf direction DIRECTIONS)) (\<lambda>t.
     bindC (unlessC (rkind rate = REFERENCE_RATE) (CoreError INVALID_RATE)) (\<lambda>_.
     bindC (unlessC (source = ''OPERATOR'' \<or> is_feed source) (CoreError INVALID_ARGUMENT)) (\<lambda>_.
     bindC (readC (seriesHead REFERENCE_SNAPSHOT None (direction_of t))) (\<lambda>prev.
     bindC (readC clock) (\<lambda>now.
     bindC freshId (\<lambda>i.
     bindC (insert_snapshot (snapshot_of i REFERENCE_SNAPSHOT None (direction_of t) rate source now prev ctx)) (\<lambda>_.
     bindC (appendAudit ctx ''rate.reference_recorded'' ''rate_snapshot'' (Some i) JUndefined
       (JObj [(''direction'', JStr t), (''rate'', js_rate rate), (''source'', JStr source)])) (\<lambda>_.
     returnC i))))))))"

definition recordReferenceRateCommand :: "operator_actor \<Rightarrow> tx_ctx \<Rightarrow> js \<Rightarrow> ('x pricing_db_scheme, js) cmd" where
  "recordReferenceRateCommand a = operatorHandle a ''rates:update_route'' (\<lambda>ctx p d.
     bindC (liftC (parse_rate (js_field ''rate'' p) REFERENCE_RATE)) (\<lambda>rate.
     bindC (recordReferenceRate ctx (js_field ''direction'' p) rate ''OPERATOR'') (\<lambda>i.
     returnC (JObj [(''snapshotId'', JStr i)]))))"

section \<open>Invariant: every series is a chain in the order it was published\<close>

fun chained :: "string option \<Rightarrow> snapshot_row list \<Rightarrow> bool" where
  "chained prev [] = True"
| "chained prev (r # rs) = (sn_supersedes r = prev \<and> chained (Some (sn_id r)) rs)"

definition before :: "snapshot_row \<Rightarrow> snapshot_row \<Rightarrow> bool" where
  "before r q \<longleftrightarrow> sn_effective_at r \<le> sn_effective_at q \<and> sn_id r < sn_id q"

definition in_series :: "series \<Rightarrow> snapshot_row list \<Rightarrow> snapshot_row list" where
  "in_series k rs = filter (\<lambda>r. series_of r = k) rs"

text \<open>Identifiers are time-ordered, as \<^verbatim>\<open>uuidv7()\<close> is documented to give them out.\<close>

definition ordered_ids :: "'x pricing_db_scheme \<Rightarrow> bool" where
  "ordered_ids s \<longleftrightarrow> (\<forall>m n. m < n \<longrightarrow> uuidv7 s m < uuidv7 s n)"

definition pricing_ok :: "'x pricing_db_scheme \<Rightarrow> bool" where
  "pricing_ok s \<longleftrightarrow> ordered_ids s \<and> sorted_wrt before (rate_snapshot s) \<and> (\<forall>k. chained None (in_series k (rate_snapshot s))) \<and>
     (\<forall>r \<in> set (rate_snapshot s). sn_effective_at r \<le> clock s \<and> given_id s (sn_id r) \<and> snapshot_checks r \<and> owner_guard r s)"

definition prices_from :: "snapshot_row list \<Rightarrow> route_row list \<Rightarrow> 'x pricing_db_scheme \<Rightarrow> bool" where
  "prices_from rs routes s \<longleftrightarrow> pricing_ok s \<and> (\<exists>new. rate_snapshot s = rs @ new) \<and> liquidity_route s = routes"

lemma chained_add: "chained p (rs @ [r]) \<longleftrightarrow> chained p rs \<and> sn_supersedes r = (if rs = [] then p else Some (sn_id (last rs)))"
  by (induction rs arbitrary: p) auto

lemma in_series_add: "in_series k (rs @ [r]) = in_series k rs @ (if series_of r = k then [r] else [])"
  by (simp add: in_series_def)

lemma sort_key_sorted: "sorted (map f xs) \<Longrightarrow> sort_key f xs = xs"
  by (induction xs) (auto simp: insort_is_Cons)

lemma latest_sorted: "sorted_wrt before rs \<Longrightarrow> latest rs = (if rs = [] then None else Some (last rs))"
proof -
  assume sorted_rs: "sorted_wrt before rs"
  have "sorted_wrt (\<lambda>x y. sn_id x \<le> sn_id y) rs" by (rule sorted_wrt_mono_rel[OF _ sorted_rs]) (auto simp: before_def intro: order.strict_implies_order)
  moreover have "sorted_wrt (\<lambda>x y. sn_effective_at x \<le> sn_effective_at y) rs" by (rule sorted_wrt_mono_rel[OF _ sorted_rs]) (simp add: before_def)
  ultimately have "sorted (map sn_id rs)" "sorted (map sn_effective_at rs)" by (simp_all only: sorted_map)
  then have "sort_key sn_effective_at (sort_key sn_id rs) = rs" by (simp add: sort_key_sorted)
  then show ?thesis by (cases rs rule: rev_cases) (simp_all add: latest_def)
qed

lemma head_of_series: "pricing_ok s \<Longrightarrow> seriesHead kind route d s = (let xs = in_series (kind, route, d) (rate_snapshot s) in if xs = [] then None else Some (last xs))"
  using latest_sorted[OF sorted_wrt_filter] by (auto simp: seriesHead_def in_series_def pricing_ok_def Let_def)

lemma given_before: "ordered_ids s \<Longrightarrow> given_id s i \<Longrightarrow> i < uuidv7 s (uuids s)"
  by (auto simp: given_id_def ordered_ids_def)

lemma owner_guard_cong: "liquidity_route t = liquidity_route s \<Longrightarrow> owner_guard r t = owner_guard r s"
  by (simp add: owner_guard_def find_route_def)

lemma prices_from_cong:
  assumes "prices_from rs routes s" "rate_snapshot t = rate_snapshot s" "uuidv7 t = uuidv7 s" "uuids s \<le> uuids t" "clock s \<le> clock t"
    "liquidity_route t = liquidity_route s"
  shows "prices_from rs routes t"
  using assms(1,2,5,6) given_id_mono[OF _ assms(3,4)] owner_guard_cong[OF assms(6)] assms(3)
  by (fastforce simp: prices_from_def pricing_ok_def ordered_ids_def)

lemma snapshot_added:
  assumes from_rs: "prices_from rs routes s"
    and run: "insert_snapshot (snapshot_of (uuidv7 s (uuids s)) kind route d rate source (clock s) (seriesHead kind route d s) ctx)
      (s\<lparr>uuids := Suc (uuids s)\<rparr>) = Inr (u, t)"
  defines "r \<equiv> snapshot_of (uuidv7 s (uuids s)) kind route d rate source (clock s) (seriesHead kind route d s) ctx"
  shows "prices_from rs routes t \<and> rate_snapshot t = rate_snapshot s @ [r] \<and> clock t = clock s"
proof -
  have ok: "pricing_ok s" using from_rs by (simp add: prices_from_def)
  have t: "t = s\<lparr>uuids := Suc (uuids s), rate_snapshot := rate_snapshot s @ [r]\<rparr>" and checks: "snapshot_checks r" "owner_guard r s"
    using run unfolding r_def[symmetric] insert_snapshot_def by (auto simp: owner_guard_def find_route_def split: if_splits)
  have r: "sn_id r = uuidv7 s (uuids s)" "sn_effective_at r = clock s" "series_of r = (kind, route, d)"
    "sn_supersedes r = map_option sn_id (seriesHead kind route d s)" by (simp_all add: r_def snapshot_of_def series_of_def)
  have "sn_id q < sn_id r" if "q \<in> set (rate_snapshot s)" for q
    using given_before[of s "sn_id q"] ok that r(1) by (simp add: pricing_ok_def)
  then have "sorted_wrt before (rate_snapshot t)" using ok r(2) by (auto simp: t sorted_wrt_append before_def pricing_ok_def)
  moreover have "chained None (in_series k (rate_snapshot t))" for k
  proof -
    have "chained None (in_series k (rate_snapshot s))" using ok unfolding pricing_ok_def by blast
    moreover have "rate_snapshot t = rate_snapshot s @ [r]" by (simp add: t)
    ultimately show ?thesis using r(3,4) head_of_series[OF ok, of kind route d]
      by (cases "series_of r = k") (auto simp only: in_series_add chained_add append_Nil2 Let_def if_True if_False option.map split: if_split)
  qed
  moreover have "given_id t (sn_id q)" if "q \<in> set (rate_snapshot t)" for q
  proof (cases "q = r")
    case True
    then show ?thesis using r(1) by (auto simp: t given_id_def)
  next
    case False
    then have "given_id s (sn_id q)" using that ok by (auto simp: t pricing_ok_def)
    then show ?thesis by (rule given_id_mono) (simp_all add: t)
  qed
  moreover have "owner_guard q t = owner_guard q s" for q by (simp add: t owner_guard_def find_route_def)
  ultimately have "pricing_ok t" using ok r checks by (auto simp: pricing_ok_def ordered_ids_def t)
  with from_rs show ?thesis by (auto simp: prices_from_def t)
qed

section \<open>Every command keeps it\<close>

lemma usable_route_Inr:
  "requireUsableRoute v d s = Inr (x, t) \<Longrightarrow> t = s \<and> (\<exists>r. requireUuid v = Inr (rw_id x) \<and> find_route (rw_id x) s = Some r \<and> rw_trader x = lr_trader r)"
proof -
  assume "requireUsableRoute v d s = Inr (x, t)"
  then obtain i r where "requireUuid v = Inr i" "find_route i s = Some r" "x = routeView r" "t = s"
    by (auto simp: requireUsableRoute_def lockRoute_def split: if_splits)
  then show ?thesis using find_Some_mem[of "\<lambda>r. lr_id r = i"] by (auto simp: find_route_def routeView_def)
qed

lemma publish_effect:
  assumes "prices_from rs routes s" "publish ctx route d rate source s = Inr ((i, p), t)"
  shows "prices_from rs routes t \<and> rate_snapshot t = rate_snapshot s @ [snapshot_of (uuidv7 s (uuids s)) ROUTE_SNAPSHOT (Some route) d rate source (clock s)
    (seriesHead ROUTE_SNAPSHOT (Some route) d s) ctx] \<and> clock t = clock s"
proof -
  from assms(2) obtain u where ins: "insert_snapshot (snapshot_of (uuidv7 s (uuids s)) ROUTE_SNAPSHOT (Some route) d rate source (clock s)
      (seriesHead ROUTE_SNAPSHOT (Some route) d s) ctx) (s\<lparr>uuids := Suc (uuids s)\<rparr>) = Inr ((), u)"
    and t: "rate_snapshot t = rate_snapshot u" "uuidv7 t = uuidv7 u" "uuids t = uuids u" "clock t = clock u" "liquidity_route t = liquidity_route u"
    by (auto simp: publish_def)
  from snapshot_added[OF assms(1) ins] have u: "prices_from rs routes u" "rate_snapshot u = rate_snapshot s @ [snapshot_of (uuidv7 s (uuids s))
    ROUTE_SNAPSHOT (Some route) d rate source (clock s) (seriesHead ROUTE_SNAPSHOT (Some route) d s) ctx]" "clock u = clock s" by auto
  from prices_from_cong[OF u(1) t(1,2) _ _ t(5)] t u show ?thesis by simp
qed

lemma publish_keeps: "keeps (prices_from rs routes) (publish ctx route d rate source)"
  by (rule keepsI) (use publish_effect in fastforce)

lemma prices_frames [inv_intros]:
  "keeps (prices_from rs routes) (appendAudit ctx action ty i b a)" "keeps (prices_from rs routes) (authorizeOperator o' permission)"
  "keeps (prices_from rs routes) (requireUsableRoute v d)"
  by (auto intro!: keepsI elim!: prices_from_cong dest: authorize_state usable_route_Inr)

lemma reference_keeps: "keeps (prices_from rs routes) (recordReferenceRate ctx d rate source)"
proof (rule keepsI)
  fix s x t assume from_rs: "prices_from rs routes s" and run: "recordReferenceRate ctx d rate source s = Inr (x, t)"
  from run obtain e u where ins: "insert_snapshot (snapshot_of (uuidv7 s (uuids s)) REFERENCE_SNAPSHOT None e rate source (clock s)
      (seriesHead REFERENCE_SNAPSHOT None e s) ctx) (s\<lparr>uuids := Suc (uuids s)\<rparr>) = Inr ((), u)"
    and t: "rate_snapshot t = rate_snapshot u" "uuidv7 t = uuidv7 u" "uuids t = uuids u" "clock t = clock u" "liquidity_route t = liquidity_route u"
    by (auto simp: recordReferenceRate_def split: if_splits)
  from snapshot_added[OF from_rs ins] have "prices_from rs routes u" by blast
  from prices_from_cong[OF this t(1,2) _ _ t(5)] t show "prices_from rs routes t" by simp
qed

lemma prices_keep:
  "keeps (prices_from rs routes) (publishRouteRate a ctx p)" "keeps (prices_from rs routes) (publishTraderRate ctx i d rate)"
  "keeps (prices_from rs routes) (recordReferenceRateCommand a ctx p)"
  unfolding publishRouteRate_def publishTraderRate_def recordReferenceRateCommand_def operatorHandle_def Let_def
  by (auto intro!: inv_intros publish_keeps reference_keeps split: prod.splits)

section \<open>Any sequence of calls\<close>

text \<open>\<open>Tick\<close> is time passing between two transactions.\<close>

datatype pricing_call =
    PublishRoute operator_actor tx_ctx js
  | PublishTrader tx_ctx js js rate
  | Reference operator_actor tx_ctx js
  | RecordFeed tx_ctx js rate string
  | Tick nat

fun run_pricing :: "pricing_call \<Rightarrow> ('x pricing_db_scheme, unit) cmd" where
  "run_pricing (PublishRoute a ctx p) = done_with (publishRouteRate a ctx p)"
| "run_pricing (PublishTrader ctx i d rate) = done_with (publishTraderRate ctx i d rate)"
| "run_pricing (Reference a ctx p) = done_with (recordReferenceRateCommand a ctx p)"
| "run_pricing (RecordFeed ctx d rate source) = done_with (recordReferenceRate ctx d rate source)"
| "run_pricing (Tick n) = writeC (\<lambda>s. s\<lparr>clock := clock s + int n\<rparr>)"

definition run_prices :: "pricing_call list \<Rightarrow> 'x pricing_db_scheme \<Rightarrow> 'x pricing_db_scheme" where
  "run_prices cs s = fold (\<lambda>c s. snd (runTx (run_pricing c) (s\<lparr>tx_rank := - 1\<rparr>))) cs s"

lemma pricing_keeps: "keeps (prices_from rs routes) (run_pricing c)"
  by (cases c) (auto intro!: done_keeps prices_keep reference_keeps keeps_write elim!: prices_from_cong)

lemma run_prices_keep: "prices_from rs routes s \<Longrightarrow> prices_from rs routes (run_prices cs s)"
proof (induction cs arbitrary: s)
  case (Cons c cs)
  have "prices_from rs routes (s\<lparr>tx_rank := - 1\<rparr>)" by (rule prices_from_cong[OF Cons.prems]) simp_all
  then have "prices_from rs routes (snd (runTx (run_pricing c) (s\<lparr>tx_rank := - 1\<rparr>)))"
    using keepsD[OF pricing_keeps[of rs routes c], of "s\<lparr>tx_rank := - 1\<rparr>"] Cons.prems by (auto simp: runTx_def split: sum.splits)
  with Cons.IH show ?case by (simp add: run_prices_def)
qed (simp add: run_prices_def)

section \<open>Properties\<close>

text \<open>C25: whatever is published, in any order, successful or refused, the price history only grows; every
  series (one route and direction, or the reference in one direction) is a single chain in which each rate names the one before it
  and the first names none; rates are positive, carry a legal source, and a trader's route has only the trader's rates.\<close>

theorem rate_series_is_chain:
  assumes "pricing_ok s"
  shows "(\<exists>new. rate_snapshot (run_prices cs s) = rate_snapshot s @ new) \<and>
    (\<forall>kind route d. chained None (filter (\<lambda>r. sn_kind r = kind \<and> sn_route r = route \<and> sn_direction r = d) (rate_snapshot (run_prices cs s)))) \<and>
    sorted_wrt before (rate_snapshot (run_prices cs s)) \<and>
    list_all (\<lambda>r. snapshot_checks r \<and> owner_guard r (run_prices cs s)) (rate_snapshot (run_prices cs s))"
proof -
  have "prices_from (rate_snapshot s) (liquidity_route s) s" using assms by (simp add: prices_from_def)
  from run_prices_keep[OF this] have ok: "pricing_ok (run_prices cs s)" and "\<exists>new. rate_snapshot (run_prices cs s) = rate_snapshot s @ new"
    unfolding prices_from_def by blast+
  moreover have "chained None (in_series (kind, route, d) (rate_snapshot (run_prices cs s)))" for kind route d
    using ok unfolding pricing_ok_def by blast
  ultimately show ?thesis by (simp add: in_series_def series_of_def pricing_ok_def list_all_iff)
qed

text \<open>After an operator publishes a route's rate, the current rate of that route and direction is the
  published one, of age zero, and every other series is as it was.\<close>

theorem published_rate_is_current:
  assumes "pricing_ok s" "publishRouteRate a ctx p s = Inr (out, t)"
  shows "\<exists>i d rate x. requireUuid (js_field ''routeId'' p) = Inr i \<and> requireOneOf (js_field ''direction'' p) DIRECTIONS = Inr d \<and>
    parse_rate (js_field ''rate'' p) ROUTE_RATE = Inr rate \<and> currentRouteRate (js_field ''routeId'' p) (js_field ''direction'' p) t = Inr (Some x) \<and>
    rs_rate x = rate \<and> rs_age x = 0 \<and> rs_source x = ''OPERATOR'' \<and> out = JObj [(''snapshotId'', JStr (rs_id x)),
      (''supersedesId'', js_opt (map_option sn_id (seriesHead ROUTE_SNAPSHOT (Some i) (direction_of d) s)))] \<and>
    (\<forall>kind route e. (kind, route, e) \<noteq> (ROUTE_SNAPSHOT, Some i, direction_of d) \<longrightarrow> seriesHead kind route e t = seriesHead kind route e s)"
proof -
  from operatorHandle_Inr[OF assms(2)[unfolded publishRouteRate_def]] obtain d rate route i prev u where
    d: "requireOneOf (js_field ''direction'' p) DIRECTIONS = Inr d" and rate: "parse_rate (js_field ''rate'' p) ROUTE_RATE = Inr rate"
    and route: "requireUsableRoute (js_field ''routeId'' p) (direction_of d) s = Inr (route, u)"
    and pub: "publish ctx (rw_id route) (direction_of d) rate ''OPERATOR'' u = Inr ((i, prev), t)"
    and out: "out = JObj [(''snapshotId'', JStr i), (''supersedesId'', js_opt prev)]"
    by (auto simp: Let_def split: if_splits)
  from usable_route_Inr[OF route] have u: "u = s" and uuid: "requireUuid (js_field ''routeId'' p) = Inr (rw_id route)" by auto
  have ok_s: "prices_from (rate_snapshot s) (liquidity_route s) s" using assms(1) by (simp add: prices_from_def)
  define r where "r = snapshot_of (uuidv7 s (uuids s)) ROUTE_SNAPSHOT (Some (rw_id route)) (direction_of d) rate ''OPERATOR'' (clock s)
    (seriesHead ROUTE_SNAPSHOT (Some (rw_id route)) (direction_of d) s) ctx"
  from publish_effect[OF ok_s pub[unfolded u]] have ok: "pricing_ok t" and t: "rate_snapshot t = rate_snapshot s @ [r]" "clock t = clock s"
    by (auto simp: prices_from_def r_def)
  have r: "series_of r = (ROUTE_SNAPSHOT, Some (rw_id route), direction_of d)" "sn_rate r = micro rate" "sn_effective_at r = clock s"
    "sn_source r = ''OPERATOR''" "sn_id r = uuidv7 s (uuids s)" by (simp_all add: r_def series_of_def snapshot_of_def)
  have head: "seriesHead kind rt e t = (if (kind, rt, e) = series_of r then Some r else seriesHead kind rt e s)" for kind rt e
    unfolding head_of_series[OF ok] head_of_series[OF assms(1)] t(1) in_series_add by (simp add: Let_def)
  have made: "Rate_ofMicro (micro rate) ROUTE_RATE = Inr rate" using rate by (auto simp: parse_rate_def Rate_parse_def Rate_ofMicro_def split: js.splits if_splits)
  have ids: "i = uuidv7 s (uuids s)" "prev = map_option sn_id (seriesHead ROUTE_SNAPSHOT (Some (rw_id route)) (direction_of d) s)"
    using pub unfolding u publish_def by (auto split: if_splits)
  let ?x = "\<lparr>rs_id = sn_id r, rs_route = sn_route r, rs_direction = sn_direction r, rs_rate = rate, rs_source = sn_source r, rs_effective_at = sn_effective_at r, rs_age = 0\<rparr>"
  have "currentRouteRate (js_field ''routeId'' p) (js_field ''direction'' p) t = Inr (Some ?x)"
    unfolding currentRouteRate_def uuid d bindR_simps head r(1) by (simp add: reading_def r(2,3) made t(2))
  moreover have "seriesHead kind rt e t = seriesHead kind rt e s" if "(kind, rt, e) \<noteq> (ROUTE_SNAPSHOT, Some (rw_id route), direction_of d)" for kind rt e
    using that unfolding head r(1) by (simp only: if_False)
  ultimately show ?thesis using uuid d rate out ids r(4,5) by (intro exI[of _ "rw_id route"] exI[of _ d] exI[of _ rate] exI[of _ ?x]) simp
qed

section \<open>A sample\<close>

text \<open>The routes of the sample desk, with identifiers that grow.\<close>

definition sample_prices :: pricing_db where
  "sample_prices = route_db.extend (route_db.truncate sample_routes) (pricing_db.fields [])\<lparr>uuidv7 := (\<lambda>n. replicate n CHR ''a'')\<rparr>"

lemma replicate_less: "m < n \<Longrightarrow> replicate m c < replicate n (c :: char)"
proof (induction m arbitrary: n)
  case (Suc m)
  then obtain k where "n = Suc k" "m < k" by (cases n) auto
  with Suc.IH show ?case by simp
next
  case 0
  then show ?case by (cases n) simp_all
qed

lemma sample_prices_ok: "pricing_ok sample_prices"
  by (simp add: pricing_ok_def sample_prices_def pricing_db.defs route_db.defs ordered_ids_def in_series_def replicate_less)

definition sample_publish :: "string \<Rightarrow> js" where
  "sample_publish rate = JObj [(''routeId'', JStr reservation_uuid), (''direction'', JStr ''SELL_USDT''), (''rate'', JStr rate)]"

text \<open>Two rates of one route and a rate for a trader's route by an operator, which is refused.\<close>

lemma rate_series_is_chain_witness:
  "map sn_rate (rate_snapshot (run_prices [PublishRoute (sample_actor CHR ''1'') sample_ctx (sample_publish ''96.5''), Tick 10,
     PublishRoute (sample_actor CHR ''1'') sample_ctx (sample_publish ''97'')] sample_prices)) = [96500000, 97000000] \<and>
   chained None (filter (\<lambda>r. sn_kind r = ROUTE_SNAPSHOT \<and> sn_route r = Some reservation_uuid \<and> sn_direction r = SELL_USDT)
     (rate_snapshot (run_prices [PublishRoute (sample_actor CHR ''1'') sample_ctx (sample_publish ''96.5''), Tick 10,
       PublishRoute (sample_actor CHR ''1'') sample_ctx (sample_publish ''97'')] sample_prices)))"
proof
  show "map sn_rate (rate_snapshot (run_prices [PublishRoute (sample_actor CHR ''1'') sample_ctx (sample_publish ''96.5''), Tick 10,
     PublishRoute (sample_actor CHR ''1'') sample_ctx (sample_publish ''97'')] sample_prices)) = [96500000, 97000000]" by code_simp
qed (use rate_series_is_chain[OF sample_prices_ok] in blast)

lemma published_rate_is_current_witness:
  "case publishRouteRate (sample_actor CHR ''1'') sample_ctx (sample_publish ''96.5'') sample_prices of Inl e \<Rightarrow> False
   | Inr (out, t) \<Rightarrow> (case currentRouteRate (JStr reservation_uuid) (JStr ''SELL_USDT'') t of
       Inr (Some x) \<Rightarrow> rs_rate x = \<lparr>micro = 96500000, rkind = ROUTE_RATE\<rparr> \<and> rs_age x = 0 | _ \<Rightarrow> False)"
proof -
  have ran: "case publishRouteRate (sample_actor CHR ''1'') sample_ctx (sample_publish ''96.5'') sample_prices of Inl e \<Rightarrow> False | Inr (out, t) \<Rightarrow> True"
    by code_simp
  have fields: "js_field ''routeId'' (sample_publish ''96.5'') = JStr reservation_uuid" "js_field ''direction'' (sample_publish ''96.5'') = JStr ''SELL_USDT''"
    "parse_rate (js_field ''rate'' (sample_publish ''96.5'')) ROUTE_RATE = Inr \<lparr>micro = 96500000, rkind = ROUTE_RATE\<rparr>" by code_simp+
  show ?thesis
  proof (cases "publishRouteRate (sample_actor CHR ''1'') sample_ctx (sample_publish ''96.5'') sample_prices")
    case (Inl e)
    then show ?thesis using ran by simp
  next
    case (Inr x)
    then obtain out t where "publishRouteRate (sample_actor CHR ''1'') sample_ctx (sample_publish ''96.5'') sample_prices = Inr (out, t)" by (cases x) auto
    with published_rate_is_current[OF sample_prices_ok this, unfolded fields] show ?thesis by auto
  qed
qed

end
