(* ===== verification/Trades.thy ===== *)
theory Trades
  imports Pricing LedgerRules
begin

text \<open>
  Trades (\<^verbatim>\<open>packages/trades/src\<close>): opening one from an accepted quote, its life cycle, what it owes and has settled, and the
  shape a client sees, with the constraints and triggers of migrations 0013 to 0015, 0025, 0028, 0033, 0039 and 0040. Foreign
  keys to clients and the trigger that ties a trader's route to an order are not modelled.
\<close>

section \<open>Tables\<close>

datatype trade_state = AWAITING_FIRST_LEG | FIRST_LEG_DETECTED | FIRST_LEG_CONFIRMED | SETTLING | PARTIALLY_SETTLED
  | TRADE_COMPLETED | TRADE_CANCELLED

record trade_row =
  td_id :: string
  td_ref :: string
  td_quote :: string
  td_request :: string
  td_client :: string
  td_direction :: direction
  td_state :: trade_state
  td_hold :: bool
  td_opened_at :: int
  td_completed_at :: "int option"
  td_cancelled_at :: "int option"
  td_created_by :: string
  td_version :: int

record transition_row =
  tt_trade :: string
  tt_from :: "trade_state option"
  tt_to :: trade_state
  tt_command :: string
  tt_actor :: string
  tt_correlation :: string
  tt_at :: int

datatype quote_status = QT_DRAFT | QT_SENT | QT_ACCEPTED | QT_EXPIRED | QT_REJECTED | QT_CANCELLED

text \<open>The columns of a quote that its trade and its network fee are compared with.\<close>

record quote_row =
  qt_id :: string
  qt_status :: quote_status
  qt_direction :: direction
  qt_fixed_side :: fixed_side
  qt_base :: int
  qt_quote_inr :: int
  qt_client_rate :: int
  qt_route_rate :: int
  qt_route_inr :: int
  qt_margin_inr :: int
  qt_route :: string
  qt_snapshot :: string
  qt_bank_account :: "string option"
  qt_wallet :: "string option"
  qt_route_base :: "int option"
  qt_margin_base :: "int option"
  qt_fee_bps :: "int option"
  qt_fee_base :: "int option"
  qt_request :: string

datatype leg_side = CLIENT_TO_EXCHANGE | EXCHANGE_TO_CLIENT | REFUND_TO_CLIENT
datatype leg_status = LEG_PENDING | LEG_PROCESSING | LEG_COMPLETED | LEG_FAILED | LEG_CANCELLED
datatype refund_kind = UNWIND | EXCESS

record leg_row =
  sl_id :: string
  sl_trade :: string
  sl_side :: leg_side
  sl_asset :: currency
  sl_amount :: int
  sl_status :: leg_status
  sl_refund :: "refund_kind option"

datatype adjustment_status = ADJ_REQUESTED | ADJ_POSTED | ADJ_REJECTED

record adjustment_row =
  fa_id :: string
  fa_ref :: string
  fa_trade :: string
  fa_type :: string
  fa_base :: int
  fa_client_inr :: int
  fa_route_inr :: int
  fa_margin_inr :: int
  fa_reason :: string
  fa_evidence :: "string option"
  fa_case :: "string option"
  fa_status :: adjustment_status
  fa_requested_by :: string
  fa_requested_at :: int
  fa_approved_by :: "string option"
  fa_approved_at :: "int option"
  fa_rejected_by :: "string option"
  fa_rejected_at :: "int option"
  fa_reject_reason :: "string option"
  fa_journal :: "string option"

datatype severity = BLOCKING | WARNING
datatype case_status = CASE_OPEN | CASE_IN_PROGRESS | CASE_RESOLVED | CASE_VOID

record case_row =
  xc_id :: string
  xc_ref :: string
  xc_trade :: "string option"
  xc_type :: string
  xc_severity :: severity
  xc_status :: case_status
  xc_subject_type :: string
  xc_subject :: string
  xc_detected_by :: string
  xc_details :: js
  xc_opened_by :: string
  xc_opened_at :: int
  xc_taken_by :: "string option"
  xc_taken_at :: "int option"
  xc_resolution :: "string option"
  xc_notes :: "string option"
  xc_adjustment :: "string option"
  xc_resolved_by :: "string option"
  xc_resolved_at :: "int option"

datatype funding_model = COUNTERPARTY_FUNDED | LEGACY_EXCHANGE_FUNDED

record control_row =
  ct_id :: string
  ct_paused :: bool
  ct_reason :: string
  ct_set_by :: string
  ct_set_at :: int

record trade_db = pricing_db +
  quote :: "quote_row list"
  trade :: "trade_row list"
  trade_ref_seq :: nat
  trade_transition :: "transition_row list"
  settlement_leg :: "leg_row list"
  financial_adjustment :: "adjustment_row list"
  exception_case :: "case_row list"
  trade_funding :: "(string \<times> funding_model) list"
  trading_control :: "control_row list"

section \<open>What a trade owes, by the functions the triggers use\<close>

definition find_trade :: "string \<Rightarrow> 'x trade_db_scheme \<Rightarrow> trade_row option" where
  "find_trade i s = List.find (\<lambda>t. td_id t = i) (trade s)"

definition economics_of :: "string \<Rightarrow> 'x route_db_scheme \<Rightarrow> economics_row option" where
  "economics_of i s = List.find (\<lambda>e. ec_trade e = i) (trade_economics s)"

definition posted_sum :: "(adjustment_row \<Rightarrow> int) \<Rightarrow> string \<Rightarrow> 'x trade_db_scheme \<Rightarrow> int" where
  "posted_sum f i s = sum_list (map f (filter (\<lambda>a. fa_trade a = i \<and> fa_status a = ADJ_POSTED) (financial_adjustment s)))"

definition payout_obligation :: "string \<Rightarrow> 'x trade_db_scheme \<Rightarrow> int option" where
  "payout_obligation i s = (case economics_of i s of None \<Rightarrow> None
     | Some e \<Rightarrow> Some (if ec_direction e = SELL_USDT then ec_quote_inr e + posted_sum fa_client_inr i s else ec_base e + posted_sum fa_base i s))"

definition receivable_obligation :: "string \<Rightarrow> 'x trade_db_scheme \<Rightarrow> int option" where
  "receivable_obligation i s = (case economics_of i s of None \<Rightarrow> None
     | Some e \<Rightarrow> Some (if ec_direction e = SELL_USDT then ec_base e + posted_sum fa_base i s else ec_quote_inr e + posted_sum fa_client_inr i s))"

definition leg_sum :: "(leg_row \<Rightarrow> bool) \<Rightarrow> string \<Rightarrow> 'x trade_db_scheme \<Rightarrow> int" where
  "leg_sum p i s = sum_list (map sl_amount (filter (\<lambda>l. sl_trade l = i \<and> p l) (settlement_leg s)))"

definition case_open :: "case_row \<Rightarrow> bool" where
  "case_open c \<longleftrightarrow> xc_status c = CASE_OPEN \<or> xc_status c = CASE_IN_PROGRESS"

definition blocked :: "string \<Rightarrow> 'x trade_db_scheme \<Rightarrow> bool" where
  "blocked i s \<longleftrightarrow> list_ex (\<lambda>c. xc_trade c = Some i \<and> xc_severity c = BLOCKING \<and> case_open c) (exception_case s)"

section \<open>What the database refuses\<close>

text \<open>The whitelist of \<^verbatim>\<open>trade_status\<close>; a row whose state does not change passes.\<close>

definition trade_step :: "trade_state \<Rightarrow> trade_state \<Rightarrow> bool" where
  "trade_step x y \<longleftrightarrow> x = y \<or> (x, y) \<in> {(AWAITING_FIRST_LEG, FIRST_LEG_DETECTED), (FIRST_LEG_DETECTED, AWAITING_FIRST_LEG),
     (FIRST_LEG_DETECTED, FIRST_LEG_CONFIRMED), (FIRST_LEG_CONFIRMED, SETTLING), (SETTLING, PARTIALLY_SETTLED),
     (SETTLING, TRADE_COMPLETED), (PARTIALLY_SETTLED, TRADE_COMPLETED), (AWAITING_FIRST_LEG, TRADE_CANCELLED),
     (FIRST_LEG_DETECTED, TRADE_CANCELLED), (FIRST_LEG_CONFIRMED, TRADE_CANCELLED), (SETTLING, TRADE_CANCELLED),
     (PARTIALLY_SETTLED, TRADE_CANCELLED)}"

text \<open>SQL compares with \<open>NULL\<close> when a trade has no economics: then the comparison does not raise.\<close>

definition differs :: "int \<Rightarrow> int option \<Rightarrow> bool" where
  "differs x y = (case y of None \<Rightarrow> False | Some z \<Rightarrow> x \<noteq> z)"

definition paid_out :: "leg_row \<Rightarrow> bool" where "paid_out l \<longleftrightarrow> sl_side l = EXCHANGE_TO_CLIENT \<and> sl_status l = LEG_COMPLETED"
definition sent_in :: "leg_row \<Rightarrow> bool" where "sent_in l \<longleftrightarrow> sl_side l = CLIENT_TO_EXCHANGE \<and> sl_status l = LEG_COMPLETED"
definition is_excess :: "leg_row \<Rightarrow> bool" where "is_excess l \<longleftrightarrow> sl_side l = REFUND_TO_CLIENT \<and> sl_refund l = Some EXCESS"
definition given_back :: "leg_row \<Rightarrow> bool" where "given_back l \<longleftrightarrow> is_excess l \<and> sl_status l = LEG_COMPLETED"
definition alive :: "leg_row \<Rightarrow> bool" where "alive l \<longleftrightarrow> sl_status l \<in> {LEG_PENDING, LEG_PROCESSING, LEG_COMPLETED}"
definition payout_alive :: "leg_row \<Rightarrow> bool" where "payout_alive l \<longleftrightarrow> sl_side l = EXCHANGE_TO_CLIENT \<and> alive l"
definition excess_alive :: "leg_row \<Rightarrow> bool" where "excess_alive l \<longleftrightarrow> is_excess l \<and> alive l"

definition completion_refused :: "trade_row \<Rightarrow> 'x trade_db_scheme \<Rightarrow> bool" where
  "completion_refused t s \<longleftrightarrow> differs (leg_sum paid_out (td_id t) s) (payout_obligation (td_id t) s) \<or>
     differs (leg_sum sent_in (td_id t) s - leg_sum given_back (td_id t) s) (receivable_obligation (td_id t) s) \<or>
     blocked (td_id t) s \<or> td_completed_at t = None"

definition trade_guard :: "trade_row \<Rightarrow> trade_row \<Rightarrow> 'x trade_db_scheme \<Rightarrow> bool" where
  "trade_guard x y s \<longleftrightarrow> trade_step (td_state x) (td_state y) \<and>
     \<not> (td_state y = TRADE_COMPLETED \<and> td_state x \<noteq> TRADE_COMPLETED \<and> completion_refused y s) \<and>
     \<not> (td_state y = TRADE_CANCELLED \<and> td_cancelled_at y = None)"

text \<open>An update returns how many rows it changed.\<close>

definition update_trade :: "(trade_row \<Rightarrow> bool) \<Rightarrow> (trade_row \<Rightarrow> trade_row) \<Rightarrow> ('x trade_db_scheme, nat) cmd" where
  "update_trade p f = (\<lambda>s. if list_all (\<lambda>t. p t \<longrightarrow> trade_guard t (f t) s) (trade s)
     then Inr (length (filter p (trade s)), s\<lparr>trade := update_where p f (trade s)\<rparr>) else Inl DatabaseError)"

definition latest_control :: "'x trade_db_scheme \<Rightarrow> control_row option" where
  "latest_control s = (case rev (sort_key ct_set_at (sort_key ct_id (trading_control s))) of [] \<Rightarrow> None | c # _ \<Rightarrow> Some c)"

definition new_business_paused :: "'x trade_db_scheme \<Rightarrow> bool" where
  "new_business_paused s = (case latest_control s of None \<Rightarrow> False | Some c \<Rightarrow> ct_paused c)"

definition trade_insert_guard :: "trade_row \<Rightarrow> 'x trade_db_scheme \<Rightarrow> bool" where
  "trade_insert_guard t s \<longleftrightarrow> td_state t = AWAITING_FIRST_LEG \<and> \<not> td_hold t \<and> td_completed_at t = None \<and> td_cancelled_at t = None \<and>
     list_ex (\<lambda>q. qt_id q = td_quote t \<and> qt_status q = QT_ACCEPTED) (quote s) \<and> \<not> new_business_paused s"

text \<open>The trigger that gives every new trade its funding model runs after the row is inserted.\<close>

definition insert_trade :: "trade_row \<Rightarrow> ('x trade_db_scheme, unit) cmd" where
  "insert_trade t = (\<lambda>s. if trade_insert_guard t s \<and>
       list_all (\<lambda>q. td_id q \<noteq> td_id t \<and> td_quote q \<noteq> td_quote t \<and> td_request q \<noteq> td_request t \<and> td_ref q \<noteq> td_ref t) (trade s) \<and>
       list_all (\<lambda>f. fst f \<noteq> td_id t) (trade_funding s)
     then Inr ((), s\<lparr>trade := trade s @ [t], trade_funding := trade_funding s @ [(td_id t, COUNTERPARTY_FUNDED)]\<rparr>) else Inl DatabaseError)"

definition margin_derived :: "economics_row \<Rightarrow> bool" where
  "margin_derived e \<longleftrightarrow> ec_margin_inr e = (if ec_direction e = SELL_USDT then ec_route_inr e - ec_quote_inr e else ec_quote_inr e - ec_route_inr e)"

definition p2p_derived :: "economics_row \<Rightarrow> bool" where
  "p2p_derived e \<longleftrightarrow> (case (ec_route_base e, ec_margin_base e) of
     (None, None) \<Rightarrow> True
   | (Some b, Some m) \<Rightarrow> 0 < b \<and> ec_route_inr e = ec_quote_inr e \<and> ec_margin_inr e = 0 \<and>
       m = (if ec_direction e = BUY_USDT then b - ec_base e else ec_base e - b)
   | _ \<Rightarrow> False) \<and> (ec_mode e = P2P \<longleftrightarrow> ec_route_base e \<noteq> None)"

definition fee_shape :: "economics_row \<Rightarrow> bool" where
  "fee_shape e \<longleftrightarrow> (case (ec_fee_bps e, ec_fee_base e) of (None, None) \<Rightarrow> True
     | (Some bps, Some fee) \<Rightarrow> 0 \<le> bps \<and> bps \<le> 1000 \<and> 0 \<le> fee \<and> ec_route_base e \<noteq> None | _ \<Rightarrow> False)"

definition economics_checks :: "economics_row \<Rightarrow> bool" where
  "economics_checks e \<longleftrightarrow> 0 < ec_base e \<and> 0 < ec_quote_inr e \<and> 0 < ec_client_rate e \<and> 0 < ec_route_rate e \<and> 0 < ec_route_inr e \<and>
     margin_derived e \<and> p2p_derived e \<and> fee_shape e"

definition equals_quote :: "economics_row \<Rightarrow> quote_row \<Rightarrow> bool" where
  "equals_quote e q \<longleftrightarrow> qt_direction q = ec_direction e \<and> qt_fixed_side q = ec_fixed_side e \<and> qt_base q = ec_base e \<and>
     qt_quote_inr q = ec_quote_inr e \<and> qt_client_rate q = ec_client_rate e \<and> qt_route_rate q = ec_route_rate e \<and>
     qt_route_inr q = ec_route_inr e \<and> qt_margin_inr q = ec_margin_inr e \<and> qt_route q = ec_route e \<and> qt_snapshot q = ec_snapshot e \<and>
     qt_bank_account q = ec_bank_account e \<and> qt_wallet q = ec_wallet e \<and> qt_route_base q = ec_route_base e \<and>
     qt_margin_base q = ec_margin_base e \<and> qt_fee_bps q = ec_fee_bps e \<and> qt_fee_base q = ec_fee_base e"

definition insert_economics :: "economics_row \<Rightarrow> ('x trade_db_scheme, unit) cmd" where
  "insert_economics e = (\<lambda>s. if economics_checks e \<and> economics_of (ec_trade e) s = None \<and>
       list_ex (\<lambda>t. td_id t = ec_trade e \<and> list_ex (\<lambda>q. qt_id q = td_quote t \<and> equals_quote e q) (quote s)) (trade s)
     then Inr ((), s\<lparr>trade_economics := trade_economics s @ [e]\<rparr>) else Inl DatabaseError)"

section \<open>Names of the values\<close>

definition trade_state_name :: "trade_state \<Rightarrow> string" where
  "trade_state_name x = (case x of AWAITING_FIRST_LEG \<Rightarrow> ''AWAITING_FIRST_LEG'' | FIRST_LEG_DETECTED \<Rightarrow> ''FIRST_LEG_DETECTED''
     | FIRST_LEG_CONFIRMED \<Rightarrow> ''FIRST_LEG_CONFIRMED'' | SETTLING \<Rightarrow> ''SETTLING'' | PARTIALLY_SETTLED \<Rightarrow> ''PARTIALLY_SETTLED''
     | TRADE_COMPLETED \<Rightarrow> ''COMPLETED'' | TRADE_CANCELLED \<Rightarrow> ''CANCELLED'')"

section \<open>The life cycle\<close>

definition lockTrade :: "js \<Rightarrow> ('x trade_db_scheme, trade_row) cmd" where
  "lockTrade tradeId =
     bindC (assertLockOrder L_trade) (\<lambda>_.
     bindC (liftC (requireUuid tradeId)) (\<lambda>i.
     bindC (readC (find_trade i)) (\<lambda>row.
     foundC (CoreError NOT_FOUND) row)))"

definition reloadTrade :: "js \<Rightarrow> ('x trade_db_scheme, trade_row) cmd" where
  "reloadTrade tradeId =
     bindC (liftC (requireUuid tradeId)) (\<lambda>i.
     bindC (readC (find_trade i)) (\<lambda>row.
     foundC (CoreError NOT_FOUND) row))"

record effective_obligations =
  eo_receivable :: money
  eo_payout :: money

definition effectiveObligations :: "js \<Rightarrow> 'x trade_db_scheme \<Rightarrow> effective_obligations result" where
  "effectiveObligations tradeId s =
     bindR (requireUuid tradeId) (\<lambda>i.
     case (economics_of i s, payout_obligation i s, receivable_obligation i s) of
       (Some e, Some payout, Some receivable) \<Rightarrow>
         (let sell = ec_direction e = SELL_USDT
          in Inr \<lparr>eo_receivable = ofMinor receivable (if sell then USDT else INR), eo_payout = ofMinor payout (if sell then INR else USDT)\<rparr>)
     | _ \<Rightarrow> Inl (CoreError NOT_FOUND))"

record leg_totals =
  lt_received :: int
  lt_paid :: int
  lt_committed :: int
  lt_excess_planned :: int
  lt_excess_returned :: int

definition receivedNetOfPlannedExcess :: "leg_totals \<Rightarrow> int" where
  "receivedNetOfPlannedExcess t = lt_received t - lt_excess_planned t"

definition receivedNetOfReturnedExcess :: "leg_totals \<Rightarrow> int" where
  "receivedNetOfReturnedExcess t = lt_received t - lt_excess_returned t"

definition legTotals :: "js \<Rightarrow> 'x trade_db_scheme \<Rightarrow> leg_totals result" where
  "legTotals tradeId s = bindR (requireUuid tradeId) (\<lambda>i.
     Inr \<lparr>lt_received = leg_sum sent_in i s, lt_paid = leg_sum paid_out i s, lt_committed = leg_sum payout_alive i s,
       lt_excess_planned = leg_sum excess_alive i s, lt_excess_returned = leg_sum given_back i s\<rparr>)"

definition ALLOWED :: "trade_state \<Rightarrow> trade_state list" where
  "ALLOWED x = (case x of
     AWAITING_FIRST_LEG \<Rightarrow> [FIRST_LEG_DETECTED, TRADE_CANCELLED]
   | FIRST_LEG_DETECTED \<Rightarrow> [AWAITING_FIRST_LEG, FIRST_LEG_CONFIRMED, TRADE_CANCELLED]
   | FIRST_LEG_CONFIRMED \<Rightarrow> [SETTLING, TRADE_CANCELLED]
   | SETTLING \<Rightarrow> [PARTIALLY_SETTLED, TRADE_COMPLETED, TRADE_CANCELLED]
   | PARTIALLY_SETTLED \<Rightarrow> [TRADE_COMPLETED, TRADE_CANCELLED]
   | TRADE_COMPLETED \<Rightarrow> []
   | TRADE_CANCELLED \<Rightarrow> [])"

definition TRANSITION_ACTIONS :: "trade_state \<Rightarrow> string" where
  "TRANSITION_ACTIONS x = (case x of FIRST_LEG_DETECTED \<Rightarrow> ''first_leg_detected'' | AWAITING_FIRST_LEG \<Rightarrow> ''first_leg_reverted''
     | FIRST_LEG_CONFIRMED \<Rightarrow> ''first_leg_confirmed'' | SETTLING \<Rightarrow> ''settling'' | PARTIALLY_SETTLED \<Rightarrow> ''partially_settled''
     | TRADE_COMPLETED \<Rightarrow> ''completed'' | TRADE_CANCELLED \<Rightarrow> ''cancelled'')"

definition moved_on :: "trade_row \<Rightarrow> trade_state \<Rightarrow> int \<Rightarrow> trade_row \<Rightarrow> trade_row" where
  "moved_on t to now r = r\<lparr>td_state := to, td_version := td_version t + 1,
     td_completed_at := (if to = TRADE_COMPLETED then Some now else td_completed_at r),
     td_cancelled_at := (if to = TRADE_CANCELLED then Some now else td_cancelled_at r)\<rparr>"

definition history_row :: "tx_ctx \<Rightarrow> string \<Rightarrow> trade_state option \<Rightarrow> trade_state \<Rightarrow> int \<Rightarrow> transition_row" where
  "history_row ctx i from_state to now = \<lparr>tt_trade = i, tt_from = from_state, tt_to = to, tt_command = ctx_commandName ctx,
     tt_actor = actor_or_system ctx, tt_correlation = ctx_correlation ctx, tt_at = now\<rparr>"

definition insert_transition :: "transition_row \<Rightarrow> ('x trade_db_scheme, unit) cmd" where
  "insert_transition r = writeC (\<lambda>s. s\<lparr>trade_transition := trade_transition s @ [r]\<rparr>)"

definition transitionTrade :: "tx_ctx \<Rightarrow> trade_row \<Rightarrow> trade_state \<Rightarrow> string option \<Rightarrow> (string \<times> js) list \<Rightarrow> ('x trade_db_scheme, unit) cmd" where
  "transitionTrade ctx t to reason extra =
     (if td_state t = to then returnC ()
      else bindC (unlessC (to \<in> set (ALLOWED (td_state t))) (ReferenceError INVALID_TRANSITION)) (\<lambda>_.
        bindC (readC clock) (\<lambda>now.
        bindC (update_trade (\<lambda>r. td_id r = td_id t \<and> td_version r = td_version t) (moved_on t to now)) (\<lambda>updated.
        bindC (unlessC (updated = 1) (SettlementError STALE_TRADE_VERSION)) (\<lambda>_.
        bindC (insert_transition (history_row ctx (td_id t) (Some (td_state t)) to now)) (\<lambda>_.
        appendAudit ctx (''trade.'' @ TRANSITION_ACTIONS to) ''trade'' (Some (td_id t))
          (JObj [(''lifecycle_state'', JStr (trade_state_name (td_state t)))])
          (JObj ([(''lifecycle_state'', JStr (trade_state_name to))] @
             (case reason of Some r \<Rightarrow> if r = [] then [] else [(''reason'', JStr r)] | None \<Rightarrow> []) @ extra))))))))"

record trade_terms = trade_economics +
  tm_route :: string
  tm_mode :: execution_mode
  tm_client :: string
  tm_obligation :: string

definition economics_money :: "economics_row \<Rightarrow> trade_economics" where
  "economics_money e = \<lparr>te_direction = ec_direction e, te_fixedSide = ec_fixed_side e, te_base = ofMinor (ec_base e) USDT,
     te_clientInr = ofMinor (ec_quote_inr e) INR, te_routeInr = ofMinor (ec_route_inr e) INR, te_grossMargin = ofMinor (ec_margin_inr e) INR,
     te_routeBase = (case (ec_route_base e, ec_margin_base e) of (Some b, Some m) \<Rightarrow> Some (ofMinor b USDT) | _ \<Rightarrow> None),
     te_grossMarginBase = (case (ec_route_base e, ec_margin_base e) of (Some b, Some m) \<Rightarrow> Some (ofMinor m USDT) | _ \<Rightarrow> None),
     te_platformFeeBase = map_option (\<lambda>f. ofMinor f USDT) (ec_fee_base e)\<rparr>"

text \<open>\<open>tradeEconomics\<close> as the code names it; the table has that name here.\<close>

definition read_economics :: "js \<Rightarrow> 'x trade_db_scheme \<Rightarrow> trade_terms result" where
  "read_economics tradeId s =
     bindR (requireUuid tradeId) (\<lambda>i.
     case (economics_of i s, find_trade i s, List.find (\<lambda>r. ro_trade r = Some i) (route_obligation s)) of
       (Some e, Some t, Some r) \<Rightarrow> Inr (trade_economics.extend (economics_money e) (trade_terms.fields (ec_route e) (ec_mode e) (td_client t) (ro_id r)))
     | _ \<Rightarrow> Inl (CoreError NOT_FOUND))"

section \<open>Funding\<close>

definition tradeFundingModel :: "js \<Rightarrow> 'x trade_db_scheme \<Rightarrow> funding_model result" where
  "tradeFundingModel tradeId s = bindR (requireUuid tradeId) (\<lambda>i.
     case map_of (trade_funding s) i of None \<Rightarrow> Inl (CoreError NOT_FOUND) | Some m \<Rightarrow> Inr m)"

definition isCounterpartyFunded :: "js \<Rightarrow> 'x trade_db_scheme \<Rightarrow> bool result" where
  "isCounterpartyFunded tradeId s = bindR (tradeFundingModel tradeId s) (\<lambda>m. Inr (m = COUNTERPARTY_FUNDED))"

section \<open>What a client sees\<close>

record client_trade_view =
  cv_ref :: string
  cv_direction :: direction
  cv_status :: trade_state
  cv_base :: js
  cv_inr :: js
  cv_rate :: string
  cv_opened_at :: int
  cv_deposit :: "(string \<times> string) option"

definition toClientTradeView :: "trade_row \<Rightarrow> economics_row \<Rightarrow> (string \<times> int) option \<Rightarrow> client_trade_view result" where
  "toClientTradeView t e deposit =
     bindR (Rate_ofMicro (ec_client_rate e) CLIENT_RATE) (\<lambda>rate.
     bindR (Rate_toDecimalString rate) (\<lambda>shown.
     bindR (case deposit of Some (address, expected) \<Rightarrow> if ec_direction e = SELL_USDT \<and> td_direction t = SELL_USDT \<and> address \<noteq> []
         then bindR (Money_toDecimalString (ofMinor expected USDT)) (\<lambda>m. Inr (Some (address, m))) else Inr None
       | _ \<Rightarrow> Inr None) (\<lambda>instructions.
     Inr \<lparr>cv_ref = td_ref t, cv_direction = td_direction t, cv_status = td_state t, cv_base = js_money (ofMinor (ec_base e) USDT),
       cv_inr = js_money (ofMinor (ec_quote_inr e) INR), cv_rate = shown, cv_opened_at = td_opened_at t, cv_deposit = instructions\<rparr>)))"

definition deposit_of_trade :: "string \<Rightarrow> 'x custody_db_scheme \<Rightarrow> (string \<times> int) option" where
  "deposit_of_trade i s = (case List.find (\<lambda>a. as_trade a = Some i) (deposit_assignment s) of None \<Rightarrow> None
     | Some a \<Rightarrow> (case List.find (\<lambda>d. da_id d = as_address a) (deposit_address s) of None \<Rightarrow> None
       | Some d \<Rightarrow> Some (da_address d, as_expected a)))"

definition getClientTradeView :: "js \<Rightarrow> string \<Rightarrow> 'x trade_db_scheme \<Rightarrow> client_trade_view result" where
  "getClientTradeView tradeId clientId s =
     bindR (requireUuid tradeId) (\<lambda>i.
     case (find_trade i s, economics_of i s) of
       (Some t, Some e) \<Rightarrow> if td_client t = clientId then toClientTradeView t e (deposit_of_trade i s) else Inl (CoreError NOT_FOUND)
     | _ \<Rightarrow> Inl (CoreError NOT_FOUND))"

section \<open>Opening\<close>

record accepted_terms =
  at_quote :: string
  at_request :: string
  at_client :: string
  at_direction :: direction
  at_fixed_side :: fixed_side
  at_base :: int
  at_quote_inr :: int
  at_client_rate :: int
  at_route_rate :: int
  at_route_inr :: int
  at_margin_inr :: int
  at_route :: string
  at_snapshot :: string
  at_bank_account :: "string option"
  at_wallet :: "string option"
  at_route_base :: "int option"
  at_margin_base :: "int option"
  at_fee_bps :: "int option"
  at_fee_base :: "int option"

record opened_trade =
  op_trade :: string
  op_ref :: string
  op_obligation :: string
  op_journal :: string
  op_mode :: execution_mode

text \<open>The default of the \<^verbatim>\<open>ref\<close> column: the Indian date and a sequence number.\<close>

definition next_trade_ref :: "('x trade_db_scheme, string) cmd" where
  "next_trade_ref = (\<lambda>s. Inr (''IX-'' @ filter isDigit (drop 2 (ist_day s (clock s))) @ ''-'' @ ref_number (Suc (trade_ref_seq s)) 4,
     s\<lparr>trade_ref_seq := Suc (trade_ref_seq s)\<rparr>))"

definition trade_of :: "tx_ctx \<Rightarrow> accepted_terms \<Rightarrow> string \<Rightarrow> string \<Rightarrow> int \<Rightarrow> trade_row" where
  "trade_of ctx terms i ref now = \<lparr>td_id = i, td_ref = ref, td_quote = at_quote terms, td_request = at_request terms, td_client = at_client terms,
     td_direction = at_direction terms, td_state = AWAITING_FIRST_LEG, td_hold = False, td_opened_at = now, td_completed_at = None,
     td_cancelled_at = None, td_created_by = actor_or_system ctx, td_version = 1\<rparr>"

definition frozen :: "accepted_terms \<Rightarrow> string \<Rightarrow> execution_mode \<Rightarrow> economics_row" where
  "frozen terms i mode = \<lparr>ec_trade = i, ec_direction = at_direction terms, ec_fixed_side = at_fixed_side terms, ec_base = at_base terms,
     ec_quote_inr = at_quote_inr terms, ec_client_rate = at_client_rate terms, ec_route_rate = at_route_rate terms,
     ec_route_inr = at_route_inr terms, ec_margin_inr = at_margin_inr terms, ec_route = at_route terms, ec_snapshot = at_snapshot terms,
     ec_mode = mode, ec_route_base = at_route_base terms, ec_margin_base = at_margin_base terms, ec_fee_bps = at_fee_bps terms,
     ec_fee_base = at_fee_base terms, ec_bank_account = at_bank_account terms, ec_wallet = at_wallet terms\<rparr>"

text \<open>The accept journal is built without the platform's fee, as in the code.\<close>

definition accept_terms :: "accepted_terms \<Rightarrow> bool \<Rightarrow> trade_economics" where
  "accept_terms terms p2p = \<lparr>te_direction = at_direction terms, te_fixedSide = at_fixed_side terms, te_base = ofMinor (at_base terms) USDT,
     te_clientInr = ofMinor (at_quote_inr terms) INR, te_routeInr = ofMinor (at_route_inr terms) INR,
     te_grossMargin = ofMinor (at_margin_inr terms) INR,
     te_routeBase = (if p2p then map_option (\<lambda>b. ofMinor b USDT) (at_route_base terms) else None),
     te_grossMarginBase = (if p2p then map_option (\<lambda>m. ofMinor m USDT) (at_margin_base terms) else None), te_platformFeeBase = None\<rparr>"

definition margin_consistent :: "accepted_terms \<Rightarrow> bool" where
  "margin_consistent terms \<longleftrightarrow> at_margin_inr terms =
     (if at_direction terms = SELL_USDT then at_route_inr terms - at_quote_inr terms else at_quote_inr terms - at_route_inr terms)"

definition openTradeFromAcceptedQuote :: "tx_ctx \<Rightarrow> accepted_terms \<Rightarrow> execution_mode \<Rightarrow> ('x trade_db_scheme, opened_trade) cmd" where
  "openTradeFromAcceptedQuote ctx terms mode =
     (let p2p = mode = P2P in
     bindC (unlessC (p2p \<longleftrightarrow> at_route_base terms \<noteq> None) (CoreError INVALID_ARGUMENT)) (\<lambda>_.
     bindC (unlessC (margin_consistent terms) (CoreError INVALID_ARGUMENT)) (\<lambda>_.
     bindC next_trade_ref (\<lambda>ref.
     bindC freshId (\<lambda>i.
     bindC (readC clock) (\<lambda>now.
     bindC (insert_trade (trade_of ctx terms i ref now)) (\<lambda>_.
     bindC (insert_economics (frozen terms i mode)) (\<lambda>_.
     bindC (insert_transition (history_row ctx i None AWAITING_FIRST_LEG now)) (\<lambda>_.
     let econ = accept_terms terms p2p
     in bindC (openRouteObligation ctx \<lparr>oi_trade = i, oi_route = at_route terms, oi_direction = at_direction terms, oi_mode = mode,
          oi_base = (case te_routeBase econ of Some b \<Rightarrow> b | None \<Rightarrow> te_base econ), oi_route_inr = te_routeInr econ\<rparr>) (\<lambda>(ob, ob_ref).
     bindC (liftC (tradeAcceptJournal econ \<lparr>tr_trade = i, tr_client = at_client terms, tr_route = at_route terms, tr_obligation = ob\<rparr>)) (\<lambda>j.
     bindC (postJournal ctx j) (\<lambda>posted.
     bindC (appendAudit ctx ''trade.opened'' ''trade'' (Some i) JUndefined
        (JObj [(''ref'', JStr ref), (''quote_id'', JStr (at_quote terms)), (''direction'', JStr (direction_name (at_direction terms))),
               (''state'', JStr ''AWAITING_FIRST_LEG''), (''route_execution_mode'', JStr (execution_mode_name mode)),
               (''route_obligation_id'', JStr ob), (''journal'', JStr (pj_posting_key posted))])) (\<lambda>_.
     returnC \<lparr>op_trade = i, op_ref = ref, op_obligation = ob, op_journal = pj_id posted, op_mode = mode\<rparr>)))))))))))))"

section \<open>What opening does\<close>

lemma insert_trade_Inr:
  "insert_trade t s = Inr (u, s') \<Longrightarrow> (\<exists>q \<in> set (quote s). qt_id q = td_quote t \<and> qt_status q = QT_ACCEPTED) \<and> \<not> new_business_paused s \<and>
     trade_insert_guard t s \<and> (\<forall>q \<in> set (trade s). td_id q \<noteq> td_id t) \<and> s' = s\<lparr>trade := trade s @ [t], trade_funding := trade_funding s @ [(td_id t, COUNTERPARTY_FUNDED)]\<rparr>"
  by (auto simp: insert_trade_def trade_insert_guard_def list_ex_iff list_all_iff split: if_splits)

lemma insert_economics_Inr:
  "insert_economics e s = Inr (u, s') \<Longrightarrow> economics_checks e \<and> (\<forall>x \<in> set (trade_economics s). ec_trade x \<noteq> ec_trade e) \<and> s' = s\<lparr>trade_economics := trade_economics s @ [e]\<rparr> \<and>
     (\<exists>t \<in> set (trade s). td_id t = ec_trade e \<and> (\<exists>q \<in> set (quote s). qt_id q = td_quote t \<and> equals_quote e q))"
  by (auto simp: insert_economics_def economics_of_def find_None_not_mem list_ex_iff split: if_splits)

definition opening_state :: "tx_ctx \<Rightarrow> accepted_terms \<Rightarrow> execution_mode \<Rightarrow> string \<Rightarrow> string \<Rightarrow> obligation_row \<Rightarrow> 'x trade_db_scheme \<Rightarrow> 'x trade_db_scheme \<Rightarrow> bool" where
  "opening_state ctx terms mode i ref ob s u \<longleftrightarrow>
     trade u = trade s @ [trade_of ctx terms i ref (clock s)] \<and> trade_funding u = trade_funding s @ [(i, COUNTERPARTY_FUNDED)] \<and>
     trade_economics u = trade_economics s @ [frozen terms i mode] \<and>
     trade_transition u = trade_transition s @ [history_row ctx i None AWAITING_FIRST_LEG (clock s)] \<and>
     route_obligation u = route_obligation s @ [ob] \<and> ro_status ob = OB_OPEN \<and> ro_trade ob = Some i \<and>
     quote u = quote s \<and> settlement_leg u = settlement_leg s \<and> financial_adjustment u = financial_adjustment s \<and>
     exception_case u = exception_case s \<and> clock u = clock s \<and> trade_db.more u = trade_db.more s \<and>
     (\<forall>q \<in> set (trade s). td_id q \<noteq> i) \<and> (\<forall>q \<in> set (route_obligation s). ro_id q \<noteq> ro_id ob) \<and> obligation_checks ob"

lemma open_obligation_Inr:
  assumes "openRouteObligation ctx inp s = Inr ((ob, ref), t)"
  shows "\<exists>r. ro_id r = ob \<and> ro_status r = OB_OPEN \<and> ro_trade r = Some (oi_trade inp) \<and> obligation_checks r \<and>
     (\<forall>q \<in> set (route_obligation s). ro_id q \<noteq> ob) \<and>
     (\<exists>e \<in> set (trade_economics s). ec_trade e = oi_trade inp \<and> obligation_matches r e) \<and>
     (\<exists>w. t = s\<lparr>route_obligation_ref_seq := Suc (route_obligation_ref_seq s), uuids := Suc (uuids s), route_obligation := route_obligation s @ [r],
        audit_event := w\<rparr>)"
proof -
  let ?r = "obligation_of ctx inp (uuidv7 s (uuids s)) (''RO-'' @ ref_number (Suc (route_obligation_ref_seq s)) 6)"
  from assms have ins: "obligation_checks ?r" "list_ex (\<lambda>e. Some (ec_trade e) = ro_trade ?r \<and> obligation_matches ?r e) (trade_economics s)"
    and pk: "list_all (\<lambda>q. ro_id q \<noteq> ro_id ?r) (route_obligation s)"
    and ob: "ob = uuidv7 s (uuids s)"
    and t: "\<exists>w. t = s\<lparr>route_obligation_ref_seq := Suc (route_obligation_ref_seq s), uuids := Suc (uuids s), route_obligation := route_obligation s @ [?r],
        audit_event := w\<rparr>"
    by (auto simp: openRouteObligation_def next_obligation_ref_def insert_obligation_def list_all_iff split: if_splits)
  have r: "ro_id ?r = ob" "ro_status ?r = OB_OPEN" "ro_trade ?r = Some (oi_trade inp)" by (simp_all add: obligation_of_def Let_def ob)
  show ?thesis using ins pk r t by (intro exI[of _ ?r]) (auto simp: list_ex_iff list_all_iff)
qed

lemma balance_cong:
  "ledger_account t = ledger_account s \<Longrightarrow> ledger_entry t = ledger_entry s \<Longrightarrow> accountBalance r t = accountBalance r s"
proof -
  assume same: "ledger_account t = ledger_account s" "ledger_entry t = ledger_entry s"
  then have "entry_on t = entry_on s" by (intro ext) (simp add: entry_on_def account_of_def)
  then show ?thesis by (simp add: accountBalance_net same(2))
qed

lemma frozen_same [simp]: "ec_trade (frozen terms i mode) = i"
  by (simp add: frozen_def)

lemma trade_of_same [simp]: "td_id (trade_of ctx terms i ref now) = i" "td_quote (trade_of ctx terms i ref now) = at_quote terms"
  by (simp_all add: trade_of_def)

lemma opening_effect:
  assumes ok: "ledger_ok s" and run: "openTradeFromAcceptedQuote ctx terms mode s = Inr (out, t)"
  shows "\<exists>q ob j. q \<in> set (quote s) \<and> qt_id q = at_quote terms \<and> qt_status q = QT_ACCEPTED \<and> \<not> new_business_paused s \<and>
    (\<exists>q' \<in> set (quote s). qt_id q' = at_quote terms \<and> equals_quote (frozen terms (op_trade out) mode) q') \<and>
    economics_checks (frozen terms (op_trade out) mode) \<and> opening_state ctx terms mode (op_trade out) (op_ref out) ob s t \<and>
    obligation_matches ob (frozen terms (op_trade out) mode) \<and> ro_id ob = op_obligation out \<and>
    tradeAcceptJournal (accept_terms terms (mode = P2P)) \<lparr>tr_trade = op_trade out, tr_client = at_client terms, tr_route = at_route terms,
      tr_obligation = op_obligation out\<rparr> = Inr j \<and>
    ledger_ok t \<and> (\<forall>r. accountBalance r t = accountBalance r s + inputs_on (ji_entries j) r)"
proof -
  define i where "i = uuidv7 s (uuids s)"
  define ref where "ref = ''IX-'' @ filter isDigit (drop 2 (ist_day s (clock s))) @ ''-'' @ ref_number (Suc (trade_ref_seq s)) 4"
  let ?s0 = "s\<lparr>trade_ref_seq := Suc (trade_ref_seq s), uuids := Suc (uuids s)\<rparr>"
  let ?inp = "\<lparr>oi_trade = i, oi_route = at_route terms, oi_direction = at_direction terms, oi_mode = mode,
    oi_base = (case te_routeBase (accept_terms terms (mode = P2P)) of Some b \<Rightarrow> b | None \<Rightarrow> te_base (accept_terms terms (mode = P2P))),
    oi_route_inr = te_routeInr (accept_terms terms (mode = P2P))\<rparr>"
  from run obtain u1 u2 u3 u4 ob_id ob_ref j pj w' where
    ins: "insert_trade (trade_of ctx terms i ref (clock s)) ?s0 = Inr ((), u1)" and eco: "insert_economics (frozen terms i mode) u1 = Inr ((), u2)"
    and opened: "openRouteObligation ctx ?inp (u2\<lparr>trade_transition := trade_transition u2 @ [history_row ctx i None AWAITING_FIRST_LEG (clock s)]\<rparr>) = Inr ((ob_id, ob_ref), u3)"
    and j: "tradeAcceptJournal (accept_terms terms (mode = P2P)) \<lparr>tr_trade = i, tr_client = at_client terms, tr_route = at_route terms, tr_obligation = ob_id\<rparr> = Inr j"
    and post: "postJournal ctx j u3 = Inr (pj, u4)" and out: "op_trade out = i" "op_ref out = ref" "op_obligation out = ob_id"
    and t': "t = u4\<lparr>audit_event := w'\<rparr>"
    unfolding openTradeFromAcceptedQuote_def Let_def
    by (auto simp: next_trade_ref_def insert_transition_def i_def ref_def split: if_splits prod.splits)
  from insert_trade_Inr[OF ins] have q: "\<exists>q \<in> set (quote s). qt_id q = at_quote terms \<and> qt_status q = QT_ACCEPTED" "\<not> new_business_paused s"
    and new: "\<forall>r \<in> set (trade s). td_id r \<noteq> i"
    and u1: "u1 = ?s0\<lparr>trade := trade s @ [trade_of ctx terms i ref (clock s)], trade_funding := trade_funding s @ [(i, COUNTERPARTY_FUNDED)]\<rparr>"
    by (auto simp: new_business_paused_def latest_control_def)
  from insert_economics_Inr[OF eco] have checks: "economics_checks (frozen terms i mode)" "\<forall>x \<in> set (trade_economics u1). ec_trade x \<noteq> i"
    and u2: "u2 = u1\<lparr>trade_economics := trade_economics u1 @ [frozen terms i mode]\<rparr>"
    and from_quote: "\<exists>r \<in> set (trade u1). td_id r = i \<and> (\<exists>q \<in> set (quote u1). qt_id q = td_quote r \<and> equals_quote (frozen terms i mode) q)" by auto
  from open_obligation_Inr[OF opened] obtain ob w where ob: "ro_id ob = ob_id" "ro_status ob = OB_OPEN" "ro_trade ob = Some i"
      "obligation_checks ob" "\<forall>q \<in> set (route_obligation u2). ro_id q \<noteq> ob_id"
    and u3: "u3 = u2\<lparr>trade_transition := trade_transition u2 @ [history_row ctx i None AWAITING_FIRST_LEG (clock s)],
      route_obligation_ref_seq := Suc (route_obligation_ref_seq u2), uuids := Suc (uuids u2), route_obligation := route_obligation u2 @ [ob], audit_event := w\<rparr>"
    and matches: "\<exists>e \<in> set (trade_economics u2). ec_trade e = i \<and> obligation_matches ob e" by auto
  have "ledger_ok u3" by (rule ledger_ok_cong[OF ok]) (simp_all add: u3 u2 u1)
  note acc = ledger_ok_accounts[OF this]
  from insertJournal_posted[OF acc post[unfolded postJournal_def]] obtain new ids where posted: "posted ctx j None u3 (pj_id pj) new ids u4" by blast
  have ledger: "ledger_ok u4" "accountBalance r u4 = accountBalance r u3 + inputs_on (ji_entries j) r" for r
    using postJournal_keeps[OF \<open>ledger_ok u3\<close> post] posted_balance[OF \<open>ledger_ok u3\<close> posted] by auto
  have frame: "ledger_ok t" using ledger_ok_cong[OF ledger(1), of t] by (simp add: t')
  have books: "accountBalance r t = accountBalance r s + inputs_on (ji_entries j) r" for r
    using balance_cong[of t u4 r] balance_cong[of u3 s r] ledger(2)[of r] by (simp add: t' u3 u2 u1)
  have "opening_state ctx terms mode i ref ob s t"
    using posted ob new unfolding opening_state_def t' posted_def by (simp add: u3 u2 u1)
  moreover have "obligation_matches ob (frozen terms i mode)" using matches checks(2) by (auto simp: u2)
  moreover have "\<exists>q \<in> set (quote s). qt_id q = at_quote terms \<and> equals_quote (frozen terms i mode) q" using from_quote new by (auto simp: u1)
  ultimately show ?thesis using q checks(1) ob(1) j frame books unfolding out by blast
qed

text \<open>C20: a trade opens only from an accepted quote while new business is open; it then starts awaiting its
  first leg with its terms frozen equal to the quote's, counterparty-funded, with one open obligation that matches the terms, its history
  begun, and the books moved on every account by exactly the accept journal of those terms; nothing else of any trade changes.\<close>

theorem opened_trade_as_quoted:
  assumes ok: "ledger_ok s" and run: "openTradeFromAcceptedQuote ctx terms mode s = Inr (out, t)"
  shows "\<exists>q ob j. q \<in> set (quote s) \<and> qt_id q = at_quote terms \<and> qt_status q = QT_ACCEPTED \<and> \<not> new_business_paused s \<and>
    (\<exists>q' \<in> set (quote s). qt_id q' = at_quote terms \<and> equals_quote (frozen terms (op_trade out) mode) q') \<and>
    economics_checks (frozen terms (op_trade out) mode) \<and> opening_state ctx terms mode (op_trade out) (op_ref out) ob s t \<and>
    obligation_matches ob (frozen terms (op_trade out) mode) \<and> ro_id ob = op_obligation out \<and>
    tradeAcceptJournal (accept_terms terms (mode = P2P)) \<lparr>tr_trade = op_trade out, tr_client = at_client terms, tr_route = at_route terms,
      tr_obligation = op_obligation out\<rparr> = Inr j \<and>
    ledger_ok t \<and> (\<forall>r. accountBalance r t = accountBalance r s + inputs_on (ji_entries j) r)"
  using assms by (rule opening_effect)

section \<open>The life cycle as an invariant\<close>

definition terminal :: "trade_state \<Rightarrow> bool" where
  "terminal x \<longleftrightarrow> x = TRADE_COMPLETED \<or> x = TRADE_CANCELLED"

definition history :: "string \<Rightarrow> 'x trade_db_scheme \<Rightarrow> transition_row list" where
  "history i s = filter (\<lambda>h. tt_trade h = i) (trade_transition s)"

text \<open>Steps that follow each other from a state, the first one creating the trade.\<close>

fun follows :: "trade_state option \<Rightarrow> transition_row list \<Rightarrow> bool" where
  "follows x [] = True"
| "follows x (h # hs) = (tt_from h = x \<and> (case x of None \<Rightarrow> tt_to h = AWAITING_FIRST_LEG | Some y \<Rightarrow> tt_to h \<in> set (ALLOWED y)) \<and>
     follows (Some (tt_to h)) hs)"

definition history_ok :: "transition_row list \<Rightarrow> trade_state \<Rightarrow> bool" where
  "history_ok hs x \<longleftrightarrow> hs \<noteq> [] \<and> follows None hs \<and> tt_to (last hs) = x"

definition trades_ok :: "'x trade_db_scheme \<Rightarrow> bool" where
  "trades_ok s \<longleftrightarrow> distinct (map td_id (trade s)) \<and> (\<forall>t \<in> set (trade s). history_ok (history (td_id t) s) (td_state t) \<and>
       (td_state t = TRADE_COMPLETED \<longrightarrow> td_completed_at t \<noteq> None) \<and> (td_state t = TRADE_CANCELLED \<longrightarrow> td_cancelled_at t \<noteq> None)) \<and>
     (\<forall>h \<in> set (trade_transition s). \<exists>t \<in> set (trade s). td_id t = tt_trade h)"

definition same_trade :: "trade_row \<Rightarrow> trade_row \<Rightarrow> bool" where
  "same_trade x y \<longleftrightarrow> td_id y = td_id x \<and> td_ref y = td_ref x \<and> td_quote y = td_quote x \<and> td_request y = td_request x \<and> td_client y = td_client x \<and>
     td_direction y = td_direction x \<and> td_opened_at y = td_opened_at x"

definition trade_succ :: "trade_row \<Rightarrow> trade_row \<Rightarrow> bool" where
  "trade_succ x y \<longleftrightarrow> same_trade x y \<and> (y = x \<or> td_version x < td_version y) \<and> (terminal (td_state x) \<longrightarrow> td_state y = td_state x)"

definition trades_evolve :: "trade_row list \<Rightarrow> trade_row list \<Rightarrow> bool" where
  "trades_evolve ts us \<longleftrightarrow> (\<exists>us' new. us = us' @ new \<and> list_all2 trade_succ ts us')"

definition trades_from :: "trade_row list \<Rightarrow> transition_row list \<Rightarrow> 'x trade_db_scheme \<Rightarrow> bool" where
  "trades_from ts hs s \<longleftrightarrow> trades_ok s \<and> trades_evolve ts (trade s) \<and> (\<exists>new. trade_transition s = hs @ new)"

lemma trade_succ_refl: "trade_succ x x"
  by (simp add: trade_succ_def same_trade_def)

lemma trade_succ_trans: "trade_succ x y \<Longrightarrow> trade_succ y z \<Longrightarrow> trade_succ x z"
  by (auto simp: trade_succ_def same_trade_def)

lemma trades_evolve_refl: "trades_evolve ts ts"
  unfolding trades_evolve_def by (intro exI[of _ ts] exI[of _ "[]"]) (simp add: list_all2_refl trade_succ_refl)

lemma trades_evolve_add: "trades_evolve ts us \<Longrightarrow> trades_evolve ts (us @ [t])"
  unfolding trades_evolve_def by (metis append_assoc)

lemma trades_evolve_update:
  assumes "trades_evolve ts us" "\<forall>t \<in> set us. p t \<longrightarrow> trade_succ t (f t)"
  shows "trades_evolve ts (update_where p f us)"
proof -
  from assms(1) obtain us' new where us: "us = us' @ new" "list_all2 trade_succ ts us'" by (auto simp: trades_evolve_def)
  have "list_all2 trade_succ ts (update_where p f us')"
    using us(2) assms(2)[unfolded us(1)] by (induction rule: list_all2_induct) (auto intro: trade_succ_trans)
  then show ?thesis unfolding trades_evolve_def us(1) by (intro exI[of _ "update_where p f us'"] exI[of _ "update_where p f new"]) simp
qed

lemma trades_from_cong:
  "trades_from ts hs s \<Longrightarrow> trade t = trade s \<Longrightarrow> trade_transition t = trade_transition s \<Longrightarrow> trades_from ts hs t"
  by (simp add: trades_from_def trades_ok_def history_def)

lemma follows_snoc: "follows x (hs @ [h]) \<longleftrightarrow> follows x hs \<and> tt_from h = (if hs = [] then x else Some (tt_to (last hs))) \<and>
    (case (if hs = [] then x else Some (tt_to (last hs))) of None \<Rightarrow> tt_to h = AWAITING_FIRST_LEG | Some y \<Rightarrow> tt_to h \<in> set (ALLOWED y))"
  by (induction hs arbitrary: x) auto

text \<open>A row somebody holds is a reading when the table has no other row of that trade and version.\<close>

definition reading_of :: "trade_row \<Rightarrow> 'x trade_db_scheme \<Rightarrow> bool" where
  "reading_of r s \<longleftrightarrow> (\<forall>t \<in> set (trade s). td_id t = td_id r \<and> td_version t = td_version r \<longrightarrow> t = r)"

lemma unique_trade: "trades_ok s \<Longrightarrow> x \<in> set (trade s) \<Longrightarrow> y \<in> set (trade s) \<Longrightarrow> td_id x = td_id y \<Longrightarrow> x = y"
  by (auto simp: trades_ok_def distinct_map dest: inj_onD)

lemma find_trade_Some: "find_trade i s = Some t \<Longrightarrow> t \<in> set (trade s) \<and> td_id t = i"
  unfolding find_trade_def by (drule find_Some_mem)

lemma current_reading: "trades_ok s \<Longrightarrow> t \<in> set (trade s) \<Longrightarrow> reading_of t s"
  using unique_trade by (auto simp: reading_of_def)

lemma earlier_reading:
  assumes "trades_evolve ts (trade s)" "trades_ok s" "r \<in> set ts"
  shows "reading_of r s"
  unfolding reading_of_def
proof (intro ballI impI)
  fix t assume t: "t \<in> set (trade s)" "td_id t = td_id r \<and> td_version t = td_version r"
  from assms(1) obtain us' new where us: "trade s = us' @ new" "list_all2 trade_succ ts us'" by (auto simp: trades_evolve_def)
  from us(2) assms(3) obtain y where y: "y \<in> set us'" "trade_succ r y" by (auto simp: list_all2_conv_all_nth in_set_conv_nth) blast
  have "t = y" by (rule unique_trade[OF assms(2) t(1)]) (use y us(1) t(2) in \<open>auto simp: trade_succ_def same_trade_def\<close>)
  with y(2) t(2) show "t = r" by (auto simp: trade_succ_def)
qed

definition transitioned :: "tx_ctx \<Rightarrow> trade_row \<Rightarrow> trade_state \<Rightarrow> 'x trade_db_scheme \<Rightarrow> 'x trade_db_scheme \<Rightarrow> bool" where
  "transitioned ctx r to s t \<longleftrightarrow> r \<in> set (trade s) \<and> to \<in> set (ALLOWED (td_state r)) \<and> trade_guard r (moved_on r to (clock s) r) s \<and>
     (\<exists>w. t = s\<lparr>trade := update_where (\<lambda>x. td_id x = td_id r) (moved_on r to (clock s)) (trade s),
       trade_transition := trade_transition s @ [history_row ctx (td_id r) (Some (td_state r)) to (clock s)], audit_event := w\<rparr>)"

lemma one_match: "length (filter p xs) = 1 \<Longrightarrow> \<exists>x \<in> set xs. p x"
  by (metis One_nat_def filter_empty_conv length_0_conv zero_neq_one)

lemma transition_effect:
  assumes "transitionTrade ctx r to reason extra s = Inr (u, t)" "reading_of r s" "trades_ok s"
  shows "(td_state r = to \<and> t = s) \<or> (td_state r \<noteq> to \<and> transitioned ctx r to s t)"
proof (cases "td_state r = to")
  case False
  let ?p = "\<lambda>x. td_id x = td_id r \<and> td_version x = td_version r"
  from assms(1) False obtain w where run: "to \<in> set (ALLOWED (td_state r))" "length (filter ?p (trade s)) = 1"
    "list_all (\<lambda>x. ?p x \<longrightarrow> trade_guard x (moved_on r to (clock s) x) s) (trade s)"
    and t: "t = s\<lparr>trade := update_where ?p (moved_on r to (clock s)) (trade s),
       trade_transition := trade_transition s @ [history_row ctx (td_id r) (Some (td_state r)) to (clock s)], audit_event := w\<rparr>"
    by (auto simp: transitionTrade_def update_trade_def insert_transition_def split: if_splits)
  from one_match[OF run(2)] obtain x where x: "x \<in> set (trade s)" "?p x" by blast
  with assms(2) have "x = r" unfolding reading_of_def by blast
  then have r: "r \<in> set (trade s)" using x by simp
  then have "update_where ?p f (trade s) = update_where (\<lambda>x. td_id x = td_id r) f (trade s)" for f
    using unique_trade[OF assms(3)] unfolding update_where_def by (intro map_cong) auto
  with run r t False show ?thesis by (auto simp: transitioned_def list_all_iff)
next
  case True
  then show ?thesis using assms(1) by (simp add: transitionTrade_def)
qed

lemma moved_simps [simp]:
  "td_id (moved_on r to now x) = td_id x" "td_state (moved_on r to now x) = to" "td_version (moved_on r to now x) = td_version r + 1"
  "td_hold (moved_on r to now x) = td_hold x" "same_trade x (moved_on r to now x)"
  by (simp_all add: moved_on_def same_trade_def)

lemma ALLOWED_not_terminal: "to \<in> set (ALLOWED x) \<Longrightarrow> \<not> terminal x"
  by (cases x) (auto simp: ALLOWED_def terminal_def)

lemma history_add: "history i (s\<lparr>trade_transition := trade_transition s @ [h]\<rparr>) = history i s @ (if tt_trade h = i then [h] else [])"
  by (simp add: history_def)

lemma transition_keeps:
  assumes "trades_from ts hs s" "transitioned ctx r to s t"
  shows "trades_from ts hs t"
proof -
  let ?h = "history_row ctx (td_id r) (Some (td_state r)) to (clock s)" and ?f = "moved_on r to (clock s)"
  from assms(2) obtain w where r: "r \<in> set (trade s)" "to \<in> set (ALLOWED (td_state r))" "trade_guard r (?f r) s"
    and t: "t = s\<lparr>trade := update_where (\<lambda>x. td_id x = td_id r) ?f (trade s), trade_transition := trade_transition s @ [?h], audit_event := w\<rparr>"
    by (auto simp: transitioned_def)
  have ok: "trades_ok s" and ev: "trades_evolve ts (trade s)" using assms(1) by (auto simp: trades_from_def)
  have only: "x = r" if "x \<in> set (trade s)" "td_id x = td_id r" for x using unique_trade[OF ok that(1) r(1) that(2)] .
  have ids: "map td_id (trade t) = map td_id (trade s)" by (simp add: t)
  have "trades_evolve ts (trade t)" using only ALLOWED_not_terminal[OF r(2)] unfolding t
    by simp (intro trades_evolve_update[OF ev], auto simp: trade_succ_def)
  moreover have "history_ok (history (td_id x) t) (td_state x) \<and> (td_state x = TRADE_COMPLETED \<longrightarrow> td_completed_at x \<noteq> None) \<and>
      (td_state x = TRADE_CANCELLED \<longrightarrow> td_cancelled_at x \<noteq> None)" if x: "x \<in> set (trade t)" for x
  proof -
    have hist: "history i t = history i s @ (if td_id r = i then [?h] else [])" for i by (simp add: t history_def history_row_def)
    from x obtain y where y: "y \<in> set (trade s)" "x = (if td_id y = td_id r then ?f y else y)" by (auto simp: t set_update_where)
    have old: "history_ok (history (td_id y) s) (td_state y)" "td_state y = TRADE_COMPLETED \<longrightarrow> td_completed_at y \<noteq> None"
      "td_state y = TRADE_CANCELLED \<longrightarrow> td_cancelled_at y \<noteq> None" using ok y(1) by (auto simp: trades_ok_def)
    show ?thesis
    proof (cases "td_id y = td_id r")
      case True
      with only y(1) have "y = r" by blast
      with y(2) True old(1) r(2) show ?thesis by (auto simp: hist history_ok_def follows_snoc history_row_def moved_on_def)
    next
      case False
      then show ?thesis using y(2) old by (simp add: hist)
    qed
  qed
  moreover have "\<exists>x \<in> set (trade t). td_id x = tt_trade h" if "h \<in> set (trade_transition t)" for h
  proof -
    have "\<exists>x \<in> set (trade s). td_id x = tt_trade h" using that ok r(1) by (auto simp: t trades_ok_def history_row_def)
    then have "tt_trade h \<in> set (map td_id (trade t))" unfolding ids set_map by (metis image_eqI)
    then show ?thesis by auto
  qed
  ultimately show ?thesis using assms(1) ids by (auto simp: trades_from_def trades_ok_def t)
qed

lemma follows_one: "history_ok [history_row ctx i None AWAITING_FIRST_LEG now] AWAITING_FIRST_LEG"
  by (simp add: history_ok_def history_row_def)

lemma opening_keeps:
  assumes from_ts: "trades_from ts hs s" and opened: "opening_state ctx terms mode i ref ob s t"
  shows "trades_from ts hs t"
proof -
  have ok: "trades_ok s" and ev: "trades_evolve ts (trade s)" and new: "\<forall>r \<in> set (trade s). td_id r \<noteq> i"
    using from_ts opened by (auto simp: trades_from_def opening_state_def)
  have t: "trade t = trade s @ [trade_of ctx terms i ref (clock s)]" "trade_transition t = trade_transition s @ [history_row ctx i None AWAITING_FIRST_LEG (clock s)]"
    using opened by (auto simp: opening_state_def)
  have none: "history i s = []" using ok new by (auto simp: history_def filter_empty_conv trades_ok_def)
  have hist: "history k t = history k s @ (if k = i then [history_row ctx i None AWAITING_FIRST_LEG (clock s)] else [])" for k
    by (simp add: t history_def history_row_def)
  have "history_ok (history (td_id x) t) (td_state x)" if "x \<in> set (trade t)" for x
    using that ok new none follows_one by (auto simp: t hist trades_ok_def trade_of_def)
  then show ?thesis using from_ts ok new trades_evolve_add[OF ev] by (auto simp: trades_from_def trades_ok_def t history_row_def trade_of_def)
qed

section \<open>A sample\<close>

text \<open>A client sells 100 USDT at 96 rupees through a route that pays 97; the quote is accepted.\<close>

definition sample_quote :: quote_row where
  "sample_quote = \<lparr>qt_id = ''q1'', qt_status = QT_ACCEPTED, qt_direction = SELL_USDT, qt_fixed_side = BASE, qt_base = 100000000, qt_quote_inr = 960000,
     qt_client_rate = 96000000, qt_route_rate = 97000000, qt_route_inr = 970000, qt_margin_inr = 10000, qt_route = reservation_uuid,
     qt_snapshot = ''r1'', qt_bank_account = Some ''b1'', qt_wallet = None, qt_route_base = None, qt_margin_base = None, qt_fee_bps = None, qt_fee_base = None, qt_request = ''rq1''\<rparr>"

definition sample_terms :: accepted_terms where
  "sample_terms = \<lparr>at_quote = ''q1'', at_request = ''rq1'', at_client = account_uuid, at_direction = SELL_USDT, at_fixed_side = BASE, at_base = 100000000,
     at_quote_inr = 960000, at_client_rate = 96000000, at_route_rate = 97000000, at_route_inr = 970000, at_margin_inr = 10000,
     at_route = reservation_uuid, at_snapshot = ''r1'', at_bank_account = Some ''b1'', at_wallet = None, at_route_base = None,
     at_margin_base = None, at_fee_bps = None, at_fee_base = None\<rparr>"

definition sample_book :: trade_db where
  "sample_book = pricing_db.extend (pricing_db.truncate sample_prices) (trade_db.fields [sample_quote] [] 0 [] [] [] [] [] [])"

lemma sample_book_ok: "ledger_ok sample_book"
proof -
  have empty: "ledger_account sample_book = []" "ledger_journal sample_book = []" "ledger_entry sample_book = []" by code_simp+
  have "uuidv7 sample_book = (\<lambda>n. replicate n CHR ''a'')" by (simp add: sample_book_def sample_prices_def pricing_db.defs trade_db.defs)
  moreover have "inj (\<lambda>n. replicate n CHR ''a'')" by (rule injI) (metis length_replicate)
  ultimately show ?thesis by (simp add: ledger_ok_def accounts_ok_def fresh_ids_def empty)
qed

lemma opened_trade_as_quoted_witness:
  "case openTradeFromAcceptedQuote posting_ctx sample_terms TO_EXCHANGE sample_book of Inl e \<Rightarrow> False
   | Inr (out, t) \<Rightarrow> map td_state (trade t) = [AWAITING_FIRST_LEG] \<and> map ro_exchange_minor (route_obligation t) = [100000000] \<and> ledger_ok t"
proof -
  have ran: "case openTradeFromAcceptedQuote posting_ctx sample_terms TO_EXCHANGE sample_book of Inl e \<Rightarrow> False
     | Inr (out, t) \<Rightarrow> map td_state (trade t) = [AWAITING_FIRST_LEG] \<and> map ro_exchange_minor (route_obligation t) = [100000000]" by code_simp
  have "ledger_ok t" if "openTradeFromAcceptedQuote posting_ctx sample_terms TO_EXCHANGE sample_book = Inr (out, t)" for out t
    using opened_trade_as_quoted[OF sample_book_ok that] by blast
  with ran show ?thesis by (auto split: sum.splits)
qed

end
