(* ===== verification/Halt.thy ===== *)
theory Halt
  imports Trades
begin

text \<open>
  Pausing new business and the restore fence (\<^verbatim>\<open>packages/trades/src/halt.ts\<close>, and its commands in
  \<^verbatim>\<open>packages/settlement/src/approvals.ts\<close>): when the database changed underneath, outgoing payments are held until one person has recorded
  a reconciliation and another has approved it. With the constraints and triggers of migrations 0033 and 0034. The names the screens show for
  people, and the counts of what is to be reconciled, are read models and are left out; the \<^verbatim>\<open>Date\<close> parser for the optional
  \<^verbatim>\<open>knownUntil\<close> is a parameter, as its rules beyond ISO dates are the engine's own. Moments in audit values are numbers here.
\<close>

section \<open>Tables\<close>

record database_identity =
  db_cluster :: string
  db_timeline :: int

datatype fence_status = FENCE_RAISED | FENCE_LIFTED

record fence_row =
  rf_id :: string
  rf_ref :: string
  rf_status :: fence_status
  rf_reason :: string
  rf_raised_by :: string
  rf_raised_at :: int
  rf_before :: "database_identity option"
  rf_after :: "database_identity option"
  rf_known_until :: "int option"
  rf_lift :: "string option"
  rf_lifted_by :: "string option"
  rf_lifted_at :: "int option"

datatype lift_status = LIFT_REQUESTED | LIFT_APPROVED | LIFT_DECLINED

record lift_row =
  fl_id :: string
  fl_fence :: string
  fl_status :: lift_status
  fl_reconciliation :: string
  fl_requested_by :: string
  fl_requested_at :: int
  fl_decided_by :: "string option"
  fl_decided_at :: "int option"
  fl_note :: "string option"

record beat_row =
  wb_worker :: string
  wb_started :: int
  wb_at :: int
  wb_release :: "string option"
  wb_config :: js
  wb_identity :: "database_identity option"

text \<open>\<open>current_identity\<close> is what \<^verbatim>\<open>inrp2p_database_identity()\<close> returns: the cluster and timeline the database is on, if it may say.\<close>

record halt_db = trade_db +
  restore_fence :: "fence_row list"
  restore_fence_ref_seq :: nat
  restore_fence_lift :: "lift_row list"
  worker_heartbeat :: "beat_row list"
  current_identity :: "database_identity option"

section \<open>What the database refuses\<close>

definition control_checks :: "control_row \<Rightarrow> bool" where
  "control_checks c \<longleftrightarrow> 10 \<le> length (trim (ct_reason c)) \<and> length (trim (ct_reason c)) \<le> 500 \<and> 1 \<le> length (ct_set_by c) \<and> length (ct_set_by c) \<le> 100"

definition insert_control :: "control_row \<Rightarrow> ('x trade_db_scheme, unit) cmd" where
  "insert_control c = (\<lambda>s. if control_checks c \<and> list_all (\<lambda>x. ct_id x \<noteq> ct_id c) (trading_control s)
     then Inr ((), s\<lparr>trading_control := trading_control s @ [c]\<rparr>) else Inl DatabaseError)"

definition fence_checks :: "fence_row \<Rightarrow> bool" where
  "fence_checks f \<longleftrightarrow> 10 \<le> length (trim (rf_reason f)) \<and> length (trim (rf_reason f)) \<le> 500 \<and> 1 \<le> length (rf_raised_by f) \<and> length (rf_raised_by f) \<le> 100 \<and>
     (rf_status f = FENCE_LIFTED \<longleftrightarrow> rf_lift f \<noteq> None \<and> rf_lifted_by f \<noteq> None \<and> rf_lifted_at f \<noteq> None)"

definition fence_raised :: "fence_row \<Rightarrow> bool" where
  "fence_raised f \<longleftrightarrow> rf_status f = FENCE_RAISED"

definition insert_fence :: "fence_row \<Rightarrow> ('x halt_db_scheme, unit) cmd" where
  "insert_fence f = (\<lambda>s. if fence_checks f \<and> fence_raised f \<and> rf_lift f = None \<and> rf_lifted_by f = None \<and> rf_lifted_at f = None \<and>
       list_all (\<lambda>g. rf_id g \<noteq> rf_id f \<and> rf_ref g \<noteq> rf_ref f \<and> \<not> fence_raised g) (restore_fence s)
     then Inr ((), s\<lparr>restore_fence := restore_fence s @ [f]\<rparr>) else Inl DatabaseError)"

definition lift_checks :: "lift_row \<Rightarrow> bool" where
  "lift_checks l \<longleftrightarrow> 20 \<le> length (trim (fl_reconciliation l)) \<and> length (trim (fl_reconciliation l)) \<le> 4000 \<and>
     (case fl_note l of None \<Rightarrow> True | Some n \<Rightarrow> length n \<le> 500) \<and>
     (fl_status l = LIFT_REQUESTED \<longleftrightarrow> fl_decided_by l = None \<and> fl_decided_at l = None)"

definition insert_lift :: "lift_row \<Rightarrow> ('x halt_db_scheme, unit) cmd" where
  "insert_lift l = (\<lambda>s. if lift_checks l \<and> fl_status l = LIFT_REQUESTED \<and> list_ex (\<lambda>f. rf_id f = fl_fence l) (restore_fence s) \<and>
       list_all (\<lambda>x. fl_id x \<noteq> fl_id l \<and> \<not> (fl_fence x = fl_fence l \<and> fl_status x = LIFT_REQUESTED)) (restore_fence_lift s)
     then Inr ((), s\<lparr>restore_fence_lift := restore_fence_lift s @ [l]\<rparr>) else Inl DatabaseError)"

definition lift_step :: "lift_status \<Rightarrow> lift_status \<Rightarrow> bool" where
  "lift_step x y \<longleftrightarrow> x = y \<or> (x, y) \<in> {(LIFT_REQUESTED, LIFT_APPROVED), (LIFT_REQUESTED, LIFT_DECLINED)}"

definition update_lift :: "string \<Rightarrow> (lift_row \<Rightarrow> lift_row) \<Rightarrow> ('x halt_db_scheme, unit) cmd" where
  "update_lift i g = (\<lambda>s. if list_all (\<lambda>l. fl_id l = i \<longrightarrow> lift_step (fl_status l) (fl_status (g l)) \<and> lift_checks (g l) \<and>
       \<not> (fl_status (g l) = LIFT_APPROVED \<and> fl_decided_by (g l) = Some (fl_requested_by (g l)))) (restore_fence_lift s)
     then Inr ((), s\<lparr>restore_fence_lift := update_where (\<lambda>l. fl_id l = i) g (restore_fence_lift s)\<rparr>) else Inl DatabaseError)"

text \<open>A fence is lifted only by an approved lift of it, decided by who lifts it and asked for by someone else.\<close>

definition lifted_by_lift :: "fence_row \<Rightarrow> lift_row list \<Rightarrow> bool" where
  "lifted_by_lift f ls \<longleftrightarrow> list_ex (\<lambda>l. Some (fl_id l) = rf_lift f \<and> fl_fence l = rf_id f \<and> fl_status l = LIFT_APPROVED \<and> fl_decided_by l = rf_lifted_by f \<and>
     Some (fl_requested_by l) \<noteq> rf_lifted_by f) ls"

definition fence_step :: "fence_row \<Rightarrow> fence_row \<Rightarrow> lift_row list \<Rightarrow> bool" where
  "fence_step x y ls \<longleftrightarrow> fence_checks y \<and> (rf_status y = rf_status x \<or> fence_raised x \<and> lifted_by_lift y ls)"

definition update_fence :: "string \<Rightarrow> (fence_row \<Rightarrow> fence_row) \<Rightarrow> ('x halt_db_scheme, unit) cmd" where
  "update_fence i g = (\<lambda>s. if list_all (\<lambda>f. rf_id f = i \<longrightarrow> fence_step f (g f) (restore_fence_lift s)) (restore_fence s)
     then Inr ((), s\<lparr>restore_fence := update_where (\<lambda>f. rf_id f = i) g (restore_fence s)\<rparr>) else Inl DatabaseError)"

section \<open>Whether new business is open\<close>

record business_state =
  nb_paused :: bool
  nb_reason :: "string option"
  nb_since :: "int option"

definition newBusinessState :: "'x trade_db_scheme \<Rightarrow> business_state" where
  "newBusinessState s = (case latest_control s of None \<Rightarrow> \<lparr>nb_paused = False, nb_reason = None, nb_since = None\<rparr>
     | Some c \<Rightarrow> \<lparr>nb_paused = ct_paused c, nb_reason = Some (ct_reason c), nb_since = Some (ct_set_at c)\<rparr>)"

definition assertNewBusinessOpen :: "('x trade_db_scheme, unit) cmd" where
  "assertNewBusinessOpen = bindC (readC newBusinessState) (\<lambda>state. unlessC (\<not> nb_paused state) (FundingError NEW_BUSINESS_PAUSED))"

definition js_business :: "business_state \<Rightarrow> js" where
  "js_business b = JObj [(''paused'', JBool (nb_paused b)), (''reason'', js_opt (nb_reason b)),
     (''since'', case nb_since b of None \<Rightarrow> JNull | Some t \<Rightarrow> JNum t)]"

section \<open>The fence\<close>

definition sameDatabase :: "database_identity \<Rightarrow> database_identity \<Rightarrow> bool" where
  "sameDatabase a b \<longleftrightarrow> db_cluster a = db_cluster b \<and> db_timeline a = db_timeline b"

definition databaseIdentityOf :: "js \<Rightarrow> database_identity option" where
  "databaseIdentityOf value = (case value of JObj fs \<Rightarrow> (case (map_of fs ''cluster'', map_of fs ''timeline'') of
       (Some (JStr c), Some (JNum n)) \<Rightarrow> Some \<lparr>db_cluster = c, db_timeline = n\<rparr> | _ \<Rightarrow> None)
     | _ \<Rightarrow> None)"

definition identity_json :: "database_identity \<Rightarrow> js" where
  "identity_json d = JObj [(''cluster'', JStr (db_cluster d)), (''timeline'', JNum (db_timeline d))]"

text \<open>The last identity a heartbeat recorded. Of beats at the same instant, which the query leaves open, the later row is taken.\<close>

definition latest_beat :: "'x halt_db_scheme \<Rightarrow> beat_row option" where
  "latest_beat s = (case rev (sort_key wb_at (filter (\<lambda>b. wb_identity b \<noteq> None) (worker_heartbeat s))) of [] \<Rightarrow> None | b # _ \<Rightarrow> Some b)"

definition fence_names :: "database_identity \<Rightarrow> 'x halt_db_scheme \<Rightarrow> bool" where
  "fence_names d s \<longleftrightarrow> list_ex (\<lambda>f. rf_after f = Some d) (restore_fence s)"

definition raised_fence :: "'x halt_db_scheme \<Rightarrow> fence_row option" where
  "raised_fence s = List.find fence_raised (restore_fence s)"

definition payouts_held :: "'x halt_db_scheme \<Rightarrow> bool" where
  "payouts_held s \<longleftrightarrow> raised_fence s \<noteq> None \<or>
     (case latest_beat s of None \<Rightarrow> False | Some b \<Rightarrow> (case current_identity s of None \<Rightarrow> False
       | Some d \<Rightarrow> wb_identity b \<noteq> Some d \<and> \<not> fence_names d s))"

definition payoutsHeld :: "'x halt_db_scheme \<Rightarrow> bool \<times> string option" where
  "payoutsHeld s = (payouts_held s, map_option rf_ref (raised_fence s))"

definition assertPayoutsOpen :: "('x halt_db_scheme, unit) cmd" where
  "assertPayoutsOpen = bindC (readC payoutsHeld) (\<lambda>row. unlessC (\<not> fst row) (FundingError PAYOUTS_HELD))"

record fence_state =
  fs_held :: bool
  fs_unacknowledged :: bool
  fs_fence :: "fence_row option"
  fs_lift :: "lift_row option"
  fs_last_lifted :: "fence_row option"

definition restoreFenceState :: "'x halt_db_scheme \<Rightarrow> fence_state" where
  "restoreFenceState s = (let fence = raised_fence s in
     \<lparr>fs_held = payouts_held s, fs_unacknowledged = (payouts_held s \<and> fence = None), fs_fence = fence,
      fs_lift = (case fence of None \<Rightarrow> None | Some f \<Rightarrow> List.find (\<lambda>l. fl_fence l = rf_id f \<and> fl_status l = LIFT_REQUESTED) (restore_fence_lift s)),
      fs_last_lifted = (case rev (sort_key (\<lambda>f. case rf_lifted_at f of None \<Rightarrow> 0 | Some t \<Rightarrow> t) (filter (\<lambda>f. rf_status f = FENCE_LIFTED) (restore_fence s)))
        of [] \<Rightarrow> None | f # _ \<Rightarrow> Some f)\<rparr>)"

definition js_fence_state :: "fence_state \<Rightarrow> js" where
  "js_fence_state x = JObj [(''held'', JBool (fs_held x)), (''unacknowledgedChange'', JBool (fs_unacknowledged x)),
     (''fence'', case fs_fence x of None \<Rightarrow> JNull | Some f \<Rightarrow> JObj [(''id'', JStr (rf_id f)), (''ref'', JStr (rf_ref f)), (''reason'', JStr (rf_reason f))]),
     (''lift'', case fs_lift x of None \<Rightarrow> JNull | Some l \<Rightarrow> JObj [(''id'', JStr (fl_id l)), (''reconciliation'', JStr (fl_reconciliation l)),
        (''requestedById'', JStr (fl_requested_by l))]),
     (''lastLifted'', case fs_last_lifted x of None \<Rightarrow> JNull | Some f \<Rightarrow> JObj [(''ref'', JStr (rf_ref f))])]"

section \<open>Holding outgoing payments\<close>

record held_fence =
  hf_id :: string
  hf_ref :: string
  hf_paused :: bool

definition next_fence_ref :: "('x halt_db_scheme, string) cmd" where
  "next_fence_ref = (\<lambda>s. Inr (''RF-'' @ ref_number (Suc (restore_fence_ref_seq s)) 4, s\<lparr>restore_fence_ref_seq := Suc (restore_fence_ref_seq s)\<rparr>))"

definition new_fence :: "string \<Rightarrow> string \<Rightarrow> string \<Rightarrow> string \<Rightarrow> database_identity option \<Rightarrow> int option \<Rightarrow> 'x halt_db_scheme \<Rightarrow> fence_row" where
  "new_fence i ref by reason was_db knownUntil s = \<lparr>rf_id = i, rf_ref = ref, rf_status = FENCE_RAISED, rf_reason = reason, rf_raised_by = by,
     rf_raised_at = clock s, rf_before = was_db, rf_after = current_identity s, rf_known_until = knownUntil, rf_lift = None, rf_lifted_by = None,
     rf_lifted_at = None\<rparr>"

text \<open>Pausing new business along with a fence, unless it is paused already.\<close>

definition pause_with :: "string \<Rightarrow> string \<Rightarrow> ('x trade_db_scheme, bool) cmd" where
  "pause_with reason by =
     bindC (readC newBusinessState) (\<lambda>business.
     bindC (whenC (\<not> nb_paused business) (bindC freshId (\<lambda>i. bindC (readC clock) (\<lambda>now.
        insert_control \<lparr>ct_id = i, ct_paused = True, ct_reason = take 500 reason, ct_set_by = by, ct_set_at = now\<rparr>)))) (\<lambda>_.
     returnC (\<not> nb_paused business)))"

definition holdOutgoingPayments :: "string \<Rightarrow> string \<Rightarrow> database_identity option \<Rightarrow> int option \<Rightarrow> ('x halt_db_scheme, held_fence option) cmd" where
  "holdOutgoingPayments by reason was_db knownUntil =
     bindC (readC raised_fence) (\<lambda>open_fence.
     if open_fence \<noteq> None then returnC None
     else bindC next_fence_ref (\<lambda>ref.
       bindC freshId (\<lambda>i.
       bindC (readC (new_fence i ref by reason was_db knownUntil)) (\<lambda>f.
       bindC (insert_fence f) (\<lambda>_.
       bindC (pause_with (ref @ '': '' @ reason) by) (\<lambda>paused.
       returnC (Some \<lparr>hf_id = i, hf_ref = ref, hf_paused = paused\<rparr>)))))))"

section \<open>Heartbeats\<close>

record worker_beat =
  be_worker :: string
  be_started :: int
  be_release :: "string option"
  be_config :: js

definition upsert_beat :: "beat_row \<Rightarrow> ('x halt_db_scheme, unit) cmd" where
  "upsert_beat b = (\<lambda>s. if 1 \<le> length (wb_worker b) \<and> length (wb_worker b) \<le> 100 \<and> (case wb_release b of None \<Rightarrow> True | Some r \<Rightarrow> length r \<le> 100)
     then Inr ((), s\<lparr>worker_heartbeat := (if list_ex (\<lambda>x. wb_worker x = wb_worker b) (worker_heartbeat s)
       then update_where (\<lambda>x. wb_worker x = wb_worker b) (\<lambda>_. b) (worker_heartbeat s) else worker_heartbeat s @ [b])\<rparr>) else Inl DatabaseError)"

definition int_text :: "int \<Rightarrow> string" where
  "int_text n = (if n < 0 then CHR ''-'' # digits_of (- n) else digits_of n)"

definition moved_reason :: "database_identity \<Rightarrow> database_identity \<Rightarrow> string" where
  "moved_reason recorded current = (if db_cluster current = db_cluster recorded
     then ''The database moved from timeline '' @ int_text (db_timeline recorded) @ '' to '' @ int_text (db_timeline current) @
       '': it was recovered to an earlier moment or failed over.''
     else ''The database is another cluster than the one the workers last wrote to: it was restored, upgraded or moved.'')"

definition heartbeat_actor :: actor_ref where
  "heartbeat_actor = \<lparr>actor_type = SYSTEM, actor_id = None, actor_surface = SYSTEM_SURFACE, actor_session = None\<rparr>"

text \<open>The correlation of the audit event is a random identifier of the runtime.\<close>

definition raise_when_moved :: "string \<Rightarrow> string \<Rightarrow> ('x halt_db_scheme, string option) cmd" where
  "raise_when_moved correlation worker =
     bindC (readC current_identity) (\<lambda>current.
     bindC (readC latest_beat) (\<lambda>recorded.
     bindC (readC (\<lambda>s. case current of None \<Rightarrow> False | Some d \<Rightarrow> fence_names d s)) (\<lambda>fenced.
     case (current, Option.bind recorded wb_identity) of
       (Some now_on, Some was_on) \<Rightarrow> if sameDatabase now_on was_on \<or> fenced then returnC None
         else let reason = moved_reason was_on now_on; seen_at = map_option wb_at recorded
           in bindC (holdOutgoingPayments ''SYSTEM:worker_heartbeat'' reason (Some was_on) seen_at) (\<lambda>fence.
             case fence of None \<Rightarrow> returnC None
             | Some f \<Rightarrow> bindC (appendAuditDirect heartbeat_actor ''operations.restore_fence_raised'' ''restore_fence'' (Some (hf_id f))
                  (JObj [(''ref'', JStr (hf_ref f)), (''reason'', JStr reason), (''identity_before'', identity_json was_on),
                     (''identity_after'', identity_json now_on), (''known_until'', case seen_at of None \<Rightarrow> JNull | Some t \<Rightarrow> JNum t),
                     (''paused_new_business'', JBool (hf_paused f)), (''worker'', JStr worker)]) correlation) (\<lambda>_.
                returnC (Some (hf_ref f))))
     | _ \<Rightarrow> returnC None)))"

definition recordWorkerBeat :: "string \<Rightarrow> worker_beat \<Rightarrow> ('x halt_db_scheme, string option) cmd" where
  "recordWorkerBeat correlation beat =
     bindC (raise_when_moved correlation (be_worker beat)) (\<lambda>raised.
     bindC (readC (\<lambda>s. \<lparr>wb_worker = be_worker beat, wb_started = be_started beat, wb_at = clock s, wb_release = be_release beat,
        wb_config = be_config beat, wb_identity = current_identity s\<rparr>)) (\<lambda>row.
     bindC (upsert_beat row) (\<lambda>_.
     returnC raised)))"

section \<open>Commands\<close>

definition setNewBusiness :: "operator_actor \<Rightarrow> tx_ctx \<Rightarrow> js \<Rightarrow> ('x trade_db_scheme, js) cmd" where
  "setNewBusiness a = operatorHandle a ''settings:new_business'' (\<lambda>ctx p dec.
     case js_field ''paused'' p of JBool paused \<Rightarrow>
       bindC (liftC (requireText (js_field ''reason'' p) 500)) (\<lambda>reason.
       bindC (unlessC (\<not> length reason < 10) (CoreError INVALID_ARGUMENT)) (\<lambda>_.
       bindC (readC newBusinessState) (\<lambda>was.
       bindC (unlessC (nb_paused was \<noteq> paused) (ReferenceError INVALID_TRANSITION)) (\<lambda>_.
       bindC freshId (\<lambda>i.
       bindC (readC clock) (\<lambda>now.
       bindC (insert_control \<lparr>ct_id = i, ct_paused = paused, ct_reason = reason, ct_set_by = op_userId a, ct_set_at = now\<rparr>) (\<lambda>_.
       bindC (appendAudit ctx (if paused then ''settings.new_business_paused'' else ''settings.new_business_resumed'') ''trading_control'' None
          (JObj [(''paused'', JBool (nb_paused was))]) (JObj [(''paused'', JBool paused), (''reason'', JStr reason)])) (\<lambda>_.
       bindC (readC newBusinessState) (\<lambda>b.
       returnC (js_business b))))))))))
     | _ \<Rightarrow> liftC (Inl (CoreError INVALID_ARGUMENT)))"

text \<open>An optional moment: absent or empty is none, and what is there must be a date.\<close>

definition known_until :: "(string \<Rightarrow> int option) \<Rightarrow> js \<Rightarrow> int option result" where
  "known_until parseDate v = (if js_truthy v then bindR (requireText v 40) (\<lambda>t.
       case parseDate t of None \<Rightarrow> Inl (CoreError INVALID_ARGUMENT) | Some d \<Rightarrow> Inr (Some d))
     else Inr None)"

definition raiseRestoreFence :: "(string \<Rightarrow> int option) \<Rightarrow> operator_actor \<Rightarrow> tx_ctx \<Rightarrow> js \<Rightarrow> ('x halt_db_scheme, js) cmd" where
  "raiseRestoreFence parseDate a = operatorHandle a ''operations:restore_fence'' (\<lambda>ctx p dec.
     bindC (liftC (requireText (js_field ''reason'' p) 500)) (\<lambda>reason.
     bindC (unlessC (\<not> length reason < 10) (CoreError INVALID_ARGUMENT)) (\<lambda>_.
     bindC (liftC (known_until parseDate (js_field ''knownUntil'' p))) (\<lambda>moment.
     bindC (holdOutgoingPayments (op_userId a) reason None moment) (\<lambda>fence.
     bindC (foundC (ReferenceError INVALID_TRANSITION) fence) (\<lambda>f.
     bindC (appendAudit ctx ''operations.restore_fence_raised'' ''restore_fence'' (Some (hf_id f)) JUndefined
        (JObj [(''ref'', JStr (hf_ref f)), (''reason'', JStr reason), (''known_until'', case moment of None \<Rightarrow> JNull | Some t \<Rightarrow> JNum t),
               (''paused_new_business'', JBool (hf_paused f))])) (\<lambda>_.
     bindC (readC restoreFenceState) (\<lambda>x.
     returnC (js_fence_state x)))))))))"

definition requested_lift :: "string \<Rightarrow> string \<Rightarrow> string \<Rightarrow> string \<Rightarrow> int \<Rightarrow> lift_row" where
  "requested_lift i fence reconciliation by now = \<lparr>fl_id = i, fl_fence = fence, fl_status = LIFT_REQUESTED, fl_reconciliation = reconciliation,
     fl_requested_by = by, fl_requested_at = now, fl_decided_by = None, fl_decided_at = None, fl_note = None\<rparr>"

definition requestRestoreFenceLift :: "operator_actor \<Rightarrow> tx_ctx \<Rightarrow> js \<Rightarrow> ('x halt_db_scheme, js) cmd" where
  "requestRestoreFenceLift a = operatorHandle a ''operations:restore_fence'' (\<lambda>ctx p dec.
     bindC (liftC (requireText (js_field ''reconciliation'' p) 4000)) (\<lambda>reconciliation.
     bindC (unlessC (\<not> length reconciliation < 20) (CoreError INVALID_ARGUMENT)) (\<lambda>_.
     bindC (readC raised_fence) (\<lambda>row.
     bindC (foundC (ReferenceError INVALID_TRANSITION) row) (\<lambda>fence.
     bindC (readC (\<lambda>s. list_ex (\<lambda>l. fl_fence l = rf_id fence \<and> fl_status l = LIFT_REQUESTED) (restore_fence_lift s))) (\<lambda>pending.
     bindC (unlessC (\<not> pending) (ReferenceError INVALID_TRANSITION)) (\<lambda>_.
     bindC freshId (\<lambda>i.
     bindC (readC clock) (\<lambda>now.
     bindC (insert_lift (requested_lift i (rf_id fence) reconciliation (op_userId a) now)) (\<lambda>_.
     bindC (appendAudit ctx ''operations.restore_fence_lift_requested'' ''restore_fence'' (Some (rf_id fence)) JUndefined
        (JObj [(''ref'', JStr (rf_ref fence)), (''lift_id'', JStr i), (''reconciliation'', JStr reconciliation)])) (\<lambda>_.
     bindC (readC restoreFenceState) (\<lambda>x.
     returnC (js_fence_state x)))))))))))))"

definition decided_lift :: "bool \<Rightarrow> string \<Rightarrow> int \<Rightarrow> string option \<Rightarrow> lift_row \<Rightarrow> lift_row" where
  "decided_lift approve by now note l = l\<lparr>fl_status := (if approve then LIFT_APPROVED else LIFT_DECLINED), fl_decided_by := Some by,
     fl_decided_at := Some now, fl_note := note\<rparr>"

definition lifted_fence :: "string \<Rightarrow> string \<Rightarrow> int \<Rightarrow> fence_row \<Rightarrow> fence_row" where
  "lifted_fence lift by now f = f\<lparr>rf_status := FENCE_LIFTED, rf_lift := Some lift, rf_lifted_by := Some by, rf_lifted_at := Some now\<rparr>"

text \<open>Approving needs a second person, by the role table and whatever it says.\<close>

definition second_person :: "authorization_decision \<Rightarrow> bool \<Rightarrow> string \<Rightarrow> string \<Rightarrow> unit result" where
  "second_person dec approve requester user = (if \<not> approve then Inr ()
     else bindR (assertSecondApprover dec requester user) (\<lambda>_.
       if requester = user then Inl (CoreError SECOND_APPROVER_REQUIRED) else Inr ()))"

definition fence_status_name :: "fence_status \<Rightarrow> string" where
  "fence_status_name x = (case x of FENCE_RAISED \<Rightarrow> ''RAISED'' | FENCE_LIFTED \<Rightarrow> ''LIFTED'')"

definition decide_lift :: "operator_actor \<Rightarrow> tx_ctx \<Rightarrow> authorization_decision \<Rightarrow> js \<Rightarrow> bool \<Rightarrow> ('x halt_db_scheme, js) cmd" where
  "decide_lift a ctx dec p approve =
     bindC (liftC (requireUuid (js_field ''liftId'' p))) (\<lambda>liftId.
     bindC (readC (\<lambda>s. List.find (\<lambda>l. fl_id l = liftId) (restore_fence_lift s))) (\<lambda>row.
     bindC (foundC (CoreError NOT_FOUND) row) (\<lambda>lift.
     bindC (readC (\<lambda>s. List.find (\<lambda>f. rf_id f = fl_fence lift) (restore_fence s))) (\<lambda>row.
     bindC (foundC NoResultError row) (\<lambda>fence.
     bindC (unlessC (fl_status lift = LIFT_REQUESTED \<and> fence_raised fence) (ReferenceError INVALID_TRANSITION)) (\<lambda>_.
     bindC (liftC (if js_truthy (js_field ''note'' p) then bindR (requireText (js_field ''note'' p) 500) (\<lambda>n. Inr (Some n)) else Inr None)) (\<lambda>note.
     bindC (liftC (second_person dec approve (fl_requested_by lift) (op_userId a))) (\<lambda>_.
     bindC (readC clock) (\<lambda>now.
     bindC (update_lift (fl_id lift) (decided_lift approve (op_userId a) now note)) (\<lambda>_.
     bindC (whenC approve (update_fence (rf_id fence) (lifted_fence (fl_id lift) (op_userId a) now))) (\<lambda>_.
     bindC (appendAudit ctx (if approve then ''operations.restore_fence_lifted'' else ''operations.restore_fence_lift_declined'') ''restore_fence''
        (Some (rf_id fence)) (JObj [(''status'', JStr ''RAISED'')])
        (JObj [(''ref'', JStr (rf_ref fence)), (''lift_id'', JStr (fl_id lift)),
               (''status'', JStr (fence_status_name (if approve then FENCE_LIFTED else FENCE_RAISED))), (''requested_by'', JStr (fl_requested_by lift)),
               (''decided_by'', JStr (op_userId a)), (''note'', js_opt note)])) (\<lambda>_.
     bindC (readC restoreFenceState) (\<lambda>x.
     returnC (js_fence_state x))))))))))))))"

definition decideRestoreFenceLift :: "operator_actor \<Rightarrow> tx_ctx \<Rightarrow> js \<Rightarrow> ('x halt_db_scheme, js) cmd" where
  "decideRestoreFenceLift a = operatorHandle a ''operations:approve_restore_fence_lift'' (\<lambda>ctx p dec.
     case js_field ''approve'' p of JBool approve \<Rightarrow> decide_lift a ctx dec p approve | _ \<Rightarrow> liftC (Inl (CoreError INVALID_ARGUMENT)))"

section \<open>The invariant\<close>

text \<open>What of a fence never changes.\<close>

definition same_fence :: "fence_row \<Rightarrow> fence_row \<Rightarrow> bool" where
  "same_fence x y \<longleftrightarrow> rf_id y = rf_id x \<and> rf_ref y = rf_ref x \<and> rf_reason y = rf_reason x \<and> rf_raised_by y = rf_raised_by x \<and>
     rf_raised_at y = rf_raised_at x \<and> rf_before y = rf_before x \<and> rf_after y = rf_after x \<and> rf_known_until y = rf_known_until x"

definition same_lift :: "lift_row \<Rightarrow> lift_row \<Rightarrow> bool" where
  "same_lift x y \<longleftrightarrow> fl_id y = fl_id x \<and> fl_fence y = fl_fence x \<and> fl_requested_by y = fl_requested_by x \<and> fl_reconciliation y = fl_reconciliation x \<and>
     fl_requested_at y = fl_requested_at x \<and> (fl_status x \<noteq> LIFT_REQUESTED \<longrightarrow> y = x)"

text \<open>At most one fence is raised, and a lifted one was lifted by two people.\<close>

definition fences_ok :: "'x halt_db_scheme \<Rightarrow> bool" where
  "fences_ok s \<longleftrightarrow> distinct (map rf_id (restore_fence s)) \<and> distinct (map fl_id (restore_fence_lift s)) \<and>
     length (filter fence_raised (restore_fence s)) \<le> 1 \<and>
     list_all (\<lambda>f. fence_raised f \<or> lifted_by_lift f (restore_fence_lift s)) (restore_fence s)"

definition fences_grow :: "'x halt_db_scheme \<Rightarrow> 'x halt_db_scheme \<Rightarrow> bool" where
  "fences_grow s t \<longleftrightarrow> (\<forall>f \<in> set (restore_fence s). \<exists>g \<in> set (restore_fence t). same_fence f g \<and> (fence_raised g \<or> \<not> fence_raised f \<longrightarrow> g = f)) \<and>
     (\<forall>l \<in> set (restore_fence_lift s). \<exists>m \<in> set (restore_fence_lift t). same_lift l m)"

text \<open>What a command keeps, from a state it started in.\<close>

definition fences_from :: "'x halt_db_scheme \<Rightarrow> 'x halt_db_scheme \<Rightarrow> bool" where
  "fences_from s t \<longleftrightarrow> fences_ok t \<and> fences_grow s t"

lemma fences_grow_refl: "fences_grow s s"
  by (auto simp: fences_grow_def same_fence_def same_lift_def)

lemma fences_grow_trans:
  assumes st: "fences_grow s t" and tu: "fences_grow t u"
  shows "fences_grow s u"
proof -
  have "\<exists>h \<in> set (restore_fence u). same_fence f h \<and> (fence_raised h \<or> \<not> fence_raised f \<longrightarrow> h = f)" if f: "f \<in> set (restore_fence s)" for f
  proof -
    obtain g where g: "g \<in> set (restore_fence t)" "same_fence f g" "fence_raised g \<or> \<not> fence_raised f \<longrightarrow> g = f" using bspec[OF conjunct1[OF st[unfolded fences_grow_def]] f] by (elim bexE conjE)
    obtain h where h: "h \<in> set (restore_fence u)" "same_fence g h" "fence_raised h \<or> \<not> fence_raised g \<longrightarrow> h = g"
      using bspec[OF conjunct1[OF tu[unfolded fences_grow_def]] g(1)] by (elim bexE conjE)
    have "same_fence f h" using g(2) h(2) by (simp add: same_fence_def)
    moreover have "fence_raised h \<or> \<not> fence_raised f \<longrightarrow> h = f" using g(3) h(3) by blast
    ultimately show ?thesis using h(1) by blast
  qed
  moreover have "\<exists>n \<in> set (restore_fence_lift u). same_lift l n" if l: "l \<in> set (restore_fence_lift s)" for l
  proof -
    obtain m where m: "m \<in> set (restore_fence_lift t)" "same_lift l m" using st l unfolding fences_grow_def by blast
    obtain n where n: "n \<in> set (restore_fence_lift u)" "same_lift m n" using tu m(1) unfolding fences_grow_def by blast
    show ?thesis using m n by (intro bexI[of _ n]) (auto simp: same_lift_def)
  qed
  ultimately show ?thesis by (simp add: fences_grow_def)
qed

section \<open>What every step keeps\<close>

lemma fences_cong: "restore_fence t = restore_fence s \<Longrightarrow> restore_fence_lift t = restore_fence_lift s \<Longrightarrow> fences_from s0 s \<Longrightarrow> fences_from s0 t"
  unfolding fences_from_def fences_ok_def fences_grow_def by (elim conjE) (intro conjI; simp only:)

lemma fence_frameI:
  assumes "\<And>s u t. m s = Inr (u, t) \<Longrightarrow> restore_fence t = restore_fence s \<and> restore_fence_lift t = restore_fence_lift s"
  shows "keeps (fences_from s0) m"
proof (rule keepsI)
  fix s u t assume "fences_from s0 s" "m s = Inr (u, t)"
  with assms[of s u t] fences_cong[of t s s0] show "fences_from s0 t" by simp
qed

lemma fence_frames [inv_intros]:
  "keeps (fences_from s0) (appendAudit ctx action ty k x y)" "keeps (fences_from s0) freshId" "keeps (fences_from s0) (authorizeOperator a perm)"
  "keeps (fences_from s0) (insert_control c)" "keeps (fences_from s0) next_fence_ref" "keeps (fences_from s0) (upsert_beat b)"
  "keeps (fences_from s0) (appendAuditDirect r action ty k y z)"
proof -
  show "keeps (fences_from s0) (appendAudit ctx action ty k x y)" by (rule fence_frameI) auto
  show "keeps (fences_from s0) freshId" by (rule fence_frameI) auto
  show "keeps (fences_from s0) (authorizeOperator a perm)" by (rule fence_frameI) (drule authorize_state, simp)
  show "keeps (fences_from s0) (insert_control c)" by (rule fence_frameI) (auto simp: insert_control_def split: if_splits)
  show "keeps (fences_from s0) next_fence_ref" by (rule fence_frameI) (auto simp: next_fence_ref_def)
  show "keeps (fences_from s0) (upsert_beat b)" by (rule fence_frameI) (auto simp: upsert_beat_def split: if_splits)
  show "keeps (fences_from s0) (appendAuditDirect r action ty k y z)" by (rule fence_frameI) (auto simp: appendAuditDirect_def)
qed

lemma insert_fence_keeps [inv_intros]: "keeps (fences_from s0) (insert_fence f)"
proof (rule keepsI)
  fix s u t assume ok: "fences_from s0 s" and run: "insert_fence f s = Inr (u, t)"
  then have t: "t = s\<lparr>restore_fence := restore_fence s @ [f]\<rparr>" and f: "fence_raised f" "\<forall>g \<in> set (restore_fence s). rf_id g \<noteq> rf_id f \<and> \<not> fence_raised g"
    by (auto simp: insert_fence_def list_all_iff split: if_splits)
  have "filter fence_raised (restore_fence s) = []" using f(2) by (simp add: filter_empty_conv)
  then have "fences_ok t" using ok f by (auto simp: fences_from_def fences_ok_def t list_all_iff)
  moreover have "fences_grow s t" by (auto simp: fences_grow_def t same_fence_def same_lift_def)
  ultimately show "fences_from s0 t" using ok fences_grow_trans by (auto simp: fences_from_def)
qed

lemma lifted_by_append: "lifted_by_lift f ls \<Longrightarrow> lifted_by_lift f (ls @ [l])"
  by (simp add: lifted_by_lift_def)

lemma insert_lift_keeps [inv_intros]: "keeps (fences_from s0) (insert_lift l)"
proof (rule keepsI)
  fix s u t assume ok: "fences_from s0 s" and run: "insert_lift l s = Inr (u, t)"
  then have t: "t = s\<lparr>restore_fence_lift := restore_fence_lift s @ [l]\<rparr>" and l: "\<forall>x \<in> set (restore_fence_lift s). fl_id x \<noteq> fl_id l"
    by (auto simp: insert_lift_def list_all_iff split: if_splits)
  have "fences_ok t" using ok l lifted_by_append by (auto simp: fences_from_def fences_ok_def t list_all_iff)
  moreover have "fences_grow s t" by (auto simp: fences_grow_def t same_fence_def same_lift_def)
  ultimately show "fences_from s0 t" using ok fences_grow_trans by (auto simp: fences_from_def)
qed

text \<open>Deciding a lift that is still asked for.\<close>

lemma decide_lift_keeps:
  assumes ok: "fences_from s0 s" and l: "l \<in> set (restore_fence_lift s)" "fl_status l = LIFT_REQUESTED"
    and run: "update_lift (fl_id l) (decided_lift approve by now nt) s = Inr (u, t)"
  shows "fences_from s0 t"
proof -
  let ?g = "decided_lift approve by now nt"
  have t: "t = s\<lparr>restore_fence_lift := update_where (\<lambda>x. fl_id x = fl_id l) ?g (restore_fence_lift s)\<rparr>" using run by (auto simp: update_lift_def split: if_splits)
  have ids: "fl_id (?g x) = fl_id x" for x by (simp add: decided_lift_def)
  have only: "x = l" if "x \<in> set (restore_fence_lift s)" "fl_id x = fl_id l" for x
    using ok l(1) that unfolding fences_from_def fences_ok_def distinct_map by (metis inj_onD)
  have still: "lifted_by_lift f (restore_fence_lift t)" if f: "lifted_by_lift f (restore_fence_lift s)" for f
  proof -
    obtain x where x: "x \<in> set (restore_fence_lift s)" "Some (fl_id x) = rf_lift f \<and> fl_fence x = rf_id f \<and> fl_status x = LIFT_APPROVED \<and>
        fl_decided_by x = rf_lifted_by f \<and> Some (fl_requested_by x) \<noteq> rf_lifted_by f" using f by (auto simp: lifted_by_lift_def list_ex_iff)
    then have "fl_id x \<noteq> fl_id l" using only l(2) by force
    then have "x \<in> set (restore_fence_lift t)" using x(1) by (force simp: t set_update_where)
    then show ?thesis using x(2) unfolding lifted_by_lift_def list_ex_iff by blast
  qed
  have "distinct (map fl_id (restore_fence_lift t))" using ok by (simp add: t ids fences_from_def fences_ok_def)
  moreover have "restore_fence t = restore_fence s" by (simp add: t)
  ultimately have fok: "fences_ok t" using ok still unfolding fences_from_def fences_ok_def list_all_iff by metis
  have "same_lift x (if fl_id x = fl_id l then ?g x else x)" if "x \<in> set (restore_fence_lift s)" for x
    using only[OF that] l(2) by (auto simp: same_lift_def decided_lift_def)
  moreover have "restore_fence_lift t = map (\<lambda>x. if fl_id x = fl_id l then ?g x else x) (restore_fence_lift s)" by (simp add: t update_where_def)
  then have "(if fl_id x = fl_id l then ?g x else x) \<in> set (restore_fence_lift t)" if "x \<in> set (restore_fence_lift s)" for x using that by simp
  ultimately have "\<forall>x \<in> set (restore_fence_lift s). \<exists>m \<in> set (restore_fence_lift t). same_lift x m" by (intro ballI bexI)
  then have "fences_grow s t" using fences_grow_refl[of s] by (auto simp: fences_grow_def t)
  with fok show ?thesis using ok fences_grow_trans by (auto simp: fences_from_def)
qed

lemma lift_fence_keeps:
  assumes ok: "fences_from s0 s" and f: "f \<in> set (restore_fence s)" "fence_raised f"
    and run: "update_fence (rf_id f) (lifted_fence i by now) s = Inr (u, t)"
  shows "fences_from s0 t"
proof -
  let ?g = "lifted_fence i by now"
  have t: "t = s\<lparr>restore_fence := update_where (\<lambda>x. rf_id x = rf_id f) ?g (restore_fence s)\<rparr>"
    and step: "fence_step f (?g f) (restore_fence_lift s)" using run f(1) by (auto simp: update_fence_def list_all_iff split: if_splits)
  have lifted: "lifted_by_lift (?g f) (restore_fence_lift s)" "\<not> fence_raised (?g x)" "rf_id (?g x) = rf_id x" for x
    using step f(2) by (auto simp: fence_step_def lifted_fence_def fence_raised_def)
  have only: "x = f" if "x \<in> set (restore_fence s)" "rf_id x = rf_id f" for x
    using ok f(1) that unfolding fences_from_def fences_ok_def distinct_map by (metis inj_onD)
  have rows: "restore_fence t = map (\<lambda>x. if rf_id x = rf_id f then ?g x else x) (restore_fence s)" by (simp add: t update_where_def)
  have "filter fence_raised (map (\<lambda>x. if rf_id x = rf_id f then ?g x else x) xs) = filter (\<lambda>x. rf_id x \<noteq> rf_id f) (filter fence_raised xs)" for xs
    using lifted(2) by (induction xs) auto
  then have "length (filter fence_raised (restore_fence t)) \<le> length (filter fence_raised (restore_fence s))"
    unfolding rows by (simp del: filter_filter)
  moreover have "fence_raised y \<or> lifted_by_lift y (restore_fence_lift s)" if "y \<in> set (restore_fence t)" for y
    using that ok only lifted(1) by (auto simp: rows fences_from_def fences_ok_def list_all_iff split: if_splits)
  moreover have "distinct (map rf_id (restore_fence t))" using ok lifted(3) by (simp add: t fences_from_def fences_ok_def)
  moreover have "restore_fence_lift t = restore_fence_lift s" by (simp add: t)
  ultimately have "fences_ok t" using ok unfolding fences_from_def fences_ok_def list_all_iff by (metis le_trans)
  moreover have "fences_grow s t"
  proof -
    have "same_fence x (?g x)" for x by (simp add: same_fence_def lifted_fence_def)
    moreover have "same_fence x x" for x by (simp add: same_fence_def)
    ultimately have "\<exists>y \<in> set (restore_fence t). same_fence x y \<and> (fence_raised y \<or> \<not> fence_raised x \<longrightarrow> y = x)" if x: "x \<in> set (restore_fence s)" for x
      using x only f(2) lifted(2) unfolding rows by (intro bexI[of _ "if rf_id x = rf_id f then ?g x else x"]) auto
    then show ?thesis using fences_grow_refl[of s] by (simp add: fences_grow_def t)
  qed
  ultimately show ?thesis using ok fences_grow_trans by (auto simp: fences_from_def)
qed

lemma decide_keeps: "keeps (fences_from s0) (decideRestoreFenceLift a ctx p)"
proof (rule keepsI)
  fix s out t assume ok: "fences_from s0 s" and run: "decideRestoreFenceLift a ctx p s = Inr (out, t)"
  from operatorHandle_Inr[OF run[unfolded decideRestoreFenceLift_def]] obtain dec approve where "decide_lift a ctx dec p approve s = Inr (out, t)"
    by (cases "js_field ''approve'' p") auto
  then obtain l f nt s1 s2 x1 x2 x3 x4 x5 where
    l: "l \<in> set (restore_fence_lift s)" "fl_status l = LIFT_REQUESTED" and f: "f \<in> set (restore_fence s)" "fence_raised f"
    and upd: "update_lift (fl_id l) (decided_lift approve (op_userId a) (clock s) nt) s = Inr ((), s1)"
    and release: "whenC approve (update_fence (rf_id f) (lifted_fence (fl_id l) (op_userId a) (clock s))) s1 = Inr ((), s2)"
    and audit: "appendAudit ctx x1 x2 x3 x4 x5 s2 = Inr ((), t)"
    unfolding decide_lift_def by (clarsimp simp: guard_Inr simp del: appendAudit_run dest!: find_Some_mem)
  have s1: "fences_from s0 s1" by (rule decide_lift_keeps[OF ok l upd])
  have "restore_fence s1 = restore_fence s" using upd by (auto simp: update_lift_def split: if_splits)
  then have "fences_from s0 s2" using s1 release lift_fence_keeps[OF s1 _ f(2)] f(1) by (cases approve) auto
  with fence_frames(1) show "fences_from s0 t" using audit by (rule keepsD)
qed

section \<open>Steps\<close>

text \<open>What can happen: a heartbeat, the three commands on a fence, pausing and resuming new business, and everything else, which leaves the fences
  alone: the database is recovered, failed over or moved, time passes, money moves.\<close>

inductive halt_step :: "'x halt_db_scheme \<Rightarrow> 'x halt_db_scheme \<Rightarrow> bool" where
  beat: "recordWorkerBeat correlation b s = Inr (r, t) \<Longrightarrow> halt_step s t"
| raise: "raiseRestoreFence parse a ctx p s = Inr (r, t) \<Longrightarrow> halt_step s t"
| ask: "requestRestoreFenceLift a ctx p s = Inr (r, t) \<Longrightarrow> halt_step s t"
| decide: "decideRestoreFenceLift a ctx p s = Inr (r, t) \<Longrightarrow> halt_step s t"
| business: "setNewBusiness a ctx p s = Inr (r, t) \<Longrightarrow> halt_step s t"
| elsewhere: "restore_fence t = restore_fence s \<Longrightarrow> restore_fence_lift t = restore_fence_lift s \<Longrightarrow> halt_step s t"

lemma hold_keeps [inv_intros]: "keeps (fences_from s0) (holdOutgoingPayments by reason was_db moment)"
  unfolding holdOutgoingPayments_def pause_with_def by (intro inv_intros | simp | intro conjI impI)+

lemma beat_keeps: "keeps (fences_from s0) (recordWorkerBeat correlation b)"
  unfolding recordWorkerBeat_def raise_when_moved_def Let_def
  by (intro inv_intros | simp split: option.split | intro conjI allI impI)+

lemma halt_commands_keep:
  "keeps (fences_from s0) (raiseRestoreFence parse a ctx p)" "keeps (fences_from s0) (requestRestoreFenceLift a ctx p)"
  "keeps (fences_from s0) (setNewBusiness a ctx p)"
  unfolding raiseRestoreFence_def requestRestoreFenceLift_def setNewBusiness_def operatorHandle_def
  by (intro inv_intros | simp split: js.split | intro conjI allI impI)+

lemma halt_step_keeps: "halt_step s t \<Longrightarrow> fences_from s0 s \<Longrightarrow> fences_from s0 t"
proof (induction rule: halt_step.induct)
  case (elsewhere t s)
  then show ?case using fences_cong by blast
qed (blast intro: keepsD[OF beat_keeps] keepsD[OF decide_keeps] halt_commands_keep[THEN keepsD])+

lemma halt_steps_keep: "halt_step\<^sup>*\<^sup>* s t \<Longrightarrow> fences_ok s \<Longrightarrow> fences_from s t"
proof (induction rule: rtranclp_induct)
  case base
  then show ?case by (simp add: fences_from_def fences_grow_refl)
next
  case (step t u)
  then show ?case using halt_step_keeps by blast
qed

lemma raised_held: "f \<in> set (restore_fence s) \<Longrightarrow> fence_raised f \<Longrightarrow> payouts_held s"
proof -
  assume "f \<in> set (restore_fence s)" "fence_raised f"
  then have "raised_fence s \<noteq> None" unfolding raised_fence_def by (auto simp: find_None_iff)
  then show ?thesis by (simp add: payouts_held_def)
qed

section \<open>What a heartbeat does\<close>

lemma insert_control_Inr: "insert_control c s = Inr (u, t) \<Longrightarrow> t = s\<lparr>trading_control := trading_control s @ [c]\<rparr>"
  by (auto simp: insert_control_def split: if_splits)

lemma pause_Inr:
  assumes "pause_with reason by s = Inr (paused, t)"
  shows "restore_fence t = restore_fence s \<and> restore_fence_lift t = restore_fence_lift s \<and> current_identity t = current_identity s \<and>
    worker_heartbeat t = worker_heartbeat s \<and> paused = (\<not> nb_paused (newBusinessState s)) \<and>
    (if paused then \<exists>c. trading_control t = trading_control s @ [c] \<and> ct_paused c else trading_control t = trading_control s)"
  using assms by (auto simp: pause_with_def dest!: insert_control_Inr split: if_splits)

lemma hold_Inr:
  assumes "holdOutgoingPayments by reason was_db moment s = Inr (out, t)"
  shows "current_identity t = current_identity s \<and> worker_heartbeat t = worker_heartbeat s \<and>
    (case raised_fence s of Some f \<Rightarrow> out = None \<and> t = s
     | None \<Rightarrow> \<exists>f h. out = Some h \<and> hf_ref h = rf_ref f \<and> restore_fence t = restore_fence s @ [f] \<and> fence_raised f \<and> rf_before f = was_db \<and>
        rf_after f = current_identity s \<and> rf_known_until f = moment \<and>
        (nb_paused (newBusinessState s) \<or> (\<exists>c. trading_control t = trading_control s @ [c] \<and> ct_paused c)))"
proof (cases "raised_fence s")
  case None
  let ?s1 = "s\<lparr>restore_fence_ref_seq := Suc (restore_fence_ref_seq s), uuids := Suc (uuids s)\<rparr>"
  from assms None obtain f s2 paused i where f: "f = new_fence i (''RF-'' @ ref_number (Suc (restore_fence_ref_seq s)) 4) by reason was_db moment ?s1"
    and ins: "insert_fence f ?s1 = Inr ((), s2)" and pause: "pause_with (rf_ref f @ '': '' @ reason) by s2 = Inr (paused, t)"
    and out: "out = Some \<lparr>hf_id = i, hf_ref = rf_ref f, hf_paused = paused\<rparr>"
    unfolding holdOutgoingPayments_def by (clarsimp simp: next_fence_ref_def) (auto simp: new_fence_def)
  have s2: "s2 = ?s1\<lparr>restore_fence := restore_fence s @ [f]\<rparr>" using ins by (auto simp: insert_fence_def split: if_splits)
  have nb: "newBusinessState s2 = newBusinessState s" "trading_control s2 = trading_control s" by (simp_all add: s2 newBusinessState_def latest_control_def)
  have "fence_raised f" "rf_before f = was_db" "rf_after f = current_identity s" "rf_known_until f = moment" by (simp_all add: f new_fence_def fence_raised_def)
  then show ?thesis using None pause_Inr[OF pause] out nb by (auto simp: s2 split: if_splits)
next
  case (Some f)
  then show ?thesis using assms by (simp add: holdOutgoingPayments_def)
qed

definition moved_from :: "database_identity \<Rightarrow> database_identity \<Rightarrow> beat_row \<Rightarrow> 'x halt_db_scheme \<Rightarrow> bool" where
  "moved_from was_on now_on b s \<longleftrightarrow> latest_beat s = Some b \<and> wb_identity b = Some was_on \<and> current_identity s = Some now_on \<and> now_on \<noteq> was_on"

lemma beat_steps:
  assumes "recordWorkerBeat correlation w s = Inr (raised, t)" and "moved_from was_on now_on b s"
  shows "\<exists>u. restore_fence t = restore_fence u \<and> current_identity t = current_identity u \<and> trading_control t = trading_control u \<and>
    (if fence_names now_on s then raised = None \<and> u = s
     else \<exists>out v. holdOutgoingPayments ''SYSTEM:worker_heartbeat'' (moved_reason was_on now_on) (Some was_on) (Some (wb_at b)) s = Inr (out, v) \<and>
       restore_fence u = restore_fence v \<and> current_identity u = current_identity v \<and> trading_control u = trading_control v \<and> raised = map_option hf_ref out)"
proof -
  have differs: "\<not> sameDatabase now_on was_on" using assms(2) by (auto simp: sameDatabase_def moved_from_def)
  from assms(1) obtain u where raise: "raise_when_moved correlation (be_worker w) s = Inr (raised, u)" and ups: "\<exists>r. upsert_beat r u = Inr ((), t)"
    unfolding recordWorkerBeat_def by auto
  have t: "restore_fence t = restore_fence u \<and> current_identity t = current_identity u \<and> trading_control t = trading_control u"
    using ups by (auto simp: upsert_beat_def split: if_splits)
  have "if fence_names now_on s then raised = None \<and> u = s
     else \<exists>out v. holdOutgoingPayments ''SYSTEM:worker_heartbeat'' (moved_reason was_on now_on) (Some was_on) (Some (wb_at b)) s = Inr (out, v) \<and>
       restore_fence u = restore_fence v \<and> current_identity u = current_identity v \<and> trading_control u = trading_control v \<and> raised = map_option hf_ref out"
    using raise assms(2) differs unfolding raise_when_moved_def moved_from_def Let_def
    by (auto simp: appendAuditDirect_def split: if_splits option.splits)
  with t show ?thesis by blast
qed

section \<open>Properties\<close>


text \<open>When the database is on another cluster or timeline than the last heartbeat recorded, and no fence names the new one, payments are held
  before anyone noticed, and the next heartbeat keeps them held: unless a fence is raised already it raises one, naming both identities
  and the last moment the records are known whole, and pauses new business unless that is paused.\<close>

theorem moved_database_is_held:
  assumes moved: "moved_from was_on now_on b s" and unnamed: "\<not> fence_names now_on s" and run: "recordWorkerBeat correlation w s = Inr (raised, t)"
  shows "payouts_held s \<and> payouts_held t \<and> (case raised_fence s of Some f \<Rightarrow> restore_fence t = restore_fence s
    | None \<Rightarrow> \<exists>f. raised = Some (rf_ref f) \<and> restore_fence t = restore_fence s @ [f] \<and> fence_raised f \<and> rf_before f = Some was_on \<and>
        rf_after f = Some now_on \<and> rf_known_until f = Some (wb_at b) \<and>
        (nb_paused (newBusinessState s) \<or> (\<exists>c. trading_control t = trading_control s @ [c] \<and> ct_paused c)))"
proof -
  have held: "payouts_held s" using moved unnamed by (auto simp: payouts_held_def moved_from_def)
  from beat_steps[OF run moved] unnamed obtain out v where hold:
    "holdOutgoingPayments ''SYSTEM:worker_heartbeat'' (moved_reason was_on now_on) (Some was_on) (Some (wb_at b)) s = Inr (out, v)"
    and t: "restore_fence t = restore_fence v" "trading_control t = trading_control v" "raised = map_option hf_ref out" by auto
  have now: "current_identity s = Some now_on" using moved by (simp add: moved_from_def)
  show ?thesis
  proof (cases "raised_fence s")
    case None
    with hold_Inr[OF hold] now t obtain f where f: "raised = Some (rf_ref f)" "restore_fence t = restore_fence s @ [f]" "fence_raised f"
      "rf_before f = Some was_on" "rf_after f = Some now_on" "rf_known_until f = Some (wb_at b)"
      "nb_paused (newBusinessState s) \<or> (\<exists>c. trading_control t = trading_control s @ [c] \<and> ct_paused c)" by auto
    have "payouts_held t" by (rule raised_held[of f]) (simp_all add: f)
    then show ?thesis using held f None by auto
  next
    case (Some f)
    with hold_Inr[OF hold] t have "restore_fence t = restore_fence s" by simp
    moreover have "f \<in> set (restore_fence s)" "fence_raised f" using find_Some_mem[OF Some[unfolded raised_fence_def]] by auto
    ultimately show ?thesis using held Some raised_held[of f t] by auto
  qed
qed

text \<open>C22: a database that returns to a cluster and timeline some earlier fence was raised on, even one lifted long before it was left again, is not
  held: payments go out at once, and the next heartbeat raises nothing and records the new identity, although the records written on the other
  database since are gone.\<close>

theorem return_to_fenced_database_not_held:
  assumes moved: "moved_from was_on now_on b s" and named: "fence_names now_on s" and lifted: "raised_fence s = None"
    and run: "recordWorkerBeat correlation w s = Inr (raised, t)"
  shows "\<not> payouts_held s \<and> raised = None \<and> restore_fence t = restore_fence s \<and> \<not> payouts_held t \<and> trading_control t = trading_control s"
proof -
  have now: "current_identity s = Some now_on" using moved by (simp add: moved_from_def)
  have t: "raised = None" "restore_fence t = restore_fence s" "current_identity t = Some now_on" "trading_control t = trading_control s"
    using beat_steps[OF run moved] named now by auto
  have "raised_fence t = None" "fence_names now_on t" using lifted named by (simp_all add: raised_fence_def fence_names_def t(2))
  then show ?thesis using named lifted now t by (auto simp: payouts_held_def split: option.split)
qed

section \<open>A sample\<close>

text \<open>The desk of \<open>Trades\<close> on timeline 2, where its last heartbeat was on timeline 1. In the second state a fence was raised on timeline 2 before, by
  hand, and lifted.\<close>

definition timeline :: "int \<Rightarrow> database_identity" where
  "timeline n = \<lparr>db_cluster = ''7301'', db_timeline = n\<rparr>"

definition last_beat :: beat_row where
  "last_beat = \<lparr>wb_worker = ''w1'', wb_started = 0, wb_at = 5, wb_release = None, wb_config = JObj [], wb_identity = Some (timeline 1)\<rparr>"

definition sample_moved :: halt_db where
  "sample_moved = trade_db.extend sample_book (halt_db.fields [] 0 [] [last_beat] (Some (timeline 2)))"

definition sample_beat :: worker_beat where
  "sample_beat = \<lparr>be_worker = ''w1'', be_started = 0, be_release = None, be_config = JObj []\<rparr>"

definition old_lift :: lift_row where
  "old_lift = \<lparr>fl_id = ''lf1'', fl_fence = ''rf1'', fl_status = LIFT_APPROVED, fl_reconciliation = ''compared with bank and chain'', fl_requested_by = ''op1'',
     fl_requested_at = 1, fl_decided_by = Some ''op2'', fl_decided_at = Some 2, fl_note = None\<rparr>"

definition old_fence :: fence_row where
  "old_fence = \<lparr>rf_id = ''rf1'', rf_ref = ''RF-0000'', rf_status = FENCE_LIFTED, rf_reason = ''records were lost'', rf_raised_by = ''op1'', rf_raised_at = 0,
     rf_before = None, rf_after = Some (timeline 2), rf_known_until = None, rf_lift = Some ''lf1'', rf_lifted_by = Some ''op2'', rf_lifted_at = Some 2\<rparr>"

definition sample_returned :: halt_db where
  "sample_returned = sample_moved\<lparr>restore_fence := [old_fence], restore_fence_lift := [old_lift]\<rparr>"

lemma sample_moved_from: "moved_from (timeline 1) (timeline 2) last_beat sample_moved" "moved_from (timeline 1) (timeline 2) last_beat sample_returned"
  by (simp_all add: moved_from_def latest_beat_def sample_returned_def sample_moved_def last_beat_def timeline_def trade_db.defs halt_db.defs)

theorem moved_database_is_held_witness:
  "case recordWorkerBeat ''c'' sample_beat sample_moved of Inl e \<Rightarrow> False | Inr (raised, t) \<Rightarrow> raised = Some ''RF-0001'' \<and> payouts_held sample_moved \<and> payouts_held t"
proof -
  have ran: "case recordWorkerBeat ''c'' sample_beat sample_moved of Inl e \<Rightarrow> False | Inr (raised, t) \<Rightarrow> raised = Some ''RF-0001''" by code_simp
  have unnamed: "\<not> fence_names (timeline 2) sample_moved" by code_simp
  have "payouts_held sample_moved \<and> payouts_held t" if "recordWorkerBeat ''c'' sample_beat sample_moved = Inr (raised, t)" for raised t
    using moved_database_is_held[OF sample_moved_from(1) unnamed that] by blast
  with ran show ?thesis by (auto split: sum.splits)
qed

theorem return_to_fenced_database_not_held_witness:
  "case recordWorkerBeat ''c'' sample_beat sample_returned of Inl e \<Rightarrow> False | Inr (raised, t) \<Rightarrow> raised = None \<and> \<not> payouts_held sample_returned \<and> \<not> payouts_held t"
proof -
  have ran: "case recordWorkerBeat ''c'' sample_beat sample_returned of Inl e \<Rightarrow> False | Inr (raised, t) \<Rightarrow> True" by code_simp
  have named: "fence_names (timeline 2) sample_returned" "raised_fence sample_returned = None" by code_simp+
  have "raised = None \<and> \<not> payouts_held sample_returned \<and> \<not> payouts_held t" if "recordWorkerBeat ''c'' sample_beat sample_returned = Inr (raised, t)" for raised t
    using return_to_fenced_database_not_held[OF sample_moved_from(2) named that] by blast
  with ran show ?thesis by (auto split: sum.splits)
qed

text \<open>The heartbeat raises a fence, and after it nothing lifts that fence but the second person.\<close>

definition fenced_by_beat :: "'x halt_db_scheme \<Rightarrow> 'x halt_db_scheme" where
  "fenced_by_beat s = (case recordWorkerBeat ''c'' sample_beat s of Inl e \<Rightarrow> s | Inr (r, t) \<Rightarrow> t)"


end
