(* ===== verification/Obligations.thy ===== *)
theory Obligations
  imports Trades
begin

text \<open>
  Route obligations (\<^verbatim>\<open>packages/settlement/src/obligations.ts\<close>): what each side of an obligation still owes after the adjustments that
  were posted and the route settlements allocated to it, and the status that follows. With the triggers of migrations 0015 and
  0039; the check of the totals, which PostgreSQL defers to the commit, is made with the insert, after which no total grows.
\<close>

section \<open>Tables\<close>

datatype obligation_side = ROUTE_DELIVERS | EXCHANGE_DELIVERS
datatype settlement_flow = FROM_ROUTE_TO_EXCHANGE | TO_ROUTE | ROUTE_DIRECT_TO_CLIENT | DIRECT_FROM_CLIENT
datatype movement_status = MV_RECORDED | MV_CONFIRMED | MV_FAILED

text \<open>The columns of a route settlement that allocating it reads.\<close>

record route_settlement_row =
  rt_id :: string
  rt_route :: string
  rt_obligation :: string
  rt_side :: obligation_side
  rt_flow :: settlement_flow
  rt_asset :: currency
  rt_amount :: int
  rt_status :: movement_status

record allocation_row =
  ra_id :: string
  ra_settlement :: string
  ra_obligation :: string
  ra_side :: obligation_side
  ra_amount :: int
  ra_by :: string

record obligation_db = trade_db +
  route_settlement :: "route_settlement_row list"
  route_settlement_allocation :: "allocation_row list"
  exception_case_ref_seq :: nat
  financial_adjustment_ref_seq :: nat

section \<open>What each side owes\<close>

definition side_asset :: "obligation_row \<Rightarrow> obligation_side \<Rightarrow> currency" where
  "side_asset r side = (if side = ROUTE_DELIVERS then ro_route_asset r else ro_exchange_asset r)"

definition route_obligation_side :: "obligation_row \<Rightarrow> obligation_side \<Rightarrow> 'x trade_db_scheme \<Rightarrow> int" where
  "route_obligation_side r side s = (if side = ROUTE_DELIVERS then ro_route_minor r else ro_exchange_minor r) +
     (case ro_trade r of None \<Rightarrow> 0 | Some i \<Rightarrow> posted_sum (if side_asset r side = INR then fa_route_inr else fa_base) i s)"

definition allocated_to :: "string \<Rightarrow> obligation_side \<Rightarrow> 'x obligation_db_scheme \<Rightarrow> int" where
  "allocated_to i side s = sum_list (map ra_amount (filter (\<lambda>a. ra_obligation a = i \<and> ra_side a = side) (route_settlement_allocation s)))"

definition side_left :: "obligation_row \<Rightarrow> obligation_side \<Rightarrow> 'x obligation_db_scheme \<Rightarrow> int" where
  "side_left r side s = route_obligation_side r side s - allocated_to (ro_id r) side s"

definition find_obligation :: "string \<Rightarrow> 'x route_db_scheme \<Rightarrow> obligation_row option" where
  "find_obligation i s = List.find (\<lambda>r. ro_id r = i) (route_obligation s)"

definition lockObligation :: "js \<Rightarrow> ('x obligation_db_scheme, obligation_row) cmd" where
  "lockObligation obligationId =
     bindC (assertLockOrder L_route_obligation) (\<lambda>_.
     bindC (liftC (requireUuid obligationId)) (\<lambda>i.
     bindC (readC (find_obligation i)) (\<lambda>row.
     foundC (CoreError NOT_FOUND) row)))"

definition obligationOfTrade :: "string \<Rightarrow> 'x route_db_scheme \<Rightarrow> string result" where
  "obligationOfTrade tradeId s = (case List.find (\<lambda>r. ro_trade r = Some tradeId) (route_obligation s) of
     None \<Rightarrow> Inl (CoreError NOT_FOUND) | Some r \<Rightarrow> Inr (ro_id r))"

record obligation_remaining =
  or_route_delivers :: money
  or_exchange_delivers :: money

definition remaining_of :: "obligation_row \<Rightarrow> 'x obligation_db_scheme \<Rightarrow> obligation_remaining" where
  "remaining_of r s = \<lparr>or_route_delivers = ofMinor (side_left r ROUTE_DELIVERS s) (ro_route_asset r),
     or_exchange_delivers = ofMinor (side_left r EXCHANGE_DELIVERS s) (ro_exchange_asset r)\<rparr>"

definition obligationsRemaining :: "js list \<Rightarrow> 'x obligation_db_scheme \<Rightarrow> (string \<times> obligation_remaining) list result" where
  "obligationsRemaining ids s =
     bindR (mapR requireUuid ids) (\<lambda>ids.
     Inr (map (\<lambda>r. (ro_id r, remaining_of r s)) (filter (\<lambda>r. ro_id r \<in> set ids) (route_obligation s))))"

definition obligationRemaining :: "js \<Rightarrow> 'x obligation_db_scheme \<Rightarrow> obligation_remaining result" where
  "obligationRemaining obligationId s =
     bindR (requireUuid obligationId) (\<lambda>i.
     bindR (obligationsRemaining [JStr i] s) (\<lambda>found.
     case map_of found i of None \<Rightarrow> Inl (CoreError NOT_FOUND) | Some r \<Rightarrow> Inr r))"

section \<open>What the database refuses\<close>

definition obligation_step :: "obligation_status \<Rightarrow> obligation_status \<Rightarrow> bool" where
  "obligation_step x y \<longleftrightarrow> x = y \<or> (x, y) \<in> {(OB_OPEN, OB_PARTIALLY_SETTLED), (OB_OPEN, OB_SETTLED), (OB_PARTIALLY_SETTLED, OB_SETTLED), (OB_OPEN, OB_CANCELLED),
     (OB_PARTIALLY_SETTLED, OB_CANCELLED)}"

text \<open>Only a P2P escrow the exchange delivered nothing against ends cancelled after allocations.\<close>

definition unwind_allowed :: "obligation_row \<Rightarrow> 'x obligation_db_scheme \<Rightarrow> bool" where
  "unwind_allowed r s \<longleftrightarrow> ro_mode r = P2P \<and> ro_route_asset r = USDT \<and>
     list_all (\<lambda>t. rt_obligation t = ro_id r \<longrightarrow> rt_side t = ROUTE_DELIVERS \<or> rt_status t = MV_FAILED) (route_settlement s)"

definition obligation_guard :: "obligation_row \<Rightarrow> obligation_row \<Rightarrow> 'x obligation_db_scheme \<Rightarrow> bool" where
  "obligation_guard x y s \<longleftrightarrow> obligation_step (ro_status x) (ro_status y) \<and>
     (ro_status y = OB_CANCELLED \<and> ro_status x = OB_PARTIALLY_SETTLED \<longrightarrow> unwind_allowed y s)"

definition update_obligation :: "string \<Rightarrow> (obligation_row \<Rightarrow> obligation_row) \<Rightarrow> ('x obligation_db_scheme, unit) cmd" where
  "update_obligation i f = (\<lambda>s. if list_all (\<lambda>r. ro_id r = i \<longrightarrow> obligation_guard r (f r) s) (route_obligation s)
     then Inr ((), s\<lparr>route_obligation := update_where (\<lambda>r. ro_id r = i) f (route_obligation s)\<rparr>) else Inl DatabaseError)"

definition allocation_guard :: "allocation_row \<Rightarrow> 'x obligation_db_scheme \<Rightarrow> bool" where
  "allocation_guard a s \<longleftrightarrow> 0 < ra_amount a \<and>
     (case (List.find (\<lambda>t. rt_id t = ra_settlement a) (route_settlement s), find_obligation (ra_obligation a) s) of
       (Some t, Some r) \<Rightarrow> rt_status t = MV_CONFIRMED \<and> rt_route t = ro_route r \<and> rt_asset t = side_asset r (ra_side a) \<and>
         (rt_flow t \<in> {TO_ROUTE, DIRECT_FROM_CLIENT} \<longleftrightarrow> ra_side a = EXCHANGE_DELIVERS) \<and>
         (rt_flow t = ROUTE_DIRECT_TO_CLIENT \<longrightarrow> ro_mode r \<in> {DIRECT_TO_CLIENT, P2P}) \<and> (rt_flow t = DIRECT_FROM_CLIENT \<longrightarrow> ro_mode r = P2P)
     | _ \<Rightarrow> False)"

definition allocation_totals_ok :: "allocation_row \<Rightarrow> 'x obligation_db_scheme \<Rightarrow> bool" where
  "allocation_totals_ok a s \<longleftrightarrow>
     list_all (\<lambda>t. rt_id t = ra_settlement a \<longrightarrow>
       sum_list (map ra_amount (filter (\<lambda>b. ra_settlement b = ra_settlement a) (route_settlement_allocation s))) \<le> rt_amount t) (route_settlement s) \<and>
     list_all (\<lambda>r. ro_id r = ra_obligation a \<longrightarrow> allocated_to (ro_id r) (ra_side a) s \<le> route_obligation_side r (ra_side a) s) (route_obligation s)"

definition insert_allocation :: "allocation_row \<Rightarrow> ('x obligation_db_scheme, unit) cmd" where
  "insert_allocation a = (\<lambda>s. let t = s\<lparr>route_settlement_allocation := route_settlement_allocation s @ [a]\<rparr> in
     if allocation_guard a s \<and> list_all (\<lambda>b. (ra_settlement b, ra_obligation b, ra_side b) \<noteq> (ra_settlement a, ra_obligation a, ra_side a))
         (route_settlement_allocation s) \<and> allocation_totals_ok a t
     then Inr ((), t) else Inl DatabaseError)"

section \<open>Settling\<close>

definition obligation_status_name :: "obligation_status \<Rightarrow> string" where
  "obligation_status_name x = (case x of OB_OPEN \<Rightarrow> ''OPEN'' | OB_PARTIALLY_SETTLED \<Rightarrow> ''PARTIALLY_SETTLED'' | OB_SETTLED \<Rightarrow> ''SETTLED''
     | OB_CANCELLED \<Rightarrow> ''CANCELLED'')"

definition nothing_left :: "obligation_remaining \<Rightarrow> bool" where
  "nothing_left r \<longleftrightarrow> isZero (or_route_delivers r) \<and> isZero (or_exchange_delivers r)"

definition refreshObligationStatus :: "tx_ctx \<Rightarrow> obligation_row \<Rightarrow> ('x obligation_db_scheme, obligation_status) cmd" where
  "refreshObligationStatus ctx obligation =
     (if ro_status obligation \<noteq> OB_OPEN \<and> ro_status obligation \<noteq> OB_PARTIALLY_SETTLED then returnC (ro_status obligation)
      else bindC (readC (obligationRemaining (JStr (ro_id obligation)))) (\<lambda>read.
        bindC (liftC read) (\<lambda>left.
        if \<not> nothing_left left then returnC (ro_status obligation)
        else bindC (readC clock) (\<lambda>now.
          bindC (update_obligation (ro_id obligation) (\<lambda>r. r\<lparr>ro_status := OB_SETTLED, ro_settled_at := Some now\<rparr>)) (\<lambda>_.
          bindC (appendAudit ctx ''route_obligation.settled'' ''route_obligation'' (Some (ro_id obligation))
             (JObj [(''status'', JStr (obligation_status_name (ro_status obligation)))])
             (JObj [(''status'', JStr ''SETTLED''), (''by'', JStr ''adjustment'')])) (\<lambda>_.
          returnC OB_SETTLED))))))"

definition js_remaining :: "obligation_remaining \<Rightarrow> js" where
  "js_remaining r = JObj [(''route_delivers'', js_money (or_route_delivers r)), (''exchange_delivers'', js_money (or_exchange_delivers r))]"

definition side_name :: "obligation_side \<Rightarrow> string" where
  "side_name x = (case x of ROUTE_DELIVERS \<Rightarrow> ''ROUTE_DELIVERS'' | EXCHANGE_DELIVERS \<Rightarrow> ''EXCHANGE_DELIVERS'')"

definition settlement_share :: "tx_ctx \<Rightarrow> obligation_row \<Rightarrow> obligation_side \<Rightarrow> string \<Rightarrow> money \<Rightarrow> string option \<Rightarrow> string \<Rightarrow> allocation_row" where
  "settlement_share ctx r side settlementId amount allocatedBy i = \<lparr>ra_id = i, ra_settlement = settlementId, ra_obligation = ro_id r, ra_side = side,
     ra_amount = minor amount, ra_by = (case allocatedBy of Some b \<Rightarrow> b | None \<Rightarrow> actor_or_command ctx)\<rparr>"

definition allocateToObligation ::
    "tx_ctx \<Rightarrow> obligation_row \<Rightarrow> obligation_side \<Rightarrow> string \<Rightarrow> money \<Rightarrow> string option \<Rightarrow> ('x obligation_db_scheme, string \<times> obligation_status) cmd" where
  "allocateToObligation ctx obligation side settlementId amount allocatedBy =
     bindC (unlessC (ro_status obligation \<noteq> OB_CANCELLED) (ReferenceError INVALID_TRANSITION)) (\<lambda>_.
     bindC (readC (obligationRemaining (JStr (ro_id obligation)))) (\<lambda>read.
     bindC (liftC read) (\<lambda>before.
     let left = (if side = ROUTE_DELIVERS then or_route_delivers before else or_exchange_delivers before)
     in bindC (unlessC (currency amount = currency left) (CoreError CURRENCY_MISMATCH)) (\<lambda>_.
     bindC (unlessC (\<not> minor amount > minor left) (SettlementError ROUTE_OVER_ALLOCATION)) (\<lambda>_.
     bindC freshId (\<lambda>i.
     bindC (insert_allocation (settlement_share ctx obligation side settlementId amount allocatedBy i)) (\<lambda>_.
     bindC (readC (obligationRemaining (JStr (ro_id obligation)))) (\<lambda>read.
     bindC (liftC read) (\<lambda>after.
     let settled = nothing_left after; status = (if settled then OB_SETTLED else OB_PARTIALLY_SETTLED)
     in bindC (readC clock) (\<lambda>now.
     bindC (whenC (status \<noteq> ro_status obligation) (update_obligation (ro_id obligation)
        (\<lambda>r. r\<lparr>ro_status := status, ro_settled_at := (if settled then Some now else ro_settled_at r)\<rparr>))) (\<lambda>_.
     bindC (appendAudit ctx ''route_settlement.allocated'' ''route_obligation'' (Some (ro_id obligation))
        (JObj [(''status'', JStr (obligation_status_name (ro_status obligation))), (''remaining'', js_remaining before)])
        (JObj [(''status'', JStr (obligation_status_name status)), (''side'', JStr (side_name side)), (''amount'', js_money amount),
               (''route_settlement_id'', JStr settlementId), (''remaining'', js_remaining after)])) (\<lambda>_.
     returnC (i, status)))))))))))))"


section \<open>The invariant\<close>

text \<open>No side of a live obligation is allocated beyond what it owes, and one is settled exactly when nothing is left on either side.\<close>

definition sides_ok :: "obligation_row \<Rightarrow> 'x obligation_db_scheme \<Rightarrow> bool" where
  "sides_ok r s \<longleftrightarrow> (ro_status r \<noteq> OB_CANCELLED \<longrightarrow> 0 \<le> side_left r ROUTE_DELIVERS s \<and> 0 \<le> side_left r EXCHANGE_DELIVERS s \<and>
     (ro_status r = OB_SETTLED \<longleftrightarrow> side_left r ROUTE_DELIVERS s = 0 \<and> side_left r EXCHANGE_DELIVERS s = 0))"

definition obligations_ok :: "'x obligation_db_scheme \<Rightarrow> bool" where
  "obligations_ok s \<longleftrightarrow> distinct (map ro_id (route_obligation s)) \<and> (\<forall>r \<in> set (route_obligation s). sides_ok r s) \<and>
     (\<forall>a \<in> set (route_settlement_allocation s). \<exists>r \<in> set (route_obligation s). ro_id r = ra_obligation a)"

lemma unique_obligation:
  "obligations_ok s \<Longrightarrow> x \<in> set (route_obligation s) \<Longrightarrow> y \<in> set (route_obligation s) \<Longrightarrow> ro_id x = ro_id y \<Longrightarrow> x = y"
  by (auto simp: obligations_ok_def distinct_map dest: inj_onD)

lemma find_obligation_Some: "find_obligation i s = Some r \<Longrightarrow> r \<in> set (route_obligation s) \<and> ro_id r = i"
  unfolding find_obligation_def by (drule find_Some_mem)

lemma obligation_by_id: "obligations_ok s \<Longrightarrow> r \<in> set (route_obligation s) \<Longrightarrow> find_obligation (ro_id r) s = Some r"
  unfolding find_obligation_def obligations_ok_def by (blast intro: find_unique)

lemma lookup_by_id: "map_of (map (\<lambda>r. (ro_id r, g r)) (filter (\<lambda>r. ro_id r = i) rows)) i = map_option g (List.find (\<lambda>r. ro_id r = i) rows)"
  by (induction rows) auto

lemma obligationRemaining_Inr:
  "obligationRemaining (JStr i) s = Inr left \<longleftrightarrow> isUuid i \<and> (\<exists>r. find_obligation i s = Some r \<and> left = remaining_of r s)"
proof (cases "isUuid i")
  case True
  then have R: "requireUuid (JStr i) = Inr i" by simp
  show ?thesis using True
    by (auto simp del: requireUuid_JStr simp: R obligationRemaining_def obligationsRemaining_def find_obligation_def lookup_by_id bindR_def split: option.splits)
next
  case False
  then have "requireUuid (JStr i) \<noteq> Inr x" for x by simp
  then show ?thesis using False by (cases "requireUuid (JStr i)") (simp_all add: obligationRemaining_def)
qed

lemma remaining_simps [simp]:
  "minor (or_route_delivers (remaining_of r s)) = side_left r ROUTE_DELIVERS s" "currency (or_route_delivers (remaining_of r s)) = ro_route_asset r"
  "minor (or_exchange_delivers (remaining_of r s)) = side_left r EXCHANGE_DELIVERS s" "currency (or_exchange_delivers (remaining_of r s)) = ro_exchange_asset r"
  "nothing_left (remaining_of r s) \<longleftrightarrow> side_left r ROUTE_DELIVERS s = 0 \<and> side_left r EXCHANGE_DELIVERS s = 0"
  by (simp_all add: remaining_of_def nothing_left_def isZero_def)

definition same_sides :: "obligation_row \<Rightarrow> obligation_row \<Rightarrow> bool" where
  "same_sides x y \<longleftrightarrow> ro_id y = ro_id x \<and> ro_trade y = ro_trade x \<and> ro_route_minor y = ro_route_minor x \<and>
     ro_exchange_minor y = ro_exchange_minor x \<and> ro_route_asset y = ro_route_asset x \<and> ro_exchange_asset y = ro_exchange_asset x"

lemma side_left_cong:
  "same_sides x y \<Longrightarrow> financial_adjustment t = financial_adjustment s \<Longrightarrow> route_settlement_allocation t = route_settlement_allocation s \<Longrightarrow>
   side_left y side t = side_left x side s"
  by (simp add: side_left_def route_obligation_side_def allocated_to_def side_asset_def posted_sum_def same_sides_def split: option.split)

lemma obligations_cong:
  "obligations_ok s \<Longrightarrow> route_obligation t = route_obligation s \<Longrightarrow> financial_adjustment t = financial_adjustment s \<Longrightarrow>
   route_settlement_allocation t = route_settlement_allocation s \<Longrightarrow> obligations_ok t"
  by (simp add: obligations_ok_def sides_ok_def side_left_cong[of x x s t for x] same_sides_def)

text \<open>Writing a status, on rows whose identifiers are distinct.\<close>

definition settled_as :: "string \<Rightarrow> obligation_status \<Rightarrow> int option \<Rightarrow> obligation_row list \<Rightarrow> obligation_row list" where
  "settled_as i status z rows = update_where (\<lambda>x. ro_id x = i)
     (\<lambda>x. x\<lparr>ro_status := status, ro_settled_at := (case z of None \<Rightarrow> ro_settled_at x | Some now \<Rightarrow> Some now)\<rparr>) rows"

lemma settled_as_same: "distinct (map ro_id rows) \<Longrightarrow> r \<in> set rows \<Longrightarrow> settled_as (ro_id r) (ro_status r) None rows = rows"
proof -
  assume r: "distinct (map ro_id rows)" "r \<in> set rows"
  have only: "x = r" if "x \<in> set rows" "ro_id x = ro_id r" for x using r that unfolding distinct_map by (blast dest: inj_onD)
  have keep: "r\<lparr>ro_status := ro_status r, ro_settled_at := ro_settled_at r\<rparr> = r" by (cases r) simp
  have "(if ro_id x = ro_id r then x\<lparr>ro_status := ro_status r, ro_settled_at := ro_settled_at x\<rparr> else x) = x" if "x \<in> set rows" for x
    using only[OF that] keep by (cases "ro_id x = ro_id r") simp_all
  then show ?thesis unfolding settled_as_def update_where_def option.case by (intro map_idI) blast
qed

lemma settled_as_ids [simp]: "map ro_id (settled_as i status z rows) = map ro_id rows"
  by (simp add: settled_as_def)

lemma settled_as_mem:
  assumes "x \<in> set (settled_as i status z rows)"
  shows "\<exists>y \<in> set rows. same_sides y x \<and> (if ro_id y = i then ro_status x = status else x = y)"
  using assms unfolding settled_as_def set_update_where
proof (rule imageE)
  fix y assume y: "x = (if ro_id y = i then y\<lparr>ro_status := status, ro_settled_at := (case z of None \<Rightarrow> ro_settled_at y | Some now \<Rightarrow> Some now)\<rparr> else y)"
    "y \<in> set rows"
  have "same_sides y x \<and> (if ro_id y = i then ro_status x = status else x = y)" by (simp add: y(1) same_sides_def)
  with y(2) show ?thesis by blast
qed

lemma sides_allocated:
  assumes "route_settlement_allocation t = route_settlement_allocation s @ [a]" "financial_adjustment t = financial_adjustment s" "same_sides x y"
  shows "side_left y side t = side_left x side s - (if ro_id x = ra_obligation a \<and> side = ra_side a then ra_amount a else 0)"
proof -
  have "side_left y side t = side_left x side t" using side_left_cong[OF assms(3), of t t] by simp
  also have "\<dots> = side_left x side s - (if ro_id x = ra_obligation a \<and> side = ra_side a then ra_amount a else 0)" using assms(1,2)
    by (auto simp: side_left_def allocated_to_def route_obligation_side_def posted_sum_def split: option.splits)
  finally show ?thesis .
qed

definition allocated :: "obligation_row \<Rightarrow> allocation_row \<Rightarrow> obligation_status \<Rightarrow> 'x obligation_db_scheme \<Rightarrow> 'x obligation_db_scheme \<Rightarrow> bool" where
  "allocated r a status s t \<longleftrightarrow> ra_obligation a = ro_id r \<and> 0 < ra_amount a \<and> ra_amount a \<le> side_left r (ra_side a) s \<and> ro_status r \<noteq> OB_CANCELLED \<and>
     (status = OB_SETTLED \<or> status = OB_PARTIALLY_SETTLED) \<and>
     (status = OB_SETTLED \<longleftrightarrow> (\<forall>side. side_left r side s - (if side = ra_side a then ra_amount a else 0) = 0)) \<and>
     (\<exists>z w. t = s\<lparr>uuids := Suc (uuids s), route_settlement_allocation := route_settlement_allocation s @ [a],
        route_obligation := settled_as (ro_id r) status z (route_obligation s), audit_event := w\<rparr>)"

lemma all_sides: "(\<forall>side. p side) \<longleftrightarrow> p ROUTE_DELIVERS \<and> p EXCHANGE_DELIVERS"
  by (metis obligation_side.exhaust)

lemma other_side: "side \<noteq> ROUTE_DELIVERS \<longleftrightarrow> side = EXCHANGE_DELIVERS"
  by (cases side) simp_all

lemma insert_allocation_Inr:
  "insert_allocation a s = Inr (u, t) \<Longrightarrow> 0 < ra_amount a \<and> t = s\<lparr>route_settlement_allocation := route_settlement_allocation s @ [a]\<rparr>"
  by (auto simp: insert_allocation_def allocation_guard_def Let_def split: if_splits)

lemma update_obligation_Inr:
  "update_obligation i f s = Inr (u, t) \<Longrightarrow> t = s\<lparr>route_obligation := update_where (\<lambda>r. ro_id r = i) f (route_obligation s)\<rparr>"
  by (auto simp: update_obligation_def split: if_splits)

lemma settlement_share_simps [simp]:
  "ra_side (settlement_share ctx r side st amount by i) = side" "ra_settlement (settlement_share ctx r side st amount by i) = st"
  "ra_amount (settlement_share ctx r side st amount by i) = minor amount" "ra_obligation (settlement_share ctx r side st amount by i) = ro_id r"
  by (simp_all add: settlement_share_def)

lemma allocate_effect:
  assumes ok: "obligations_ok s" and r: "r \<in> set (route_obligation s)" and run: "allocateToObligation ctx r side st amount by s = Inr ((i, status), t)"
  shows "\<exists>a. ra_side a = side \<and> ra_settlement a = st \<and> ra_amount a = minor amount \<and> allocated r a status s t"
proof -
  let ?a = "settlement_share ctx r side st amount by (uuidv7 s (uuids s))"
  let ?u = "s\<lparr>uuids := Suc (uuids s), route_settlement_allocation := route_settlement_allocation s @ [?a]\<rparr>"
  have found: "find_obligation (ro_id r) s = Some r" "find_obligation (ro_id r) ?u = Some r"
    using obligation_by_id[OF ok r] by (simp_all add: find_obligation_def)
  from run obtain u where ins: "insert_allocation ?a (s\<lparr>uuids := Suc (uuids s)\<rparr>) = Inr ((), u)" and live: "ro_status r \<noteq> OB_CANCELLED"
    and fits: "minor amount \<le> side_left r side s"
    unfolding allocateToObligation_def Let_def by (auto simp: obligationRemaining_Inr found(1) other_side split: if_splits)
  have u: "u = ?u" "0 < minor amount" using insert_allocation_Inr[OF ins] by simp_all
  have ins': "insert_allocation ?a (s\<lparr>uuids := Suc (uuids s)\<rparr>) = Inr ((), ?u)" using ins u by simp
  let ?status = "if nothing_left (remaining_of r ?u) then OB_SETTLED else OB_PARTIALLY_SETTLED"
  let ?f = "\<lambda>x. x\<lparr>ro_status := ?status, ro_settled_at := (if nothing_left (remaining_of r ?u) then Some (clock ?u) else ro_settled_at x)\<rparr>"
  have "status = ?status \<and> (\<exists>v w. whenC (?status \<noteq> ro_status r) (update_obligation (ro_id r) ?f) ?u = Inr ((), v) \<and> t = v\<lparr>audit_event := w\<rparr>)"
    using run unfolding allocateToObligation_def Let_def
    by (clarsimp simp: obligationRemaining_Inr found(1) ins' found(2) guard_Inr simp del: remaining_simps split del: if_split) (rule exI, rule refl)
  then obtain v w where st: "status = ?status" and v: "whenC (?status \<noteq> ro_status r) (update_obligation (ro_id r) ?f) ?u = Inr ((), v)" and t: "t = v\<lparr>audit_event := w\<rparr>" by blast
  have "\<exists>z. v = ?u\<lparr>route_obligation := settled_as (ro_id r) status z (route_obligation s)\<rparr>"
  proof (cases "status = ro_status r")
    case True
    then have "v = ?u" using v st by simp
    also have "?u = ?u\<lparr>route_obligation := settled_as (ro_id r) status None (route_obligation s)\<rparr>"
      using settled_as_same[OF _ r] ok True by (simp add: obligations_ok_def)
    finally show ?thesis by blast
  next
    case False
    then have "update_obligation (ro_id r) ?f ?u = Inr ((), v)" using v st by simp
    from update_obligation_Inr[OF this] have "v = ?u\<lparr>route_obligation := settled_as (ro_id r) ?status (if nothing_left (remaining_of r ?u) then Some (clock s) else None) (route_obligation s)\<rparr>"
      by (auto simp: settled_as_def simp del: remaining_simps)
    then show ?thesis unfolding st by blast
  qed
  then obtain z where z: "t = ?u\<lparr>route_obligation := settled_as (ro_id r) status z (route_obligation s), audit_event := w\<rparr>" unfolding t by auto
  have sides: "side_left r sd ?u = side_left r sd s - (if sd = side then minor amount else 0)" for sd
    using sides_allocated[of ?u s ?a r r sd] by (simp add: same_sides_def)
  show ?thesis unfolding allocated_def
    using st sides z u(2) fits live by (intro exI[of _ ?a]) (auto simp: all_sides)
qed

text \<open>Rewriting the status of one obligation after its sides moved keeps the invariant when the new status is the right one.\<close>

lemma obligations_after:
  assumes ok: "obligations_ok s" and r: "r \<in> set (route_obligation s)"
    and rows: "route_obligation t = settled_as (ro_id r) status z (route_obligation s)"
    and others: "\<And>x side. x \<in> set (route_obligation s) \<Longrightarrow> ro_id x \<noteq> ro_id r \<Longrightarrow> side_left x side t = side_left x side s"
    and new: "0 \<le> side_left r ROUTE_DELIVERS t" "0 \<le> side_left r EXCHANGE_DELIVERS t" "status \<noteq> OB_CANCELLED"
      "status = OB_SETTLED \<longleftrightarrow> side_left r ROUTE_DELIVERS t = 0 \<and> side_left r EXCHANGE_DELIVERS t = 0"
    and shares: "\<forall>a \<in> set (route_settlement_allocation t). a \<in> set (route_settlement_allocation s) \<or> ra_obligation a = ro_id r"
  shows "obligations_ok t"
proof -
  have "sides_ok x t" if x: "x \<in> set (route_obligation t)" for x
  proof -
    from settled_as_mem[OF x[unfolded rows]] obtain y where y: "y \<in> set (route_obligation s)" "same_sides y x"
      "if ro_id y = ro_id r then ro_status x = status else x = y" by blast
    have same: "side_left x side t = side_left y side t" for side using side_left_cong[OF y(2), of t t] by simp
    show ?thesis
    proof (cases "ro_id y = ro_id r")
      case True
      then have "y = r" using unique_obligation[OF ok y(1) r] by simp
      then show ?thesis using new same y(3) True by (auto simp: sides_ok_def)
    next
      case False
      then show ?thesis using others[OF y(1) False] y ok by (auto simp: sides_ok_def obligations_ok_def)
    qed
  qed
  moreover have "\<exists>x \<in> set (route_obligation t). ro_id x = ra_obligation a" if a: "a \<in> set (route_settlement_allocation t)" for a
  proof -
    have "\<exists>x \<in> set (route_obligation s). ro_id x = ra_obligation a" using shares a ok r unfolding obligations_ok_def by metis
    then have "ra_obligation a \<in> set (map ro_id (route_obligation t))" unfolding rows settled_as_ids set_map by (metis image_eqI)
    then show ?thesis by auto
  qed
  ultimately show ?thesis using ok by (simp add: obligations_ok_def rows)
qed

lemma allocated_keeps:
  assumes ok: "obligations_ok s" and r: "r \<in> set (route_obligation s)" and a: "allocated r a status s t"
  shows "obligations_ok t"
proof -
  from a obtain z w where t: "t = s\<lparr>uuids := Suc (uuids s), route_settlement_allocation := route_settlement_allocation s @ [a],
        route_obligation := settled_as (ro_id r) status z (route_obligation s), audit_event := w\<rparr>" and ra: "ra_obligation a = ro_id r"
    and fits: "0 < ra_amount a" "ra_amount a \<le> side_left r (ra_side a) s" "ro_status r \<noteq> OB_CANCELLED" "status = OB_SETTLED \<or> status = OB_PARTIALLY_SETTLED"
      "status = OB_SETTLED \<longleftrightarrow> (\<forall>side. side_left r side s - (if side = ra_side a then ra_amount a else 0) = 0)" by (auto simp: allocated_def)
  have sides: "side_left x side t = side_left x side s - (if ro_id x = ro_id r \<and> side = ra_side a then ra_amount a else 0)" for x side
    using sides_allocated[of t s a x x side] ra by (simp add: t same_sides_def)
  have pos: "0 \<le> side_left r ROUTE_DELIVERS s" "0 \<le> side_left r EXCHANGE_DELIVERS s" using ok r fits(3) by (auto simp: obligations_ok_def sides_ok_def)
  have left: "0 \<le> side_left r ROUTE_DELIVERS t" "0 \<le> side_left r EXCHANGE_DELIVERS t"
    "status = OB_SETTLED \<longleftrightarrow> side_left r ROUTE_DELIVERS t = 0 \<and> side_left r EXCHANGE_DELIVERS t = 0"
    using fits pos by (cases "ra_side a"; simp add: sides all_sides)+
  have rows: "route_obligation t = settled_as (ro_id r) status z (route_obligation s)" "route_settlement_allocation t = route_settlement_allocation s @ [a]"
    by (simp_all add: t)
  show ?thesis
    by (rule obligations_after[OF ok r rows(1) _ left(1,2) _ left(3)]) (use fits(4) ra in \<open>auto simp: sides rows(2)\<close>)
qed

lemma refresh_effect:
  assumes found: "find_obligation (ro_id r) s = Some r" and d: "distinct (map ro_id (route_obligation s))"
    and run: "refreshObligationStatus ctx r s = Inr (status, t)"
  shows "status = (if (ro_status r = OB_OPEN \<or> ro_status r = OB_PARTIALLY_SETTLED) \<and> side_left r ROUTE_DELIVERS s = 0 \<and> side_left r EXCHANGE_DELIVERS s = 0
      then OB_SETTLED else ro_status r) \<and>
    (\<exists>z w. t = s\<lparr>route_obligation := settled_as (ro_id r) status z (route_obligation s), audit_event := w\<rparr>)"
proof -
  have r: "r \<in> set (route_obligation s)" using find_obligation_Some[OF found] by simp
  have stay: "\<exists>z w. s = s\<lparr>route_obligation := settled_as (ro_id r) (ro_status r) z (route_obligation s), audit_event := w\<rparr>"
    using settled_as_same[OF d r] by (intro exI[of _ None] exI[of _ "audit_event s"]) simp
  show ?thesis
  proof (cases "(ro_status r = OB_OPEN \<or> ro_status r = OB_PARTIALLY_SETTLED) \<and> side_left r ROUTE_DELIVERS s = 0 \<and> side_left r EXCHANGE_DELIVERS s = 0")
    case False
    then have "status = ro_status r \<and> t = s" using run
      by (auto simp: refreshObligationStatus_def obligationRemaining_Inr found split: if_splits)
    then show ?thesis using False stay by auto
  next
    case True
    let ?f = "\<lambda>x. x\<lparr>ro_status := OB_SETTLED, ro_settled_at := Some (clock s)\<rparr>"
    from True run have "status = OB_SETTLED \<and> (\<exists>v w. update_obligation (ro_id r) ?f s = Inr ((), v) \<and> t = v\<lparr>audit_event := w\<rparr>)"
      unfolding refreshObligationStatus_def
      by (clarsimp simp: obligationRemaining_Inr found guard_Inr split: if_split_asm) (rule exI, rule refl)
    then obtain v w where status: "status = OB_SETTLED" and v: "update_obligation (ro_id r) ?f s = Inr ((), v)" and t: "t = v\<lparr>audit_event := w\<rparr>" by blast
    have "t = s\<lparr>route_obligation := settled_as (ro_id r) status (Some (clock s)) (route_obligation s), audit_event := w\<rparr>"
      using update_obligation_Inr[OF v] by (simp add: t status settled_as_def)
    with True status show ?thesis by auto
  qed
qed

end
