(* ===== verification/Progress.thy ===== *)
theory Progress
  imports Obligations
begin

text \<open>
  Moving a settled trade forward (\<^verbatim>\<open>packages/settlement/src/progress.ts\<close>): when the client's first leg is whole, and completing a
  trade whose two sides are settled. Completion releases what the trade still holds, realizes its margin and asks for the receipt.
\<close>

section \<open>Completing\<close>

definition clientLegsInFlight :: "string \<Rightarrow> 'x trade_db_scheme \<Rightarrow> nat" where
  "clientLegsInFlight i s = length (filter (\<lambda>l. sl_trade l = i \<and> sl_side l = CLIENT_TO_EXCHANGE \<and> sl_status l = LEG_PROCESSING) (settlement_leg s))"

definition active_reservations :: "string \<Rightarrow> 'x capacity_db_scheme \<Rightarrow> string list" where
  "active_reservations i s = map rv_id (sort_key rv_id (filter (\<lambda>r. rv_trade r = Some i \<and> rv_status r = RS_ACTIVE) (capacity_reservation s)))"

definition effective_margin :: "trade_terms \<Rightarrow> string \<Rightarrow> 'x trade_db_scheme \<Rightarrow> money" where
  "effective_margin econ i s = ofMinor (minor (te_grossMargin econ) + posted_sum fa_margin_inr i s) INR"

definition release_holdings :: "tx_ctx \<Rightarrow> trade_row \<Rightarrow> ('x obligation_db_scheme, unit) cmd" where
  "release_holdings ctx t =
     bindC (readC (active_reservations (td_id t))) (\<lambda>reservations.
     bindC (forC reservations (\<lambda>r. bindC (releaseReservation ctx (JStr r) ''TRADE_COMPLETED'') (\<lambda>_. returnC ()))) (\<lambda>_.
     bindC (releaseTreasuryReservation ctx (JStr (td_id t)) ''TRADE_COMPLETED'') (\<lambda>_.
     if td_direction t \<noteq> SELL_USDT then returnC ()
     else bindC (readC (\<lambda>s. list_ex (\<lambda>a. as_trade a = Some (td_id t) \<and> is_open a) (deposit_assignment s))) (\<lambda>assigned.
       whenC assigned (bindC (releaseDepositAssignment ctx (JStr (td_id t)) ''TRADE_COMPLETED'' None) (\<lambda>_. returnC ()))))))"

definition completeTrade :: "tx_ctx \<Rightarrow> trade_row \<Rightarrow> trade_terms \<Rightarrow> ('x obligation_db_scheme, unit) cmd" where
  "completeTrade ctx t econ =
     bindC (release_holdings ctx t) (\<lambda>_.
     bindC (readC (effective_margin econ (td_id t))) (\<lambda>effectiveMargin.
     bindC (transitionTrade ctx t TRADE_COMPLETED None [(''gross_margin'', js_money effectiveMargin)]) (\<lambda>_.
     bindC (liftC (tradeCompleteJournal (trade_economics.truncate econ\<lparr>te_grossMargin := effectiveMargin\<rparr>) (td_id t))) (\<lambda>due.
     bindC (case due of None \<Rightarrow> returnC () | Some j \<Rightarrow> bindC (postJournal ctx j) (\<lambda>_. returnC ())) (\<lambda>_.
     bindC (enqueueOutbox ctx \<lparr>oi_type = ''receipt.generate'', oi_aggregate_type = Some ''trade'', oi_aggregate_id = Some (td_id t),
        oi_payload = JObj [(''tradeId'', JStr (td_id t)), (''clientId'', JStr (td_client t))]\<rparr>) (\<lambda>_.
     returnC ()))))))"

section \<open>Advancing\<close>

definition first_leg_whole :: "leg_totals \<Rightarrow> effective_obligations \<Rightarrow> bool" where
  "first_leg_whole totals ob \<longleftrightarrow> \<not> (lt_received totals = 0 \<or> receivedNetOfPlannedExcess totals \<noteq> minor (eo_receivable ob))"

definition both_settled :: "leg_totals \<Rightarrow> effective_obligations \<Rightarrow> bool" where
  "both_settled totals ob \<longleftrightarrow> lt_paid totals = minor (eo_payout ob) \<and> lt_committed totals = lt_paid totals \<and>
     receivedNetOfReturnedExcess totals = minor (eo_receivable ob)"

definition advanceTrade :: "tx_ctx \<Rightarrow> string \<Rightarrow> ('x obligation_db_scheme, trade_state) cmd" where
  "advanceTrade ctx tradeId =
     bindC (reloadTrade (JStr tradeId)) (\<lambda>t.
     if td_hold t then returnC (td_state t)
     else bindC (readC (effectiveObligations (JStr (td_id t)))) (\<lambda>read.
     bindC (liftC read) (\<lambda>ob.
     bindC (readC (legTotals (JStr (td_id t)))) (\<lambda>read.
     bindC (liftC read) (\<lambda>totals.
     if td_state t = FIRST_LEG_DETECTED then
       (if \<not> first_leg_whole totals ob then returnC (td_state t)
        else bindC (readC (clientLegsInFlight (td_id t))) (\<lambda>flying.
          if flying > 0 then returnC (td_state t)
          else bindC (transitionTrade ctx t FIRST_LEG_CONFIRMED None
                 [(''received'', js_money (ofMinor (lt_received totals) (currency (eo_receivable ob))))]) (\<lambda>_.
            bindC (enqueueOutbox ctx \<lparr>oi_type = ''desk.payout_actionable'', oi_aggregate_type = Some ''trade'', oi_aggregate_id = Some (td_id t),
               oi_payload = JObj [(''tradeId'', JStr (td_id t))]\<rparr>) (\<lambda>_.
            returnC FIRST_LEG_CONFIRMED))))
     else if td_state t = SETTLING \<or> td_state t = PARTIALLY_SETTLED then
       (if \<not> both_settled totals ob then returnC (td_state t)
        else bindC (readC (read_economics (JStr (td_id t)))) (\<lambda>read.
          bindC (liftC read) (\<lambda>econ.
          bindC (completeTrade ctx t econ) (\<lambda>_.
          returnC TRADE_COMPLETED))))
     else returnC (td_state t))))))"

section \<open>What the commands leave alone\<close>

definition same_terms :: "'x obligation_db_scheme \<Rightarrow> 'x obligation_db_scheme \<Rightarrow> bool" where
  "same_terms s t \<longleftrightarrow> trade_economics t = trade_economics s \<and> trade_funding t = trade_funding s \<and> quote t = quote s \<and>
     settlement_leg t = settlement_leg s \<and> financial_adjustment t = financial_adjustment s \<and> exception_case t = exception_case s \<and>
     route_settlement t = route_settlement s \<and> clock t = clock s"

definition same_obligations :: "'x obligation_db_scheme \<Rightarrow> 'x obligation_db_scheme \<Rightarrow> bool" where
  "same_obligations s t \<longleftrightarrow> route_obligation t = route_obligation s \<and> route_settlement_allocation t = route_settlement_allocation s"

definition same_trades :: "'x obligation_db_scheme \<Rightarrow> 'x obligation_db_scheme \<Rightarrow> bool" where
  "same_trades s t \<longleftrightarrow> trade t = trade s \<and> trade_transition t = trade_transition s"

definition same_books :: "'x obligation_db_scheme \<Rightarrow> 'x obligation_db_scheme \<Rightarrow> bool" where
  "same_books s t \<longleftrightarrow> ledger_account t = ledger_account s \<and> ledger_journal t = ledger_journal s \<and> ledger_entry t = ledger_entry s \<and>
     uuidv7 t = uuidv7 s \<and> uuids s \<le> uuids t"

definition same_desk :: "'x obligation_db_scheme \<Rightarrow> 'x obligation_db_scheme \<Rightarrow> bool" where
  "same_desk s t \<longleftrightarrow> same_terms s t \<and> same_obligations s t \<and> same_trades s t \<and> same_books s t"

lemmas same_defs = same_desk_def same_terms_def same_obligations_def same_trades_def same_books_def

lemma same_desk_refl: "same_desk s s"
  by (simp add: same_defs)

lemma desk_frames [inv_intros]:
  "keeps (same_desk s) (appendAudit ctx action ty i x y)" "keeps (same_desk s) (assertLockOrder l)" "keeps (same_desk s) freshId"
  "keeps (same_desk s) (enqueueOutbox ctx ev)" "keeps (same_desk s) (update_day a d f)" "keeps (same_desk s) (update_reservation rid g)"
  "keeps (same_desk s) (update_wallet w h)" "keeps (same_desk s) (update_treasury_reservation k m)"
  "keeps (same_desk s) (update_assignment aid ua)" "keeps (same_desk s) (update_address did ud)" "keeps (same_desk s) (open_day a d)"
  by (auto simp: keeps_def same_defs enqueueOutbox_def update_day_def update_reservation_def update_wallet_def
      update_treasury_reservation_def update_assignment_def update_address_def open_day_def
      split: if_splits option.splits)

lemma release_frames [inv_intros]:
  "keeps (same_desk s) (releaseReservation ctx v reason)" "keeps (same_desk s) (releaseTreasuryReservation ctx w reason)"
  "keeps (same_desk s) (releaseDepositAssignment ctx i reason cooldown)"
  unfolding releaseReservation_def locateReservation_def lockAccountDay_def releaseTreasuryReservation_def releaseDepositAssignment_def
    releaseAssignment_def Let_def
  by (intro inv_intros | simp split: option.split prod.split | intro allI impI conjI)+

lemma holdings_frame: "release_holdings ctx t s = Inr (u, v) \<Longrightarrow> same_desk s v"
proof -
  have "keeps (same_desk s) (release_holdings ctx t)" unfolding release_holdings_def by (intro inv_intros)
  then show "release_holdings ctx t s = Inr (u, v) \<Longrightarrow> same_desk s v" using same_desk_refl by (blast dest: keepsD)
qed

section \<open>What completing and advancing do\<close>

text \<open>A command that moves trades along and the books, and nothing else.\<close>

definition holds_of :: "'x trade_db_scheme \<Rightarrow> (string \<times> bool) list" where
  "holds_of s = map (\<lambda>t. (td_id t, td_hold t)) (trade s)"

definition moves_trades :: "'x obligation_db_scheme \<Rightarrow> 'x obligation_db_scheme \<Rightarrow> bool" where
  "moves_trades s t \<longleftrightarrow> same_terms s t \<and> same_obligations s t \<and> (ledger_ok s \<longrightarrow> ledger_ok t) \<and> holds_of t = holds_of s \<and>
     (\<forall>ts hs. trades_from ts hs s \<longrightarrow> trades_from ts hs t)"

lemma moves_refl: "moves_trades s s"
  by (simp add: moves_trades_def same_defs)

lemma moves_trans: "moves_trades s t \<Longrightarrow> moves_trades t u \<Longrightarrow> moves_trades s u"
  by (auto simp: moves_trades_def same_defs)

lemma desk_moves: "same_desk s t \<Longrightarrow> moves_trades s t"
  by (auto simp: moves_trades_def same_defs holds_of_def intro: trades_from_cong ledger_ok_cong)

lemma transitioned_moves: "transitioned ctx r to s t \<Longrightarrow> moves_trades s t"
proof -
  assume tr: "transitioned ctx r to s t"
  then obtain w where t: "t = s\<lparr>trade := update_where (\<lambda>x. td_id x = td_id r) (moved_on r to (clock s)) (trade s),
       trade_transition := trade_transition s @ [history_row ctx (td_id r) (Some (td_state r)) to (clock s)], audit_event := w\<rparr>"
    by (auto simp: transitioned_def)
  have "same_terms s t" "same_obligations s t" by (simp_all add: same_defs t)
  moreover have "ledger_ok s \<longrightarrow> ledger_ok t" using ledger_ok_cong[of s t] by (simp add: t)
  moreover have "holds_of t = holds_of s" by (simp add: holds_of_def t)
  ultimately show ?thesis using transition_keeps[OF _ tr] by (simp add: moves_trades_def)
qed

lemma post_frame:
  assumes run: "postJournal ctx j s = Inr (pj, t)" and ok: "ledger_ok s"
  shows "same_terms s t" "same_obligations s t" "same_trades s t" "ledger_ok t" "accountBalance r t = accountBalance r s + inputs_on (ji_entries j) r"
proof -
  from insertJournal_posted[OF ledger_ok_accounts[OF ok] run[unfolded postJournal_def]] obtain new ids where p: "posted ctx j None s (pj_id pj) new ids t" by blast
  show "same_terms s t" "same_obligations s t" "same_trades s t" using p by (auto simp: posted_def same_defs)
  show "ledger_ok t" "accountBalance r t = accountBalance r s + inputs_on (ji_entries j) r" using postJournal_keeps[OF ok run] posted_balance[OF ok p] by auto
qed

lemma same_trades_from: "same_trades s t \<Longrightarrow> trades_from ts hs s \<Longrightarrow> trades_from ts hs t"
  by (auto simp: same_trades_def intro: trades_from_cong)

lemma outbox_desk: "enqueueOutbox ctx ev s = Inr (x, t) \<Longrightarrow> same_desk s t"
  using desk_frames(4)[of s ctx ev] same_desk_refl[of s] by (blast dest: keepsD)

definition booked :: "tx_ctx \<Rightarrow> journal_input option \<Rightarrow> 'x ledger_db_scheme \<Rightarrow> 'x ledger_db_scheme \<Rightarrow> bool" where
  "booked ctx jo s t \<longleftrightarrow> (case jo of None \<Rightarrow> t = s | Some j \<Rightarrow> \<exists>pj. postJournal ctx j s = Inr (pj, t))"

lemma post_due: "(case jo of None \<Rightarrow> returnC () | Some j \<Rightarrow> bindC (postJournal ctx j) (\<lambda>_. returnC ())) s = Inr (u, t) \<longleftrightarrow> booked ctx jo s t"
  by (auto simp: booked_def split: option.splits)

definition journal_on :: "journal_input option \<Rightarrow> account_ref \<Rightarrow> int" where
  "journal_on jo r = (case jo of None \<Rightarrow> 0 | Some j \<Rightarrow> inputs_on (ji_entries j) r)"

lemma booked_frame:
  assumes "booked ctx jo s t" "ledger_ok s"
  shows "same_terms s t" "same_obligations s t" "same_trades s t" "ledger_ok t" "accountBalance r t = accountBalance r s + journal_on jo r"
proof -
  have "same_terms s t \<and> same_obligations s t \<and> same_trades s t \<and> ledger_ok t \<and> accountBalance r t = accountBalance r s + journal_on jo r"
  proof (cases jo)
    case None
    then show ?thesis using assms by (simp add: booked_def journal_on_def same_defs)
  next
    case (Some j)
    then obtain pj where "postJournal ctx j s = Inr (pj, t)" using assms(1) by (auto simp: booked_def)
    from post_frame[OF this assms(2)] Some show ?thesis by (simp add: journal_on_def)
  qed
  then show "same_terms s t" "same_obligations s t" "same_trades s t" "ledger_ok t" "accountBalance r t = accountBalance r s + journal_on jo r" by auto
qed

definition completes :: "tx_ctx \<Rightarrow> trade_row \<Rightarrow> trade_terms \<Rightarrow> 'x obligation_db_scheme \<Rightarrow> 'x obligation_db_scheme \<Rightarrow> bool" where
  "completes ctx r econ s t \<longleftrightarrow> (\<exists>v w x jo. same_desk s v \<and> transitioned ctx r TRADE_COMPLETED v w \<and>
     tradeCompleteJournal (trade_economics.truncate econ\<lparr>te_grossMargin := effective_margin econ (td_id r) s\<rparr>) (td_id r) = Inr jo \<and>
     booked ctx jo w x \<and> same_desk x t)"

lemma complete_effect:
  assumes run: "completeTrade ctx r econ s = Inr (u, t)" and r: "r \<in> set (trade s)" "trades_ok s" "td_state r \<noteq> TRADE_COMPLETED"
  shows "completes ctx r econ s t"
proof -
  from run obtain v w x jo where v: "release_holdings ctx r s = Inr ((), v)"
    and w: "transitionTrade ctx r TRADE_COMPLETED None [(''gross_margin'', js_money (effective_margin econ (td_id r) v))] v = Inr ((), w)"
    and j: "tradeCompleteJournal (trade_economics.truncate econ\<lparr>te_grossMargin := effective_margin econ (td_id r) v\<rparr>) (td_id r) = Inr jo"
    and x: "booked ctx jo w x" and t: "\<exists>ev i. enqueueOutbox ctx ev x = Inr (i, t)"
    unfolding completeTrade_def by (clarsimp simp: post_due) blast
  have desk: "same_desk s v" using holdings_frame[OF v] .
  then have "trades_ok v" "r \<in> set (trade v)" using r by (auto simp: same_defs trades_ok_def history_def)
  then have "transitioned ctx r TRADE_COMPLETED v w" using transition_effect[OF w current_reading] r(3) by blast
  moreover have "effective_margin econ (td_id r) v = effective_margin econ (td_id r) s" using desk by (simp add: effective_margin_def posted_sum_def same_defs)
  ultimately show ?thesis using desk j x t outbox_desk unfolding completes_def by metis
qed

lemma completes_moves: "completes ctx r econ s t \<Longrightarrow> ledger_ok s \<Longrightarrow> moves_trades s t"
proof -
  assume "completes ctx r econ s t" "ledger_ok s"
  then obtain v w x jo where steps: "same_desk s v" "transitioned ctx r TRADE_COMPLETED v w" "booked ctx jo w x" "same_desk x t" unfolding completes_def by blast
  have sw: "moves_trades s w" using desk_moves[OF steps(1)] transitioned_moves[OF steps(2)] by (rule moves_trans)
  then have "ledger_ok w" using \<open>ledger_ok s\<close> by (simp add: moves_trades_def)
  from booked_frame[OF steps(3) this] have "moves_trades w x" by (auto simp: moves_trades_def holds_of_def same_trades_def intro: same_trades_from[unfolded same_trades_def])
  with sw desk_moves[OF steps(4)] show ?thesis by (blast intro: moves_trans)
qed

section \<open>When a trade advances\<close>

text \<open>In the trade's own figures: the first leg is in when what arrived, net of the excess the desk plans to return, is what the client
  owes and nothing more is on its way; the trade is settled when both sides are paid in full and no further payout is planned.\<close>

definition first_leg_in :: "string \<Rightarrow> 'x trade_db_scheme \<Rightarrow> bool" where
  "first_leg_in i s \<longleftrightarrow> leg_sum sent_in i s \<noteq> 0 \<and> receivable_obligation i s = Some (leg_sum sent_in i s - leg_sum excess_alive i s) \<and>
     clientLegsInFlight i s = 0"

definition trade_settled :: "string \<Rightarrow> 'x trade_db_scheme \<Rightarrow> bool" where
  "trade_settled i s \<longleftrightarrow> payout_obligation i s = Some (leg_sum paid_out i s) \<and> leg_sum payout_alive i s = leg_sum paid_out i s \<and>
     receivable_obligation i s = Some (leg_sum sent_in i s - leg_sum given_back i s)"

definition advances_to :: "trade_row \<Rightarrow> 'x trade_db_scheme \<Rightarrow> trade_state" where
  "advances_to r s =
     (if td_hold r then td_state r
      else if td_state r = FIRST_LEG_DETECTED \<and> first_leg_in (td_id r) s then FIRST_LEG_CONFIRMED
      else if (td_state r = SETTLING \<or> td_state r = PARTIALLY_SETTLED) \<and> trade_settled (td_id r) s then TRADE_COMPLETED
      else td_state r)"

lemma obligations_Inr: "effectiveObligations (JStr i) s = Inr ob \<Longrightarrow>
  payout_obligation i s = Some (minor (eo_payout ob)) \<and> receivable_obligation i s = Some (minor (eo_receivable ob))"
  by (auto simp: effectiveObligations_def bindR_def Let_def split: sum.splits option.splits)

lemma totals_Inr: "legTotals (JStr i) s = Inr totals \<Longrightarrow> totals = \<lparr>lt_received = leg_sum sent_in i s, lt_paid = leg_sum paid_out i s,
   lt_committed = leg_sum payout_alive i s, lt_excess_planned = leg_sum excess_alive i s, lt_excess_returned = leg_sum given_back i s\<rparr>"
  by (auto simp: legTotals_def bindR_def split: sum.splits)

lemma reads_mean:
  assumes "effectiveObligations (JStr i) s = Inr ob" "legTotals (JStr i) s = Inr totals"
  shows "first_leg_whole totals ob \<and> clientLegsInFlight i s = 0 \<longleftrightarrow> first_leg_in i s" "both_settled totals ob \<longleftrightarrow> trade_settled i s"
  using obligations_Inr[OF assms(1)] totals_Inr[OF assms(2)]
  by (auto simp: first_leg_whole_def first_leg_in_def both_settled_def trade_settled_def receivedNetOfPlannedExcess_def receivedNetOfReturnedExcess_def)

lemma reload_Inr: "reloadTrade (JStr i) s = Inr (r, t) \<Longrightarrow> r \<in> set (trade s) \<and> td_id r = i \<and> t = s"
  using find_trade_Some by (fastforce simp: reloadTrade_def)

definition confirms_first_leg :: "tx_ctx \<Rightarrow> trade_row \<Rightarrow> 'x obligation_db_scheme \<Rightarrow> 'x obligation_db_scheme \<Rightarrow> bool" where
  "confirms_first_leg ctx r s t \<longleftrightarrow> (\<exists>v. transitioned ctx r FIRST_LEG_CONFIRMED s v \<and> same_desk v t)"

lemma advance_effect:
  assumes run: "advanceTrade ctx i s = Inr (st, t)" and ok: "trades_ok s"
  shows "\<exists>r \<in> set (trade s). td_id r = i \<and> st = advances_to r s \<and>
    (st = td_state r \<and> t = s \<or> st = FIRST_LEG_CONFIRMED \<and> confirms_first_leg ctx r s t \<or>
     st = TRADE_COMPLETED \<and> (\<exists>econ. read_economics (JStr i) s = Inr econ \<and> completes ctx r econ s t))"
proof -
  from run obtain r u where reload: "reloadTrade (JStr i) s = Inr (r, u)" unfolding advanceTrade_def by auto
  from reload_Inr[OF this] have r: "r \<in> set (trade s)" "td_id r = i" and u: "u = s" by auto
  show ?thesis
  proof (cases "td_hold r")
    case True
    then have "st = td_state r \<and> t = s" using run reload u unfolding advanceTrade_def by (simp add: guard_Inr)
    with True r show ?thesis by (auto simp: advances_to_def)
  next
    case False
    with run reload u r obtain ob totals where reads: "effectiveObligations (JStr i) s = Inr ob" "legTotals (JStr i) s = Inr totals"
      unfolding advanceTrade_def by auto
    note means = reads_mean[OF reads]
    consider (first) "td_state r = FIRST_LEG_DETECTED" "first_leg_in i s" | (settled) "td_state r = SETTLING \<or> td_state r = PARTIALLY_SETTLED" "trade_settled i s"
      | (stay) "advances_to r s = td_state r" "\<not> (td_state r = FIRST_LEG_DETECTED \<and> first_leg_in i s)"
        "\<not> ((td_state r = SETTLING \<or> td_state r = PARTIALLY_SETTLED) \<and> trade_settled i s)" using r(2) False by (auto simp: advances_to_def)
    then show ?thesis
    proof cases
      case first
      with run reload u r False reads means(1) obtain v extra ev k where st: "st = FIRST_LEG_CONFIRMED"
        and moved: "transitionTrade ctx r FIRST_LEG_CONFIRMED None extra s = Inr ((), v)" and sent: "enqueueOutbox ctx ev v = Inr (k, t)"
        unfolding advanceTrade_def by (auto split: if_splits)
      have "transitioned ctx r FIRST_LEG_CONFIRMED s v" using transition_effect[OF moved current_reading[OF ok r(1)] ok] first by fastforce
      then have "confirms_first_leg ctx r s t" using outbox_desk[OF sent] unfolding confirms_first_leg_def by blast
      moreover have "advances_to r s = FIRST_LEG_CONFIRMED" using first False r(2) by (simp add: advances_to_def)
      ultimately show ?thesis using r st by (intro bexI[of _ r]) simp_all
    next
      case settled
      with run reload u r False reads means(2) obtain econ where econ: "st = TRADE_COMPLETED" "read_economics (JStr i) s = Inr econ" "completeTrade ctx r econ s = Inr ((), t)"
        unfolding advanceTrade_def by (auto split: if_splits)
      have "completes ctx r econ s t" using complete_effect[OF econ(3) r(1) ok] settled(1) by auto
      moreover have "advances_to r s = TRADE_COMPLETED" using settled False r(2) by (auto simp: advances_to_def)
      ultimately show ?thesis using r econ by (intro bexI[of _ r]) auto
    next
      case stay
      with run reload u r False reads means have "st = td_state r \<and> t = s" unfolding advanceTrade_def by (auto split: if_splits)
      then show ?thesis using r stay by auto
    qed
  qed
qed

lemma advance_moves: "advanceTrade ctx i s = Inr (st, t) \<Longrightarrow> trades_ok s \<Longrightarrow> ledger_ok s \<Longrightarrow> moves_trades s t"
  using advance_effect[of ctx i s st t] completes_moves moves_refl transitioned_moves desk_moves moves_trans
  unfolding confirms_first_leg_def by metis

section \<open>Properties\<close>

lemma terms_same:
  assumes "same_terms s t"
  shows "posted_sum f i t = posted_sum f i s" "economics_of i t = economics_of i s" "payout_obligation i t = payout_obligation i s"
    "receivable_obligation i t = receivable_obligation i s" "leg_sum p i t = leg_sum p i s" "blocked i t \<longleftrightarrow> blocked i s" "clock t = clock s"
proof -
  show posted: "posted_sum f i t = posted_sum f i s" for f using assms by (simp add: posted_sum_def same_terms_def)
  show econ: "economics_of i t = economics_of i s" using assms by (simp add: economics_of_def same_terms_def)
  show "payout_obligation i t = payout_obligation i s" "receivable_obligation i t = receivable_obligation i s"
    by (simp_all add: payout_obligation_def receivable_obligation_def posted econ split: option.split)
  show "leg_sum p i t = leg_sum p i s" "blocked i t \<longleftrightarrow> blocked i s" "clock t = clock s"
    using assms by (simp_all add: leg_sum_def blocked_def same_terms_def)
qed

lemma completes_transition: "completes ctx r econ s t \<Longrightarrow> trade_guard r (moved_on r TRADE_COMPLETED (clock s) r) s \<and>
    trade t = update_where (\<lambda>x. td_id x = td_id r) (moved_on r TRADE_COMPLETED (clock s)) (trade s)" if "ledger_ok s"
proof -
  assume "completes ctx r econ s t"
  then obtain v w x jo where steps: "same_desk s v" "transitioned ctx r TRADE_COMPLETED v w" "booked ctx jo w x" "same_desk x t" unfolding completes_def by blast
  have "ledger_ok w" using desk_moves[OF steps(1)] transitioned_moves[OF steps(2)] that by (simp add: moves_trades_def)
  have v: "clock v = clock s" "trade v = trade s" using steps(1) by (simp_all add: same_defs)
  have "same_terms s v" using steps(1) by (simp add: same_desk_def)
  then have "trade_guard r y v \<longleftrightarrow> trade_guard r y s" for y
    by (simp add: trade_guard_def completion_refused_def terms_same)
  moreover have "trade t = trade w" using booked_frame(3)[OF steps(3) \<open>ledger_ok w\<close>] steps(4) by (simp add: same_defs)
  ultimately show ?thesis using steps(2) by (auto simp: transitioned_def v)
qed

lemma completes_books:
  assumes "completes ctx r econ s t" "ledger_ok s"
  shows "\<exists>jo. tradeCompleteJournal (trade_economics.truncate econ\<lparr>te_grossMargin := effective_margin econ (td_id r) s\<rparr>) (td_id r) = Inr jo \<and>
    (\<forall>a. accountBalance a t = accountBalance a s + journal_on jo a)"
proof -
  from assms(1) obtain v w x jo where steps: "same_desk s v" "transitioned ctx r TRADE_COMPLETED v w" "booked ctx jo w x" "same_desk x t"
    and j: "tradeCompleteJournal (trade_economics.truncate econ\<lparr>te_grossMargin := effective_margin econ (td_id r) s\<rparr>) (td_id r) = Inr jo" unfolding completes_def by blast
  have w: "ledger_ok w" using desk_moves[OF steps(1)] transitioned_moves[OF steps(2)] assms(2) by (simp add: moves_trades_def)
  have "accountBalance a t = accountBalance a s + journal_on jo a" for a
  proof -
    have "accountBalance a t = accountBalance a x" using steps(4) balance_cong[of t x a] by (simp add: same_defs)
    moreover have "accountBalance a w = accountBalance a s" using steps(1,2) balance_cong[of w s a] by (auto simp: same_defs transitioned_def)
    ultimately show ?thesis using booked_frame(5)[OF steps(3) w, of a] by simp
  qed
  with j show ?thesis by blast
qed

definition state_of :: "string \<Rightarrow> 'x trade_db_scheme \<Rightarrow> trade_state option" where
  "state_of i s = map_option td_state (find_trade i s)"

lemma state_of_row: "trades_ok s \<Longrightarrow> r \<in> set (trade s) \<Longrightarrow> state_of (td_id r) s = Some (td_state r)"
  using find_unique[of td_id "trade s" r] by (simp add: state_of_def find_trade_def trades_ok_def)

lemma transitioned_state: "transitioned ctx r to s t \<Longrightarrow> trades_ok s \<Longrightarrow> trades_ok t \<Longrightarrow> state_of (td_id r) t = Some to"
proof -
  assume tr: "transitioned ctx r to s t" "trades_ok s" "trades_ok t"
  then have "moved_on r to (clock s) r \<in> set (trade t)" by (auto simp: transitioned_def set_update_where)
  from state_of_row[OF tr(3) this] show ?thesis by simp
qed

text \<open>C11: when something other than a movement settles a trade, advancing it moves it to exactly the state its own figures call for:
  a held trade stays; a detected first leg that arrived whole is confirmed; a settling trade paid in full on both sides completes; any
  other stays and nothing changes. The books move only on completion, by the journal that realizes the margin the posted adjustments left.\<close>

theorem trade_advances_exactly:
  assumes run: "advanceTrade ctx i s = Inr (st, t)" and from_start: "trades_from ts hs s" and ok: "ledger_ok s"
  shows "\<exists>r \<in> set (trade s). td_id r = i \<and> st = advances_to r s \<and> state_of i t = Some st \<and> (st = td_state r \<longrightarrow> t = s) \<and>
    trades_from ts hs t \<and> ledger_ok t \<and>
    (\<exists>jo. (\<forall>a. accountBalance a t = accountBalance a s + journal_on jo a) \<and>
      (if st = td_state r \<or> st = FIRST_LEG_CONFIRMED then jo = None
       else \<exists>econ. read_economics (JStr i) s = Inr econ \<and>
         tradeCompleteJournal (trade_economics.truncate econ\<lparr>te_grossMargin := effective_margin econ i s\<rparr>) i = Inr jo))"
proof -
  have tok: "trades_ok s" using from_start by (simp add: trades_from_def)
  have moves: "moves_trades s t" by (rule advance_moves[OF run tok ok])
  then have kept: "trades_from ts hs t" "ledger_ok t" "trades_ok t" using from_start ok by (auto simp: moves_trades_def trades_from_def)
  from advance_effect[OF run tok] obtain r where r: "r \<in> set (trade s)" "td_id r = i" "st = advances_to r s" and
    cases: "st = td_state r \<and> t = s \<or> st = FIRST_LEG_CONFIRMED \<and> confirms_first_leg ctx r s t \<or>
     st = TRADE_COMPLETED \<and> (\<exists>econ. read_economics (JStr i) s = Inr econ \<and> completes ctx r econ s t)" by blast
  show ?thesis
  proof (cases "st = td_state r \<and> t = s")
    case True
    have books: "\<exists>jo. (\<forall>a. accountBalance a s = accountBalance a s + journal_on jo a) \<and> jo = None" by (simp add: journal_on_def)
    show ?thesis using True r kept state_of_row[OF tok r(1)] books by (intro bexI[OF _ r(1)]) auto
  next
    case other: False
    from cases other consider (first) "st = FIRST_LEG_CONFIRMED" "confirms_first_leg ctx r s t"
      | (finish) econ where "st = TRADE_COMPLETED" "read_economics (JStr i) s = Inr econ" "completes ctx r econ s t" by blast
    then show ?thesis
    proof cases
      case first
      then obtain v where v: "transitioned ctx r FIRST_LEG_CONFIRMED s v" "same_desk v t" by (auto simp: confirms_first_leg_def)
      then have "trade t = trade v" by (simp add: same_defs)
      then have state: "state_of i t = Some st" using transitioned_state[OF v(1) tok] same_trades_from[of v t] kept(3) first(1) r(2) v(2)
        transition_keeps[OF from_start v(1)] by (simp add: state_of_def find_trade_def trades_from_def)
      have "accountBalance a t = accountBalance a s" for a using v balance_cong[of t s a] by (auto simp: same_defs transitioned_def)
      then have "\<exists>jo. (\<forall>a. accountBalance a t = accountBalance a s + journal_on jo a) \<and> jo = None" by (simp add: journal_on_def)
      moreover have "st \<noteq> td_state r" using v(1) first(1) by (auto simp: transitioned_def ALLOWED_def split: trade_state.splits)
      ultimately show ?thesis using r kept state first(1) by (intro bexI[OF _ r(1)]) auto
    next
      case finish
      from completes_transition[OF ok finish(3)] have guard: "trade t = update_where (\<lambda>x. td_id x = td_id r) (moved_on r TRADE_COMPLETED (clock s)) (trade s)" by blast
      then have "moved_on r TRADE_COMPLETED (clock s) r \<in> set (trade t)" using r(1) by (auto simp: set_update_where)
      from state_of_row[OF kept(3) this] have state: "state_of i t = Some st" using r(2) finish(1) by simp
      have "st \<noteq> td_state r" using finish(3) finish(1) by (auto simp: completes_def transitioned_def ALLOWED_def split: trade_state.splits)
      with completes_books[OF finish(3) ok] r kept state finish show ?thesis by (intro bexI[OF _ r(1)]) auto
    qed
  qed
qed

text \<open>C7: a trade is completed only when, in the rows themselves, the client was paid what it is owed and sent what it owes net
  of what was given back, after posted adjustments, and no blocking case is open; completion is stamped with the time.\<close>

theorem completion_means_settled:
  assumes "completeTrade ctx r econ s = Inr (u, t)" "r \<in> set (trade s)" "td_state r \<noteq> TRADE_COMPLETED" "trades_ok s" "ledger_ok s"
    and "economics_of (td_id r) s = Some e"
  shows "payout_obligation (td_id r) s = Some (leg_sum paid_out (td_id r) s) \<and>
    receivable_obligation (td_id r) s = Some (leg_sum sent_in (td_id r) s - leg_sum given_back (td_id r) s) \<and>
    \<not> blocked (td_id r) s \<and> (td_state r = SETTLING \<or> td_state r = PARTIALLY_SETTLED) \<and>
    moved_on r TRADE_COMPLETED (clock s) r \<in> set (trade t) \<and> ledger_ok t"
proof -
  have c: "completes ctx r econ s t" using complete_effect assms(1,2,3,4) by blast
  note guard = completes_transition[OF assms(5) c]
  have obl: "\<exists>p q. payout_obligation (td_id r) s = Some p \<and> receivable_obligation (td_id r) s = Some q"
    using assms(6) by (simp add: payout_obligation_def receivable_obligation_def)
  then show ?thesis using guard assms(2,3) completes_moves[OF c assms(5)] assms(5) obl
    by (auto simp: trade_guard_def completion_refused_def differs_def trade_step_def set_update_where moves_trades_def)
qed

lemma p2p_complete_rupees:
  assumes "te_grossMarginBase e = Some m" "tradeCompleteJournal e i = Inr jo" "ar_currency a = INR"
  shows "journal_on jo a = 0"
proof -
  have "inputs_on (ji_entries j) a = 0" if "jo = Some j" for j using assms that
    by (auto simp: tradeCompleteJournal_def realizeMargin_def journal_def entries_def entry_def split: if_splits option.splits dest!: account_currencies)
  then show ?thesis by (cases jo) (simp_all add: journal_on_def)
qed

text \<open>C24: completing a P2P trade leaves the deferred rupee margin as it stands, whatever rupee margin the posted adjustments of
  the trade put there: only a trade whose margin is in rupees clears that account, against the comment in the code.\<close>

theorem p2p_completion_leaves_rupee_margin:
  assumes "completeTrade ctx r econ s = Inr (u, t)" "r \<in> set (trade s)" "td_state r \<noteq> TRADE_COMPLETED" "trades_ok s" "ledger_ok s"
    and "te_grossMarginBase econ = Some m" "deferredMargin INR = Inr a"
  shows "accountBalance a t = accountBalance a s"
proof -
  have c: "completes ctx r econ s t" using complete_effect assms(1,2,3,4) by blast
  from completes_books[OF c assms(5)] obtain jo where
    "tradeCompleteJournal (trade_economics.truncate econ\<lparr>te_grossMargin := effective_margin econ (td_id r) s\<rparr>) (td_id r) = Inr jo"
    "accountBalance a t = accountBalance a s + journal_on jo a" by blast
  moreover have "te_grossMarginBase (trade_economics.truncate econ\<lparr>te_grossMargin := x\<rparr>) = Some m" for x
    using assms(6) by (simp add: trade_economics.defs)
  ultimately show ?thesis using p2p_complete_rupees account_currencies(7)[OF assms(7)] by (metis add.right_neutral)
qed

section \<open>A sample\<close>

text \<open>The sample trade of \<open>Trades\<close>, settling: the client sent its 100 USDT and was paid its 9,600 rupees; the desk expects 100 rupees more
  margin from a posted adjustment. On the P2P variant the margin is a USDT of the trader's.\<close>

definition settling_id :: string where "settling_id = sample_uuid (CHR ''2'')"

definition settling_trade :: trade_row where
  "settling_trade = \<lparr>td_id = settling_id, td_ref = ''IX-1'', td_quote = ''q1'', td_request = ''rq1'', td_client = account_uuid,
     td_direction = SELL_USDT, td_state = SETTLING, td_hold = False, td_opened_at = 0, td_completed_at = None, td_cancelled_at = None,
     td_created_by = ''op1'', td_version = 4\<rparr>"

definition settling_adjustment :: adjustment_row where
  "settling_adjustment = \<lparr>fa_id = ''fa1'', fa_ref = ''AJ-1'', fa_trade = settling_id, fa_type = ''RATE_CORRECTION'', fa_base = 0, fa_client_inr = 0,
     fa_route_inr = 10000, fa_margin_inr = 10000, fa_reason = ''route paid more'', fa_evidence = None, fa_case = None, fa_status = ADJ_POSTED,
     fa_requested_by = ''op1'', fa_requested_at = 0, fa_approved_by = Some ''op2'', fa_approved_at = Some 0, fa_rejected_by = None, fa_rejected_at = None,
     fa_reject_reason = None, fa_journal = Some ''j1''\<rparr>"

definition settling_history :: "transition_row list" where
  "settling_history = [history_row sample_ctx settling_id None AWAITING_FIRST_LEG 0,
     history_row sample_ctx settling_id (Some AWAITING_FIRST_LEG) FIRST_LEG_DETECTED 0,
     history_row sample_ctx settling_id (Some FIRST_LEG_DETECTED) FIRST_LEG_CONFIRMED 0,
     history_row sample_ctx settling_id (Some FIRST_LEG_CONFIRMED) SETTLING 0]"

definition settling_leg :: "string \<Rightarrow> leg_side \<Rightarrow> currency \<Rightarrow> int \<Rightarrow> leg_row" where
  "settling_leg i side asset amount = \<lparr>sl_id = i, sl_trade = settling_id, sl_side = side, sl_asset = asset, sl_amount = amount,
     sl_status = LEG_COMPLETED, sl_refund = None\<rparr>"

definition settling_obligation :: obligation_row where
  "settling_obligation = \<lparr>ro_id = reservation_uuid, ro_ref = ''RO-1'', ro_route = reservation_uuid, ro_trade = Some settling_id, ro_direction = SELL_USDT,
     ro_exchange_asset = USDT, ro_exchange_minor = 100000000, ro_route_asset = INR, ro_route_minor = 970000, ro_mode = TO_EXCHANGE,
     ro_status = OB_OPEN, ro_settled_at = None, ro_cancelled_at = None, ro_created_by = ''op1''\<rparr>"

definition sample_settling :: obligation_db where
  "sample_settling = trade_db.extend sample_book (obligation_db.fields [] [] 0 0)\<lparr>trade := [settling_trade], trade_transition := settling_history,
     trade_economics := [frozen sample_terms settling_id TO_EXCHANGE], route_obligation := [settling_obligation], financial_adjustment := [settling_adjustment],
     settlement_leg := [settling_leg ''l1'' CLIENT_TO_EXCHANGE USDT 100000000, settling_leg ''l2'' EXCHANGE_TO_CLIENT INR 960000]\<rparr>"

lemma sample_settling_tables [simp]:
  "trade sample_settling = [settling_trade]" "trade_transition sample_settling = settling_history"
  by (simp_all add: sample_settling_def)

lemma sample_settling_ledger: "ledger_ok sample_settling"
proof (rule ledger_ok_cong[OF sample_book_ok])
  show "ledger_account sample_settling = ledger_account sample_book" "ledger_journal sample_settling = ledger_journal sample_book"
    "ledger_entry sample_settling = ledger_entry sample_book" "uuidv7 sample_settling = uuidv7 sample_book" "uuids sample_book \<le> uuids sample_settling"
    by (simp_all add: sample_settling_def trade_db.defs)
qed

lemma sample_settling_from: "trades_from [settling_trade] settling_history sample_settling"
proof -
  have "history settling_id sample_settling = settling_history" by (simp add: history_def settling_history_def history_row_def)
  moreover have "history_ok settling_history SETTLING" by (simp add: history_ok_def settling_history_def history_row_def ALLOWED_def)
  ultimately show ?thesis
    by (simp add: trades_from_def trades_ok_def trades_evolve_refl settling_trade_def) (simp add: settling_history_def history_row_def)
qed

theorem trade_advances_exactly_witness:
  "case advanceTrade posting_ctx settling_id sample_settling of Inl e \<Rightarrow> False
   | Inr (st, t) \<Rightarrow> st = TRADE_COMPLETED \<and> state_of settling_id t = Some TRADE_COMPLETED \<and> ledger_ok t"
proof -
  have ran: "case advanceTrade posting_ctx settling_id sample_settling of Inl e \<Rightarrow> False | Inr (st, t) \<Rightarrow> st = TRADE_COMPLETED" by code_simp
  have "state_of settling_id t = Some st \<and> ledger_ok t" if "advanceTrade posting_ctx settling_id sample_settling = Inr (st, t)" for st t
    using trade_advances_exactly[OF that sample_settling_from sample_settling_ledger] by blast
  with ran show ?thesis by (auto split: sum.splits)
qed

text \<open>The P2P variant: the trader takes 99 of the 100 USDT, so a USDT is the margin, and the posted adjustment carries 100 rupees of margin.\<close>

definition sample_p2p_terms :: accepted_terms where
  "sample_p2p_terms = sample_terms\<lparr>at_route_inr := 960000, at_margin_inr := 0, at_route_base := Some 99000000, at_margin_base := Some 1000000\<rparr>"

definition sample_p2p :: obligation_db where
  "sample_p2p = sample_settling\<lparr>trade_economics := [frozen sample_p2p_terms settling_id P2P],
     route_obligation := [settling_obligation\<lparr>ro_exchange_minor := 99000000, ro_route_minor := 960000, ro_mode := P2P\<rparr>]\<rparr>"

definition sample_p2p_econ :: trade_terms where
  "sample_p2p_econ = trade_economics.extend (economics_money (frozen sample_p2p_terms settling_id P2P))
     (trade_terms.fields reservation_uuid P2P account_uuid reservation_uuid)"

lemma sample_p2p_ok: "settling_trade \<in> set (trade sample_p2p)" "td_state settling_trade \<noteq> TRADE_COMPLETED" "trades_ok sample_p2p" "ledger_ok sample_p2p"
proof -
  show "settling_trade \<in> set (trade sample_p2p)" "td_state settling_trade \<noteq> TRADE_COMPLETED" by (simp_all add: sample_p2p_def settling_trade_def)
  have "trades_from [settling_trade] settling_history sample_p2p" by (rule trades_from_cong[OF sample_settling_from]) (simp_all add: sample_p2p_def)
  then show "trades_ok sample_p2p" by (simp add: trades_from_def)
  show "ledger_ok sample_p2p" by (rule ledger_ok_cong[OF sample_settling_ledger]) (simp_all add: sample_p2p_def)
qed

lemma sample_p2p_completes:
  "case completeTrade posting_ctx settling_trade sample_p2p_econ sample_p2p of Inl e \<Rightarrow> False | Inr r \<Rightarrow> True" by code_simp

theorem completion_means_settled_witness:
  "case completeTrade posting_ctx settling_trade sample_p2p_econ sample_p2p of Inl e \<Rightarrow> False
   | Inr (u, t) \<Rightarrow> leg_sum paid_out settling_id sample_p2p = 960000 \<and> leg_sum sent_in settling_id sample_p2p = 100000000 \<and>
      \<not> blocked settling_id sample_p2p \<and> moved_on settling_trade TRADE_COMPLETED (clock sample_p2p) settling_trade \<in> set (trade t)"
proof -
  have econ: "economics_of (td_id settling_trade) sample_p2p = Some (frozen sample_p2p_terms settling_id P2P)"
    by (simp add: economics_of_def sample_p2p_def settling_trade_def)
  have i: "td_id settling_trade = settling_id" by (simp add: settling_trade_def)
  have legs: "leg_sum paid_out settling_id sample_p2p = 960000" "leg_sum sent_in settling_id sample_p2p = 100000000" by code_simp+
  have "\<not> blocked settling_id sample_p2p \<and> moved_on settling_trade TRADE_COMPLETED (clock sample_p2p) settling_trade \<in> set (trade t)"
    if "completeTrade posting_ctx settling_trade sample_p2p_econ sample_p2p = Inr (u, t)" for u t
    using completion_means_settled[OF that sample_p2p_ok econ] i by auto
  with sample_p2p_completes legs show ?thesis by (auto split: sum.splits)
qed

theorem p2p_completion_leaves_rupee_margin_witness:
  "case completeTrade posting_ctx settling_trade sample_p2p_econ sample_p2p of Inl e \<Rightarrow> False
   | Inr (u, t) \<Rightarrow> posted_sum fa_margin_inr settling_id sample_p2p = 10000 \<and>
      (case deferredMargin INR of Inl e \<Rightarrow> False | Inr a \<Rightarrow> accountBalance a t = accountBalance a sample_p2p)"
proof -
  have posted: "posted_sum fa_margin_inr settling_id sample_p2p = 10000" by code_simp
  have base: "te_grossMarginBase sample_p2p_econ = Some (ofMinor 1000000 USDT)" by code_simp
  have "\<exists>a. deferredMargin INR = Inr a" by (simp add: account_defs account_sub_def)
  then obtain a where a: "deferredMargin INR = Inr a" ..
  have "accountBalance a t = accountBalance a sample_p2p" if "completeTrade posting_ctx settling_trade sample_p2p_econ sample_p2p = Inr (u, t)" for u t
    by (rule p2p_completion_leaves_rupee_margin[OF that sample_p2p_ok base a])
  with sample_p2p_completes posted a show ?thesis by (auto split: sum.splits)
qed

end
