(* ===== verification/Exceptions.thy ===== *)
theory Exceptions
  imports Progress
begin

text \<open>
  Exception cases (\<^verbatim>\<open>packages/settlement/src/exceptions.ts\<close>): opening one, which a blocking type turns into a hold on its trade, taking,
  resolving and voiding it; the trade resumes when its last blocking case goes. With the constraints and triggers of migration
  0015 (types as 0040 left them), and the check of the hold, which PostgreSQL defers to the commit.
\<close>

section \<open>Types\<close>

definition EXCEPTION_TYPES :: "string list" where
  "EXCEPTION_TYPES = [''USDT_WRONG_AMOUNT'', ''USDT_OVERPAYMENT'', ''USDT_UNEXPECTED_SENDER'', ''WRONG_NETWORK'', ''TX_NOT_FINAL'',
     ''ROUTE_DIRECT_PAYOUT_MISMATCH'', ''FUNDS_AFTER_TRADE_CLOSED'', ''UNALLOCATED_DEPOSIT'', ''DEPOSIT_POOL_LOW'',
     ''ROUTE_SETTLEMENT_MISMATCH'', ''ROUTE_OBLIGATION_OVERDUE'', ''DUPLICATE_TX_HASH'', ''DUPLICATE_UTR'',
     ''PARTIAL_INR_PAYOUT'', ''INR_PAYOUT_DELAYED'', ''BANK_TRANSFER_FAILED'', ''CLIENT_BANK_CHANGED'',
     ''ROUTE_CAPACITY_CHANGED'', ''TRADE_CANCELLATION'', ''OPERATOR_MISTAKE'', ''RECONCILIATION_MISMATCH'',
     ''CHAIN_SEND_UNRESOLVED'', ''NETWORK_BUDGET_SHORT'', ''INR_UNEXPECTED_SENDER'', ''P2P_PAYMENT_OVERDUE'', ''P2P_RECEIPT_OVERDUE'',
     ''P2P_DISPUTE'']"

definition SUBJECT_TYPES :: "string list" where
  "SUBJECT_TYPES = [''TRADE'', ''SETTLEMENT_LEG'', ''FIAT_TRANSFER'', ''CRYPTO_TRANSFER'', ''DEPOSIT_ADDRESS'', ''ROUTE_OBLIGATION'',
     ''ROUTE_SETTLEMENT'', ''INR_ACCOUNT'', ''CLIENT'', ''CHAIN_SEND'']"

definition BLOCKING_TYPES :: "string list" where
  "BLOCKING_TYPES = [''USDT_WRONG_AMOUNT'', ''USDT_OVERPAYMENT'', ''USDT_UNEXPECTED_SENDER'', ''WRONG_NETWORK'', ''ROUTE_DIRECT_PAYOUT_MISMATCH'',
     ''FUNDS_AFTER_TRADE_CLOSED'', ''UNALLOCATED_DEPOSIT'', ''ROUTE_SETTLEMENT_MISMATCH'', ''DUPLICATE_TX_HASH'', ''DUPLICATE_UTR'',
     ''BANK_TRANSFER_FAILED'', ''CLIENT_BANK_CHANGED'', ''TRADE_CANCELLATION'', ''OPERATOR_MISTAKE'', ''RECONCILIATION_MISMATCH'',
     ''INR_UNEXPECTED_SENDER'', ''P2P_DISPUTE'']"

definition severityOf :: "string \<Rightarrow> severity" where
  "severityOf ty = (if ty \<in> set BLOCKING_TYPES then BLOCKING else WARNING)"

text \<open>The resolutions an operator may record directly.\<close>

definition NON_FINANCIAL_RESOLUTIONS :: "string list" where
  "NON_FINANCIAL_RESOLUTIONS = [''accept_sender'', ''await_top_up'', ''record_recovery_outcome'', ''hold_in_suspense'', ''attach_evidence_and_void'',
     ''keep_original'', ''reallocate_reservations'', ''create_remaining_leg'', ''create_replacement_leg'',
     ''record_correct_route'', ''record_route_settlement'', ''correct_utr'', ''escalate'']"

definition severity_name :: "severity \<Rightarrow> string" where
  "severity_name x = (case x of BLOCKING \<Rightarrow> ''BLOCKING'' | WARNING \<Rightarrow> ''WARNING'')"

definition case_status_name :: "case_status \<Rightarrow> string" where
  "case_status_name x = (case x of CASE_OPEN \<Rightarrow> ''OPEN'' | CASE_IN_PROGRESS \<Rightarrow> ''IN_PROGRESS'' | CASE_RESOLVED \<Rightarrow> ''RESOLVED'' | CASE_VOID \<Rightarrow> ''VOID'')"

section \<open>What the database refuses\<close>

definition case_step :: "case_status \<Rightarrow> case_status \<Rightarrow> bool" where
  "case_step x y \<longleftrightarrow> x = y \<or> (x, y) \<in> {(CASE_OPEN, CASE_IN_PROGRESS), (CASE_OPEN, CASE_RESOLVED), (CASE_IN_PROGRESS, CASE_RESOLVED),
     (CASE_OPEN, CASE_VOID), (CASE_IN_PROGRESS, CASE_VOID)}"

definition case_checks :: "case_row \<Rightarrow> bool" where
  "case_checks c \<longleftrightarrow> xc_type c \<in> set EXCEPTION_TYPES \<and> xc_subject_type c \<in> set SUBJECT_TYPES \<and> xc_detected_by c \<in> {''SYSTEM'', ''OPERATOR''} \<and>
     (case xc_resolution c of None \<Rightarrow> True | Some r \<Rightarrow> length r \<le> 60) \<and> (case xc_notes c of None \<Rightarrow> True | Some n \<Rightarrow> length n \<le> 2000) \<and>
     (xc_status c \<in> {CASE_RESOLVED, CASE_VOID} \<longleftrightarrow> xc_resolved_at c \<noteq> None \<and> xc_resolved_by c \<noteq> None) \<and>
     (xc_status c = CASE_RESOLVED \<longrightarrow> xc_resolution c \<noteq> None) \<and> (xc_taken_by c = None \<longleftrightarrow> xc_taken_at c = None)"

definition same_case :: "string \<Rightarrow> string \<Rightarrow> string \<Rightarrow> case_row \<Rightarrow> bool" where
  "same_case ty st i c \<longleftrightarrow> case_open c \<and> xc_type c = ty \<and> xc_subject_type c = st \<and> xc_subject c = i"

text \<open>With the primary key, the reference to the trade and the index that allows one open case per type and subject.\<close>

definition insert_case :: "case_row \<Rightarrow> ('x trade_db_scheme, unit) cmd" where
  "insert_case c = (\<lambda>s. if case_checks c \<and> list_all (\<lambda>d. xc_id d \<noteq> xc_id c \<and> \<not> same_case (xc_type c) (xc_subject_type c) (xc_subject c) d) (exception_case s) \<and>
       (case xc_trade c of None \<Rightarrow> True | Some i \<Rightarrow> find_trade i s \<noteq> None)
     then Inr ((), s\<lparr>exception_case := exception_case s @ [c]\<rparr>) else Inl DatabaseError)"

definition update_case :: "string \<Rightarrow> (case_row \<Rightarrow> case_row) \<Rightarrow> ('x trade_db_scheme, unit) cmd" where
  "update_case i f = (\<lambda>s. if list_all (\<lambda>c. xc_id c = i \<longrightarrow> case_step (xc_status c) (xc_status (f c)) \<and> case_checks (f c)) (exception_case s)
     then Inr ((), s\<lparr>exception_case := update_where (\<lambda>c. xc_id c = i) f (exception_case s)\<rparr>) else Inl DatabaseError)"

text \<open>\<^verbatim>\<open>inrp2p_check_trade_hold\<close>, which the triggers on cases and on \<^verbatim>\<open>trade.hold\<close> run at the commit.\<close>

definition hold_consistent :: "string \<Rightarrow> 'x trade_db_scheme \<Rightarrow> bool" where
  "hold_consistent i s \<longleftrightarrow> map_option td_hold (find_trade i s) = Some (blocked i s)"

section \<open>The hold of a trade\<close>

definition syncTradeHold :: "tx_ctx \<Rightarrow> string \<Rightarrow> ('x trade_db_scheme, bool) cmd" where
  "syncTradeHold ctx tradeId =
     bindC (readC (find_trade tradeId)) (\<lambda>row.
     bindC (foundC NoResultError row) (\<lambda>t.
     bindC (readC (blocked tradeId)) (\<lambda>hold.
     bindC (whenC (hold \<noteq> td_hold t)
        (bindC (update_trade (\<lambda>r. td_id r = td_id t) (\<lambda>r. r\<lparr>td_hold := hold, td_version := td_version t + 1\<rparr>)) (\<lambda>_. returnC ()))) (\<lambda>_.
     returnC hold))))"

section \<open>Opening\<close>

record open_exception_input =
  oe_type :: string
  oe_subject_type :: string
  oe_subject :: js
  oe_trade :: "string option"
  oe_detected_by :: string
  oe_details :: js

record opened_case =
  oc_id :: string
  oc_ref :: string
  oc_opened :: bool

definition next_case_ref :: "('x obligation_db_scheme, string) cmd" where
  "next_case_ref = (\<lambda>s. Inr (''EX-'' @ ref_number (Suc (exception_case_ref_seq s)) 6,
     s\<lparr>exception_case_ref_seq := Suc (exception_case_ref_seq s)\<rparr>))"

definition new_case :: "tx_ctx \<Rightarrow> open_exception_input \<Rightarrow> string \<Rightarrow> string \<Rightarrow> string \<Rightarrow> int \<Rightarrow> case_row" where
  "new_case ctx input subject i ref now = \<lparr>xc_id = i, xc_ref = ref, xc_trade = oe_trade input, xc_type = oe_type input,
     xc_severity = severityOf (oe_type input), xc_status = CASE_OPEN, xc_subject_type = oe_subject_type input, xc_subject = subject,
     xc_detected_by = oe_detected_by input, xc_details = oe_details input, xc_opened_by = actor_or_command ctx, xc_opened_at = now,
     xc_taken_by = None, xc_taken_at = None, xc_resolution = None, xc_notes = None, xc_adjustment = None, xc_resolved_by = None,
     xc_resolved_at = None\<rparr>"

definition openExceptionInTx :: "tx_ctx \<Rightarrow> open_exception_input \<Rightarrow> ('x obligation_db_scheme, opened_case) cmd" where
  "openExceptionInTx ctx input =
     bindC (liftC (requireUuid (oe_subject input))) (\<lambda>subject.
     bindC (readC (\<lambda>s. List.find (same_case (oe_type input) (oe_subject_type input) subject) (exception_case s))) (\<lambda>existing.
     case existing of Some c \<Rightarrow> returnC \<lparr>oc_id = xc_id c, oc_ref = xc_ref c, oc_opened = False\<rparr>
     | None \<Rightarrow>
       bindC next_case_ref (\<lambda>ref.
       bindC freshId (\<lambda>i.
       bindC (readC clock) (\<lambda>now.
       bindC (insert_case (new_case ctx input subject i ref now)) (\<lambda>_.
       bindC (case oe_trade input of None \<Rightarrow> returnC ()
         | Some t \<Rightarrow> whenC (severityOf (oe_type input) = BLOCKING) (bindC (syncTradeHold ctx t) (\<lambda>_. returnC ()))) (\<lambda>_.
       bindC (appendAudit ctx ''exception.opened'' ''exception_case'' (Some i) JUndefined
         (JObj [(''ref'', JStr ref), (''type'', JStr (oe_type input)), (''severity'', JStr (severity_name (severityOf (oe_type input)))),
                (''subject_type'', JStr (oe_subject_type input)), (''subject_id'', JStr subject), (''trade_id'', js_opt (oe_trade input)),
                (''details'', oe_details input)])) (\<lambda>_.
       bindC (enqueueOutbox ctx \<lparr>oi_type = ''desk.exception_opened'', oi_aggregate_type = Some ''exception_case'', oi_aggregate_id = Some i,
         oi_payload = JObj [(''exceptionId'', JStr i), (''ref'', JStr ref), (''type'', JStr (oe_type input)),
           (''severity'', JStr (severity_name (severityOf (oe_type input)))), (''tradeId'', js_opt (oe_trade input))]\<rparr>) (\<lambda>_.
       returnC \<lparr>oc_id = i, oc_ref = ref, oc_opened = True\<rparr>)))))))))"

text \<open>The details an operator gave, with the notes over a field of that name. A trade id that is empty counts as none.\<close>

definition js_fields :: "js \<Rightarrow> (string \<times> js) list" where
  "js_fields v = (case v of JObj fs \<Rightarrow> fs | _ \<Rightarrow> [])"

definition opened_details :: "js \<Rightarrow> js result" where
  "opened_details p = (let fs = js_fields (js_field ''details'' p)
     in if js_truthy (js_field ''notes'' p)
        then bindR (requireText (js_field ''notes'' p) 2000) (\<lambda>notes. Inr (JObj (filter (\<lambda>f. fst f \<noteq> ''notes'') fs @ [(''notes'', JStr notes)])))
        else Inr (JObj fs))"

definition js_opened :: "opened_case \<Rightarrow> js" where
  "js_opened c = JObj [(''exceptionId'', JStr (oc_id c)), (''ref'', JStr (oc_ref c)), (''opened'', JBool (oc_opened c))]"

definition openException :: "operator_actor \<Rightarrow> tx_ctx \<Rightarrow> js \<Rightarrow> ('x obligation_db_scheme, js) cmd" where
  "openException a = operatorHandle a ''exception:open'' (\<lambda>ctx p dec.
     bindC (liftC (requireOneOf (js_field ''type'' p) EXCEPTION_TYPES)) (\<lambda>ty.
     let named = js_truthy (js_field ''tradeId'' p)
     in bindC (whenC named (bindC (lockTrade (js_field ''tradeId'' p)) (\<lambda>_. returnC ()))) (\<lambda>_.
     bindC (liftC (opened_details p)) (\<lambda>details.
     bindC (openExceptionInTx ctx \<lparr>oe_type = ty, oe_subject_type = string_or_empty (js_field ''subjectType'' p), oe_subject = js_field ''subjectId'' p,
        oe_trade = (if named then Some (string_or_empty (js_field ''tradeId'' p)) else None), oe_detected_by = ''OPERATOR'', oe_details = details\<rparr>) (\<lambda>c.
     returnC (js_opened c))))))"

section \<open>Taking, resolving, voiding\<close>

definition lockException :: "js \<Rightarrow> ('x trade_db_scheme, case_row) cmd" where
  "lockException exceptionId =
     bindC (liftC (requireUuid exceptionId)) (\<lambda>i.
     bindC (readC (\<lambda>s. List.find (\<lambda>c. xc_id c = i) (exception_case s))) (\<lambda>row.
     foundC (CoreError NOT_FOUND) row))"

definition takeException :: "operator_actor \<Rightarrow> tx_ctx \<Rightarrow> js \<Rightarrow> ('x obligation_db_scheme, js) cmd" where
  "takeException a = operatorHandle a ''exception:resolve'' (\<lambda>ctx p dec.
     bindC (lockException (js_field ''exceptionId'' p)) (\<lambda>c.
     bindC (unlessC (xc_status c = CASE_OPEN) (ReferenceError INVALID_TRANSITION)) (\<lambda>_.
     bindC (readC clock) (\<lambda>now.
     bindC (update_case (xc_id c) (\<lambda>x. x\<lparr>xc_status := CASE_IN_PROGRESS, xc_taken_by := Some (actorLabel ctx), xc_taken_at := Some now\<rparr>)) (\<lambda>_.
     bindC (appendAudit ctx ''exception.taken'' ''exception_case'' (Some (xc_id c)) (JObj [(''status'', JStr (case_status_name (xc_status c)))])
        (JObj [(''status'', JStr ''IN_PROGRESS'')])) (\<lambda>_.
     returnC (JObj [(''status'', JStr ''IN_PROGRESS'')])))))))"

definition sync_case_hold :: "tx_ctx \<Rightarrow> case_row \<Rightarrow> ('x trade_db_scheme, unit) cmd" where
  "sync_case_hold ctx c = (case xc_trade c of None \<Rightarrow> returnC () | Some t \<Rightarrow> bindC (syncTradeHold ctx t) (\<lambda>_. returnC ()))"

definition resolveExceptionInTx :: "tx_ctx \<Rightarrow> js \<Rightarrow> string \<Rightarrow> js \<Rightarrow> string option \<Rightarrow> ('x obligation_db_scheme, js) cmd" where
  "resolveExceptionInTx ctx exceptionId resolution notes adjustmentId =
     bindC (lockException exceptionId) (\<lambda>c.
     bindC (unlessC (case_open c) (ReferenceError INVALID_TRANSITION)) (\<lambda>_.
     bindC (liftC (requireText notes 2000)) (\<lambda>notes.
     bindC (readC clock) (\<lambda>now.
     bindC (update_case (xc_id c) (\<lambda>x. x\<lparr>xc_status := CASE_RESOLVED, xc_resolution := Some resolution, xc_notes := Some notes,
        xc_adjustment := adjustmentId, xc_resolved_by := Some (actor_or_command ctx), xc_resolved_at := Some now\<rparr>)) (\<lambda>_.
     bindC (sync_case_hold ctx c) (\<lambda>_.
     bindC (appendAudit ctx ''exception.resolved'' ''exception_case'' (Some (xc_id c)) (JObj [(''status'', JStr (case_status_name (xc_status c)))])
        (JObj [(''status'', JStr ''RESOLVED''), (''resolution'', JStr resolution), (''notes'', JStr notes)])) (\<lambda>_.
     returnC (JObj [(''status'', JStr ''RESOLVED'')]))))))))"

definition lockTradeOfException :: "js \<Rightarrow> ('x trade_db_scheme, string option) cmd" where
  "lockTradeOfException exceptionId =
     bindC (liftC (requireUuid exceptionId)) (\<lambda>i.
     bindC (readC (\<lambda>s. List.find (\<lambda>c. xc_id c = i) (exception_case s))) (\<lambda>row.
     bindC (foundC (CoreError NOT_FOUND) row) (\<lambda>peek.
     bindC (unlessC (xc_type peek \<noteq> ''P2P_DISPUTE'') (ReferenceError INVALID_TRANSITION)) (\<lambda>_.
     bindC (case xc_trade peek of None \<Rightarrow> returnC () | Some t \<Rightarrow> bindC (lockTrade (JStr t)) (\<lambda>_. returnC ())) (\<lambda>_.
     returnC (xc_trade peek))))))"

definition advance_if :: "tx_ctx \<Rightarrow> string option \<Rightarrow> ('x obligation_db_scheme, unit) cmd" where
  "advance_if ctx tradeId = (case tradeId of None \<Rightarrow> returnC () | Some t \<Rightarrow> bindC (advanceTrade ctx t) (\<lambda>_. returnC ()))"

definition resolveException :: "operator_actor \<Rightarrow> tx_ctx \<Rightarrow> js \<Rightarrow> ('x obligation_db_scheme, js) cmd" where
  "resolveException a = operatorHandle a ''exception:resolve'' (\<lambda>ctx p dec.
     bindC (liftC (requireOneOf (js_field ''resolution'' p) NON_FINANCIAL_RESOLUTIONS)) (\<lambda>resolution.
     bindC (lockTradeOfException (js_field ''exceptionId'' p)) (\<lambda>tradeId.
     bindC (resolveExceptionInTx ctx (js_field ''exceptionId'' p) resolution (js_field ''notes'' p) None) (\<lambda>out.
     bindC (advance_if ctx tradeId) (\<lambda>_.
     returnC out)))))"

definition voidException :: "operator_actor \<Rightarrow> tx_ctx \<Rightarrow> js \<Rightarrow> ('x obligation_db_scheme, js) cmd" where
  "voidException a = operatorHandle a ''exception:resolve'' (\<lambda>ctx p dec.
     bindC (lockTradeOfException (js_field ''exceptionId'' p)) (\<lambda>tradeId.
     bindC (lockException (js_field ''exceptionId'' p)) (\<lambda>c.
     bindC (unlessC (case_open c) (ReferenceError INVALID_TRANSITION)) (\<lambda>_.
     bindC (liftC (requireText (js_field ''reason'' p) 2000)) (\<lambda>reason.
     bindC (readC clock) (\<lambda>now.
     bindC (update_case (xc_id c) (\<lambda>x. x\<lparr>xc_status := CASE_VOID, xc_notes := Some reason, xc_resolved_by := Some (actorLabel ctx),
        xc_resolved_at := Some now\<rparr>)) (\<lambda>_.
     bindC (sync_case_hold ctx c) (\<lambda>_.
     bindC (appendAudit ctx ''exception.voided'' ''exception_case'' (Some (xc_id c)) (JObj [(''status'', JStr (case_status_name (xc_status c)))])
        (JObj [(''status'', JStr ''VOID''), (''reason'', JStr reason)])) (\<lambda>_.
     bindC (advance_if ctx tradeId) (\<lambda>_.
     returnC (JObj [(''status'', JStr ''VOID'')])))))))))))"

section \<open>The invariant of cases and holds\<close>

definition case_key :: "case_row \<Rightarrow> string \<times> string \<times> string" where
  "case_key c = (xc_type c, xc_subject_type c, xc_subject c)"

definition cases_ok :: "'x trade_db_scheme \<Rightarrow> bool" where
  "cases_ok s \<longleftrightarrow> distinct (map xc_id (exception_case s)) \<and> distinct (map case_key (filter case_open (exception_case s))) \<and>
     (\<forall>c \<in> set (exception_case s). \<forall>i. xc_trade c = Some i \<longrightarrow> i \<in> td_id ` set (trade s))"

definition holds_ok :: "'x trade_db_scheme \<Rightarrow> bool" where
  "holds_ok s \<longleftrightarrow> (\<forall>t \<in> set (trade s). td_hold t \<longleftrightarrow> blocked (td_id t) s)"

definition holds_except :: "string option \<Rightarrow> 'x trade_db_scheme \<Rightarrow> bool" where
  "holds_except i s \<longleftrightarrow> (\<forall>t \<in> set (trade s). Some (td_id t) \<noteq> i \<longrightarrow> (td_hold t \<longleftrightarrow> blocked (td_id t) s))"

text \<open>An obligation whose sides an adjustment just moved, before its status is refreshed.\<close>

definition sides_fit :: "obligation_row \<Rightarrow> 'x obligation_db_scheme \<Rightarrow> bool" where
  "sides_fit r s \<longleftrightarrow> (ro_status r \<noteq> OB_CANCELLED \<longrightarrow> 0 \<le> side_left r ROUTE_DELIVERS s \<and> 0 \<le> side_left r EXCHANGE_DELIVERS s \<and>
     (ro_status r = OB_SETTLED \<longrightarrow> side_left r ROUTE_DELIVERS s = 0 \<and> side_left r EXCHANGE_DELIVERS s = 0))"

definition obligations_but :: "string option \<Rightarrow> 'x obligation_db_scheme \<Rightarrow> bool" where
  "obligations_but ob s \<longleftrightarrow> distinct (map ro_id (route_obligation s)) \<and>
     (\<forall>r \<in> set (route_obligation s). if Some (ro_id r) = ob then sides_fit r s else sides_ok r s) \<and>
     (\<forall>a \<in> set (route_settlement_allocation s). \<exists>r \<in> set (route_obligation s). ro_id r = ra_obligation a)"

lemma obligations_but_None: "obligations_but None s \<longleftrightarrow> obligations_ok s"
  by (simp add: obligations_but_def obligations_ok_def)

text \<open>The references the tables keep, and that an obligation is the one of its trade's frozen terms.\<close>

definition refs_ok :: "'x obligation_db_scheme \<Rightarrow> bool" where
  "refs_ok s \<longleftrightarrow> distinct (map fa_id (financial_adjustment s)) \<and> distinct (map ec_trade (trade_economics s)) \<and> distinct (map ro_trade (route_obligation s)) \<and>
     fa_trade ` set (financial_adjustment s) \<subseteq> td_id ` set (trade s) \<and> ec_trade ` set (trade_economics s) \<subseteq> td_id ` set (trade s) \<and>
     (\<forall>r \<in> set (route_obligation s). obligation_checks r \<and> (\<exists>e \<in> set (trade_economics s). ro_trade r = Some (ec_trade e) \<and> obligation_matches r e))"

text \<open>What the commands keep. \<open>desk_but ob i\<close> is the state between changing a case and recomputing the hold of its trade \<open>i\<close>, and between
  posting an adjustment and refreshing the obligation \<open>ob\<close>.\<close>

definition desk_but :: "trade_row list \<Rightarrow> transition_row list \<Rightarrow> string option \<Rightarrow> string option \<Rightarrow> 'x obligation_db_scheme \<Rightarrow> bool" where
  "desk_but ts hs ob i s \<longleftrightarrow> trades_from ts hs s \<and> ledger_ok s \<and> obligations_but ob s \<and> cases_ok s \<and> refs_ok s \<and> holds_except i s"

abbreviation desk_ok :: "trade_row list \<Rightarrow> transition_row list \<Rightarrow> string option \<Rightarrow> 'x obligation_db_scheme \<Rightarrow> bool" where
  "desk_ok ts hs ob \<equiv> desk_but ts hs ob None"

lemma holds_except_None: "holds_except None s \<longleftrightarrow> holds_ok s"
  by (simp add: holds_except_def holds_ok_def)

lemma obligations_but_cong:
  "obligations_but ob s \<Longrightarrow> route_obligation t = route_obligation s \<Longrightarrow> financial_adjustment t = financial_adjustment s \<Longrightarrow>
   route_settlement_allocation t = route_settlement_allocation s \<Longrightarrow> obligations_but ob t"
proof -
  assume ok: "obligations_but ob s" and same: "route_obligation t = route_obligation s" "financial_adjustment t = financial_adjustment s"
    "route_settlement_allocation t = route_settlement_allocation s"
  have "side_left r side t = side_left r side s" for r side by (rule side_left_cong) (simp_all add: same same_sides_def)
  then have "sides_ok r t = sides_ok r s" "sides_fit r t = sides_fit r s" for r by (simp_all add: sides_ok_def sides_fit_def)
  with ok same show ?thesis by (simp add: obligations_but_def)
qed

lemma refs_cong:
  "refs_ok s \<Longrightarrow> td_id ` set (trade t) = td_id ` set (trade s) \<Longrightarrow> financial_adjustment t = financial_adjustment s \<Longrightarrow>
   trade_economics t = trade_economics s \<Longrightarrow> route_obligation t = route_obligation s \<Longrightarrow> refs_ok t"
  by (simp add: refs_ok_def)

lemma blocked_cong: "exception_case t = exception_case s \<Longrightarrow> blocked i t \<longleftrightarrow> blocked i s"
  by (simp add: blocked_def)

lemma same_holds: "holds_of t = holds_of s \<Longrightarrow> exception_case t = exception_case s \<Longrightarrow> holds_except i s \<Longrightarrow> holds_except i t"
proof -
  assume same: "holds_of t = holds_of s" "exception_case t = exception_case s" and ok: "holds_except i s"
  have "Some (td_id x) \<noteq> i \<longrightarrow> (td_hold x \<longleftrightarrow> blocked (td_id x) t)" if "x \<in> set (trade t)" for x
  proof -
    have "(td_id x, td_hold x) \<in> set (holds_of t)" using that by (auto simp: holds_of_def)
    then obtain y where "y \<in> set (trade s)" "td_id y = td_id x" "td_hold y = td_hold x" unfolding same(1) by (auto simp: holds_of_def)
    then show ?thesis using ok blocked_cong[OF same(2)] unfolding holds_except_def by metis
  qed
  then show ?thesis unfolding holds_except_def by blast
qed

lemma holds_fst: "map fst (holds_of s) = map td_id (trade s)"
  by (simp add: holds_of_def)

lemma holds_ids: "holds_of t = holds_of s \<Longrightarrow> td_id ` set (trade t) = td_id ` set (trade s)"
  using holds_fst[of t] holds_fst[of s] by (metis set_map)

lemma moves_desk: "moves_trades s t \<Longrightarrow> desk_but ts hs ob i s \<Longrightarrow> desk_but ts hs ob i t"
proof -
  assume m: "moves_trades s t" and ok: "desk_but ts hs ob i s"
  have same: "exception_case t = exception_case s" "holds_of t = holds_of s" "td_id ` set (trade t) = td_id ` set (trade s)"
    using m holds_ids[of t s] by (simp_all add: moves_trades_def same_terms_def)
  have "holds_except i t" using same_holds[OF same(2,1)] ok by (simp add: desk_but_def)
  moreover have "obligations_but ob t" using ok m obligations_but_cong[of ob s t] by (simp add: desk_but_def moves_trades_def same_defs)
  moreover have "refs_ok t" using ok m same(3) refs_cong[of s t] by (simp add: desk_but_def moves_trades_def same_defs)
  ultimately show ?thesis using ok m same by (simp add: desk_but_def moves_trades_def cases_ok_def)
qed

lemma desk_frame: "same_desk s t \<Longrightarrow> desk_but ts hs ob i s \<Longrightarrow> desk_but ts hs ob i t"
  by (rule moves_desk[OF desk_moves])

lemma same_desk_case_seq: "same_desk s (s\<lparr>exception_case_ref_seq := n\<rparr>)"
  by (simp add: same_defs)

lemma frames_keep: "(\<And>s. keeps (same_desk s) m) \<Longrightarrow> keeps (desk_but ts hs ob i) m"
  by (rule keepsI) (use desk_frame same_desk_refl keepsD in metis)

lemma case_frames: "keeps (same_desk s) next_case_ref" "keeps (same_desk s) (authorizeOperator a perm)"
  by (auto simp: keeps_def next_case_ref_def same_defs dest: authorize_state)

lemma desk_case_frames [inv_intros]:
  "keeps (desk_but ts hs ob i) (appendAudit ctx action ty k x y)" "keeps (desk_but ts hs ob i) (assertLockOrder l)" "keeps (desk_but ts hs ob i) freshId"
  "keeps (desk_but ts hs ob i) (enqueueOutbox ctx ev)" "keeps (desk_but ts hs ob i) next_case_ref" "keeps (desk_but ts hs ob i) (authorizeOperator a perm)"
  by (rule frames_keep desk_frames case_frames)+

lemma locks_keep [inv_intros]: "keeps (desk_but ts hs ob i) (lockTrade v)" "keeps (desk_but ts hs ob i) (lockException w)"
    "keeps (desk_but ts hs ob i) (lockTradeOfException w)"
  unfolding lockTrade_def lockException_def lockTradeOfException_def
  by (intro inv_intros | simp split: option.split | intro conjI allI impI)+

lemma advance_keeps [inv_intros]: "keeps (desk_but ts hs ob i) (advanceTrade ctx k)"
  by (rule keepsI) (rule moves_desk[OF advance_moves], auto simp: desk_but_def trades_from_def)

section \<open>Recomputing the hold\<close>

lemma sync_effect:
  assumes "syncTradeHold ctx i s = Inr (h, t)"
  shows "\<exists>r. find_trade i s = Some r \<and> h = blocked i s \<and> (td_hold r = h \<and> t = s \<or>
     td_hold r \<noteq> h \<and> t = s\<lparr>trade := update_where (\<lambda>x. td_id x = i) (\<lambda>x. x\<lparr>td_hold := h, td_version := td_version r + 1\<rparr>) (trade s)\<rparr>)"
proof -
  from assms obtain r where r: "find_trade i s = Some r" and h: "h = blocked i s" unfolding syncTradeHold_def by auto
  have i: "td_id r = i" using find_trade_Some[OF r] by simp
  show ?thesis
  proof (cases "td_hold r = blocked i s")
    case True
    then show ?thesis using assms r h unfolding syncTradeHold_def by simp
  next
    case False
    then show ?thesis using assms r h i unfolding syncTradeHold_def update_trade_def by (auto split: if_splits)
  qed
qed

lemma sync_keeps:
  assumes run: "syncTradeHold ctx k s = Inr (h, t)" and ok: "desk_but ts hs ob (Some k) s"
  shows "desk_ok ts hs ob t"
proof -
  from sync_effect[OF run] obtain r where r: "find_trade k s = Some r" "h = blocked k s" and
    t: "td_hold r = h \<and> t = s \<or> td_hold r \<noteq> h \<and> t = s\<lparr>trade := update_where (\<lambda>x. td_id x = k) (\<lambda>x. x\<lparr>td_hold := h, td_version := td_version r + 1\<rparr>) (trade s)\<rparr>"
    by blast
  have tok: "trades_ok s" using ok by (simp add: desk_but_def trades_from_def)
  have row: "r \<in> set (trade s)" "td_id r = k" using find_trade_Some[OF r(1)] by auto
  have only: "x = r" if "x \<in> set (trade s)" "td_id x = k" for x using unique_trade[OF tok that(1) row(1)] that(2) row(2) by simp
  from t show ?thesis
  proof
    assume same: "td_hold r = h \<and> t = s"
    have "td_hold x \<longleftrightarrow> blocked (td_id x) s" if "x \<in> set (trade s)" for x
      using ok only[OF that] same r(2) that by (cases "td_id x = k") (auto simp: desk_but_def holds_except_def)
    then show ?thesis using ok same by (simp add: desk_but_def holds_except_def)
  next
    let ?f = "\<lambda>x. x\<lparr>td_hold := h, td_version := td_version r + 1\<rparr>"
    assume "td_hold r \<noteq> h \<and> t = s\<lparr>trade := update_where (\<lambda>x. td_id x = k) ?f (trade s)\<rparr>"
    then have t: "t = s\<lparr>trade := update_where (\<lambda>x. td_id x = k) ?f (trade s)\<rparr>" by simp
    have ids: "map td_id (trade t) = map td_id (trade s)" by (simp add: t)
    then have idset: "td_id ` set (trade t) = td_id ` set (trade s)" unfolding set_map[symmetric] by simp
    have "trades_evolve ts (trade t)" using ok only unfolding t
      by simp (intro trades_evolve_update, auto simp: desk_but_def trades_from_def trade_succ_def same_trade_def)
    moreover have "trades_ok t"
    proof -
      have hist: "history j t = history j s" for j by (simp add: t history_def)
      have "\<exists>y \<in> set (trade s). td_id x = td_id y \<and> td_state x = td_state y \<and> td_completed_at x = td_completed_at y \<and> td_cancelled_at x = td_cancelled_at y"
        if "x \<in> set (trade t)" for x using that by (auto simp: t set_update_where)
      then have "history_ok (history (td_id x) t) (td_state x) \<and> (td_state x = TRADE_COMPLETED \<longrightarrow> td_completed_at x \<noteq> None) \<and>
          (td_state x = TRADE_CANCELLED \<longrightarrow> td_cancelled_at x \<noteq> None)" if "x \<in> set (trade t)" for x
        using that tok unfolding trades_ok_def hist by metis
      moreover have "\<exists>x \<in> set (trade t). td_id x = tt_trade h" if mem: "h \<in> set (trade_transition t)" for h
      proof -
        obtain y where "y \<in> set (trade s)" "td_id y = tt_trade h" using mem tok by (auto simp: t trades_ok_def)
        then have "tt_trade h \<in> td_id ` set (trade t)" unfolding idset by (metis imageI)
        then show ?thesis by auto
      qed
      ultimately show ?thesis using tok ids by (simp add: trades_ok_def)
    qed
    ultimately have "trades_from ts hs t" using ok by (simp add: desk_but_def trades_from_def t)
    moreover have "ledger_ok t" using ok ledger_ok_cong[of s t] by (simp add: desk_but_def t)
    moreover have "obligations_but ob t" using ok obligations_but_cong[of ob s t] by (simp add: desk_but_def t)
    moreover have "refs_ok t" using ok refs_cong[OF _ idset] by (simp add: desk_but_def t)
    moreover have "cases_ok t" using ok idset by (simp add: desk_but_def cases_ok_def) (simp add: t)
    moreover have "holds_ok t" using ok r(2) only by (auto simp: t holds_ok_def set_update_where desk_but_def holds_except_def blocked_def)
    ultimately show ?thesis by (simp add: desk_but_def holds_except_None)
  qed
qed

section \<open>Every command keeps it\<close>

text \<open>An update of a case that leaves what identifies it, and never opens it again.\<close>

definition recases :: "(case_row \<Rightarrow> case_row) \<Rightarrow> bool" where
  "recases f \<longleftrightarrow> (\<forall>c. xc_id (f c) = xc_id c \<and> xc_trade (f c) = xc_trade c \<and> xc_severity (f c) = xc_severity c \<and> case_key (f c) = case_key c)"

lemma distinct_closing:
  assumes "distinct (map k (filter p xs))" "\<And>x. x \<in> set xs \<Longrightarrow> p (g x) \<Longrightarrow> p x" "\<And>x. k (g x) = k x"
  shows "distinct (map k (filter p (map g xs)))"
proof -
  have "map k (filter p (map g xs)) = map k (filter (\<lambda>x. p (g x)) (filter p xs))" using assms(2,3) by (induction xs) auto
  then show ?thesis using distinct_map_filter[OF assms(1)] by metis
qed

lemma list_ex_same: "(\<And>x. x \<in> set xs \<Longrightarrow> P (g x) \<longleftrightarrow> P x) \<Longrightarrow> list_ex P (map g xs) \<longleftrightarrow> list_ex P xs"
  by (induction xs) auto

lemma recase_keeps:
  assumes ok: "desk_ok ts hs ob s" and c: "List.find (\<lambda>c. xc_id c = i) (exception_case s) = Some c"
    and run: "update_case i f s = Inr (u, t)" and f: "recases f" "case_open (f c) \<Longrightarrow> case_open c"
  shows "desk_but ts hs ob (if case_open (f c) = case_open c then None else xc_trade c) t"
proof -
  have mem: "c \<in> set (exception_case s)" "xc_id c = i" using find_Some_mem[OF c] by auto
  have cok: "cases_ok s" using ok by (simp add: desk_but_def)
  have only: "x = c" if "x \<in> set (exception_case s)" "xc_id x = i" for x
    using cok that mem unfolding cases_ok_def distinct_map by (metis inj_onD)
  let ?g = "\<lambda>x. if xc_id x = i then f x else x"
  have t: "t = s\<lparr>exception_case := map ?g (exception_case s)\<rparr>" using run by (auto simp: update_case_def update_where_def split: if_splits)
  have rows: "exception_case t = map ?g (exception_case s)" by (simp add: t)
  have keep: "xc_id (?g x) = xc_id x" "xc_trade (?g x) = xc_trade x" "case_key (?g x) = case_key x" "xc_severity (?g x) = xc_severity x" for x
    using f(1) by (auto simp: recases_def)
  have "cases_ok t"
  proof -
    have ids: "map xc_id (exception_case t) = map xc_id (exception_case s)" using keep(1) by (simp add: t)
    have "\<exists>y \<in> set (exception_case s). xc_trade x = xc_trade y" if "x \<in> set (exception_case t)" for x
    proof -
      have "x \<in> ?g ` set (exception_case s)" using that unfolding rows set_map .
      then obtain y where "y \<in> set (exception_case s)" "x = ?g y" by (rule imageE)
      with keep(2)[of y] show ?thesis by blast
    qed
    then have "\<forall>x \<in> set (exception_case t). \<forall>k. xc_trade x = Some k \<longrightarrow> k \<in> td_id ` set (trade s)" using cok unfolding cases_ok_def by metis
    moreover have "distinct (map case_key (filter case_open (map ?g (exception_case s))))"
      by (rule distinct_closing) (use cok only f(2) keep(3) in \<open>auto simp: cases_ok_def split: if_splits\<close>)
    ultimately show ?thesis using cok unfolding cases_ok_def ids by (simp add: t)
  qed
  moreover have "blocked j t \<longleftrightarrow> blocked j s" if "case_open (f c) = case_open c \<or> Some j \<noteq> xc_trade c" for j
  proof -
    have "xc_trade (?g x) = Some j \<and> xc_severity (?g x) = BLOCKING \<and> case_open (?g x) \<longleftrightarrow> xc_trade x = Some j \<and> xc_severity x = BLOCKING \<and> case_open x"
      if "x \<in> set (exception_case s)" for x using only[OF that] keep(2,4)[of x] \<open>case_open (f c) = case_open c \<or> Some j \<noteq> xc_trade c\<close> by (cases "xc_id x = i") auto
    then show ?thesis unfolding blocked_def rows by (rule list_ex_same)
  qed
  then have "holds_except (if case_open (f c) = case_open c then None else xc_trade c) t"
    using ok by (simp add: desk_but_def holds_except_def t)
  moreover have "trades_from ts hs t" "ledger_ok t" "obligations_but ob t" "refs_ok t"
    using ok trades_from_cong[of ts hs s t] ledger_ok_cong[of s t] obligations_but_cong[of ob s t] refs_cong[of s t] by (simp_all add: desk_but_def t)
  ultimately show ?thesis by (simp add: desk_but_def)
qed

lemma sync_case_keeps: "desk_but ts hs ob (xc_trade c) s \<Longrightarrow> sync_case_hold ctx c s = Inr (u, t) \<Longrightarrow> desk_ok ts hs ob t"
  using sync_keeps by (fastforce simp: sync_case_hold_def split: option.splits)

lemma new_case_keeps:
  assumes ok: "desk_ok ts hs ob s" and run: "insert_case c s = Inr (u, t)"
  shows "desk_but ts hs ob (if xc_severity c = BLOCKING \<and> case_open c then xc_trade c else None) t"
proof -
  have t: "t = s\<lparr>exception_case := exception_case s @ [c]\<rparr>" and new: "\<forall>d \<in> set (exception_case s). xc_id d \<noteq> xc_id c \<and>
      \<not> same_case (xc_type c) (xc_subject_type c) (xc_subject c) d" and named: "\<forall>k. xc_trade c = Some k \<longrightarrow> k \<in> td_id ` set (trade s)"
    using run by (auto simp: insert_case_def list_all_iff split: if_splits option.splits dest!: find_trade_Some)
  have "cases_ok t" using ok new named by (auto simp: desk_but_def cases_ok_def t case_key_def same_case_def)
  moreover have "blocked j t \<longleftrightarrow> blocked j s \<or> (xc_trade c = Some j \<and> xc_severity c = BLOCKING \<and> case_open c)" for j by (simp add: blocked_def t)
  then have "holds_except (if xc_severity c = BLOCKING \<and> case_open c then xc_trade c else None) t"
    using ok by (auto simp: desk_but_def holds_except_def t)
  moreover have "trades_from ts hs t" "ledger_ok t" "obligations_but ob t" "refs_ok t"
    using ok trades_from_cong[of ts hs s t] ledger_ok_cong[of s t] obligations_but_cong[of ob s t] refs_cong[of s t] by (simp_all add: desk_but_def t)
  ultimately show ?thesis by (simp add: desk_but_def)
qed

lemma open_case_keeps: "keeps (desk_ok ts hs ob) (openExceptionInTx ctx input)"
proof (rule keepsI)
  fix s out t assume ok: "desk_ok ts hs ob s" and run: "openExceptionInTx ctx input s = Inr (out, t)"
  show "desk_ok ts hs ob t"
  proof (cases "\<exists>subject c. requireUuid (oe_subject input) = Inr subject \<and>
      List.find (same_case (oe_type input) (oe_subject_type input) subject) (exception_case s) = Some c")
    case True
    then show ?thesis using ok run by (auto simp: openExceptionInTx_def)
  next
    case False
    with run obtain subject ref s1 c s2 s3 ev w i where seq: "next_case_ref s = Inr (ref, s1)"
      and c: "c = new_case ctx input subject (uuidv7 s1 (uuids s1)) ref (clock s1)" and ins: "insert_case c (s1\<lparr>uuids := Suc (uuids s1)\<rparr>) = Inr ((), s2)"
      and sync: "(case oe_trade input of None \<Rightarrow> returnC ()
         | Some t \<Rightarrow> whenC (severityOf (oe_type input) = BLOCKING) (bindC (syncTradeHold ctx t) (\<lambda>_. returnC ()))) s2 = Inr ((), s3)"
      and last: "enqueueOutbox ctx ev (s3\<lparr>audit_event := w\<rparr>) = Inr (i, t)"
      unfolding openExceptionInTx_def by (auto split: option.splits)
    have "desk_ok ts hs ob (s1\<lparr>uuids := Suc (uuids s1)\<rparr>)"
    proof (rule desk_frame)
      show "same_desk s (s1\<lparr>uuids := Suc (uuids s1)\<rparr>)" using seq by (auto simp: next_case_ref_def same_defs)
    qed (rule ok)
    note but = new_case_keeps[OF this ins]
    have shape: "xc_severity c = severityOf (oe_type input)" "case_open c" "xc_trade c = oe_trade input" by (simp_all add: c new_case_def case_open_def)
    have "desk_ok ts hs ob s3"
    proof (cases "oe_trade input")
      case None
      then show ?thesis using but sync shape by (simp split: if_splits)
    next
      case (Some k)
      then show ?thesis using but sync shape sync_keeps by (fastforce split: if_splits)
    qed
    moreover have "same_desk s3 (s3\<lparr>audit_event := w\<rparr>)" by (simp add: same_defs)
    ultimately have "desk_ok ts hs ob (s3\<lparr>audit_event := w\<rparr>)" by (blast intro: desk_frame)
    then show ?thesis using desk_frame[OF outbox_desk[OF last]] by blast
  qed
qed

lemma lock_case: "lockException v s = Inr (c, t) \<Longrightarrow> t = s \<and> List.find (\<lambda>x. xc_id x = xc_id c) (exception_case s) = Some c"
proof -
  assume "lockException v s = Inr (c, t)"
  then obtain i where "t = s" "List.find (\<lambda>x. xc_id x = i) (exception_case s) = Some c" by (auto simp: lockException_def)
  with find_Some_mem[OF this(2)] show ?thesis by auto
qed

lemma take_keeps: "keeps (desk_ok ts hs ob) (takeException a ctx p)"
proof (rule keepsI)
  fix s out t assume ok: "desk_ok ts hs ob s" and run: "takeException a ctx p s = Inr (out, t)"
  let ?f = "\<lambda>x. x\<lparr>xc_status := CASE_IN_PROGRESS, xc_taken_by := Some (actorLabel ctx), xc_taken_at := Some (clock s)\<rparr>"
  from operatorHandle_Inr[OF run[unfolded takeException_def]] obtain c s1 x1 x2 x3 x4 x5 where
    c: "List.find (\<lambda>x. xc_id x = xc_id c) (exception_case s) = Some c" "xc_status c = CASE_OPEN"
    and upd: "update_case (xc_id c) ?f s = Inr ((), s1)" and t: "appendAudit ctx x1 x2 x3 x4 x5 s1 = Inr ((), t)"
    by (clarsimp simp: guard_Inr simp del: appendAudit_run dest!: lock_case)
  have "desk_but ts hs ob (if case_open (?f c) = case_open c then None else xc_trade c) s1"
    by (rule recase_keeps[OF ok c(1) upd]) (simp_all add: recases_def case_key_def case_open_def c(2))
  then have "desk_ok ts hs ob s1" by (simp add: case_open_def c(2))
  with desk_case_frames(1) show "desk_ok ts hs ob t" using t by (rule keepsD)
qed

text \<open>Closing a case and recomputing the hold.\<close>

lemma close_keeps:
  assumes ok: "desk_ok ts hs ob s" and c: "List.find (\<lambda>x. xc_id x = xc_id c) (exception_case s) = Some c" "case_open c"
    and run: "update_case (xc_id c) f s = Inr (u, s1)" "sync_case_hold ctx c s1 = Inr (v, s2)" and f: "recases f" "\<not> case_open (f c)"
  shows "desk_ok ts hs ob s2"
  using recase_keeps[OF ok c(1) run(1) f(1)] sync_case_keeps[OF _ run(2)] c(2) f(2) by auto

lemma resolve_in_tx_keeps: "keeps (desk_ok ts hs ob) (resolveExceptionInTx ctx v resolution notes adj)"
proof (rule keepsI)
  fix s out t assume ok: "desk_ok ts hs ob s" and run: "resolveExceptionInTx ctx v resolution notes adj s = Inr (out, t)"
  let ?f = "\<lambda>n x. x\<lparr>xc_status := CASE_RESOLVED, xc_resolution := Some resolution, xc_notes := Some n,
        xc_adjustment := adj, xc_resolved_by := Some (actor_or_command ctx), xc_resolved_at := Some (clock s)\<rparr>"
  from run obtain c n s1 s2 x1 x2 x3 x4 x5 where c: "List.find (\<lambda>x. xc_id x = xc_id c) (exception_case s) = Some c" "case_open c"
    and upd: "update_case (xc_id c) (?f n) s = Inr ((), s1)" "sync_case_hold ctx c s1 = Inr ((), s2)"
    and t: "appendAudit ctx x1 x2 x3 x4 x5 s2 = Inr ((), t)"
    unfolding resolveExceptionInTx_def by (clarsimp simp: guard_Inr simp del: appendAudit_run dest!: lock_case)
  have "desk_ok ts hs ob s2" by (rule close_keeps[OF ok c upd]) (simp_all add: recases_def case_key_def case_open_def)
  with desk_case_frames(1) show "desk_ok ts hs ob t" using t by (rule keepsD)
qed

lemma advance_if_keeps [inv_intros]: "keeps (desk_but ts hs ob i) (advance_if ctx k)"
  unfolding advance_if_def by (cases k) (auto intro!: inv_intros)

lemma void_keeps: "keeps (desk_ok ts hs ob) (voidException a ctx p)"
proof (rule keepsI)
  fix s out t assume ok: "desk_ok ts hs ob s" and run: "voidException a ctx p s = Inr (out, t)"
  let ?f = "\<lambda>n now x. x\<lparr>xc_status := CASE_VOID, xc_notes := Some n, xc_resolved_by := Some (actorLabel ctx), xc_resolved_at := Some now\<rparr>"
  from operatorHandle_Inr[OF run[unfolded voidException_def]] obtain k c n s0 s1 s2 s3 x1 x2 x3 x4 x5 where
    lock: "lockTradeOfException (js_field ''exceptionId'' p) s = Inr (k, s0)"
    and c: "List.find (\<lambda>x. xc_id x = xc_id c) (exception_case s0) = Some c" "case_open c"
    and upd: "update_case (xc_id c) (?f n (clock s0)) s0 = Inr ((), s1)" "sync_case_hold ctx c s1 = Inr ((), s2)"
    and audit: "appendAudit ctx x1 x2 x3 x4 x5 s2 = Inr ((), s3)" and last: "advance_if ctx k s3 = Inr ((), t)"
    by (clarsimp simp: guard_Inr simp del: appendAudit_run dest!: lock_case)
  have "desk_ok ts hs ob s0" using locks_keep(3) ok lock by (rule keepsD)
  then have "desk_ok ts hs ob s2" by (rule close_keeps[OF _ c upd]) (simp_all add: recases_def case_key_def case_open_def)
  with desk_case_frames(1) have "desk_ok ts hs ob s3" using audit by (rule keepsD)
  with advance_if_keeps show "desk_ok ts hs ob t" using last by (rule keepsD)
qed

lemma case_commands_keep [inv_intros]:
  "keeps (desk_ok ts hs ob) (openException a ctx p)" "keeps (desk_ok ts hs ob) (takeException a ctx p)"
  "keeps (desk_ok ts hs ob) (resolveException a ctx p)" "keeps (desk_ok ts hs ob) (voidException a ctx p)"
proof -
  show "keeps (desk_ok ts hs ob) (openException a ctx p)" unfolding openException_def operatorHandle_def Let_def
    by (intro inv_intros open_case_keeps)
  show "keeps (desk_ok ts hs ob) (resolveException a ctx p)" unfolding resolveException_def operatorHandle_def
    by (intro inv_intros resolve_in_tx_keeps)
qed (rule take_keeps void_keeps)+

end
