(* ===== verification/Adjustments.thy ===== *)
theory Adjustments
  imports Exceptions
begin

text \<open>
  Financial adjustments (\<^verbatim>\<open>packages/settlement/src/adjustments.ts\<close>): a signed correction of a trade's terms, asked for by one person and
  approved by another, that posts its own journal and moves what the trade and its route obligation owe. With the constraints and
  triggers of migration 0015.
\<close>

section \<open>What the database refuses\<close>

definition adjustment_step :: "adjustment_status \<Rightarrow> adjustment_status \<Rightarrow> bool" where
  "adjustment_step x y \<longleftrightarrow> x = y \<or> (x, y) \<in> {(ADJ_REQUESTED, ADJ_POSTED), (ADJ_REQUESTED, ADJ_REJECTED)}"

definition ADJUSTMENT_TYPES :: "string list" where
  "ADJUSTMENT_TYPES = [''AMOUNT_CORRECTION'', ''RATE_CORRECTION'', ''FEE'', ''WRITE_OFF'', ''REFUND'']"

definition adjustment_checks :: "adjustment_row \<Rightarrow> bool" where
  "adjustment_checks a \<longleftrightarrow> fa_type a \<in> set ADJUSTMENT_TYPES \<and> 10 \<le> length (trim (fa_reason a)) \<and> length (trim (fa_reason a)) \<le> 2000 \<and>
     (case fa_evidence a of None \<Rightarrow> True | Some e \<Rightarrow> length e \<le> 2000) \<and> (case fa_reject_reason a of None \<Rightarrow> True | Some r \<Rightarrow> length r \<le> 500) \<and>
     (case fa_approved_by a of None \<Rightarrow> True | Some b \<Rightarrow> b \<noteq> fa_requested_by a) \<and>
     (fa_status a = ADJ_POSTED \<longleftrightarrow> fa_approved_by a \<noteq> None \<and> fa_approved_at a \<noteq> None \<and> fa_journal a \<noteq> None) \<and>
     (fa_status a = ADJ_REJECTED \<longleftrightarrow> fa_rejected_by a \<noteq> None \<and> fa_rejected_at a \<noteq> None \<and> fa_reject_reason a \<noteq> None) \<and>
     \<not> (fa_base a = 0 \<and> fa_client_inr a = 0 \<and> fa_route_inr a = 0 \<and> fa_margin_inr a = 0)"

definition adjustment_margin :: "adjustment_row \<Rightarrow> 'x route_db_scheme \<Rightarrow> int" where
  "adjustment_margin a s = (case economics_of (fa_trade a) s of Some e \<Rightarrow>
       if ec_direction e = SELL_USDT then fa_route_inr a - fa_client_inr a else fa_client_inr a - fa_route_inr a
     | None \<Rightarrow> fa_client_inr a - fa_route_inr a)"

definition insert_adjustment :: "adjustment_row \<Rightarrow> ('x trade_db_scheme, unit) cmd" where
  "insert_adjustment a = (\<lambda>s. if adjustment_checks a \<and> fa_margin_inr a = adjustment_margin a s \<and> fa_status a = ADJ_REQUESTED \<and>
       find_trade (fa_trade a) s \<noteq> None \<and> list_all (\<lambda>b. fa_id b \<noteq> fa_id a \<and> fa_ref b \<noteq> fa_ref a) (financial_adjustment s) \<and>
       (case fa_case a of None \<Rightarrow> True | Some c \<Rightarrow> list_ex (\<lambda>x. xc_id x = c) (exception_case s))
     then Inr ((), s\<lparr>financial_adjustment := financial_adjustment s @ [a]\<rparr>) else Inl DatabaseError)"

definition update_adjustment :: "string \<Rightarrow> (adjustment_row \<Rightarrow> adjustment_row) \<Rightarrow> ('x trade_db_scheme, unit) cmd" where
  "update_adjustment i f = (\<lambda>s. if list_all (\<lambda>a. fa_id a = i \<longrightarrow> adjustment_step (fa_status a) (fa_status (f a)) \<and> adjustment_checks (f a)) (financial_adjustment s)
     then Inr ((), s\<lparr>financial_adjustment := update_where (\<lambda>a. fa_id a = i) f (financial_adjustment s)\<rparr>) else Inl DatabaseError)"

section \<open>What an adjustment may do\<close>

definition signedMinor :: "js \<Rightarrow> currency \<Rightarrow> int result" where
  "signedMinor value c = (case value of
     JUndefined \<Rightarrow> Inr 0 | JNull \<Rightarrow> Inr 0
   | JStr t \<Rightarrow> if t = [] then Inr 0
       else let negative = (case trim t of [] \<Rightarrow> False | x # _ \<Rightarrow> x = CHR ''-'')
         in bindR (parse_money (JStr (if negative then tl (trim t) else t)) c) (\<lambda>m. Inr (if negative then - minor m else minor m))
   | _ \<Rightarrow> Inl TypeError)"

record deltas =
  dl_base :: int
  dl_client :: int
  dl_route :: int

definition delta_on :: "direction \<Rightarrow> deltas \<Rightarrow> obligation_side \<Rightarrow> int" where
  "delta_on dir d side = (if (dir = SELL_USDT) = (side = ROUTE_DELIVERS) then dl_route d else dl_base d)"

definition assertAdjustmentFits :: "trade_row \<Rightarrow> direction \<Rightarrow> string \<Rightarrow> obligation_status \<Rightarrow> deltas \<Rightarrow> 'x obligation_db_scheme \<Rightarrow> unit result" where
  "assertAdjustmentFits t dir obligationId status d s =
     (let sell = dir = SELL_USDT; payoutDelta = (if sell then dl_client d else dl_base d); receivableDelta = (if sell then dl_base d else dl_client d);
          routeDelta = delta_on dir d ROUTE_DELIVERS; exchangeDelta = delta_on dir d EXCHANGE_DELIVERS
      in if td_state t = TRADE_CANCELLED then Inl (ReferenceError INVALID_TRANSITION)
      else if td_state t = TRADE_COMPLETED \<and> (payoutDelta \<noteq> 0 \<or> receivableDelta \<noteq> 0) then Inl (CoreError INVALID_AMOUNT)
      else bindR (effectiveObligations (JStr (td_id t)) s) (\<lambda>ob.
        bindR (legTotals (JStr (td_id t)) s) (\<lambda>totals.
        let payoutAfter = minor (eo_payout ob) + payoutDelta; receivableAfter = minor (eo_receivable ob) + receivableDelta
        in if payoutAfter \<le> 0 \<or> payoutAfter < lt_committed totals then Inl (CoreError INVALID_AMOUNT)
        else if receivableAfter \<le> 0 \<or> receivableAfter < lt_received totals then Inl (CoreError INVALID_AMOUNT)
        else if status = OB_SETTLED \<and> (routeDelta > 0 \<or> exchangeDelta > 0) then Inl (ReferenceError INVALID_TRANSITION)
        else bindR (obligationRemaining (JStr obligationId) s) (\<lambda>left.
          if minor (or_route_delivers left) + routeDelta < 0 \<or> minor (or_exchange_delivers left) + exchangeDelta < 0
          then Inl (CoreError INVALID_AMOUNT) else Inr ()))))"

section \<open>Requesting\<close>

definition next_adjustment_ref :: "('x obligation_db_scheme, string) cmd" where
  "next_adjustment_ref = (\<lambda>s. Inr (''AJ-'' @ ref_number (Suc (financial_adjustment_ref_seq s)) 6,
     s\<lparr>financial_adjustment_ref_seq := Suc (financial_adjustment_ref_seq s)\<rparr>))"

definition margin_delta :: "direction \<Rightarrow> deltas \<Rightarrow> int" where
  "margin_delta dir d = (if dir = SELL_USDT then dl_route d - dl_client d else dl_client d - dl_route d)"

definition requested_adjustment ::
    "tx_ctx \<Rightarrow> string \<Rightarrow> direction \<Rightarrow> string \<Rightarrow> string \<Rightarrow> deltas \<Rightarrow> string option \<Rightarrow> string option \<Rightarrow> string \<Rightarrow> string \<Rightarrow> int \<Rightarrow> adjustment_row" where
  "requested_adjustment ctx tradeId dir ty reason d evidence caseId i ref now = \<lparr>fa_id = i, fa_ref = ref, fa_trade = tradeId, fa_type = ty,
     fa_base = dl_base d, fa_client_inr = dl_client d, fa_route_inr = dl_route d, fa_margin_inr = margin_delta dir d, fa_reason = reason,
     fa_evidence = evidence, fa_case = caseId, fa_status = ADJ_REQUESTED, fa_requested_by = actorLabel ctx, fa_requested_at = now,
     fa_approved_by = None, fa_approved_at = None, fa_rejected_by = None, fa_rejected_at = None, fa_reject_reason = None, fa_journal = None\<rparr>"

text \<open>A case id that is absent is none; a value that is not a string is not an identifier the database accepts.\<close>

definition case_id :: "js \<Rightarrow> string option result" where
  "case_id v = (case v of JUndefined \<Rightarrow> Inr None | JNull \<Rightarrow> Inr None | JStr t \<Rightarrow> Inr (Some t) | _ \<Rightarrow> Inl DatabaseInputError)"

definition shown_int :: "int \<Rightarrow> js" where
  "shown_int n = JStr (if n < 0 then CHR ''-'' # digits_of (- n) else digits_of n)"

definition requestAdjustment :: "operator_actor \<Rightarrow> tx_ctx \<Rightarrow> js \<Rightarrow> ('x obligation_db_scheme, js) cmd" where
  "requestAdjustment a = operatorHandle a ''adjustment:request'' (\<lambda>ctx p dec.
     bindC (lockTrade (js_field ''tradeId'' p)) (\<lambda>t.
     bindC (readC (read_economics (JStr (td_id t)))) (\<lambda>read.
     bindC (liftC read) (\<lambda>econ.
     bindC (liftC (requireOneOf (js_field ''type'' p) ADJUSTMENT_TYPES)) (\<lambda>ty.
     bindC (liftC (requireText (js_field ''reason'' p) 2000)) (\<lambda>reason.
     bindC (unlessC (\<not> length reason < 10) (CoreError INVALID_ARGUMENT)) (\<lambda>_.
     bindC (liftC (signedMinor (js_field ''deltaBaseUsdt'' p) USDT)) (\<lambda>base.
     bindC (liftC (signedMinor (js_field ''deltaClientInr'' p) INR)) (\<lambda>client.
     bindC (liftC (signedMinor (js_field ''deltaRouteInr'' p) INR)) (\<lambda>route.
     let d = \<lparr>dl_base = base, dl_client = client, dl_route = route\<rparr>; margin = margin_delta (te_direction econ) d
     in bindC (unlessC (\<not> (base = 0 \<and> client = 0 \<and> route = 0)) (CoreError INVALID_AMOUNT)) (\<lambda>_.
     bindC (readC (find_obligation (tm_obligation econ))) (\<lambda>row.
     bindC (foundC NoResultError row) (\<lambda>ob.
     bindC (readC (assertAdjustmentFits t (te_direction econ) (ro_id ob) (ro_status ob) d)) (\<lambda>fits.
     bindC (liftC fits) (\<lambda>_.
     bindC (liftC (if js_truthy (js_field ''evidenceNote'' p) then bindR (requireText (js_field ''evidenceNote'' p) 2000) (\<lambda>e. Inr (Some e)) else Inr None)) (\<lambda>evidence.
     bindC (liftC (case_id (js_field ''exceptionId'' p))) (\<lambda>caseId.
     bindC next_adjustment_ref (\<lambda>ref.
     bindC freshId (\<lambda>i.
     bindC (readC clock) (\<lambda>now.
     bindC (insert_adjustment (requested_adjustment ctx (td_id t) (te_direction econ) ty reason d evidence caseId i ref now)) (\<lambda>_.
     bindC (appendAudit ctx ''adjustment.requested'' ''financial_adjustment'' (Some i) JUndefined
        (JObj [(''ref'', JStr ref), (''trade_id'', JStr (td_id t)), (''type'', JStr ty), (''delta_base'', shown_int base),
               (''delta_client_inr'', shown_int client), (''delta_route_inr'', shown_int route), (''delta_margin_inr'', shown_int margin),
               (''reason'', JStr reason)])) (\<lambda>_.
     bindC (enqueueOutbox ctx \<lparr>oi_type = ''desk.adjustment_requested'', oi_aggregate_type = Some ''financial_adjustment'', oi_aggregate_id = Some i,
        oi_payload = JObj [(''adjustmentId'', JStr i), (''tradeId'', JStr (td_id t))]\<rparr>) (\<lambda>_.
     bindC (liftC (Money_toDecimalString (ofMinor \<bar>margin\<bar> INR))) (\<lambda>shown.
     returnC (JObj [(''adjustmentId'', JStr i), (''ref'', JStr ref), (''deltaMarginInr'', JStr shown),
        (''marginSign'', JStr (if margin < 0 then ''-'' else ''+''))])))))))))))))))))))))))))"

section \<open>Deciding\<close>

definition lockAdjustment :: "js \<Rightarrow> ('x trade_db_scheme, adjustment_row) cmd" where
  "lockAdjustment adjustmentId =
     bindC (liftC (requireUuid adjustmentId)) (\<lambda>i.
     bindC (readC (\<lambda>s. List.find (\<lambda>a. fa_id a = i) (financial_adjustment s))) (\<lambda>row.
     foundC (CoreError NOT_FOUND) row))"

definition deltas_of :: "adjustment_row \<Rightarrow> deltas" where
  "deltas_of a = \<lparr>dl_base = fa_base a, dl_client = fa_client_inr a, dl_route = fa_route_inr a\<rparr>"

definition journal_of_adjustment :: "adjustment_row \<Rightarrow> trade_row \<Rightarrow> trade_terms \<Rightarrow> obligation_row \<Rightarrow> journal_input result" where
  "journal_of_adjustment a t econ ob = adjustmentJournal
     \<lparr>ad_base = fa_base a, ad_clientInr = fa_client_inr a, ad_routeInr = fa_route_inr a, ad_marginInr = fa_margin_inr a\<rparr>
     \<lparr>aj_adjustment = fa_id a, aj_trade = td_id t, aj_client = td_client t, aj_route = tm_route econ, aj_obligation = ro_id ob,
      aj_direction = te_direction econ, aj_marginRealized = (td_state t = TRADE_COMPLETED)\<rparr>"

text \<open>The case an adjustment was asked for is resolved by its approval.\<close>

definition resolve_linked :: "tx_ctx \<Rightarrow> js \<Rightarrow> adjustment_row \<Rightarrow> ('x obligation_db_scheme, unit) cmd" where
  "resolve_linked ctx notes adj = (case fa_case adj of None \<Rightarrow> returnC ()
     | Some c \<Rightarrow> if c = [] then returnC () else
         bindC (liftC (requireText (if notes = JUndefined \<or> notes = JNull then JStr (fa_reason adj) else notes) 2000)) (\<lambda>notes.
         bindC (resolveExceptionInTx ctx (JStr c) ''financial_adjustment'' (JStr notes) (Some (fa_id adj))) (\<lambda>_. returnC ())))"

definition approveAdjustment :: "operator_actor \<Rightarrow> tx_ctx \<Rightarrow> js \<Rightarrow> ('x obligation_db_scheme, js) cmd" where
  "approveAdjustment a = operatorHandle a ''adjustment:approve'' (\<lambda>ctx p dec.
     bindC (lockAdjustment (js_field ''adjustmentId'' p)) (\<lambda>adj.
     bindC (unlessC (fa_status adj = ADJ_REQUESTED) (ReferenceError INVALID_TRANSITION)) (\<lambda>_.
     let approver = actorLabel ctx
     in bindC (unlessC (approver \<noteq> fa_requested_by adj) (CoreError SECOND_APPROVER_REQUIRED)) (\<lambda>_.
     bindC (lockTrade (JStr (fa_trade adj))) (\<lambda>t.
     bindC (readC (read_economics (JStr (td_id t)))) (\<lambda>read.
     bindC (liftC read) (\<lambda>econ.
     bindC (lockObligation (JStr (tm_obligation econ))) (\<lambda>ob.
     bindC (readC (assertAdjustmentFits t (te_direction econ) (ro_id ob) (ro_status ob) (deltas_of adj))) (\<lambda>fits.
     bindC (liftC fits) (\<lambda>_.
     bindC (liftC (journal_of_adjustment adj t econ ob)) (\<lambda>j.
     bindC (postJournal ctx j) (\<lambda>posted.
     bindC (readC clock) (\<lambda>now.
     bindC (update_adjustment (fa_id adj) (\<lambda>x. x\<lparr>fa_status := ADJ_POSTED, fa_approved_by := Some approver, fa_approved_at := Some now,
        fa_journal := Some (pj_id posted)\<rparr>)) (\<lambda>_.
     bindC (resolve_linked ctx (js_field ''notes'' p) adj) (\<lambda>_.
     bindC (appendAudit ctx ''adjustment.approved'' ''financial_adjustment'' (Some (fa_id adj)) (JObj [(''status'', JStr ''REQUESTED'')])
        (JObj [(''status'', JStr ''POSTED''), (''approved_by'', JStr approver), (''journal'', JStr (pj_posting_key posted))])) (\<lambda>_.
     bindC (refreshObligationStatus ctx ob) (\<lambda>_.
     bindC (advanceTrade ctx (td_id t)) (\<lambda>_.
     returnC (JObj [(''status'', JStr ''POSTED''), (''postingKey'', JStr (pj_posting_key posted))])))))))))))))))))))"

definition rejectAdjustment :: "operator_actor \<Rightarrow> tx_ctx \<Rightarrow> js \<Rightarrow> ('x obligation_db_scheme, js) cmd" where
  "rejectAdjustment a = operatorHandle a ''adjustment:approve'' (\<lambda>ctx p dec.
     bindC (liftC (requireText (js_field ''reason'' p) 500)) (\<lambda>reason.
     bindC (lockAdjustment (js_field ''adjustmentId'' p)) (\<lambda>adj.
     bindC (unlessC (fa_status adj = ADJ_REQUESTED) (ReferenceError INVALID_TRANSITION)) (\<lambda>_.
     bindC (unlessC (actorLabel ctx \<noteq> fa_requested_by adj) (CoreError SECOND_APPROVER_REQUIRED)) (\<lambda>_.
     bindC (readC clock) (\<lambda>now.
     bindC (update_adjustment (fa_id adj) (\<lambda>x. x\<lparr>fa_status := ADJ_REJECTED, fa_rejected_by := Some (actorLabel ctx), fa_rejected_at := Some now,
        fa_reject_reason := Some reason\<rparr>)) (\<lambda>_.
     bindC (appendAudit ctx ''adjustment.rejected'' ''financial_adjustment'' (Some (fa_id adj)) (JObj [(''status'', JStr ''REQUESTED'')])
        (JObj [(''status'', JStr ''REJECTED''), (''reason'', JStr reason)])) (\<lambda>_.
     returnC (JObj [(''status'', JStr ''REJECTED'')])))))))))"

section \<open>Effective terms\<close>

record effective_terms =
  ef_base :: money
  ef_client_inr :: money
  ef_route_inr :: money
  ef_margin :: money
  ef_adjustments :: "(string \<times> string) list"

definition effectiveTerms :: "string \<Rightarrow> 'x trade_db_scheme \<Rightarrow> effective_terms result" where
  "effectiveTerms tradeId s =
     bindR (read_economics (JStr tradeId) s) (\<lambda>econ.
     let rows = sort_key fa_requested_at (filter (\<lambda>a. fa_trade a = tradeId \<and> fa_status a = ADJ_POSTED) (financial_adjustment s));
         total = (\<lambda>f. sum_list (map f rows))
     in Inr \<lparr>ef_base = ofMinor (minor (te_base econ) + total fa_base) USDT, ef_client_inr = ofMinor (minor (te_clientInr econ) + total fa_client_inr) INR,
       ef_route_inr = ofMinor (minor (te_routeInr econ) + total fa_route_inr) INR,
       ef_margin = ofMinor (minor (te_grossMargin econ) + total fa_margin_inr) INR, ef_adjustments = map (\<lambda>a. (fa_ref a, fa_type a)) rows\<rparr>)"

section \<open>Adjustments that are not posted move nothing\<close>

lemma posted_sides:
  assumes "\<And>f i. posted_sum f i t = posted_sum f i s" "route_settlement_allocation t = route_settlement_allocation s"
  shows "side_left r side t = side_left r side s"
  using assms by (simp add: side_left_def route_obligation_side_def allocated_to_def split: option.split)

lemma adjust_frame:
  assumes ok: "desk_but ts hs ob i s" and t: "t = s\<lparr>financial_adjustment := rows\<rparr>"
    and rows: "distinct (map fa_id rows)" "fa_trade ` set rows \<subseteq> td_id ` set (trade s)"
    and posted: "\<And>f k. posted_sum f k t = posted_sum f k s"
  shows "desk_but ts hs ob i t"
proof -
  have "side_left r side t = side_left r side s" for r side by (rule posted_sides) (rule posted, simp add: t)
  then have "sides_ok r t = sides_ok r s" "sides_fit r t = sides_fit r s" for r by (simp_all add: sides_ok_def sides_fit_def)
  then have "obligations_but ob t" using ok by (simp add: desk_but_def obligations_but_def t)
  moreover have "refs_ok t" using ok rows by (simp add: desk_but_def refs_ok_def t)
  moreover have "trades_from ts hs t" "ledger_ok t" "cases_ok t" "holds_except i t"
    using ok trades_from_cong[of ts hs s t] ledger_ok_cong[of s t] by (simp_all add: desk_but_def t cases_ok_def holds_except_def blocked_def)
  ultimately show ?thesis by (simp add: desk_but_def)
qed

lemma insert_adjustment_keeps: "keeps (desk_but ts hs ob i) (insert_adjustment a)"
proof (rule keepsI)
  fix s u t assume ok: "desk_but ts hs ob i s" and run: "insert_adjustment a s = Inr (u, t)"
  from run have a: "fa_status a = ADJ_REQUESTED" "find_trade (fa_trade a) s \<noteq> None" "\<forall>b \<in> set (financial_adjustment s). fa_id b \<noteq> fa_id a"
    and t: "t = s\<lparr>financial_adjustment := financial_adjustment s @ [a]\<rparr>" by (auto simp: insert_adjustment_def list_all_iff split: if_splits)
  have "fa_trade a \<in> td_id ` set (trade s)" using a(2) find_trade_Some by (metis imageI not_None_eq)
  with ok a t show "desk_but ts hs ob i t" by (intro adjust_frame[OF ok t]) (auto simp: desk_but_def refs_ok_def posted_sum_def)
qed

lemma next_adjustment_keeps: "keeps (desk_but ts hs ob i) next_adjustment_ref"
proof (rule frames_keep)
  show "keeps (same_desk s) next_adjustment_ref" for s by (auto simp: keeps_def next_adjustment_ref_def same_defs)
qed

lemma request_keeps: "keeps (desk_but ts hs ob i) (requestAdjustment a ctx p)"
  unfolding requestAdjustment_def operatorHandle_def Let_def by (intro inv_intros insert_adjustment_keeps next_adjustment_keeps)

text \<open>An update of one adjustment, which leaves what it says.\<close>

definition restates :: "(adjustment_row \<Rightarrow> adjustment_row) \<Rightarrow> bool" where
  "restates f \<longleftrightarrow> (\<forall>a. fa_id (f a) = fa_id a \<and> fa_trade (f a) = fa_trade a \<and> fa_base (f a) = fa_base a \<and> fa_client_inr (f a) = fa_client_inr a \<and>
     fa_route_inr (f a) = fa_route_inr a \<and> fa_margin_inr (f a) = fa_margin_inr a)"

lemma sum_one_changed:
  assumes "distinct (map k xs)" "x \<in> set xs"
  shows "sum_list (map h (update_where (\<lambda>y. k y = k x) g xs)) = sum_list (map h xs) + (h (g x) - h x :: int)"
  using assms
proof (induction xs)
  case (Cons y ys)
  show ?case
  proof (cases "y = x")
    case True
    have "k z \<noteq> k x" if "z \<in> set ys" for z using Cons.prems(1) True that by (auto simp: image_iff)
    then have "update_where (\<lambda>y. k y = k x) g ys = ys" by (auto simp: update_where_def intro!: map_idI)
    then show ?thesis using True by simp
  next
    case False
    then have "k y \<noteq> k x" "x \<in> set ys" using Cons.prems by (auto simp: rev_image_eqI)
    then show ?thesis using Cons by simp
  qed
qed simp

lemma posted_weight: "posted_sum f i s = sum_list (map (\<lambda>a. if fa_trade a = i \<and> fa_status a = ADJ_POSTED then f a else 0) (financial_adjustment s))"
proof -
  have "sum_list (map f (filter p xs)) = sum_list (map (\<lambda>a. if p a then f a else 0) xs)" for p :: "adjustment_row \<Rightarrow> bool" and xs by (induction xs) auto
  then show ?thesis by (simp add: posted_sum_def)
qed

lemma lock_adjustment: "lockAdjustment v s = Inr (adj, t) \<Longrightarrow> t = s \<and> adj \<in> set (financial_adjustment s)"
  by (auto simp: lockAdjustment_def dest!: find_Some_mem)

lemma posted_sum_update:
  assumes ids: "distinct (map fa_id (financial_adjustment s))" "adj \<in> set (financial_adjustment s)"
    and t: "financial_adjustment t = update_where (\<lambda>a. fa_id a = fa_id adj) g (financial_adjustment s)"
  shows "posted_sum f i t = posted_sum f i s + ((if fa_trade (g adj) = i \<and> fa_status (g adj) = ADJ_POSTED then f (g adj) else 0) -
    (if fa_trade adj = i \<and> fa_status adj = ADJ_POSTED then f adj else 0))"
  unfolding posted_weight t by (rule sum_one_changed[OF ids])

lemma reject_keeps: "keeps (desk_but ts hs ob i) (rejectAdjustment a ctx p)"
proof (rule keepsI)
  fix s out t assume ok: "desk_but ts hs ob i s" and run: "rejectAdjustment a ctx p s = Inr (out, t)"
  let ?f = "\<lambda>reason x. x\<lparr>fa_status := ADJ_REJECTED, fa_rejected_by := Some (actorLabel ctx), fa_rejected_at := Some (clock s), fa_reject_reason := Some reason\<rparr>"
  from operatorHandle_Inr[OF run[unfolded rejectAdjustment_def]] obtain adj reason s1 x1 x2 x3 x4 x5 where
    adj: "adj \<in> set (financial_adjustment s)" "fa_status adj = ADJ_REQUESTED"
    and upd: "update_adjustment (fa_id adj) (?f reason) s = Inr ((), s1)" and audit: "appendAudit ctx x1 x2 x3 x4 x5 s1 = Inr ((), t)"
    by (clarsimp simp: guard_Inr simp del: appendAudit_run dest!: lock_adjustment)
  have s1: "s1 = s\<lparr>financial_adjustment := update_where (\<lambda>a. fa_id a = fa_id adj) (?f reason) (financial_adjustment s)\<rparr>"
    using upd by (auto simp: update_adjustment_def split: if_splits)
  have ids: "distinct (map fa_id (financial_adjustment s))" using ok by (simp add: desk_but_def refs_ok_def)
  have "fa_trade ` set (update_where (\<lambda>a. fa_id a = fa_id adj) (?f reason) (financial_adjustment s)) = fa_trade ` set (financial_adjustment s)"
    unfolding set_map[symmetric] by simp
  then have refs: "fa_trade ` set (update_where (\<lambda>a. fa_id a = fa_id adj) (?f reason) (financial_adjustment s)) \<subseteq> td_id ` set (trade s)"
    using ok by (simp add: desk_but_def refs_ok_def)
  have posted: "posted_sum h k s1 = posted_sum h k s" for h k
    using posted_sum_update[OF ids adj(1), of s1 "?f reason" h k] adj(2) by (simp add: s1)
  have "desk_but ts hs ob i s1" by (rule adjust_frame[OF ok s1 _ refs posted]) (use ids in simp)
  with desk_case_frames(1) show "desk_but ts hs ob i t" using audit by (rule keepsD)
qed

section \<open>Approving\<close>

lemma post_moves: "postJournal ctx j s = Inr (pj, t) \<Longrightarrow> ledger_ok s \<Longrightarrow> moves_trades s t"
  using post_frame[of ctx j s pj t] by (auto simp: moves_trades_def holds_of_def same_trades_def intro: same_trades_from[unfolded same_trades_def])

definition adjustment_fits :: "trade_row \<Rightarrow> direction \<Rightarrow> obligation_row \<Rightarrow> deltas \<Rightarrow> 'x obligation_db_scheme \<Rightarrow> bool" where
  "adjustment_fits t dir ob d s \<longleftrightarrow> td_state t \<noteq> TRADE_CANCELLED \<and>
     (\<exists>p r. payout_obligation (td_id t) s = Some p \<and> receivable_obligation (td_id t) s = Some r \<and>
        (let p' = p + (if dir = SELL_USDT then dl_client d else dl_base d); r' = r + (if dir = SELL_USDT then dl_base d else dl_client d)
         in (td_state t = TRADE_COMPLETED \<longrightarrow> p' = p \<and> r' = r) \<and> 0 < p' \<and> leg_sum payout_alive (td_id t) s \<le> p' \<and>
            0 < r' \<and> leg_sum sent_in (td_id t) s \<le> r')) \<and>
     (\<forall>side. (ro_status ob = OB_SETTLED \<longrightarrow> delta_on dir d side \<le> 0) \<and> 0 \<le> side_left ob side s + delta_on dir d side)"

lemma adjustment_fits_Inr:
  assumes run: "assertAdjustmentFits t dir (ro_id ob) (ro_status ob) d s = Inr ()" and found: "find_obligation (ro_id ob) s = Some ob"
  shows "adjustment_fits t dir ob d s"
proof -
  from run obtain e totals where reads: "effectiveObligations (JStr (td_id t)) s = Inr e" "legTotals (JStr (td_id t)) s = Inr totals"
    and rest: "td_state t \<noteq> TRADE_CANCELLED"
      "td_state t = TRADE_COMPLETED \<longrightarrow> (if dir = SELL_USDT then dl_client d else dl_base d) = 0 \<and> (if dir = SELL_USDT then dl_base d else dl_client d) = 0"
      "\<not> (minor (eo_payout e) + (if dir = SELL_USDT then dl_client d else dl_base d) \<le> 0 \<or>
          minor (eo_payout e) + (if dir = SELL_USDT then dl_client d else dl_base d) < lt_committed totals)"
      "\<not> (minor (eo_receivable e) + (if dir = SELL_USDT then dl_base d else dl_client d) \<le> 0 \<or>
          minor (eo_receivable e) + (if dir = SELL_USDT then dl_base d else dl_client d) < lt_received totals)"
      "\<not> (ro_status ob = OB_SETTLED \<and> (delta_on dir d ROUTE_DELIVERS > 0 \<or> delta_on dir d EXCHANGE_DELIVERS > 0))"
      "\<not> (side_left ob ROUTE_DELIVERS s + delta_on dir d ROUTE_DELIVERS < 0 \<or> side_left ob EXCHANGE_DELIVERS s + delta_on dir d EXCHANGE_DELIVERS < 0)"
    unfolding assertAdjustmentFits_def Let_def
    by (clarsimp simp: guard_Inr bindR_def obligationRemaining_Inr found split: if_split_asm sum.splits)
  show ?thesis unfolding adjustment_fits_def Let_def using rest obligations_Inr[OF reads(1)] totals_Inr[OF reads(2)] by (auto simp: all_sides)
qed

lemma posting_adjusts:
  assumes ok: "desk_ok ts hs None s" and adj: "adj \<in> set (financial_adjustment s)" "fa_status adj = ADJ_REQUESTED"
    and ob: "ob \<in> set (route_obligation s)" "ro_trade ob = Some (fa_trade adj)"
    and e: "e \<in> set (trade_economics s)" "ec_trade e = fa_trade adj"
    and fits: "adjustment_fits t (ec_direction e) ob (deltas_of adj) s"
    and upd: "update_adjustment (fa_id adj) g s = Inr (x, u)" and g: "restates g" "fa_status (g adj) = ADJ_POSTED"
  shows "desk_ok ts hs (Some (ro_id ob)) u" "posted_sum f k u = posted_sum f k s + (if k = fa_trade adj then f (g adj) else 0)"
    "side_left ob side u = side_left ob side s + delta_on (ec_direction e) (deltas_of adj) side"
    "ro_id r \<noteq> ro_id ob \<Longrightarrow> r \<in> set (route_obligation s) \<Longrightarrow> side_left r side u = side_left r side s"
proof -
  have u: "u = s\<lparr>financial_adjustment := update_where (\<lambda>a. fa_id a = fa_id adj) g (financial_adjustment s)\<rparr>"
    using upd by (auto simp: update_adjustment_def split: if_splits)
  then have alloc: "route_settlement_allocation u = route_settlement_allocation s" by simp
  have refs: "refs_ok s" and obs: "obligations_ok s" using ok by (simp_all add: desk_but_def obligations_but_None)
  have ids: "distinct (map fa_id (financial_adjustment s))" using refs by (simp add: refs_ok_def)
  have same: "fa_id (g a) = fa_id a" "fa_trade (g a) = fa_trade a" "fa_base (g a) = fa_base a" "fa_route_inr (g a) = fa_route_inr a" for a
    using g(1) by (simp_all add: restates_def)
  show posted: "posted_sum f k u = posted_sum f k s + (if k = fa_trade adj then f (g adj) else 0)" for f k
    using posted_sum_update[OF ids adj(1), of u g f k] adj(2) g(2) same(2) by (auto simp: u)
  have checks: "obligation_checks ob" and "\<exists>e' \<in> set (trade_economics s). ro_trade ob = Some (ec_trade e') \<and> obligation_matches ob e'"
    using refs ob(1) by (auto simp: refs_ok_def)
  then obtain e' where e': "e' \<in> set (trade_economics s)" "ec_trade e' = fa_trade adj" "obligation_matches ob e'" using ob(2) by auto
  have "e' = e" using refs e'(1,2) e unfolding refs_ok_def distinct_map by (metis inj_onD)
  then have dir: "ro_direction ob = ec_direction e" using e'(3) by (simp add: obligation_matches_def)
  have sides: "side_left r sd u = side_left r sd s + (case ro_trade r of None \<Rightarrow> 0
      | Some k \<Rightarrow> if k = fa_trade adj then (if side_asset r sd = INR then fa_route_inr adj else fa_base adj) else 0)" for r sd
    by (simp add: side_left_def route_obligation_side_def allocated_to_def posted same alloc split: option.split)
  have "side_asset ob sd = INR \<longleftrightarrow> (ec_direction e = SELL_USDT) = (sd = ROUTE_DELIVERS)" for sd
    using checks dir by (cases sd) (auto simp: obligation_checks_def side_asset_def split: if_splits)
  then show mine: "side_left ob sd u = side_left ob sd s + delta_on (ec_direction e) (deltas_of adj) sd" for sd
    by (simp add: sides ob(2) delta_on_def deltas_of_def)
  show others: "ro_id r \<noteq> ro_id ob \<Longrightarrow> r \<in> set (route_obligation s) \<Longrightarrow> side_left r sd u = side_left r sd s" for r sd
  proof -
    assume r: "ro_id r \<noteq> ro_id ob" "r \<in> set (route_obligation s)"
    then have "ro_trade r \<noteq> Some (fa_trade adj)" using refs ob unfolding refs_ok_def distinct_map by (metis inj_onD)
    then show ?thesis by (auto simp: sides split: option.split)
  qed
  have "sides_fit ob u" using obs ob(1) fits mine by (force simp: sides_fit_def obligations_ok_def sides_ok_def adjustment_fits_def all_sides)
  moreover have "sides_ok r u" if "r \<in> set (route_obligation s)" "ro_id r \<noteq> ro_id ob" for r
    using obs that others[OF that(2,1)] by (auto simp: obligations_ok_def sides_ok_def)
  moreover have "r = ob" if "r \<in> set (route_obligation s)" "ro_id r = ro_id ob" for r using unique_obligation[OF obs that(1) ob(1) that(2)] .
  ultimately have "obligations_but (Some (ro_id ob)) u" using obs by (auto simp: obligations_but_def obligations_ok_def u)
  moreover have "fa_trade ` set (financial_adjustment u) = fa_trade ` set (financial_adjustment s)"
    unfolding set_map[symmetric] using same by (simp add: u)
  then have "refs_ok u" using refs same(1) by (simp add: refs_ok_def) (simp add: u)
  moreover have "trades_from ts hs u" "ledger_ok u" "cases_ok u" "holds_except None u"
    using ok trades_from_cong[of ts hs s u] ledger_ok_cong[of s u] by (simp_all add: desk_but_def u cases_ok_def holds_except_def blocked_def)
  ultimately show "desk_ok ts hs (Some (ro_id ob)) u" by (simp add: desk_but_def)
qed

lemma settled_checks [simp]:
  "obligation_checks (x\<lparr>ro_status := a, ro_settled_at := b\<rparr>) = obligation_checks x"
  "obligation_matches (x\<lparr>ro_status := a, ro_settled_at := b\<rparr>) e = obligation_matches x e"
  by (simp_all add: obligation_checks_def obligation_matches_def)

lemma refresh_keeps:
  assumes ok: "desk_ok ts hs (Some (ro_id ob)) s" and ob: "ob \<in> set (route_obligation s)" and run: "refreshObligationStatus ctx ob s = Inr (st, t)"
  shows "desk_ok ts hs None t"
proof -
  have d: "distinct (map ro_id (route_obligation s))" and refs: "refs_ok s" using ok by (simp_all add: desk_but_def obligations_but_def)
  have found: "find_obligation (ro_id ob) s = Some ob" unfolding find_obligation_def by (rule find_unique[OF d ob])
  from refresh_effect[OF found d run] obtain z w where st: "st = (if (ro_status ob = OB_OPEN \<or> ro_status ob = OB_PARTIALLY_SETTLED) \<and>
      side_left ob ROUTE_DELIVERS s = 0 \<and> side_left ob EXCHANGE_DELIVERS s = 0 then OB_SETTLED else ro_status ob)"
    and t: "t = s\<lparr>route_obligation := settled_as (ro_id ob) st z (route_obligation s), audit_event := w\<rparr>" by blast
  have only: "r = ob" if "r \<in> set (route_obligation s)" "ro_id r = ro_id ob" for r using d ob that unfolding distinct_map by (metis inj_onD)
  have sides: "side_left y sd t = side_left x sd s" if "same_sides x y" for x y sd by (rule side_left_cong[OF that]) (simp_all add: t)
  have rows: "\<exists>x \<in> set (route_obligation s). same_sides x y \<and> (if ro_id x = ro_id ob then ro_status y = st else y = x)"
    if "y \<in> set (route_obligation t)" for y using settled_as_mem[of y "ro_id ob" st z "route_obligation s"] that by (auto simp: t split: if_splits)
  have "sides_ok y t" if y: "y \<in> set (route_obligation t)" for y
  proof -
    from rows[OF y] obtain x where x: "x \<in> set (route_obligation s)" "same_sides x y" "if ro_id x = ro_id ob then ro_status y = st else y = x" by blast
    show ?thesis
    proof (cases "ro_id x = ro_id ob")
      case True
      then have "x = ob" using only x(1) by blast
      moreover have "sides_fit ob s" using ok ob by (auto simp: desk_but_def obligations_but_def)
      ultimately show ?thesis using x True unfolding sides_ok_def sides[OF x(2)] by (cases "ro_status ob") (auto simp: sides_fit_def st)
    next
      case False
      then have "sides_ok x s" using ok x(1) by (auto simp: desk_but_def obligations_but_def)
      then show ?thesis using x False unfolding sides_ok_def sides[OF x(2)] by simp
    qed
  qed
  moreover have "map ro_id (route_obligation t) = map ro_id (route_obligation s)" by (simp add: t)
  then have "ro_id ` set (route_obligation t) = ro_id ` set (route_obligation s)" unfolding set_map[symmetric] by simp
  ultimately have "obligations_ok t" using ok d by (simp add: desk_but_def obligations_but_def obligations_ok_def t) (metis (no_types, lifting) image_iff)
  moreover have "refs_ok t"
  proof -
    have "map ro_trade (route_obligation t) = map ro_trade (route_obligation s)" by (simp add: t settled_as_def)
    moreover have "obligation_checks y \<and> (\<exists>e \<in> set (trade_economics s). ro_trade y = Some (ec_trade e) \<and> obligation_matches y e)"
      if "y \<in> set (route_obligation t)" for y using that refs
      by (auto simp: t settled_as_def set_update_where refs_ok_def)
    ultimately show ?thesis using refs by (simp add: refs_ok_def) (simp add: t)
  qed
  moreover have "trades_from ts hs t" "ledger_ok t" "cases_ok t" "holds_except None t"
    using ok trades_from_cong[of ts hs s t] ledger_ok_cong[of s t] by (simp_all add: desk_but_def t cases_ok_def holds_except_def blocked_def)
  ultimately show ?thesis by (simp add: desk_but_def obligations_but_None)
qed

text \<open>What resolving a case leaves alone.\<close>

definition same_money :: "'x obligation_db_scheme \<Rightarrow> 'x obligation_db_scheme \<Rightarrow> bool" where
  "same_money s t \<longleftrightarrow> same_obligations s t \<and> financial_adjustment t = financial_adjustment s \<and> trade_economics t = trade_economics s \<and>
     settlement_leg t = settlement_leg s \<and> ledger_account t = ledger_account s \<and> ledger_entry t = ledger_entry s"

lemma same_money_refl: "same_money s s"
  by (simp add: same_money_def same_obligations_def)

lemma money_frames [inv_intros]:
  "keeps (same_money s) (appendAudit ctx action ty k x y)" "keeps (same_money s) (assertLockOrder l)" "keeps (same_money s) (update_case i f)"
  "keeps (same_money s) (update_trade p h)" "keeps (same_money s) (enqueueOutbox ctx ev)" "keeps (same_money s) freshId"
  by (auto simp: keeps_def same_money_def same_obligations_def update_case_def update_trade_def enqueueOutbox_def split: if_splits)

lemma resolve_money: "resolveExceptionInTx ctx v resolution notes adj s = Inr (u, t) \<Longrightarrow> same_money s t"
proof -
  have "keeps (same_money s) (resolveExceptionInTx ctx v resolution notes adj)"
    unfolding resolveExceptionInTx_def lockException_def sync_case_hold_def syncTradeHold_def
    by (intro inv_intros | simp split: option.split | intro conjI allI impI)+
  then show "resolveExceptionInTx ctx v resolution notes adj s = Inr (u, t) \<Longrightarrow> same_money s t" using same_money_refl by (blast dest: keepsD)
qed

lemma locked_trade: "lockTrade (JStr i) s = Inr (r, t) \<Longrightarrow> r \<in> set (trade s) \<and> td_id r = i \<and> same_desk s t"
  by (auto simp: lockTrade_def same_defs dest!: find_trade_Some)

lemma locked_obligation: "lockObligation (JStr i) s = Inr (r, t) \<Longrightarrow> r \<in> set (route_obligation s) \<and> ro_id r = i \<and> same_desk s t"
  by (auto simp: lockObligation_def same_defs find_obligation_def dest!: find_Some_mem)

lemma economics_Inr:
  assumes run: "read_economics (JStr i) s = Inr econ"
  shows "\<exists>e \<in> set (trade_economics s). \<exists>r \<in> set (route_obligation s). ec_trade e = i \<and> te_direction econ = ec_direction e \<and>
    ro_trade r = Some i \<and> tm_obligation econ = ro_id r \<and> tm_route econ = ec_route e"
proof -
  have "\<exists>e (tr :: trade_row) r. economics_of i s = Some e \<and> List.find (\<lambda>r. ro_trade r = Some i) (route_obligation s) = Some r \<and>
      econ = trade_economics.extend (economics_money e) (trade_terms.fields (ec_route e) (ec_mode e) (td_client tr) (ro_id r))"
    using run unfolding read_economics_def by (auto split: option.splits)
  then obtain e and tr :: trade_row and r where e: "economics_of i s = Some e" and r: "List.find (\<lambda>r. ro_trade r = Some i) (route_obligation s) = Some r"
    and econ: "econ = trade_economics.extend (economics_money e) (trade_terms.fields (ec_route e) (ec_mode e) (td_client tr) (ro_id r))" by blast
  have "te_direction econ = ec_direction e" "tm_obligation econ = ro_id r" "tm_route econ = ec_route e"
    by (simp_all add: econ economics_money_def trade_economics.defs trade_terms.defs)
  then show ?thesis using find_Some_mem[OF e[unfolded economics_of_def]] find_Some_mem[OF r] by blast
qed

definition approved_row :: "tx_ctx \<Rightarrow> int \<Rightarrow> string \<Rightarrow> adjustment_row \<Rightarrow> adjustment_row" where
  "approved_row ctx now journal_id x = x\<lparr>fa_status := ADJ_POSTED, fa_approved_by := Some (actorLabel ctx), fa_approved_at := Some now, fa_journal := Some journal_id\<rparr>"

lemma approved_row_simps [simp]: "restates (approved_row ctx now k)" "fa_status (approved_row ctx now k x) = ADJ_POSTED"
  "fa_base (approved_row ctx now k x) = fa_base x" "fa_client_inr (approved_row ctx now k x) = fa_client_inr x"
  "fa_route_inr (approved_row ctx now k x) = fa_route_inr x" "fa_margin_inr (approved_row ctx now k x) = fa_margin_inr x"
  by (simp_all add: approved_row_def restates_def)

lemma approve_steps:
  assumes "approveAdjustment a ctx p s = Inr (out, t)"
  shows "\<exists>adj tr econ ob j pj s1 s2 s3 s4 s5 s6 s7 x1 x2 x3 x4 x5 st st'. adj \<in> set (financial_adjustment s) \<and> fa_status adj = ADJ_REQUESTED \<and>
    actorLabel ctx \<noteq> fa_requested_by adj \<and> lockTrade (JStr (fa_trade adj)) s = Inr (tr, s1) \<and> read_economics (JStr (td_id tr)) s1 = Inr econ \<and>
    lockObligation (JStr (tm_obligation econ)) s1 = Inr (ob, s2) \<and>
    assertAdjustmentFits tr (te_direction econ) (ro_id ob) (ro_status ob) (deltas_of adj) s2 = Inr () \<and>
    journal_of_adjustment adj tr econ ob = Inr j \<and> postJournal ctx j s2 = Inr (pj, s3) \<and>
    update_adjustment (fa_id adj) (approved_row ctx (clock s3) (pj_id pj)) s3 = Inr ((), s4) \<and>
    resolve_linked ctx (js_field ''notes'' p) adj s4 = Inr ((), s5) \<and>
    appendAudit ctx x1 x2 x3 x4 x5 s5 = Inr ((), s6) \<and> refreshObligationStatus ctx ob s6 = Inr (st, s7) \<and> advanceTrade ctx (td_id tr) s7 = Inr (st', t)"
  using operatorHandle_Inr[OF assms[unfolded approveAdjustment_def]]
  apply (clarsimp simp: guard_Inr Let_def approved_row_def[symmetric] simp del: appendAudit_run dest!: lock_adjustment)
  by blast

lemma adjustment_fits_same: "same_terms s t \<Longrightarrow> same_obligations s t \<Longrightarrow> adjustment_fits r dir ob d t \<longleftrightarrow> adjustment_fits r dir ob d s"
proof -
  assume same: "same_terms s t" "same_obligations s t"
  have "side_left ob side t = side_left ob side s" for side
    by (rule posted_sides) (use same in \<open>simp_all add: same_terms_def same_obligations_def posted_sum_def\<close>)
  then show ?thesis unfolding adjustment_fits_def terms_same[OF same(1)] by simp
qed

lemma resolve_linked_keeps: "keeps (desk_ok ts hs ob) (resolve_linked ctx notes adj)"
  unfolding resolve_linked_def by (auto split: option.split intro!: inv_intros resolve_in_tx_keeps)

lemma linked_money: "resolve_linked ctx notes adj s = Inr (u, t) \<Longrightarrow> same_money s t"
  by (auto simp: resolve_linked_def intro: same_money_refl split: option.splits if_splits dest!: resolve_money)

text \<open>What an approval does: what it was allowed to do, and the sums it moved, by exactly the deltas of the adjustment.\<close>

definition approves :: "tx_ctx \<Rightarrow> adjustment_row \<Rightarrow> 'x obligation_db_scheme \<Rightarrow> 'x obligation_db_scheme \<Rightarrow> bool" where
  "approves ctx adj s t \<longleftrightarrow> adj \<in> set (financial_adjustment s) \<and> fa_status adj = ADJ_REQUESTED \<and> actorLabel ctx \<noteq> fa_requested_by adj \<and>
     (\<exists>tr ob e. tr \<in> set (trade s) \<and> td_id tr = fa_trade adj \<and> ob \<in> set (route_obligation s) \<and> ro_trade ob = Some (fa_trade adj) \<and>
        e \<in> set (trade_economics s) \<and> ec_trade e = fa_trade adj \<and> adjustment_fits tr (ec_direction e) ob (deltas_of adj) s) \<and>
     list_all (\<lambda>f. \<forall>k. posted_sum f k t = posted_sum f k s + (if k = fa_trade adj then f adj else 0))
       [fa_base, fa_client_inr, fa_route_inr, fa_margin_inr]"

lemma adjustment_effect:
  assumes ok: "desk_ok ts hs None s" and run: "approveAdjustment a ctx p s = Inr (out, t)"
  shows "desk_ok ts hs None t \<and> (\<exists>adj. approves ctx adj s t)"
proof -
  from approve_steps[OF run] obtain adj tr econ ob j pj s1 s2 s3 s4 s5 s6 s7 x1 x2 x3 x4 x5 st st' where
    adj: "adj \<in> set (financial_adjustment s)" "fa_status adj = ADJ_REQUESTED" "actorLabel ctx \<noteq> fa_requested_by adj"
    and lock: "lockTrade (JStr (fa_trade adj)) s = Inr (tr, s1)" and econ: "read_economics (JStr (td_id tr)) s1 = Inr econ"
    and lock_ob: "lockObligation (JStr (tm_obligation econ)) s1 = Inr (ob, s2)"
    and fit: "assertAdjustmentFits tr (te_direction econ) (ro_id ob) (ro_status ob) (deltas_of adj) s2 = Inr ()"
    and post: "postJournal ctx j s2 = Inr (pj, s3)" and upd: "update_adjustment (fa_id adj) (approved_row ctx (clock s3) (pj_id pj)) s3 = Inr ((), s4)"
    and link: "resolve_linked ctx (js_field ''notes'' p) adj s4 = Inr ((), s5)" and audit: "appendAudit ctx x1 x2 x3 x4 x5 s5 = Inr ((), s6)"
    and refresh: "refreshObligationStatus ctx ob s6 = Inr (st, s7)" and advance: "advanceTrade ctx (td_id tr) s7 = Inr (st', t)" by blast
  note tr = locked_trade[OF lock] and lo = locked_obligation[OF lock_ob]
  have i: "td_id tr = fa_trade adj" using tr by simp
  have ok2: "desk_ok ts hs None s2" using ok tr lo desk_frame by blast
  have led2: "ledger_ok s2" using ok2 by (simp add: desk_but_def)
  note pf = post_frame[OF post led2]
  have ok3: "desk_ok ts hs None s3" using moves_desk[OF post_moves[OF post led2] ok2] .
  have same12: "same_terms s s1" "same_obligations s s1" "same_terms s s2" "same_obligations s s2" "same_terms s s3" "same_obligations s s3"
    using tr lo pf(1,2) by (simp_all add: same_defs)
  from economics_Inr[OF econ] obtain e r where e: "e \<in> set (trade_economics s)" "ec_trade e = fa_trade adj" "te_direction econ = ec_direction e"
    and r: "r \<in> set (route_obligation s)" "ro_trade r = Some (fa_trade adj)" "tm_obligation econ = ro_id r"
    using same12(1,2) i by (auto simp: same_terms_def same_obligations_def)
  have rows: "route_obligation s1 = route_obligation s" "route_obligation s2 = route_obligation s" "route_obligation s3 = route_obligation s"
      "trade_economics s3 = trade_economics s" "financial_adjustment s3 = financial_adjustment s"
    using same12 by (simp_all add: same_terms_def same_obligations_def)
  have obs: "obligations_ok s" using ok by (simp add: desk_but_def obligations_but_None)
  have ob: "ob \<in> set (route_obligation s)" "ro_id ob = ro_id r" using lo r(3) by (simp_all add: rows)
  then have "ob = r" using unique_obligation[OF obs ob(1) r(1) ob(2)] by simp
  then have ob_trade: "ro_trade ob = Some (fa_trade adj)" using r(2) by simp
  have "find_obligation (ro_id ob) s2 = Some ob" unfolding find_obligation_def
    by (rule find_unique) (use obs ob(1) in \<open>simp_all add: rows obligations_ok_def\<close>)
  from adjustment_fits_Inr[OF fit this] have fits2: "adjustment_fits tr (ec_direction e) ob (deltas_of adj) s2" by (simp add: e(3))
  then have fits: "adjustment_fits tr (ec_direction e) ob (deltas_of adj) s" "adjustment_fits tr (ec_direction e) ob (deltas_of adj) s3"
    using adjustment_fits_same[OF same12(3,4)] adjustment_fits_same[OF same12(5,6)] by simp_all
  note adjusts = posting_adjusts[OF ok3 adj(1)[folded rows(5)] adj(2) ob(1)[folded rows(3)] ob_trade e(1)[folded rows(4)] e(2) fits(2) upd approved_row_simps(1,2)]
  have ok5: "desk_ok ts hs (Some (ro_id ob)) s5" using resolve_linked_keeps adjusts(1) link by (rule keepsD)
  with desk_case_frames(1) have ok6: "desk_ok ts hs (Some (ro_id ob)) s6" using audit by (rule keepsD)
  have money: "same_money s4 s5" by (rule linked_money[OF link])
  have "route_obligation s4 = route_obligation s3" using upd by (auto simp: update_adjustment_def split: if_splits)
  then have ob6: "ob \<in> set (route_obligation s6)" and adj6: "financial_adjustment s6 = financial_adjustment s4"
    using money audit ob(1) rows by (auto simp: same_money_def same_obligations_def)
  have ok7: "desk_ok ts hs None s7" by (rule refresh_keeps[OF ok6 ob6 refresh])
  have okt: "desk_ok ts hs None t" using advance_keeps ok7 advance by (rule keepsD)
  have "financial_adjustment t = financial_adjustment s4"
  proof -
    have "find_obligation (ro_id ob) s6 = Some ob" unfolding find_obligation_def
      by (rule find_unique) (use ok6 ob6 in \<open>simp_all add: desk_but_def obligations_but_def\<close>)
    moreover have "distinct (map ro_id (route_obligation s6))" using ok6 by (simp add: desk_but_def obligations_but_def)
    ultimately have "financial_adjustment s7 = financial_adjustment s6" using refresh_effect[OF _ _ refresh] by auto
    moreover have "financial_adjustment t = financial_adjustment s7"
      using advance_moves[OF advance] ok7 by (simp add: desk_but_def trades_from_def moves_trades_def same_terms_def)
    ultimately show ?thesis by (simp add: adj6)
  qed
  then have "posted_sum f k t = posted_sum f k s4" for f k by (simp add: posted_sum_def)
  moreover have "posted_sum f k s3 = posted_sum f k s" for f k by (simp add: posted_sum_def rows)
  ultimately have "posted_sum f k t = posted_sum f k s + (if k = fa_trade adj then f (approved_row ctx (clock s3) (pj_id pj) adj) else 0)" for f k
    using adjusts(2)[of f k] by simp
  then have "approves ctx adj s t" unfolding approves_def using adj tr i ob(1) ob_trade e fits(1) by auto
  with okt show ?thesis by blast
qed

lemma approve_keeps: "keeps (desk_ok ts hs None) (approveAdjustment a ctx p)"
  by (rule keepsI) (use adjustment_effect in blast)

section \<open>Properties\<close>

text \<open>C6: an adjustment takes effect only when a second person approves it: the approver is never who requested it, the trade is not cancelled,
  and a completed trade's client side is untouched; what the desk owes the client never falls below what it has committed to pay, nor what the
  client owes below what it has sent in; no side of the route obligation falls below what was settled on it, and a settled obligation only
  shrinks. What the trade owes then moves by exactly the deltas of that adjustment, no other trade moves, and every invariant of the desk holds.\<close>

theorem adjustment_approved_by_another:
  assumes "desk_ok ts hs None s" and "approveAdjustment a ctx p s = Inr (out, t)"
  shows "desk_ok ts hs None t \<and> (\<exists>adj. approves ctx adj s t)"
  using assms by (rule adjustment_effect)

section \<open>A sample\<close>

text \<open>The settling trade of \<open>Progress\<close>, with its correction of 100 rupees still to be approved.\<close>

definition asked_adjustment :: adjustment_row where
  "asked_adjustment = settling_adjustment\<lparr>fa_id := sample_uuid (CHR ''3''), fa_status := ADJ_REQUESTED, fa_approved_by := None, fa_approved_at := None,
     fa_journal := None\<rparr>"

definition sample_asked :: obligation_db where
  "sample_asked = sample_settling\<lparr>financial_adjustment := [asked_adjustment]\<rparr>"

lemma sample_asked_tables: "trade sample_asked = [settling_trade]" "financial_adjustment sample_asked = [asked_adjustment]"
  "trade_economics sample_asked = [frozen sample_terms settling_id TO_EXCHANGE]" "route_obligation sample_asked = [settling_obligation]"
  "route_settlement_allocation sample_asked = []" "exception_case sample_asked = []"
  by (simp_all add: sample_asked_def) (simp_all add: sample_settling_def sample_book_def trade_db.defs pricing_db.defs obligation_db.defs)

lemma sample_asked_ok: "desk_ok [settling_trade] settling_history None sample_asked"
proof -
  have "trades_from [settling_trade] settling_history sample_asked" by (rule trades_from_cong[OF sample_settling_from]) (simp_all add: sample_asked_def)
  moreover have "ledger_ok sample_asked" by (rule ledger_ok_cong[OF sample_settling_ledger]) (simp_all add: sample_asked_def)
  moreover have "obligations_ok sample_asked"
  proof -
    have "side_left settling_obligation ROUTE_DELIVERS sample_asked = 970000" "side_left settling_obligation EXCHANGE_DELIVERS sample_asked = 100000000"
      by code_simp+
    then show ?thesis by (simp add: obligations_ok_def sides_ok_def sample_asked_tables settling_obligation_def)
  qed
  moreover have "refs_ok sample_asked"
    by (simp add: refs_ok_def sample_asked_tables) code_simp
  moreover have "holds_ok sample_asked" by (simp add: holds_ok_def sample_asked_tables blocked_def settling_trade_def)
  ultimately show ?thesis by (simp add: desk_but_def obligations_but_None holds_except_None cases_ok_def sample_asked_tables)
qed

theorem adjustment_approved_by_another_witness:
  "case approveAdjustment (sample_actor CHR ''1'') posting_ctx (JObj [(''adjustmentId'', JStr (sample_uuid (CHR ''3'')))]) sample_asked of Inl e \<Rightarrow> False
   | Inr (out, t) \<Rightarrow> posted_sum fa_margin_inr settling_id t = 10000 \<and> desk_ok [settling_trade] settling_history None t"
proof -
  have ran: "case approveAdjustment (sample_actor CHR ''1'') posting_ctx (JObj [(''adjustmentId'', JStr (sample_uuid (CHR ''3'')))]) sample_asked of Inl e \<Rightarrow> False
    | Inr (out, t) \<Rightarrow> posted_sum fa_margin_inr settling_id t = 10000" by code_simp
  have "desk_ok [settling_trade] settling_history None t"
    if "approveAdjustment (sample_actor CHR ''1'') posting_ctx (JObj [(''adjustmentId'', JStr (sample_uuid (CHR ''3'')))]) sample_asked = Inr (out, t)" for out t
    using adjustment_approved_by_another[OF sample_asked_ok that] by blast
  with ran show ?thesis by (auto split: sum.splits)
qed

end
