(* ===== verification/Desk.thy ===== *)
theory Desk
  imports Adjustments
begin

text \<open>
  The desk as a whole: opening trades, moving them on, settling route obligations, exceptions and adjustments, in any order, refused or not,
  between whatever the rest of the program does to the legs and the route settlements. What all of them together keep.
\<close>

section \<open>Opening a trade\<close>

lemma obligation_fields: "obligation_db.route_settlement_allocation t = obligation_db.route_settlement_allocation s" if "trade_db.more t = trade_db.more s"
  using that by (cases s rule: obligation_db.cases_scheme, cases t rule: obligation_db.cases_scheme) simp

lemma open_keeps:
  assumes ok: "desk_ok ts hs None s" and run: "openTradeFromAcceptedQuote ctx terms mode s = Inr (out, t)"
  shows "desk_ok ts hs None t"
proof -
  have led: "ledger_ok s" and moves: "trades_from ts hs s" and obs: "obligations_ok s" and cok: "cases_ok s" and refs: "refs_ok s" and holds: "holds_ok s"
    using ok by (simp_all add: desk_but_def obligations_but_None holds_except_None)
  from opening_effect[OF led run] obtain i ref ob where opened: "opening_state ctx terms mode i ref ob s t"
    and matches: "obligation_matches ob (frozen terms i mode)" and led': "ledger_ok t" by blast
  let ?tr = "trade_of ctx terms i ref (clock s)"
  have rows: "trade t = trade s @ [?tr]" "trade_economics t = trade_economics s @ [frozen terms i mode]" "route_obligation t = route_obligation s @ [ob]"
    "financial_adjustment t = financial_adjustment s" "exception_case t = exception_case s"
    and alloc: "route_settlement_allocation t = route_settlement_allocation s" and ob: "ro_status ob = OB_OPEN" "ro_trade ob = Some i" "obligation_checks ob"
    and new: "\<forall>q \<in> set (trade s). td_id q \<noteq> i" "\<forall>q \<in> set (route_obligation s). ro_id q \<noteq> ro_id ob"
    using opened obligation_fields[of t s] by (simp_all add: opening_state_def)
  have fresh: "i \<notin> td_id ` set (trade s)" using new(1) by auto
  have old: "ro_trade r \<noteq> Some i" if r: "r \<in> set (route_obligation s)" for r
  proof -
    obtain e where "e \<in> set (trade_economics s)" "ro_trade r = Some (ec_trade e)" using refs r unfolding refs_ok_def by blast
    moreover have "ec_trade e \<in> td_id ` set (trade s)" using refs \<open>e \<in> set (trade_economics s)\<close> unfolding refs_ok_def by blast
    ultimately show ?thesis using fresh by auto
  qed
  have posted: "posted_sum f k t = posted_sum f k s" for f k by (simp add: posted_sum_def rows)
  have unposted: "posted_sum f i s = 0" for f
  proof -
    have "filter (\<lambda>a. fa_trade a = i \<and> fa_status a = ADJ_POSTED) (financial_adjustment s) = []"
      using refs fresh by (auto simp: filter_empty_conv refs_ok_def)
    then show ?thesis by (simp add: posted_sum_def)
  qed
  have none: "allocated_to (ro_id ob) side s = 0" for side
  proof -
    have "ra_obligation a \<noteq> ro_id ob" if "a \<in> set (route_settlement_allocation s)" for a using obs new(2) that unfolding obligations_ok_def by metis
    then have "filter (\<lambda>a. ra_obligation a = ro_id ob \<and> ra_side a = side) (route_settlement_allocation s) = []" by (auto simp: filter_empty_conv)
    then show ?thesis by (simp add: allocated_to_def)
  qed
  have sides: "side_left r side t = side_left r side s" for r side by (rule posted_sides[OF posted alloc])
  have mine: "side_left ob side s = (if side = ROUTE_DELIVERS then ro_route_minor ob else ro_exchange_minor ob)" for side
    by (simp add: side_left_def route_obligation_side_def none ob(2) unposted)
  have "sides_ok ob t" using ob(1,3) by (simp add: sides_ok_def sides mine obligation_checks_def)
  then have "obligations_ok t" using obs new(2) sides alloc rows by (auto simp: obligations_ok_def sides_ok_def)
  moreover have "refs_ok t" using refs fresh old ob(2,3) matches by (auto simp: refs_ok_def rows)
  moreover have "cases_ok t" using cok by (auto simp: cases_ok_def rows)
  moreover have "holds_ok t"
  proof -
    have blocked: "blocked k t \<longleftrightarrow> blocked k s" for k by (rule blocked_cong[OF rows(5)])
    have "\<not> blocked i s" using cok fresh by (auto simp: blocked_def cases_ok_def list_ex_iff)
    then show ?thesis using holds by (auto simp: holds_ok_def rows(1) blocked trade_of_def)
  qed
  ultimately show ?thesis using opening_keeps[OF moves opened] led' by (simp add: desk_but_def obligations_but_None holds_except_None)
qed

section \<open>Moving a trade on and allocating a settlement\<close>

lemma transition_desk:
  assumes "desk_ok ts hs None s" "reading_of r s" "transitionTrade ctx r to reason extra s = Inr (u, t)"
  shows "desk_ok ts hs None t"
proof -
  have "trades_ok s" using assms(1) by (simp add: desk_but_def trades_from_def)
  from transition_effect[OF assms(3,2) this] have "t = s \<or> transitioned ctx r to s t" by blast
  with assms(1) show ?thesis using moves_desk transitioned_moves by blast
qed

lemma allocate_desk:
  assumes ok: "desk_ok ts hs None s" and r: "r \<in> set (route_obligation s)" and run: "allocateToObligation ctx r side st amount by s = Inr ((i, status), t)"
  shows "desk_ok ts hs None t"
proof -
  have obs: "obligations_ok s" and refs: "refs_ok s" using ok by (simp_all add: desk_but_def obligations_but_None)
  from allocate_effect[OF obs r run] obtain a where a: "allocated r a status s t" by blast
  then obtain z w where t: "t = s\<lparr>uuids := Suc (uuids s), route_settlement_allocation := route_settlement_allocation s @ [a],
        route_obligation := settled_as (ro_id r) status z (route_obligation s), audit_event := w\<rparr>" by (auto simp: allocated_def)
  have "obligations_ok t" by (rule allocated_keeps[OF obs r a])
  moreover have "refs_ok t"
  proof -
    have "map ro_trade (route_obligation t) = map ro_trade (route_obligation s)" by (simp add: t settled_as_def)
    moreover have "obligation_checks y \<and> (\<exists>e \<in> set (trade_economics s). ro_trade y = Some (ec_trade e) \<and> obligation_matches y e)"
      if "y \<in> set (route_obligation t)" for y using that refs by (auto simp: t settled_as_def set_update_where refs_ok_def)
    ultimately show ?thesis using refs by (simp add: refs_ok_def) (simp add: t)
  qed
  moreover have "trades_from ts hs t" "ledger_ok t" "cases_ok t" "holds_except None t"
    using ok trades_from_cong[of ts hs s t] ledger_ok_cong[of s t] by (simp_all add: desk_but_def t cases_ok_def holds_except_def blocked_def)
  ultimately show ?thesis by (simp add: desk_but_def obligations_but_None)
qed

section \<open>The desk runs\<close>

text \<open>One call. \<open>MoveOn n\<close> hands over the row of its trade as it was \<open>n\<close> calls ago, as a command that read it earlier does. \<open>Outside\<close> is
  the rest of the program: it sets the legs, the route settlements and the clock to anything. The handlers run in a transaction of their own; the
  rank of the locks starts afresh, and a refused call changes nothing.\<close>

datatype desk_call =
    OpenTrade tx_ctx accepted_terms execution_mode
  | MoveOn nat tx_ctx string trade_state "string option"
  | Allocate tx_ctx string obligation_side string money "string option"
  | Advance tx_ctx string
  | OpenCase operator_actor tx_ctx js
  | TakeCase operator_actor tx_ctx js
  | ResolveCase operator_actor tx_ctx js
  | VoidCase operator_actor tx_ctx js
  | AskAdjustment operator_actor tx_ctx js
  | ApproveAdjustment operator_actor tx_ctx js
  | RejectAdjustment operator_actor tx_ctx js
  | Outside "leg_row list" "route_settlement_row list" int

definition allocate_locked :: "tx_ctx \<Rightarrow> string \<Rightarrow> obligation_side \<Rightarrow> string \<Rightarrow> money \<Rightarrow> string option \<Rightarrow> (obligation_db, string \<times> obligation_status) cmd" where
  "allocate_locked ctx i side settlementId amount by = bindC (lockObligation (JStr i)) (\<lambda>r. allocateToObligation ctx r side settlementId amount by)"

definition settle_call :: "(obligation_db, 'a) cmd \<Rightarrow> obligation_db \<Rightarrow> obligation_db" where
  "settle_call m s = (case m s of Inl e \<Rightarrow> s | Inr (out, t) \<Rightarrow> t\<lparr>tx_rank := - 1\<rparr>)"

text \<open>The trace holds the states, the newest first.\<close>

fun desk_step :: "desk_call \<Rightarrow> obligation_db list \<Rightarrow> obligation_db" where
  "desk_step (OpenTrade ctx terms mode) trace = settle_call (openTradeFromAcceptedQuote ctx terms mode) (hd trace)"
| "desk_step (MoveOn n ctx i to reason) trace = (case find_trade i (trace ! min n (length trace - 1)) of None \<Rightarrow> hd trace
    | Some r \<Rightarrow> settle_call (transitionTrade ctx r to reason []) (hd trace))"
| "desk_step (Allocate ctx i side settlementId amount by) trace = settle_call (allocate_locked ctx i side settlementId amount by) (hd trace)"
| "desk_step (Advance ctx i) trace = settle_call (advanceTrade ctx i) (hd trace)"
| "desk_step (OpenCase a ctx p) trace = settle_call (openException a ctx p) (hd trace)"
| "desk_step (TakeCase a ctx p) trace = settle_call (takeException a ctx p) (hd trace)"
| "desk_step (ResolveCase a ctx p) trace = settle_call (resolveException a ctx p) (hd trace)"
| "desk_step (VoidCase a ctx p) trace = settle_call (voidException a ctx p) (hd trace)"
| "desk_step (AskAdjustment a ctx p) trace = settle_call (requestAdjustment a ctx p) (hd trace)"
| "desk_step (ApproveAdjustment a ctx p) trace = settle_call (approveAdjustment a ctx p) (hd trace)"
| "desk_step (RejectAdjustment a ctx p) trace = settle_call (rejectAdjustment a ctx p) (hd trace)"
| "desk_step (Outside legs settlements now) trace = (hd trace)\<lparr>settlement_leg := legs, route_settlement := settlements, clock := now\<rparr>"

fun run_desk :: "desk_call list \<Rightarrow> obligation_db list \<Rightarrow> obligation_db list" where
  "run_desk [] trace = trace"
| "run_desk (c # cs) trace = run_desk cs (desk_step c trace # trace)"

text \<open>Every state of a trace sees the newest one keep the invariant and continue its own trades.\<close>

definition trace_ok :: "obligation_db list \<Rightarrow> bool" where
  "trace_ok trace \<longleftrightarrow> trace \<noteq> [] \<and> (\<forall>u \<in> set trace. desk_ok (trade u) (trade_transition u) None (hd trace))"

lemma desk_rank: "desk_but ts hs ob i (s\<lparr>tx_rank := n\<rparr>) \<longleftrightarrow> desk_but ts hs ob i s"
proof -
  have "same_desk s (s\<lparr>tx_rank := n\<rparr>)" "same_desk (s\<lparr>tx_rank := n\<rparr>) s" by (simp_all add: same_defs)
  then show ?thesis using desk_frame by blast
qed

lemma settle_call_keeps: "keeps (desk_ok ts hs None) m \<Longrightarrow> desk_ok ts hs None s \<Longrightarrow> desk_ok ts hs None (settle_call m s)"
  by (auto simp: settle_call_def desk_rank dest: keepsD split: sum.split)

lemma outside_keeps: "desk_ok ts hs None s \<Longrightarrow> desk_ok ts hs None (s\<lparr>settlement_leg := legs, route_settlement := settlements, clock := now\<rparr>)"
  (is "_ \<Longrightarrow> desk_ok ts hs None ?t")
proof -
  assume ok: "desk_ok ts hs None s"
  have "trades_from ts hs ?t" "ledger_ok ?t" "obligations_but None ?t" "refs_ok ?t"
    using ok trades_from_cong[of ts hs s ?t] ledger_ok_cong[of s ?t] obligations_but_cong[of None s ?t] refs_cong[of s ?t] by (simp_all add: desk_but_def)
  then show ?thesis using ok by (simp add: desk_but_def cases_ok_def holds_except_def blocked_def)
qed

lemma allocate_locked_keeps: "keeps (desk_ok ts hs None) (allocate_locked ctx i side st amount by)"
proof (rule keepsI)
  fix s out t assume ok: "desk_ok ts hs None s" and run: "allocate_locked ctx i side st amount by s = Inr (out, t)"
  obtain k status where out: "out = (k, status)" by (cases out)
  from run obtain r s1 where lock: "lockObligation (JStr i) s = Inr (r, s1)" and alloc: "allocateToObligation ctx r side st amount by s1 = Inr ((k, status), t)"
    unfolding out by (auto simp: allocate_locked_def)
  have s1: "same_desk s s1" "r \<in> set (route_obligation s1)" using locked_obligation[OF lock] by (simp_all add: same_defs)
  from allocate_desk[OF desk_frame[OF s1(1) ok] s1(2) alloc] show "desk_ok ts hs None t" .
qed

lemma open_keeps_cmd: "keeps (desk_ok ts hs None) (openTradeFromAcceptedQuote ctx terms mode)"
  by (rule keepsI) (rule open_keeps)

lemma desk_step_keeps:
  assumes trace: "trace_ok trace" and ok: "desk_ok ts hs None (hd trace)"
  shows "desk_ok ts hs None (desk_step c trace)"
proof (cases c)
  case (MoveOn n ctx i to reason)
  show ?thesis
  proof (cases "find_trade i (trace ! min n (length trace - 1))")
    case None
    then show ?thesis using ok MoveOn by simp
  next
    case (Some r)
    let ?u = "trace ! min n (length trace - 1)"
    have "trace \<noteq> []" using trace by (simp add: trace_ok_def)
    then have u: "?u \<in> set trace" by (intro nth_mem) (cases trace, auto)
    then have old: "trades_evolve (trade ?u) (trade (hd trace))" "trades_ok (hd trace)"
      using trace by (auto simp: trace_ok_def desk_but_def trades_from_def)
    have "reading_of r (hd trace)" using earlier_reading[OF old] find_trade_Some[OF Some] by blast
    then show ?thesis using ok Some MoveOn transition_desk[OF ok] by (auto simp: settle_call_def desk_rank split: sum.split)
  qed
qed (simp_all add: ok settle_call_keeps open_keeps_cmd allocate_locked_keeps advance_keeps case_commands_keep request_keeps approve_keeps reject_keeps outside_keeps)

lemma desk_from_self: "desk_ok ts hs None s \<Longrightarrow> desk_ok (trade s) (trade_transition s) None s"
  by (simp add: desk_but_def trades_from_def trades_evolve_refl)

lemma run_desk_keeps: "trace_ok trace \<Longrightarrow> trace_ok (run_desk cs trace) \<and> set trace \<subseteq> set (run_desk cs trace)"
proof (induction cs arbitrary: trace)
  case (Cons c cs)
  have step: "desk_ok (trade u) (trade_transition u) None (desk_step c trace)" if "u \<in> set trace" for u
    by (rule desk_step_keeps[OF Cons.prems]) (use Cons.prems that in \<open>simp add: trace_ok_def\<close>)
  obtain v where "v \<in> set trace" using Cons.prems by (cases trace) (auto simp: trace_ok_def)
  then have "trace_ok (desk_step c trace # trace)" using step desk_from_self[OF step] by (auto simp: trace_ok_def)
  from Cons.IH[OF this] show ?case by auto
qed simp

lemma run_desk_ok: "desk_ok (trade s) (trade_transition s) None s \<Longrightarrow> trace_ok (run_desk cs [s])"
  using run_desk_keeps[of "[s]" cs] by (simp add: trace_ok_def)

section \<open>Properties\<close>

text \<open>C5: whatever trades are opened, moved on, settled, held, adjusted and advanced, in whatever order and however often refused, and whatever the
  rest of the program does to legs and route settlements: every journal stays legal, every trade is where its history leads, no side of a
  route obligation is allocated more than it owes, an obligation is settled exactly when neither side owes anything, no two open cases have the
  same type and subject, and a trade is on hold exactly while a blocking case of it is open, so the trigger that checks this at commit never fires.\<close>

theorem desk_stays_consistent:
  assumes start: "desk_ok (trade s) (trade_transition s) None s"
  shows "case hd (run_desk cs [s]) of t \<Rightarrow> ledger_ok t \<and> trades_ok t \<and> obligations_ok t \<and> cases_ok t \<and> refs_ok t \<and>
    list_all (\<lambda>r. hold_consistent (td_id r) t) (trade t)"
proof -
  let ?t = "hd (run_desk cs [s])"
  have "trace_ok (run_desk cs [s])" by (rule run_desk_ok[OF start])
  then have ok: "desk_ok (trade ?t) (trade_transition ?t) None ?t" by (simp add: trace_ok_def)
  have "hold_consistent (td_id r) ?t" if "r \<in> set (trade ?t)" for r
  proof -
    have "find_trade (td_id r) ?t = Some r" unfolding find_trade_def
      by (rule find_unique) (use ok that in \<open>simp_all add: desk_but_def trades_from_def trades_ok_def\<close>)
    then show ?thesis using ok that by (simp add: hold_consistent_def desk_but_def holds_except_def)
  qed
  then show ?thesis using ok by (simp add: desk_but_def trades_from_def obligations_but_None list_all_iff)
qed

text \<open>C12: a trade that ever existed stays, with its terms of identity unchanged; its version never falls, and rises whenever the row changes; once
  completed or cancelled it stays so; and its history only grows, every step in it one the transition table allows, a stale reading's included.\<close>

theorem trades_only_move_forward:
  assumes start: "desk_ok (trade s) (trade_transition s) None s" and u: "u \<in> set (run_desk cs [s])" and x: "x \<in> set (trade u)"
  shows "\<exists>y \<in> set (trade (hd (run_desk cs [s]))). trade_succ x y \<and>
    history_ok (history (td_id x) (hd (run_desk cs [s]))) (td_state y) \<and>
    (\<exists>later. history (td_id x) (hd (run_desk cs [s])) = history (td_id x) u @ later)"
proof -
  let ?t = "hd (run_desk cs [s])"
  have "trace_ok (run_desk cs [s])" by (rule run_desk_ok[OF start])
  then have from_u: "trades_from (trade u) (trade_transition u) ?t" using u by (simp add: trace_ok_def desk_but_def)
  then obtain us' new where us: "trade ?t = us' @ new" "list_all2 trade_succ (trade u) us'" by (auto simp: trades_from_def trades_evolve_def)
  with x obtain y where y: "y \<in> set us'" "trade_succ x y" by (auto simp: list_all2_conv_all_nth in_set_conv_nth) blast
  then have mem: "y \<in> set (trade ?t)" using us(1) by simp
  have same: "td_id y = td_id x" using y(2) by (simp add: trade_succ_def same_trade_def)
  have "history_ok (history (td_id y) ?t) (td_state y)" using from_u mem unfolding trades_from_def trades_ok_def by blast
  moreover obtain later where "trade_transition ?t = trade_transition u @ later" using from_u by (auto simp: trades_from_def)
  then have "history (td_id x) ?t = history (td_id x) u @ filter (\<lambda>h. tt_trade h = td_id x) later" by (simp add: history_def)
  ultimately show ?thesis using y(2) mem same by auto
qed

section \<open>A sample\<close>

text \<open>On the settling trade of \<open>Adjustments\<close>: an operator reports a mistake, which holds the trade, so advancing it completes nothing; and without
  the report it completes, whereupon a command that read it before is refused.\<close>

definition sample_report :: desk_call where
  "sample_report = OpenCase (sample_actor CHR ''1'') posting_ctx (JObj [(''type'', JStr ''OPERATOR_MISTAKE''), (''subjectType'', JStr ''TRADE''),
     (''subjectId'', JStr settling_id), (''tradeId'', JStr settling_id), (''note'', JStr ''wrong rate'')])"

lemma sample_asked_start: "desk_ok (trade sample_asked) (trade_transition sample_asked) None sample_asked"
  by (rule desk_from_self[OF sample_asked_ok])

theorem desk_stays_consistent_witness:
  "map (\<lambda>r. (td_hold r, td_state r)) (trade (hd (run_desk [sample_report, Advance posting_ctx settling_id] [sample_asked]))) = [(True, SETTLING)] \<and>
   (case hd (run_desk [sample_report, Advance posting_ctx settling_id] [sample_asked]) of t \<Rightarrow> cases_ok t \<and> ledger_ok t)"
proof -
  have ran: "map (\<lambda>r. (td_hold r, td_state r)) (trade (hd (run_desk [sample_report, Advance posting_ctx settling_id] [sample_asked]))) = [(True, SETTLING)]"
    by code_simp
  with desk_stays_consistent[OF sample_asked_start, of "[sample_report, Advance posting_ctx settling_id]"] show ?thesis by simp
qed

theorem trades_only_move_forward_witness:
  "list_ex (\<lambda>y. trade_succ settling_trade y \<and> td_state y = TRADE_COMPLETED)
     (trade (hd (run_desk [Advance posting_ctx settling_id, MoveOn 1 posting_ctx settling_id TRADE_COMPLETED None] [sample_asked])))"
proof -
  let ?trace = "run_desk [Advance posting_ctx settling_id, MoveOn 1 posting_ctx settling_id TRADE_COMPLETED None] [sample_asked]"
  have ran: "list_all (\<lambda>y. td_state y = TRADE_COMPLETED) (trade (hd ?trace))" by code_simp
  have "set [sample_asked] \<subseteq> set ?trace" using run_desk_keeps[of "[sample_asked]"] sample_asked_start by (simp add: trace_ok_def)
  then have "sample_asked \<in> set ?trace" by simp
  from trades_only_move_forward[OF sample_asked_start this, of settling_trade] have "\<exists>y \<in> set (trade (hd ?trace)). trade_succ settling_trade y"
    by (auto simp: sample_asked_tables)
  with ran show ?thesis by (auto simp: list_ex_iff list_all_iff)
qed

end
