(* ===== verification/TronTx.thy ===== *)
theory TronTx
  imports Tron Database "HOL-Library.While_Combinator"
begin

text \<open>
  TRON transactions, built and read locally (\<^verbatim>\<open>packages/adapters/src/tron-tx.ts\<close>): what the signer signs is laid out byte by byte here,
  and what is about to be signed is read back from those bytes. A \<^verbatim>\<open>Uint8Array\<close> is a list of 8-bit words and a \<^verbatim>\<open>bigint\<close> that was checked not to be
  negative a \<open>nat\<close>. The hash SHA-256 is the parameter \<open>H\<close>, Keccak-256 the parameter \<open>K\<close>, and the curve the record \<open>secp256k1\<close> of the operations
  the code calls.
\<close>

unbundle bit_operations_syntax

definition TRANSFER_CONTRACT :: nat where "TRANSFER_CONTRACT = 1"
definition TRIGGER_SMART_CONTRACT :: nat where "TRIGGER_SMART_CONTRACT = 31"

definition TYPE_URL :: "nat \<Rightarrow> string" where
  "TYPE_URL n = (if n = TRANSFER_CONTRACT then ''type.googleapis.com/protocol.TransferContract''
     else ''type.googleapis.com/protocol.TriggerSmartContract'')"

definition TRC20_TRANSFER_SELECTOR :: string where "TRC20_TRANSFER_SELECTOR = ''a9059cbb''"
definition MAX_INT64 :: int where "MAX_INT64 = 9223372036854775807"

section \<open>The protobuf writer\<close>

function varint_bytes :: "nat \<Rightarrow> byte list" where
  "varint_bytes v = (let b = of_nat (v AND 127); rest = drop_bit 7 v
     in if rest > 0 then (b OR 0x80) # varint_bytes rest else [b])"
  by pat_completeness auto
termination by (relation "measure id") (auto simp: drop_bit_eq_div)

definition varint :: "int \<Rightarrow> byte list result" where
  "varint value = (if value < 0 then Inl (CoreError INVALID_ARGUMENT) else Inr (varint_bytes (nat value)))"

definition write_int :: "nat \<Rightarrow> int \<Rightarrow> byte list \<Rightarrow> byte list result" where
  "write_int field value w = bindR (varint (int (push_bit 3 field))) (\<lambda>k. bindR (varint value) (\<lambda>v. Inr (w @ k @ v)))"

definition write_bytes :: "nat \<Rightarrow> byte list \<Rightarrow> byte list \<Rightarrow> byte list result" where
  "write_bytes field value w = bindR (varint (int (push_bit 3 field OR 2))) (\<lambda>k. bindR (varint (int (length value))) (\<lambda>n. Inr (w @ k @ n @ value)))"

text \<open>\<^verbatim>\<open>TextEncoder\<close> on the ASCII texts the writer is given.\<close>

definition encode_text :: "string \<Rightarrow> byte list" where
  "encode_text s = map of_char s"

definition write_string :: "nat \<Rightarrow> string \<Rightarrow> byte list \<Rightarrow> byte list result" where
  "write_string field value = write_bytes field (encode_text value)"

section \<open>The protobuf reader\<close>

text \<open>The fields in the order they are read; the values of one field are a list of the \<^verbatim>\<open>Map\<close>. Only small field numbers are asked for, so that a
  \<^verbatim>\<open>Number\<close> no longer exact for a key of more than 53 bits makes no difference, and neither does it for a length, which is then beyond any text.\<close>

datatype proto_value = WireInt nat | WireBytes "byte list"

type_synonym proto_fields = "(nat \<times> proto_value) list"

fun read_varint :: "nat \<Rightarrow> nat \<Rightarrow> byte list \<Rightarrow> (nat \<times> byte list) result" where
  "read_varint shift acc [] = Inl (CoreError INVALID_ARGUMENT)"
| "read_varint shift acc (b # bs) =
     (let acc = acc OR push_bit shift (unat (b AND 0x7F))
      in if b AND 0x80 = 0 then Inr (acc, bs)
         else if shift + 7 > 63 then Inl (CoreError INVALID_ARGUMENT)
         else read_varint (shift + 7) acc bs)"

definition read_field :: "byte list \<Rightarrow> ((nat \<times> proto_value) \<times> byte list) result" where
  "read_field bs =
     bindR (read_varint 0 0 bs) (\<lambda>(key, bs).
     let field = drop_bit 3 key; wire = key AND 7
     in if wire = 0 then bindR (read_varint 0 0 bs) (\<lambda>(v, bs). Inr ((field, WireInt v), bs))
        else if wire = 2 then
          bindR (read_varint 0 0 bs) (\<lambda>(n, bs).
          if n > length bs then Inl (CoreError INVALID_ARGUMENT) else Inr ((field, WireBytes (take n bs)), drop n bs))
        else Inl (CoreError INVALID_ARGUMENT))"

text \<open>The \<^verbatim>\<open>while\<close> loop, on what is left of the bytes and the fields so far; \<open>reading_ends\<close> shows that it ends.\<close>

definition more_fields :: "(byte list \<times> proto_fields) result \<Rightarrow> bool" where
  "more_fields st = (case st of Inl e \<Rightarrow> False | Inr (bs, fs) \<Rightarrow> bs \<noteq> [])"

definition next_field :: "(byte list \<times> proto_fields) result \<Rightarrow> (byte list \<times> proto_fields) result" where
  "next_field st = bindR st (\<lambda>(bs, fs). bindR (read_field bs) (\<lambda>(f, bs). Inr (bs, fs @ [f])))"

definition readProto :: "byte list \<Rightarrow> proto_fields result" where
  "readProto bs = bindR (the (while_option more_fields next_field (Inr (bs, [])))) (\<lambda>(rest, fs). Inr fs)"

definition get_field :: "proto_fields \<Rightarrow> nat \<Rightarrow> proto_value list" where
  "get_field fs field = map snd (filter (\<lambda>f. fst f = field) fs)"

definition one_field :: "proto_fields \<Rightarrow> nat \<Rightarrow> proto_value option result" where
  "one_field fs field = (case get_field fs field of [] \<Rightarrow> Inr None | [v] \<Rightarrow> Inr (Some v) | _ \<Rightarrow> Inl (CoreError INVALID_ARGUMENT))"

definition bytesOf :: "proto_fields \<Rightarrow> nat \<Rightarrow> byte list option result" where
  "bytesOf fs field = bindR (one_field fs field) (\<lambda>v. case v of None \<Rightarrow> Inr None
     | Some (WireBytes b) \<Rightarrow> Inr (Some b) | Some (WireInt n) \<Rightarrow> Inl (CoreError INVALID_ARGUMENT))"

definition intOf :: "proto_fields \<Rightarrow> nat \<Rightarrow> nat result" where
  "intOf fs field = bindR (one_field fs field) (\<lambda>v. case v of None \<Rightarrow> Inr 0
     | Some (WireInt n) \<Rightarrow> Inr n | Some (WireBytes b) \<Rightarrow> Inl (CoreError INVALID_ARGUMENT))"

section \<open>Hexadecimal text and addresses\<close>

definition fromHex :: "string \<Rightarrow> byte list result" where
  "fromHex h = (let l = map lower_char h; s = (if take 2 l = ''0x'' then drop 2 l else l)
     in if odd (length s) \<or> \<not> list_all (\<lambda>c. hex_value c \<noteq> None) s then Inl (CoreError INVALID_ARGUMENT) else Inr (bytes_of_hex s))"

definition address21 :: "(byte list \<Rightarrow> byte list) \<Rightarrow> string \<Rightarrow> byte list result" where
  "address21 H address = bindR (normalizeTronAddress H (JStr address)) (\<lambda>a. bindR (tronAddressToHex H a) fromHex)"

definition addressFrom21 :: "(byte list \<Rightarrow> byte list) \<Rightarrow> byte list option \<Rightarrow> string result" where
  "addressFrom21 H bytes = (case bytes of None \<Rightarrow> Inl TypeError
     | Some b \<Rightarrow> if length b \<noteq> 21 \<or> b ! 0 \<noteq> 0x41 then Inl (CoreError INVALID_ARGUMENT) else encodeTronAddress H (drop 1 b))"

text \<open>\<^verbatim>\<open>BigInt('0x...')\<close> of hexadecimal digits, and the digits of a number.\<close>

definition hex_number :: "string \<Rightarrow> nat" where
  "hex_number s = foldl (\<lambda>n c. n * 16 + the (hex_value c)) 0 s"

definition digits16 :: "nat \<Rightarrow> string" where
  "digits16 n = (if n = 0 then ''0'' else map hex_char (to_base 16 n))"

definition padStart0 :: "nat \<Rightarrow> string \<Rightarrow> string" where
  "padStart0 n s = replicate (n - length s) (CHR ''0'') @ s"

section \<open>The transactions\<close>

record reference_block =
  rb_number :: int
  rb_id :: string
  rb_timestamp :: int

datatype tron_contract =
    TRX (tc_from: string) (tc_to: string) (tc_amountSun: nat)
  | TRC20 (tc_from: string) (tc_contract: string) (tc_to: string) (tc_amountMinor: nat)

record tron_tx =
  tx_rawDataHex :: string
  tx_id :: string
  tx_contract :: tron_contract
  tx_refBlockNum :: int
  tx_expiration :: int
  tx_timestamp :: int
  tx_feeLimitSun :: "int option"

definition positive :: "int \<Rightarrow> int result" where
  "positive value = (if value \<le> 0 \<or> value > MAX_INT64 then Inl (CoreError INVALID_AMOUNT) else Inr value)"

definition big_uint64 :: "nat \<Rightarrow> byte list" where
  "big_uint64 n = map (\<lambda>k. of_nat (drop_bit (8 * k) n)) (rev [0..<8])"

definition anchor :: "reference_block \<Rightarrow> (byte list \<times> byte list) result" where
  "anchor ref = (if rb_number ref \<le> 0 \<or> rb_number ref > MAX_INT64 then Inl (CoreError INVALID_ARGUMENT)
     else bindR (fromHex (rb_id ref)) (\<lambda>i.
       if length i \<noteq> 32 then Inl (CoreError INVALID_ARGUMENT)
       else Inr (drop 6 (big_uint64 (nat (rb_number ref))), take 8 (drop 8 i))))"

definition isSafeInteger :: "int \<Rightarrow> bool" where
  "isSafeInteger x \<longleftrightarrow> \<bar>x\<bar> \<le> 9007199254740991"

definition rawData :: "byte list \<Rightarrow> reference_block \<Rightarrow> int \<Rightarrow> int \<Rightarrow> int option \<Rightarrow> byte list result" where
  "rawData contract ref expiration timestamp feeLimitSun =
     (if \<not> isSafeInteger expiration \<or> \<not> isSafeInteger timestamp \<or> expiration \<le> timestamp then Inl (CoreError INVALID_ARGUMENT)
      else bindR (anchor ref) (\<lambda>(refBlockBytes, refBlockHash).
        bindR (write_bytes 1 refBlockBytes []) (\<lambda>w.
        bindR (write_bytes 4 refBlockHash w) (\<lambda>w.
        bindR (write_int 8 expiration w) (\<lambda>w.
        bindR (write_bytes 11 contract w) (\<lambda>w.
        bindR (write_int 14 timestamp w) (\<lambda>w.
        case feeLimitSun of None \<Rightarrow> Inr w
        | Some fee \<Rightarrow> bindR (positive fee) (\<lambda>f. write_int 18 f w))))))))"

definition contractMessage :: "nat \<Rightarrow> byte list \<Rightarrow> byte list result" where
  "contractMessage type parameter =
     bindR (write_string 1 (TYPE_URL type) []) (\<lambda>w. bindR (write_bytes 2 parameter w) (\<lambda>any.
     bindR (write_int 1 (int type) []) (\<lambda>w. write_bytes 2 any w)))"

definition trc20TransferData :: "(byte list \<Rightarrow> byte list) \<Rightarrow> string \<Rightarrow> int \<Rightarrow> string result" where
  "trc20TransferData H to amountMinor =
     bindR (normalizeTronAddress H (JStr to)) (\<lambda>a. bindR (tronAddressToHex H a) (\<lambda>h.
     bindR (positive amountMinor) (\<lambda>amount.
     Inr (TRC20_TRANSFER_SELECTOR @ padStart0 64 (drop 2 h) @ padStart0 64 (digits16 (nat amount))))))"

definition finish_tx ::
    "(byte list \<Rightarrow> byte list) \<Rightarrow> byte list \<Rightarrow> tron_contract \<Rightarrow> reference_block \<Rightarrow> int \<Rightarrow> int \<Rightarrow> int option \<Rightarrow> tron_tx" where
  "finish_tx H raw contract ref expiration timestamp feeLimitSun =
     \<lparr>tx_rawDataHex = hex_text raw, tx_id = hex_text (H raw), tx_contract = contract, tx_refBlockNum = rb_number ref,
      tx_expiration = expiration, tx_timestamp = timestamp, tx_feeLimitSun = feeLimitSun\<rparr>"

definition buildTrxTransfer ::
    "(byte list \<Rightarrow> byte list) \<Rightarrow> string \<Rightarrow> string \<Rightarrow> int \<Rightarrow> reference_block \<Rightarrow> int \<Rightarrow> int \<Rightarrow> tron_tx result" where
  "buildTrxTransfer H source dest amountSun ref expiration timestamp =
     bindR (normalizeTronAddress H (JStr source)) (\<lambda>sender.
     bindR (normalizeTronAddress H (JStr dest)) (\<lambda>to.
     if sender = to then Inl (CoreError INVALID_ARGUMENT)
     else bindR (positive amountSun) (\<lambda>amount.
       bindR (address21 H sender) (\<lambda>a. bindR (write_bytes 1 a []) (\<lambda>w.
       bindR (address21 H to) (\<lambda>b. bindR (write_bytes 2 b w) (\<lambda>w.
       bindR (write_int 3 amount w) (\<lambda>parameter.
       bindR (contractMessage TRANSFER_CONTRACT parameter) (\<lambda>c.
       bindR (rawData c ref expiration timestamp None) (\<lambda>raw.
       Inr (finish_tx H raw (TRX sender to (nat amount)) ref expiration timestamp None)))))))))))"

definition buildTrc20Transfer ::
    "(byte list \<Rightarrow> byte list) \<Rightarrow> string \<Rightarrow> string \<Rightarrow> string \<Rightarrow> int \<Rightarrow> int \<Rightarrow> reference_block \<Rightarrow> int \<Rightarrow> int \<Rightarrow> tron_tx result" where
  "buildTrc20Transfer H source token dest amountMinor feeLimitSun ref expiration timestamp =
     bindR (normalizeTronAddress H (JStr source)) (\<lambda>sender.
     bindR (normalizeTronAddress H (JStr token)) (\<lambda>contract.
     bindR (normalizeTronAddress H (JStr dest)) (\<lambda>to.
     if sender = to then Inl (CoreError INVALID_ARGUMENT)
     else bindR (positive amountMinor) (\<lambda>amount.
       bindR (trc20TransferData H to amount) (\<lambda>call. bindR (fromHex call) (\<lambda>data.
       bindR (address21 H sender) (\<lambda>a. bindR (write_bytes 1 a []) (\<lambda>w.
       bindR (address21 H contract) (\<lambda>b. bindR (write_bytes 2 b w) (\<lambda>w.
       bindR (write_bytes 4 data w) (\<lambda>parameter.
       bindR (contractMessage TRIGGER_SMART_CONTRACT parameter) (\<lambda>c.
       bindR (rawData c ref expiration timestamp (Some feeLimitSun)) (\<lambda>raw.
       Inr (finish_tx H raw (TRC20 sender contract to (nat amount)) ref expiration timestamp (Some feeLimitSun)))))))))))))))"

definition signedTransactionHex :: "string \<Rightarrow> string \<Rightarrow> string result" where
  "signedTransactionHex rawDataHex signatureHex =
     bindR (fromHex signatureHex) (\<lambda>signature.
     if length signature \<noteq> 65 then Inl (CoreError INVALID_ARGUMENT)
     else bindR (fromHex rawDataHex) (\<lambda>raw. bindR (write_bytes 1 raw []) (\<lambda>w. bindR (write_bytes 2 signature w) (\<lambda>tx. Inr (hex_text tx)))))"

section \<open>Reading a transaction back\<close>

datatype tron_source = RawData string | Signed string

record decoded_tx = tron_tx +
  tx_signatures :: "string list"

text \<open>\<^verbatim>\<open>Number\<close> of an integer: the nearest of 53 bits, the even one of two.\<close>

definition to_number :: "nat \<Rightarrow> nat" where
  "to_number n = (if n < 2 ^ 53 then n
     else let k = length (to_base 2 n) - 53; q = n div 2 ^ k; r = n mod 2 ^ k
       in (if 2 * r > 2 ^ k \<or> 2 * r = 2 ^ k \<and> odd q then q + 1 else q) * 2 ^ k)"

text \<open>\<^verbatim>\<open>TextDecoder\<close> drops a leading byte order mark; the text is then one of ASCII characters exactly when the bytes are.\<close>

definition decoded_is :: "byte list \<Rightarrow> string \<Rightarrow> bool" where
  "decoded_is bs text \<longleftrightarrow> (if take 3 bs = [0xEF, 0xBB, 0xBF] then drop 3 bs else bs) = encode_text text"

definition signature_text :: "proto_value \<Rightarrow> string result" where
  "signature_text v = (case v of WireBytes b \<Rightarrow> Inr (hex_text b) | WireInt n \<Rightarrow> Inl (CoreError INVALID_ARGUMENT))"

definition read_source :: "tron_source \<Rightarrow> (byte list \<times> string list) result" where
  "read_source input = (case input of
     Signed h \<Rightarrow> bindR (fromHex h) (\<lambda>b. bindR (readProto b) (\<lambda>tx. bindR (bytesOf tx 1) (\<lambda>raw.
       bindR (mapR signature_text (get_field tx 2)) (\<lambda>ss. Inr ((case raw of None \<Rightarrow> [] | Some r \<Rightarrow> r), ss)))))
   | RawData h \<Rightarrow> bindR (fromHex h) (\<lambda>raw. Inr (raw, [])))"

definition or_empty :: "byte list option \<Rightarrow> byte list" where
  "or_empty b = (case b of None \<Rightarrow> [] | Some x \<Rightarrow> x)"

definition is_transfer_call :: "string \<Rightarrow> bool" where
  "is_transfer_call data \<longleftrightarrow> length data = 8 + 128 \<and> take 8 data = TRC20_TRANSFER_SELECTOR \<and> list_all (\<lambda>c. c = CHR ''0'') (take 24 (drop 8 data))"

definition decode_contract :: "(byte list \<Rightarrow> byte list) \<Rightarrow> proto_fields \<Rightarrow> tron_contract result" where
  "decode_contract H c =
     bindR (intOf c 1) (\<lambda>type. bindR (bytesOf c 2) (\<lambda>a. bindR (readProto (or_empty a)) (\<lambda>any.
     bindR (bytesOf any 1) (\<lambda>url. bindR (bytesOf any 2) (\<lambda>b. bindR (readProto (or_empty b)) (\<lambda>p.
     if type = TRANSFER_CONTRACT \<and> decoded_is (or_empty url) (TYPE_URL TRANSFER_CONTRACT) then
       bindR (bytesOf p 1) (\<lambda>x. bindR (addressFrom21 H x) (\<lambda>sender.
       bindR (bytesOf p 2) (\<lambda>y. bindR (addressFrom21 H y) (\<lambda>to.
       bindR (intOf p 3) (\<lambda>amount. Inr (TRX sender to amount))))))
     else if type = TRIGGER_SMART_CONTRACT \<and> decoded_is (or_empty url) (TYPE_URL TRIGGER_SMART_CONTRACT) then
       bindR (intOf p 3) (\<lambda>v3. if v3 \<noteq> 0 then Inl (CoreError INVALID_ARGUMENT) else
       bindR (intOf p 5) (\<lambda>v5. if v5 \<noteq> 0 then Inl (CoreError INVALID_ARGUMENT) else
       bindR (intOf p 6) (\<lambda>v6. if v6 \<noteq> 0 then Inl (CoreError INVALID_ARGUMENT) else
       bindR (bytesOf p 4) (\<lambda>d. let data = hex_text (or_empty d)
       in if \<not> is_transfer_call data then Inl (CoreError INVALID_ARGUMENT)
       else bindR (bytesOf p 1) (\<lambda>x. bindR (addressFrom21 H x) (\<lambda>sender.
       bindR (bytesOf p 2) (\<lambda>y. bindR (addressFrom21 H y) (\<lambda>contract.
       bindR (fromHex (take 40 (drop 32 data))) (\<lambda>account. bindR (encodeTronAddress H account) (\<lambda>to.
       Inr (TRC20 sender contract to (hex_number (drop 72 data)))))))))))))
     else Inl (CoreError INVALID_ARGUMENT)))))))"

definition reference_ok :: "byte list option \<Rightarrow> byte list option \<Rightarrow> bool" where
  "reference_ok a b \<longleftrightarrow> (case (a, b) of (Some x, Some y) \<Rightarrow> length x = 2 \<and> length y = 8 | _ \<Rightarrow> False)"

definition only_contract :: "proto_value list \<Rightarrow> byte list result" where
  "only_contract vs = (case vs of [WireBytes c] \<Rightarrow> Inr c | _ \<Rightarrow> Inl (CoreError INVALID_ARGUMENT))"

definition decodeTronTransaction :: "(byte list \<Rightarrow> byte list) \<Rightarrow> tron_source \<Rightarrow> decoded_tx result" where
  "decodeTronTransaction H input =
     bindR (read_source input) (\<lambda>(raw, signatures).
     bindR (readProto raw) (\<lambda>r.
     bindR (bytesOf r 1) (\<lambda>refBlockBytes. bindR (bytesOf r 4) (\<lambda>refBlockHash.
     if \<not> reference_ok refBlockBytes refBlockHash then Inl (CoreError INVALID_ARGUMENT)
     else bindR (only_contract (get_field r 11)) (\<lambda>body. bindR (readProto body) (\<lambda>c.
     bindR (decode_contract H c) (\<lambda>contract.
     bindR (intOf r 18) (\<lambda>feeLimit. bindR (intOf r 8) (\<lambda>expiration. bindR (intOf r 14) (\<lambda>timestamp.
     Inr \<lparr>tx_rawDataHex = hex_text raw, tx_id = hex_text (H raw), tx_contract = contract, tx_refBlockNum = int (big_endian (or_empty refBlockBytes)),
          tx_expiration = int (to_number expiration), tx_timestamp = int (to_number timestamp),
          tx_feeLimitSun = (if feeLimit = 0 then None else Some (int feeLimit)), tx_signatures = signatures\<rparr>))))))))))"

section \<open>Keys and signatures\<close>

text \<open>The operations of the curve library: the 65 bytes of a point, the signature as recovery, r and s, and the public key a signature
  recovers; each may throw.\<close>

record secp256k1 =
  point_bytes :: "byte list \<Rightarrow> byte list result"
  sign_digest :: "byte list \<Rightarrow> byte list \<Rightarrow> byte list result"
  recover_key :: "byte list \<Rightarrow> byte list \<Rightarrow> byte list result"

definition tronAddressOfPublicKey :: "(byte list \<Rightarrow> byte list) \<Rightarrow> (byte list \<Rightarrow> byte list) \<Rightarrow> secp256k1 \<Rightarrow> byte list \<Rightarrow> string result" where
  "tronAddressOfPublicKey H K C publicKey =
     bindR (if length publicKey = 65 then Inr publicKey else point_bytes C publicKey) (\<lambda>point.
     if length point \<noteq> 65 \<or> point ! 0 \<noteq> 4 then Inl (CoreError INVALID_ARGUMENT)
     else encodeTronAddress H (drop 12 (K (drop 1 point))))"

definition signTxid :: "secp256k1 \<Rightarrow> string \<Rightarrow> byte list \<Rightarrow> string result" where
  "signTxid C txidHex privateKey =
     bindR (fromHex txidHex) (\<lambda>digest.
     if length digest \<noteq> 32 then Inl (CoreError INVALID_ARGUMENT)
     else bindR (sign_digest C digest privateKey) (\<lambda>recovered.
       Inr (hex_text (take 64 (drop 1 recovered)) @ padStart0 2 (digits16 (unat (recovered ! 0) + 27)))))"

definition recoverTxSigner :: "(byte list \<Rightarrow> byte list) \<Rightarrow> (byte list \<Rightarrow> byte list) \<Rightarrow> secp256k1 \<Rightarrow> string \<Rightarrow> string \<Rightarrow> string result" where
  "recoverTxSigner H K C txidHex signatureHex =
     bindR (fromHex signatureHex) (\<lambda>sig.
     if length sig \<noteq> 65 then Inl (CoreError INVALID_ARGUMENT)
     else let v = sig ! 64; recovery = (if unat v \<ge> 27 then v - 27 else v)
       in if recovery \<noteq> 0 \<and> recovery \<noteq> 1 then Inl (CoreError INVALID_ARGUMENT)
          else bindR (fromHex txidHex) (\<lambda>digest. bindR (recover_key C (recovery # take 64 sig) digest) (tronAddressOfPublicKey H K C)))"

declare varint_bytes.simps [simp del]

section \<open>Varints\<close>

lemma or_above: "acc < 2 ^ s \<Longrightarrow> acc OR push_bit s m = acc + 2 ^ s * (m::nat)"
proof -
  assume "acc < 2 ^ s"
  then have self: "take_bit s acc = acc" by (simp add: take_bit_nat_eq_self)
  have "acc AND push_bit s m = 0"
    by (subst self[symmetric]) (rule bit_eqI, simp add: bit_and_iff bit_push_bit_iff bit_take_bit_iff)
  then show ?thesis by (simp add: disjunctive_add_eq_or[symmetric] push_bit_eq_mult mult.commute)
qed

lemma seven_bits:
  "m < 128 \<Longrightarrow> unat ((of_nat m :: byte) AND 0x7F) = m \<and> (of_nat m :: byte) AND 0x80 = 0 \<and>
     unat (((of_nat m :: byte) OR 0x80) AND 0x7F) = m \<and> ((of_nat m :: byte) OR 0x80) AND 0x80 \<noteq> 0"
proof -
  have "\<forall>m \<in> set [0..<128]. unat ((of_nat m :: byte) AND 0x7F) = m \<and> (of_nat m :: byte) AND 0x80 = 0 \<and>
     unat (((of_nat m :: byte) OR 0x80) AND 0x7F) = m \<and> ((of_nat m :: byte) OR 0x80) AND 0x80 \<noteq> 0" by code_simp
  then show "m < 128 \<Longrightarrow> ?thesis" by simp
qed

lemma and_127: "(v::nat) AND 127 = v mod 128"
  using take_bit_eq_mask[of 7 v] by (simp add: mask_eq_exp_minus_1 take_bit_eq_mod)

lemma and_7: "(v::nat) AND 7 = v mod 8"
  using take_bit_eq_mask[of 3 v] by (simp add: mask_eq_exp_minus_1 take_bit_eq_mod)

lemma varint_unfold: "varint_bytes v = (if v div 128 > 0 then (of_nat (v mod 128) OR 0x80) # varint_bytes (v div 128) else [of_nat (v mod 128)])"
  by (subst varint_bytes.simps) (simp add: Let_def and_127 drop_bit_eq_div)

lemma varint_nonempty [simp]: "varint_bytes v \<noteq> []"
  by (subst varint_unfold) simp

lemma read_written_at:
  "k \<le> 9 \<Longrightarrow> acc < 2 ^ (7 * k) \<Longrightarrow> v < 2 ^ (70 - 7 * k) \<Longrightarrow> read_varint (7 * k) acc (varint_bytes v @ rest) = Inr (acc + 2 ^ (7 * k) * v, rest)"
proof (induction v arbitrary: k acc rule: varint_bytes.induct)
  case (1 v)
  have low: "v mod 128 < 128" by simp
  show ?case
  proof (cases "v div 128 > 0")
    case True
    then have "(2::nat) ^ 7 \<le> v" by (simp add: div_greater_zero_iff)
    with "1.prems"(3) have "(2::nat) ^ 7 < 2 ^ (70 - 7 * k)" by linarith
    then have "7 < 70 - 7 * k" by (rule power_less_imp_less_exp[rotated]) simp
    then have k: "k \<le> 8" by simp
    have acc: "acc + 2 ^ (7 * k) * (v mod 128) < 2 ^ (7 * Suc k)"
    proof -
      have step: "a < P \<Longrightarrow> m \<le> 127 \<Longrightarrow> a + P * m < P * 128" for a P m :: nat using mult_le_mono2[of m 127 P] by linarith
      have "2 ^ (7 * Suc k) = 2 ^ (7 * k) * (128 :: nat)" by (simp add: power_add)
      then show ?thesis using step[OF "1.prems"(2), of "v mod 128"] low by simp
    qed
    have "70 - 7 * k = (70 - 7 * Suc k) + 7" using k by simp
    then have "(2::nat) ^ (70 - 7 * k) = 2 ^ (70 - 7 * Suc k) * 128" by (simp only: power_add) simp
    with "1.prems"(3) have "v div 128 < 2 ^ (70 - 7 * Suc k)" by (metis less_mult_imp_div_less)
    from "1.IH"[OF refl refl _ _ acc, of] True k this have
      "read_varint (7 * Suc k) (acc + 2 ^ (7 * k) * (v mod 128)) (varint_bytes (v div 128) @ rest) =
       Inr (acc + 2 ^ (7 * k) * (v mod 128) + 2 ^ (7 * Suc k) * (v div 128), rest)" by (simp add: drop_bit_eq_div)
    moreover have "acc + 2 ^ (7 * k) * (v mod 128) + 2 ^ (7 * Suc k) * (v div 128) = acc + 2 ^ (7 * k) * v"
    proof -
      have "2 ^ (7 * Suc k) * (v div 128) = 2 ^ (7 * k) * (128 * (v div 128))" by (simp add: power_add)
      then show ?thesis by (metis add.assoc distrib_left mod_mult_div_eq)
    qed
    ultimately show ?thesis using True k seven_bits[OF low] or_above[OF "1.prems"(2)]
      by (subst varint_unfold) (simp add: Let_def add.commute[of 7])
  next
    case False
    then have "v mod 128 = v" by (simp add: div_greater_zero_iff)
    then show ?thesis using False seven_bits[OF low] or_above[OF "1.prems"(2)]
      by (subst varint_unfold) (simp add: Let_def)
  qed
qed

lemma read_written: "v < 2 ^ 70 \<Longrightarrow> read_varint 0 0 (varint_bytes v @ rest) = Inr (v, rest)"
  using read_written_at[of 0 0 v rest] by simp

lemma read_varint_shorter: "read_varint s acc bs = Inr (n, rest) \<Longrightarrow> length rest < length bs"
  by (induction s acc bs rule: read_varint.induct) (auto simp: Let_def split: if_splits)

section \<open>Messages\<close>

text \<open>The bytes of a field, and that a message is read back as the fields it was written from.\<close>

fun field_bytes :: "nat \<times> proto_value \<Rightarrow> byte list" where
  "field_bytes (f, WireInt v) = varint_bytes (8 * f) @ varint_bytes v"
| "field_bytes (f, WireBytes b) = varint_bytes (8 * f + 2) @ varint_bytes (length b) @ b"

fun field_fits :: "nat \<times> proto_value \<Rightarrow> bool" where
  "field_fits (f, WireInt v) \<longleftrightarrow> f < 2 ^ 60 \<and> v < 2 ^ 70"
| "field_fits (f, WireBytes b) \<longleftrightarrow> f < 2 ^ 60 \<and> length b < 2 ^ 70"

lemma varint_int: "varint (int n) = Inr (varint_bytes n)"
  by (simp add: varint_def)

lemma write_int_Inr: "write_int f v w = Inr x \<longleftrightarrow> 0 \<le> v \<and> x = w @ field_bytes (f, WireInt (nat v))"
proof -
  have "push_bit 3 f = 8 * f" by (simp add: push_bit_eq_mult)
  then show ?thesis unfolding write_int_def by (simp only: varint_int) (auto simp: varint_def)
qed

lemma write_bytes_run: "write_bytes f b w = Inr (w @ field_bytes (f, WireBytes b))"
proof -
  have "push_bit 3 f OR 2 = 8 * f + 2" using or_above[of 2 3 f] by (simp add: or.commute)
  then show ?thesis unfolding write_bytes_def by (simp only: varint_int) simp
qed

lemma read_field_written: "field_fits fv \<Longrightarrow> read_field (field_bytes fv @ rest) = Inr (fv, rest)"
proof (cases fv rule: field_bytes.cases)
  case (1 f v)
  moreover assume "field_fits fv"
  moreover have "drop_bit 3 (8 * f) = f" "(8 * f) AND 7 = 0" by (simp_all add: drop_bit_eq_div and_7)
  ultimately show ?thesis by (simp add: read_field_def read_written)
next
  case (2 f b)
  moreover assume "field_fits fv"
  moreover have "drop_bit 3 (8 * f + 2) = f" "(8 * f + 2) AND 7 = 2" by (simp_all only: drop_bit_eq_div and_7) (simp, presburger)
  ultimately show ?thesis by (simp add: read_field_def read_written)
qed

lemma field_nonempty: "field_bytes fv \<noteq> []"
  by (cases fv rule: field_bytes.cases) simp_all

lemma more_fields_simps [simp]: "more_fields (Inl e) \<longleftrightarrow> False" "more_fields (Inr (bs, fs)) \<longleftrightarrow> bs \<noteq> []"
  by (simp_all add: more_fields_def)

lemma loop_written:
  "list_all field_fits fvs \<Longrightarrow> while_option more_fields next_field (Inr (concat (map field_bytes fvs), fs)) = Some (Inr ([], fs @ fvs))"
proof (induction fvs arbitrary: fs)
  case Nil
  show ?case by (subst while_option_unfold) simp
next
  case (Cons fv fvs)
  have "next_field (Inr (field_bytes fv @ concat (map field_bytes fvs), fs)) = Inr (concat (map field_bytes fvs), fs @ [fv])"
    using Cons.prems by (simp add: next_field_def read_field_written)
  then show ?case using Cons.IH[of "fs @ [fv]"] Cons.prems field_nonempty[of fv]
    by (subst while_option_unfold) simp
qed

lemma read_message: "list_all field_fits fvs \<Longrightarrow> readProto (concat (map field_bytes fvs)) = Inr fvs"
  by (simp add: readProto_def loop_written)

lemma read_field_shorter: "read_field bs = Inr (f, rest) \<Longrightarrow> length rest < length bs"
  by (auto simp: read_field_def Let_def split: if_splits dest!: read_varint_shorter)

text \<open>C33: reading the fields of a message ends, whatever the bytes: the loop either throws or takes at least one byte each time.\<close>

theorem reading_ends:
  "case while_option more_fields next_field (Inr (bs, fs)) of None \<Rightarrow> False | Some (Inl e) \<Rightarrow> True | Some (Inr (rest, gs)) \<Rightarrow> rest = []"
proof -
  let ?size = "\<lambda>st. case st of Inl e \<Rightarrow> 0 | Inr (bs, fs) \<Rightarrow> Suc (length bs)"
  have "?size (next_field st) < ?size st" if more: "more_fields st" for st
  proof -
    obtain bs fs where st: "st = Inr (bs, fs)" "bs \<noteq> []" using more by (cases st) auto
    show ?thesis
    proof (cases "read_field bs")
      case (Inr r)
      then show ?thesis using st read_field_shorter[of bs "fst r" "snd r"] by (cases r) (simp add: next_field_def)
    qed (simp add: st next_field_def)
  qed
  then obtain t where t: "while_option more_fields next_field (Inr (bs, fs)) = Some t"
    using measure_while_option_Some[of "\<lambda>_. True" more_fields next_field ?size] by blast
  then show ?thesis using while_option_stop[OF t] by (cases t) auto
qed

section \<open>Addresses as bytes\<close>

lemma lower_hex: "n < 16 \<Longrightarrow> lower_char (hex_char n) = hex_char n"
proof -
  have "\<forall>n \<in> set [0..<16]. lower_char (hex_char n) = hex_char n" by code_simp
  then show "n < 16 \<Longrightarrow> ?thesis" by simp
qed

lemma fromHex_text [simp]: "fromHex (hex_text b) = Inr b"
proof -
  have "unat (b::byte) div 16 < 16" "unat b mod 16 < 16" for b using byte_bound[of b] by auto
  then have "map lower_char (hex_text b) = hex_text b" by (induction b) (simp_all add: hex_text_def lower_hex)
  then show ?thesis using hex_text_not_T(2)[of b] hex_text_digits[of b] by (simp add: fromHex_def bytes_of_hex_text)
qed

lemma hex_text_Cons: "hex_text (b # bs) = hex_text [b] @ hex_text bs"
  by (simp add: hex_text_def)

lemma normalized:
  assumes H: "\<And>x. 4 \<le> length (H x)" and run: "normalizeTronAddress H (JStr x) = Inr a"
  shows "isTronAddress H a"
proof -
  have "isTronAddress H a" if "encodeTronAddress H account = Inr a" for account
  proof -
    have "length account = 20" using that by (simp add: encodeTronAddress_def split: if_splits)
    from encode_run[of H, OF H this] that show ?thesis by simp
  qed
  then show ?thesis using run by (auto simp: normalizeTronAddress_def parseTronAddress_def Let_def split: if_splits)
qed

lemma address_bytes:
  assumes H: "\<And>x. 4 \<le> length (H x)" and a: "isTronAddress H a"
  obtains account where "length account = 20" "encodeTronAddress H account = Inr a" "normalizeTronAddress H (JStr a) = Inr a"
    "tronAddressToHex H a = Inr (hex_text (0x41 # account))" "address21 H a = Inr (0x41 # account)" "addressFrom21 H (Some (0x41 # account)) = Inr a"
proof -
  from address_decodes[OF a] obtain account where acc: "length account = 20" "encodeTronAddress H account = Inr a" by blast
  from encode_run[of H, OF H acc(1)] acc(2) have h: "tronAddressToHex H a = Inr (''41'' @ hex_text account)" by simp
  moreover have "hex_text (0x41 # account) = ''41'' @ hex_text account" by (subst hex_text_Cons) (simp add: hex_text_def hex_char_def)
  ultimately have h: "tronAddressToHex H a = Inr (hex_text (0x41 # account))" by simp
  have "take 1 a = ''T''" using a by (auto simp: isTronAddress_def matches_def TRON_RE_def list_all2_Cons1)
  then have n: "normalizeTronAddress H (JStr a) = Inr a" using a by (simp add: normalizeTronAddress_def parseTronAddress_def)
  show thesis by (rule that[OF acc n h]) (use acc n h in \<open>simp_all add: address21_def addressFrom21_def\<close>)
qed

section \<open>Building and reading back\<close>

definition message :: "proto_fields \<Rightarrow> byte list" where
  "message fvs = concat (map field_bytes fvs)"

lemma varint_length: "v < 2 ^ (7 * k) \<Longrightarrow> 0 < k \<Longrightarrow> length (varint_bytes v) \<le> k"
proof (induction k arbitrary: v)
  case (Suc k)
  show ?case
  proof (cases "v div 128 > 0")
    case True
    then have "2 ^ 7 \<le> v" by (simp add: div_greater_zero_iff)
    with Suc.prems(1) have "0 < k" by (cases k) simp_all
    moreover have "v div 128 < 2 ^ (7 * k)" using Suc.prems(1) by (simp add: power_add div_less_iff_less_mult mult.commute)
    ultimately show ?thesis using Suc.IH[of "v div 128"] True by (subst varint_unfold) simp
  qed (subst varint_unfold, simp)
qed simp

lemma field_length:
  "f < 2 ^ 60 \<Longrightarrow> v < 2 ^ 70 \<Longrightarrow> length (field_bytes (f, WireInt v)) \<le> 20"
  "f < 2 ^ 60 \<Longrightarrow> length b < 2 ^ 70 \<Longrightarrow> length (field_bytes (f, WireBytes b)) \<le> 20 + length b"
  using varint_length[of "8 * f" 10] varint_length[of v 10] varint_length[of "8 * f + 2" 10] varint_length[of "length b" 10] by auto

lemma read_back: "list_all field_fits fvs \<Longrightarrow> readProto (message fvs) = Inr fvs"
  by (simp add: message_def read_message)

lemma contractMessage_run: "contractMessage type parameter =
    Inr (message [(1, WireInt type), (2, WireBytes (message [(1, WireBytes (encode_text (TYPE_URL type))), (2, WireBytes parameter)]))])"
proof -
  have "write_int 1 (int type) [] = Inr (field_bytes (1, WireInt type))" by (simp only: write_int_Inr) simp
  then show ?thesis by (simp add: contractMessage_def write_string_def write_bytes_run message_def add.assoc del: One_nat_def)
qed

lemma positive_Inr: "positive v = Inr x \<longleftrightarrow> x = v \<and> 0 < v \<and> v \<le> MAX_INT64"
  by (auto simp: positive_def)

lemma anchor_run:
  assumes "anchor ref = Inr (b, h)"
  shows "length b = 2 \<and> length h = 8 \<and> int (big_endian b) = rb_number ref mod 65536"
proof -
  let ?n = "nat (rb_number ref)"
  from assms have n: "0 < rb_number ref" and b: "b = drop 6 (big_uint64 ?n)" and h: "length h = 8"
    by (auto simp: anchor_def split: if_splits)
  have two: "b = [of_nat (?n div 256), of_nat ?n]" unfolding b big_uint64_def by (simp add: upt_rec drop_bit_eq_div)
  have "unat (of_nat m :: byte) = m mod 256" for m by (simp add: unat_of_nat)
  then have "big_endian b = ?n div 256 mod 256 * 256 + ?n mod 256" by (simp add: two big_endian_def)
  also have "\<dots> = ?n mod (256 * 256)" by (subst mod_mult2_eq) (simp add: mult.commute)
  finally have "int (big_endian b) = int ?n mod 65536" by (simp add: zmod_int)
  then show ?thesis using two h n by simp
qed

definition raw_fields :: "byte list \<Rightarrow> byte list \<Rightarrow> int \<Rightarrow> byte list \<Rightarrow> int \<Rightarrow> int option \<Rightarrow> proto_fields" where
  "raw_fields b h expiration c timestamp fee =
     [(1, WireBytes b), (4, WireBytes h), (8, WireInt (nat expiration)), (11, WireBytes c), (14, WireInt (nat timestamp))] @
     (case fee of None \<Rightarrow> [] | Some f \<Rightarrow> [(18, WireInt (nat f))])"

definition fee_fits :: "int option \<Rightarrow> bool" where
  "fee_fits fee \<longleftrightarrow> (case fee of None \<Rightarrow> True | Some f \<Rightarrow> 0 < f \<and> f \<le> MAX_INT64)"

lemma rawData_run:
  assumes "rawData c ref expiration timestamp fee = Inr raw"
  shows "\<exists>b h. anchor ref = Inr (b, h) \<and> 0 \<le> timestamp \<and> 0 \<le> expiration \<and> isSafeInteger expiration \<and> isSafeInteger timestamp \<and> fee_fits fee \<and>
    raw = message (raw_fields b h expiration c timestamp fee)"
  using assms by (auto simp: rawData_def write_bytes_run write_int_Inr positive_Inr fee_fits_def raw_fields_def message_def
    split: if_splits option.splits simp del: field_bytes.simps)

lemma to_number_small: "n < 2 ^ 53 \<Longrightarrow> to_number n = n"
  by (simp add: to_number_def)

lemma decode_raw:
  assumes source: "read_source input = Inr (message (raw_fields b h expiration c timestamp fee), signatures)"
    and anchored: "anchor ref = Inr (b, h)" and times: "0 \<le> timestamp" "0 \<le> expiration" "isSafeInteger expiration" "isSafeInteger timestamp" and fee: "fee_fits fee"
    and c: "length c < 2 ^ 70" "readProto c = Inr fs" "decode_contract H fs = Inr contract"
  shows "decodeTronTransaction H input = Inr \<lparr>tx_rawDataHex = hex_text (message (raw_fields b h expiration c timestamp fee)),
    tx_id = hex_text (H (message (raw_fields b h expiration c timestamp fee))), tx_contract = contract, tx_refBlockNum = rb_number ref mod 65536,
    tx_expiration = expiration, tx_timestamp = timestamp, tx_feeLimitSun = fee, tx_signatures = signatures\<rparr>"
proof -
  note a = anchor_run[OF anchored]
  have small: "nat expiration < 2 ^ 53" "nat timestamp < 2 ^ 53" using times by (auto simp: isSafeInteger_def)
  have "list_all field_fits (raw_fields b h expiration c timestamp fee)"
    using a c(1) small fee by (auto simp: raw_fields_def fee_fits_def MAX_INT64_def split: option.splits)
  then have r: "readProto (message (raw_fields b h expiration c timestamp fee)) = Inr (raw_fields b h expiration c timestamp fee)" by (rule read_back)
  have fields: "bytesOf (raw_fields b h expiration c timestamp fee) 1 = Inr (Some b)" "bytesOf (raw_fields b h expiration c timestamp fee) 4 = Inr (Some h)"
    "get_field (raw_fields b h expiration c timestamp fee) 11 = [WireBytes c]" "intOf (raw_fields b h expiration c timestamp fee) 8 = Inr (nat expiration)"
    "intOf (raw_fields b h expiration c timestamp fee) 14 = Inr (nat timestamp)"
    "intOf (raw_fields b h expiration c timestamp fee) 18 = Inr (case fee of None \<Rightarrow> 0 | Some f \<Rightarrow> nat f)"
    by (auto simp: raw_fields_def bytesOf_def intOf_def one_field_def get_field_def split: option.split)
  show ?thesis unfolding decodeTronTransaction_def source bindR_simps prod.case r fields using a c times fee small
    by (auto simp: reference_ok_def only_contract_def or_empty_def to_number_small fee_fits_def split: option.splits)
qed

section \<open>Call data\<close>

definition lower_hex_char :: "char \<Rightarrow> bool" where
  "lower_hex_char c \<longleftrightarrow> (\<exists>n < 16. c = hex_char n)"

lemma hex_text_bytes: "list_all lower_hex_char s \<Longrightarrow> even (length s) \<Longrightarrow> hex_text (bytes_of_hex s) = s"
proof (induction s rule: bytes_of_hex.induct)
  case (1 a b rest)
  from 1(2) obtain m n where mn: "a = hex_char m" "m < 16" "b = hex_char n" "n < 16" by (auto simp: lower_hex_char_def)
  then have "16 * m + n < 256" by linarith
  then have "unat (of_nat (16 * m + n) :: byte) = 16 * m + n" by (simp only: unat_of_nat) simp
  then have "hex_text [of_nat (16 * m + n)] = [a, b]" using mn by (simp add: hex_text_def)
  moreover have "bytes_of_hex (a # b # rest) = of_nat (16 * m + n) # bytes_of_hex rest" using mn by (simp add: hex_value_char)
  moreover have "hex_text (of_nat (16 * m + n) # bytes_of_hex rest) = hex_text [of_nat (16 * m + n)] @ hex_text (bytes_of_hex rest)" by (rule hex_text_Cons)
  ultimately have "hex_text (bytes_of_hex (a # b # rest)) = [a, b] @ hex_text (bytes_of_hex rest)" by (simp only:)
  then show ?case using 1 by (simp only: list.pred_inject length_Cons) simp
qed (simp_all add: hex_text_def)

lemma fromHex_lower:
  assumes "list_all lower_hex_char s" "even (length s)"
  shows "\<exists>b. fromHex s = Inr b \<and> hex_text b = s"
  using hex_text_bytes[OF assms] fromHex_text[of "bytes_of_hex s"] by metis

lemma hex_text_lower: "list_all lower_hex_char (hex_text b)"
proof -
  have "lower_hex_char (hex_char (unat (b::byte) div 16))" "lower_hex_char (hex_char (unat b mod 16))" for b
    unfolding lower_hex_char_def using byte_bound[of b] by (force intro: exI[of _ "unat b div 16"], force intro: exI[of _ "unat b mod 16"])
  then show ?thesis by (induction b) (simp_all add: hex_text_def)
qed

lemma to_base_length: "2 \<le> b \<Longrightarrow> n < b ^ k \<Longrightarrow> length (to_base b n) \<le> k"
proof (induction k arbitrary: n)
  case (Suc k)
  then have "n div b < b ^ k" by (simp add: div_less_iff_less_mult mult.commute)
  with Suc show ?case by (subst to_base.simps) simp
qed (subst to_base.simps, simp)

lemma digits16_read:
  assumes "n < 16 ^ k" "0 < k"
  shows "length (padStart0 k (digits16 n)) = k" "hex_number (padStart0 k (digits16 n)) = n" "list_all lower_hex_char (padStart0 k (digits16 n))"
proof -
  have zero: "hex_char 0 = CHR ''0''" by (simp add: hex_char_def)
  have len: "length (digits16 n) \<le> k" using to_base_length[OF _ assms(1)] assms(2) by (simp add: digits16_def)
  then show "length (padStart0 k (digits16 n)) = k" by (simp add: padStart0_def)
  obtain ds where ds: "digits16 n = map hex_char ds" "list_all (\<lambda>d. d < 16) ds" "of_base 16 ds = n"
  proof (cases "n = 0")
    case True
    then show thesis by (intro that[of "[0]"]) (simp_all add: digits16_def zero of_base_def)
  next
    case False
    then show thesis using of_to_base[of 16 n] to_base_digits[of 16 n] by (intro that[of "to_base 16 n"]) (simp_all add: digits16_def)
  qed
  have read: "foldl (\<lambda>n c. n * 16 + the (hex_value c)) m (map hex_char es) = foldl (\<lambda>n d. n * 16 + d) m es" if "list_all (\<lambda>d. d < 16) es" for m es
    using that by (induction es arbitrary: m) (simp_all add: hex_value_char)
  have all: "padStart0 k (digits16 n) = map hex_char (replicate (k - length ds) 0 @ ds)" by (simp add: padStart0_def ds(1) zero)
  have small: "list_all (\<lambda>d. d < 16) (replicate (k - length ds) 0 @ ds)" using ds(2) by (auto simp: list_all_iff)
  have zeros: "foldl (\<lambda>n d. n * 16 + d) (0::nat) (replicate j 0) = 0" for j by (induction j) simp_all
  show "hex_number (padStart0 k (digits16 n)) = n" unfolding hex_number_def all read[OF small] using ds(3) by (simp add: zeros of_base_def)
  show "list_all lower_hex_char (padStart0 k (digits16 n))" unfolding all using small by (auto simp: list_all_iff lower_hex_char_def intro: exI[of _ 0])
qed

text \<open>The call of a token transfer: its selector, the recipient and the amount, in 68 bytes.\<close>

lemma call_data:
  assumes H: "\<And>x. 4 \<le> length (H x)" and to: "isTronAddress H dest" and run: "trc20TransferData H dest amount = Inr call"
  shows "\<exists>data account. fromHex call = Inr data \<and> length data = 68 \<and> is_transfer_call (hex_text data) \<and> fromHex (take 40 (drop 32 (hex_text data))) = Inr account \<and>
    encodeTronAddress H account = Inr dest \<and> int (hex_number (drop 72 (hex_text data))) = amount"
proof -
  obtain account where acc: "length account = 20" "encodeTronAddress H account = Inr dest" "normalizeTronAddress H (JStr dest) = Inr dest"
    "tronAddressToHex H dest = Inr (hex_text (0x41 # account))" by (rule address_bytes[of H, OF H to])
  let ?who = "replicate 24 (CHR ''0'') @ hex_text account" and ?much = "padStart0 64 (digits16 (nat amount))"
  have "drop 2 (hex_text (0x41 # account)) = hex_text account" by (subst hex_text_Cons) (simp add: hex_text_def)
  moreover have len: "length (hex_text account) = 40" using acc(1) by (simp add: hex_text_digits)
  then have who: "padStart0 64 (hex_text account) = ?who" by (simp add: padStart0_def)
  ultimately have call: "call = TRC20_TRANSFER_SELECTOR @ ?who @ ?much" and amount: "0 < amount" "amount \<le> MAX_INT64"
    using run acc(3,4) who by (auto simp: trc20TransferData_def positive_Inr)
  have "nat amount < 2 ^ 63" using amount by (simp add: MAX_INT64_def)
  also have "(2::nat) ^ 63 \<le> 16 ^ 64" by simp
  finally have much: "length ?much = 64" "hex_number ?much = nat amount" "list_all lower_hex_char ?much" using digits16_read[of "nat amount" 64] by simp_all
  have "lower_hex_char (CHR ''0'')" "list_all lower_hex_char TRC20_TRANSFER_SELECTOR"
    unfolding lower_hex_char_def TRC20_TRANSFER_SELECTOR_def hex_char_def by code_simp+
  then have "list_all lower_hex_char call" using much(3) hex_text_lower[of account] unfolding call by (auto simp: list_all_iff)
  moreover have "length call = 136" using len much(1) by (simp add: call TRC20_TRANSFER_SELECTOR_def)
  ultimately obtain data where data: "fromHex call = Inr data" "hex_text data = call" using fromHex_lower[of call] by auto
  have "length data = 68" using hex_text_digits(2)[of data] data(2) \<open>length call = 136\<close> by simp
  moreover have "take 8 call = TRC20_TRANSFER_SELECTOR" "drop 8 call = ?who @ ?much" by (simp_all add: call TRC20_TRANSFER_SELECTOR_def)
  then have "is_transfer_call call" using \<open>length call = 136\<close> by (simp add: is_transfer_call_def list_all_length)
  moreover have "take 40 (drop 32 call) = hex_text account" "drop 72 call = ?much" using len by (simp_all add: call TRC20_TRANSFER_SELECTOR_def)
  ultimately show ?thesis using data acc(2) much(2) amount(1) by (intro exI[of _ data] exI[of _ account]) simp
qed

section \<open>The contract of a transaction\<close>

definition contract_fields :: "nat \<Rightarrow> proto_fields \<Rightarrow> proto_fields" where
  "contract_fields type ps = [(1, WireInt type), (2, WireBytes (message [(1, WireBytes (encode_text (TYPE_URL type))), (2, WireBytes (message ps))]))]"

lemma url_text: "decoded_is (encode_text (TYPE_URL type)) (TYPE_URL type)" "length (encode_text (TYPE_URL type)) < 60"
  by (simp_all add: decoded_is_def encode_text_def TYPE_URL_def)

lemma contract_message:
  assumes "length (message ps) < 1000" "type < 100"
  shows "contractMessage type (message ps) = Inr (message (contract_fields type ps))"
    "length (message (contract_fields type ps)) < 3000" "readProto (message (contract_fields type ps)) = Inr (contract_fields type ps)"
    "intOf (contract_fields type ps) 1 = Inr type"
    "\<exists>any. bytesOf (contract_fields type ps) 2 = Inr (Some any) \<and>
      readProto any = Inr [(1, WireBytes (encode_text (TYPE_URL type))), (2, WireBytes (message ps))]"
proof -
  let ?any = "[(1, WireBytes (encode_text (TYPE_URL type))), (2, WireBytes (message ps))]"
  show "contractMessage type (message ps) = Inr (message (contract_fields type ps))" by (simp add: contractMessage_run contract_fields_def)
  have any: "length (message ?any) < 2000"
    using field_length(2)[of 1 "encode_text (TYPE_URL type)"] field_length(2)[of 2 "message ps"] url_text(2)[of type] assms(1)
    by (simp add: message_def del: field_bytes.simps)
  show "length (message (contract_fields type ps)) < 3000"
    using field_length(1)[of 1 type] field_length(2)[of 2 "message ?any"] any assms(2) by (simp add: message_def contract_fields_def del: field_bytes.simps)
  show "readProto (message (contract_fields type ps)) = Inr (contract_fields type ps)"
    using any assms(2) by (intro read_back) (simp add: contract_fields_def)
  show "intOf (contract_fields type ps) 1 = Inr type" by (simp add: contract_fields_def intOf_def one_field_def get_field_def)
  have "readProto (message ?any) = Inr ?any" using assms(1) url_text(2)[of type] by (intro read_back) simp
  then show "\<exists>any. bytesOf (contract_fields type ps) 2 = Inr (Some any) \<and> readProto any = Inr ?any"
    by (simp add: contract_fields_def bytesOf_def one_field_def get_field_def)
qed

lemmas field_reads = bytesOf_def intOf_def one_field_def get_field_def

lemma two_addresses: "length account = 20 \<Longrightarrow> length other = 20 \<Longrightarrow> f < 2 ^ 60 \<Longrightarrow> length data \<le> 68 \<Longrightarrow> v < 2 ^ 70 \<Longrightarrow>
  length (message [(1, WireBytes (0x41 # account)), (2, WireBytes (0x41 # other)), (f, WireBytes data)]) < 1000 \<and>
  length (message [(1, WireBytes (0x41 # account)), (2, WireBytes (0x41 # other)), (f, WireInt v)]) < 1000"
  using field_length(2)[of 1 "0x41 # account"] field_length(2)[of 2 "0x41 # other"] field_length(2)[of f data] field_length(1)[of f v]
  by (simp add: message_def del: field_bytes.simps)

lemma trx_decodes:
  assumes "length (message ps) < 1000" "v < 2 ^ 70" and ps: "ps = [(1, WireBytes x), (2, WireBytes y), (3, WireInt v)]" "length x = 21" "length y = 21"
    and "addressFrom21 H (Some x) = Inr sender" "addressFrom21 H (Some y) = Inr dest"
  shows "decode_contract H (contract_fields TRANSFER_CONTRACT ps) = Inr (TRX sender dest v)"
proof -
  have t: "TRANSFER_CONTRACT < 100" by (simp add: TRANSFER_CONTRACT_def)
  from contract_message(5)[OF assms(1) t] obtain any where any: "bytesOf (contract_fields TRANSFER_CONTRACT ps) 2 = Inr (Some any)"
    "readProto any = Inr [(1, WireBytes (encode_text (TYPE_URL TRANSFER_CONTRACT))), (2, WireBytes (message ps))]" by blast
  have p: "readProto (message ps) = Inr ps" using assms(2) ps by (intro read_back) simp
  show ?thesis using assms(6,7) url_text(1)[of TRANSFER_CONTRACT] p
    unfolding decode_contract_def contract_message(4)[OF assms(1) t] any bindR_simps or_empty_def option.case
    by (simp add: field_reads ps(1))
qed

lemma trc20_decodes:
  assumes "length (message ps) < 1000" and ps: "ps = [(1, WireBytes x), (2, WireBytes y), (4, WireBytes data)]" "length x = 21" "length y = 21" "length data = 68"
    and "addressFrom21 H (Some x) = Inr sender" "addressFrom21 H (Some y) = Inr token"
    and "is_transfer_call (hex_text data)" "fromHex (take 40 (drop 32 (hex_text data))) = Inr account" "encodeTronAddress H account = Inr dest"
  shows "decode_contract H (contract_fields TRIGGER_SMART_CONTRACT ps) = Inr (TRC20 sender token dest (hex_number (drop 72 (hex_text data))))"
proof -
  have t: "TRIGGER_SMART_CONTRACT < 100" "TRIGGER_SMART_CONTRACT \<noteq> TRANSFER_CONTRACT" by (simp_all add: TRIGGER_SMART_CONTRACT_def TRANSFER_CONTRACT_def)
  from contract_message(5)[OF assms(1) t(1)] obtain any where any: "bytesOf (contract_fields TRIGGER_SMART_CONTRACT ps) 2 = Inr (Some any)"
    "readProto any = Inr [(1, WireBytes (encode_text (TYPE_URL TRIGGER_SMART_CONTRACT))), (2, WireBytes (message ps))]" by blast
  have p: "readProto (message ps) = Inr ps" using ps by (intro read_back) simp
  show ?thesis using assms(6-10) url_text(1)[of TRIGGER_SMART_CONTRACT] p t(2)
    unfolding decode_contract_def contract_message(4)[OF assms(1) t(1)] any bindR_simps or_empty_def option.case
    by (simp add: field_reads ps(1) Let_def)
qed

lemma address_account:
  assumes H: "\<And>x. 4 \<le> length (H x)" and x: "normalizeTronAddress H x = Inr a"
  obtains account where "length account = 20" "address21 H a = Inr (0x41 # account)" "addressFrom21 H (Some (0x41 # account)) = Inr a" "isTronAddress H a"
proof -
  have "isTronAddress H a" using x normalized[of H, OF H] by (cases x) (auto simp: normalizeTronAddress_def)
  from address_bytes[of H, OF H this] this that show thesis by metis
qed

text \<open>What every built transaction is: the message of its fields, whose contract reads back as what was asked.\<close>

definition built :: "(byte list \<Rightarrow> byte list) \<Rightarrow> tron_contract \<Rightarrow> reference_block \<Rightarrow> tron_tx \<Rightarrow> byte list \<Rightarrow> bool" where
  "built H contract ref tx raw \<longleftrightarrow> tx = finish_tx H raw contract ref (tx_expiration tx) (tx_timestamp tx) (tx_feeLimitSun tx) \<and> length raw < 2 ^ 70 \<and>
     (\<forall>input signatures. read_source input = Inr (raw, signatures) \<longrightarrow>
       decodeTronTransaction H input = Inr (tron_tx.extend (tx\<lparr>tx_refBlockNum := rb_number ref mod 65536\<rparr>) \<lparr>tx_signatures = signatures\<rparr>))"

lemma built_from:
  assumes raw: "rawData c ref expiration timestamp fee = Inr raw" and c: "length c < 3000" "readProto c = Inr fs" "decode_contract H fs = Inr contract"
    and tx: "tx = finish_tx H raw contract ref expiration timestamp fee"
  shows "built H contract ref tx raw"
proof -
  from rawData_run[OF raw] obtain b h where run: "anchor ref = Inr (b, h)" "0 \<le> timestamp" "0 \<le> expiration" "isSafeInteger expiration"
    "isSafeInteger timestamp" "fee_fits fee" and fields: "raw = message (raw_fields b h expiration c timestamp fee)" by blast
  have "length (message (raw_fields b h expiration c timestamp fee)) < 4000"
  proof -
    have "nat expiration < 2 ^ 70" "nat timestamp < 2 ^ 70" using run(4,5) by (auto simp: isSafeInteger_def)
    note ints = field_length(1)[of 8 "nat expiration", OF _ this(1)] field_length(1)[of 14 "nat timestamp", OF _ this(2)]
    have "length (field_bytes (18, WireInt (nat f))) \<le> 20" if "fee = Some f" for f
      using run(6) that by (intro field_length(1)) (auto simp: fee_fits_def MAX_INT64_def nat_less_iff)
    then show ?thesis using ints anchor_run[OF run(1)] c(1) field_length(2)[of 1 b] field_length(2)[of 4 h] field_length(2)[of 11 c]
      by (cases fee) (simp_all add: raw_fields_def message_def del: field_bytes.simps)
  qed
  then have "length raw < 2 ^ 70" using fields by simp
  moreover have "length c < 2 ^ 70" using c(1) by simp
  ultimately show ?thesis unfolding built_def
    using decode_raw[OF _ run _ c(2,3)] by (auto simp: tx finish_tx_def fields tron_tx.defs)
qed

lemma built_trx:
  assumes H: "\<And>x. 4 \<le> length (H x)" and run: "buildTrxTransfer H source dest amount ref expiration timestamp = Inr tx"
  shows "\<exists>sender to raw. normalizeTronAddress H (JStr source) = Inr sender \<and> normalizeTronAddress H (JStr dest) = Inr to \<and> 0 < amount \<and>
    built H (TRX sender to (nat amount)) ref tx raw \<and> tx_contract tx = TRX sender to (nat amount)"
proof -
  from run obtain sender to a b w c raw where r: "normalizeTronAddress H (JStr source) = Inr sender" "normalizeTronAddress H (JStr dest) = Inr to"
    "0 < amount" "amount \<le> MAX_INT64" "address21 H sender = Inr a" "address21 H to = Inr b"
    "contractMessage TRANSFER_CONTRACT (message [(1, WireBytes a), (2, WireBytes b), (3, WireInt (nat amount))]) = Inr c"
    "rawData c ref expiration timestamp None = Inr raw" "tx = finish_tx H raw (TRX sender to (nat amount)) ref expiration timestamp None"
    by (auto simp: buildTrxTransfer_def positive_Inr write_bytes_run write_int_Inr message_def simp del: field_bytes.simps split: if_splits)
  obtain x where x: "length x = 20" "address21 H sender = Inr (0x41 # x)" "addressFrom21 H (Some (0x41 # x)) = Inr sender" by (rule address_account[of H, OF H r(1)])
  obtain y where y: "length y = 20" "address21 H to = Inr (0x41 # y)" "addressFrom21 H (Some (0x41 # y)) = Inr to" by (rule address_account[of H, OF H r(2)])
  let ?ps = "[(1, WireBytes (0x41 # x)), (2, WireBytes (0x41 # y)), (3, WireInt (nat amount))]"
  have v: "nat amount < 2 ^ 70" using r(4) by (simp add: MAX_INT64_def)
  have short: "length (message ?ps) < 1000" using two_addresses[OF x(1) y(1), of 3 "[]" "nat amount"] v by simp
  have t: "TRANSFER_CONTRACT < 100" by (simp add: TRANSFER_CONTRACT_def)
  note m = contract_message[OF short t]
  have c: "c = message (contract_fields TRANSFER_CONTRACT ?ps)" using r(5-7) x(2) y(2) m(1) by simp
  have d: "decode_contract H (contract_fields TRANSFER_CONTRACT ?ps) = Inr (TRX sender to (nat amount))"
    by (rule trx_decodes[OF short v refl]) (use x y in simp_all)
  have "built H (TRX sender to (nat amount)) ref tx raw" using built_from[OF r(8) _ _ d r(9)] m(2,3) unfolding c by blast
  then show ?thesis using r by (auto simp: finish_tx_def)
qed

lemma built_trc20:
  assumes H: "\<And>x. 4 \<le> length (H x)" and run: "buildTrc20Transfer H source token dest amount fee ref expiration timestamp = Inr tx"
  shows "\<exists>sender contract to raw. normalizeTronAddress H (JStr source) = Inr sender \<and> normalizeTronAddress H (JStr token) = Inr contract \<and>
    normalizeTronAddress H (JStr dest) = Inr to \<and> 0 < amount \<and>
    built H (TRC20 sender contract to (nat amount)) ref tx raw \<and> tx_contract tx = TRC20 sender contract to (nat amount)"
proof -
  from run obtain sender contract to call data a b c raw where r: "normalizeTronAddress H (JStr source) = Inr sender" "normalizeTronAddress H (JStr token) = Inr contract"
    "normalizeTronAddress H (JStr dest) = Inr to" "0 < amount" "trc20TransferData H to amount = Inr call" "fromHex call = Inr data"
    "address21 H sender = Inr a" "address21 H contract = Inr b"
    "contractMessage TRIGGER_SMART_CONTRACT (message [(1, WireBytes a), (2, WireBytes b), (4, WireBytes data)]) = Inr c"
    "rawData c ref expiration timestamp (Some fee) = Inr raw" "tx = finish_tx H raw (TRC20 sender contract to (nat amount)) ref expiration timestamp (Some fee)"
    by (auto simp: buildTrc20Transfer_def positive_Inr write_bytes_run message_def simp del: field_bytes.simps split: if_splits)
  obtain x where x: "length x = 20" "address21 H sender = Inr (0x41 # x)" "addressFrom21 H (Some (0x41 # x)) = Inr sender" by (rule address_account[of H, OF H r(1)])
  obtain y where y: "length y = 20" "address21 H contract = Inr (0x41 # y)" "addressFrom21 H (Some (0x41 # y)) = Inr contract" by (rule address_account[of H, OF H r(2)])
  have "isTronAddress H to" by (rule address_account[of H, OF H r(3)])
  from call_data[of H, OF H this r(5)] r(6) obtain account where call: "length data = 68" "is_transfer_call (hex_text data)"
    "fromHex (take 40 (drop 32 (hex_text data))) = Inr account" "encodeTronAddress H account = Inr to" "int (hex_number (drop 72 (hex_text data))) = amount" by auto
  let ?ps = "[(1, WireBytes (0x41 # x)), (2, WireBytes (0x41 # y)), (4, WireBytes data)]"
  have short: "length (message ?ps) < 1000" using two_addresses[OF x(1) y(1), of 4 data 0] call(1) by simp
  have t: "TRIGGER_SMART_CONTRACT < 100" by (simp add: TRIGGER_SMART_CONTRACT_def)
  note m = contract_message[OF short t]
  have c: "c = message (contract_fields TRIGGER_SMART_CONTRACT ?ps)" using r(7-9) x(2) y(2) m(1) by simp
  have "hex_number (drop 72 (hex_text data)) = nat amount" using call(5) by simp
  then have d: "decode_contract H (contract_fields TRIGGER_SMART_CONTRACT ?ps) = Inr (TRC20 sender contract to (nat amount))"
    using trc20_decodes[OF short refl _ _ call(1) x(3) y(3) call(2-4)] x(1) y(1) by simp
  have "built H (TRC20 sender contract to (nat amount)) ref tx raw" using built_from[OF r(10) _ _ d r(11)] m(2,3) unfolding c by blast
  then show ?thesis using r by (auto simp: finish_tx_def)
qed

section \<open>Properties\<close>

definition asked :: "(byte list \<Rightarrow> byte list) \<Rightarrow> string \<Rightarrow> string \<Rightarrow> string \<Rightarrow> int \<Rightarrow> tron_contract \<Rightarrow> bool" where
  "asked H source token dest amount contract \<longleftrightarrow> (\<exists>s d. normalizeTronAddress H (JStr source) = Inr s \<and> normalizeTronAddress H (JStr dest) = Inr d \<and> 0 < amount \<and>
     (contract = TRX s d (nat amount) \<or> (\<exists>c. normalizeTronAddress H (JStr token) = Inr c \<and> contract = TRC20 s c d (nat amount))))"

lemma built_any:
  assumes H: "\<And>x. 4 \<le> length (H x)"
    and run: "buildTrxTransfer H source dest amount ref expiration timestamp = Inr tx \<or> buildTrc20Transfer H source token dest amount fee ref expiration timestamp = Inr tx"
  shows "\<exists>raw. asked H source token dest amount (tx_contract tx) \<and> built H (tx_contract tx) ref tx raw \<and> tx_rawDataHex tx = hex_text raw \<and> tx_id tx = hex_text (H raw)"
  using run
proof
  assume "buildTrxTransfer H source dest amount ref expiration timestamp = Inr tx"
  from built_trx[of H, OF H this] obtain raw where "asked H source token dest amount (tx_contract tx)" "built H (tx_contract tx) ref tx raw" by (auto simp: asked_def)
  then show ?thesis by (metis built_def finish_tx_def tron_tx.select_convs(1,2))
next
  assume "buildTrc20Transfer H source token dest amount fee ref expiration timestamp = Inr tx"
  from built_trc20[of H, OF H this] obtain raw where "asked H source token dest amount (tx_contract tx)" "built H (tx_contract tx) ref tx raw" by (auto simp: asked_def)
  then show ?thesis by (metis built_def finish_tx_def tron_tx.select_convs(1,2))
qed


text \<open>C28: the message that is broadcast reads back as the transaction that was signed, with exactly that signature.\<close>

theorem signed_transaction_reads_back:
  assumes H: "\<And>x. 4 \<le> length (H x)"
    and run: "buildTrxTransfer H source dest amount ref expiration timestamp = Inr tx \<or> buildTrc20Transfer H source token dest amount fee ref expiration timestamp = Inr tx"
    and sent: "signedTransactionHex (tx_rawDataHex tx) signature = Inr sent"
  shows "\<exists>s. fromHex signature = Inr s \<and> length s = 65 \<and> decodeTronTransaction H (Signed sent) =
    Inr (tron_tx.extend (tx\<lparr>tx_refBlockNum := rb_number ref mod 65536\<rparr>) \<lparr>tx_signatures = [hex_text s]\<rparr>)"
proof -
  from built_any[of H, OF H run] obtain raw where b: "built H (tx_contract tx) ref tx raw" "tx_rawDataHex tx = hex_text raw" by blast
  from sent b(2) obtain s where s: "fromHex signature = Inr s" "length s = 65" "sent = hex_text (message [(1, WireBytes raw), (2, WireBytes s)])"
    by (auto simp: signedTransactionHex_def write_bytes_run message_def simp del: field_bytes.simps split: if_splits)
  have "readProto (message [(1, WireBytes raw), (2, WireBytes s)]) = Inr [(1, WireBytes raw), (2, WireBytes s)]"
    using b(1) s(2) by (intro read_back) (simp add: built_def)
  then have "read_source (Signed sent) = Inr (raw, [hex_text s])" by (simp add: read_source_def s(3) field_reads signature_text_def)
  with b(1) s(1,2) show ?thesis by (auto simp: built_def)
qed


section \<open>Witnesses\<close>

definition sample_hex_account :: "nat \<Rightarrow> string" where
  "sample_hex_account n = hex_text (replicate 20 (of_nat n))"

definition sample_block :: reference_block where
  "sample_block = \<lparr>rb_number = 70000000, rb_id = hex_text (replicate 32 5), rb_timestamp = 1\<rparr>"

lemma write_int_run: "0 \<le> v \<Longrightarrow> write_int f v w = Inr (w @ field_bytes (f, WireInt (nat v)))"
  by (simp only: write_int_Inr)

text \<open>A transfer between two accounts is built whenever the amount is a positive int64, the block is a block and it expires after it was made.\<close>

lemma trx_builds:
  assumes H: "\<And>x. 4 \<le> length (H x)" and s: "normalizeTronAddress H (JStr source) = Inr s" and d: "normalizeTronAddress H (JStr dest) = Inr d" and "s \<noteq> d"
    and "0 < amount" "amount \<le> MAX_INT64" "anchor ref = Inr bh" "0 \<le> timestamp" "timestamp < expiration" "isSafeInteger expiration"
  shows "\<exists>tx. buildTrxTransfer H source dest amount ref expiration timestamp = Inr tx"
proof -
  obtain a where a: "address21 H s = Inr a" by (rule address_account[of H, OF H s])
  obtain b where b: "address21 H d = Inr b" by (rule address_account[of H, OF H d])
  have p: "positive amount = Inr amount" using assms(5,6) by (simp add: positive_def)
  have t: "isSafeInteger timestamp" using assms(8-10) by (simp add: isSafeInteger_def)
  obtain x y where bh: "bh = (x, y)" by (cases bh)
  have "\<exists>raw. rawData c ref expiration timestamp None = Inr raw" for c
    using assms(7-10) t bh by (simp add: rawData_def write_bytes_run write_int_run)
  then show ?thesis using s d a b p assms(4,5) by (simp add: buildTrxTransfer_def write_bytes_run write_int_run contractMessage_run)
qed

lemma sample_hash_length: "4 \<le> length (Tron.sample_hash x)"
  by (simp add: sample_hash_def)

lemma sample_accounts:
  obtains s d where "normalizeTronAddress Tron.sample_hash (JStr (sample_hex_account 1)) = Inr s" "normalizeTronAddress Tron.sample_hash (JStr (sample_hex_account 2)) = Inr d" "s \<noteq> d"
proof -
  have n: "\<exists>s. normalizeTronAddress Tron.sample_hash (JStr (sample_hex_account k)) = Inr s \<and> tronAddressToHex Tron.sample_hash s = Inr (''41'' @ sample_hex_account k)" for k
  proof -
    let ?acc = "replicate 20 (of_nat k) :: byte list"
    have "sample_hex_account k \<noteq> []" by (simp add: sample_hex_account_def hex_text_def)
    then have "normalizeTronAddress Tron.sample_hash (JStr (sample_hex_account k)) = encodeTronAddress Tron.sample_hash ?acc"
      using hex_text_not_T[of ?acc] hex_text_digits[of ?acc] unfolding sample_hex_account_def by (simp add: normalizeTronAddress_def bytes_of_hex_text)
    then show ?thesis using encode_run(1,3)[of Tron.sample_hash ?acc, OF sample_hash_length] by (simp add: sample_hex_account_def)
  qed
  have "sample_hex_account 1 \<noteq> sample_hex_account 2" by code_simp
  then show thesis using n[of 1] n[of 2] that by (metis append_same_eq sum.inject(2) same_append_eq)
qed

lemma sample_anchor: "\<exists>bh. anchor sample_block = Inr bh"
  by (simp add: anchor_def sample_block_def MAX_INT64_def hex_text_digits)

lemma sample_builds: "\<exists>tx. buildTrxTransfer Tron.sample_hash (sample_hex_account 1) (sample_hex_account 2) 25000000 sample_block 60000 1 = Inr tx"
proof -
  obtain s d where sd: "normalizeTronAddress Tron.sample_hash (JStr (sample_hex_account 1)) = Inr s" "normalizeTronAddress Tron.sample_hash (JStr (sample_hex_account 2)) = Inr d" "s \<noteq> d"
    by (rule sample_accounts)
  obtain bh where bh: "anchor sample_block = Inr bh" using sample_anchor by blast
  show ?thesis by (rule trx_builds[OF sample_hash_length sd _ _ bh]) (simp_all add: MAX_INT64_def isSafeInteger_def)
qed


theorem signed_transaction_reads_back_witness:
  "\<exists>tx sent. buildTrxTransfer Tron.sample_hash (sample_hex_account 1) (sample_hex_account 2) 25000000 sample_block 60000 1 = Inr tx \<and>
     signedTransactionHex (tx_rawDataHex tx) (hex_text (replicate 65 7)) = Inr sent \<and>
     (case decodeTronTransaction Tron.sample_hash (Signed sent) of Inl e \<Rightarrow> False
      | Inr d \<Rightarrow> tx_contract d = tx_contract tx \<and> tx_signatures d = [hex_text (replicate 65 7)])"
proof -
  obtain tx where tx: "buildTrxTransfer Tron.sample_hash (sample_hex_account 1) (sample_hex_account 2) 25000000 sample_block 60000 1 = Inr tx" using sample_builds by blast
  from built_any[of Tron.sample_hash, OF sample_hash_length disjI1[OF tx]] obtain raw where "tx_rawDataHex tx = hex_text raw" by blast
  then obtain sent where sent: "signedTransactionHex (tx_rawDataHex tx) (hex_text (replicate 65 7)) = Inr sent"
    by (simp add: signedTransactionHex_def write_bytes_run)
  from signed_transaction_reads_back[of Tron.sample_hash, OF sample_hash_length disjI1[OF tx] sent] tx sent show ?thesis
    by (intro exI[of _ tx] exI[of _ sent]) (auto simp: tron_tx.defs)
qed

text \<open>A curve whose signature carries the digest, so that it can be checked.\<close>

definition sample_curve :: secp256k1 where
  "sample_curve = \<lparr>point_bytes = (\<lambda>k. Inr (4 # take 64 (k @ replicate 64 0))), sign_digest = (\<lambda>d k. Inr (1 # take 64 (k @ d @ replicate 64 0))),
     recover_key = (\<lambda>r d. Inr [])\<rparr>"


end
