(* ===== verification/Network.thy ===== *)
theory Network
  imports Trades
begin

text \<open>
  The TRX network fees (\<^verbatim>\<open>packages/network/src\<close>): what a transfer costs (\<^verbatim>\<open>estimate.ts\<close>), the policy and the readings it is computed
  from (\<^verbatim>\<open>policy.ts\<close>), what a quote is charged for it and leaves (\<^verbatim>\<open>pricing.ts\<close>), and how unburned TRX is shared out (\<^verbatim>\<open>splitReclaim\<close>
  of \<^verbatim>\<open>reclaim.ts\<close>), with the constraints of migrations 0037, 0039 and 0040. All amounts of TRX are in sun. Advisory locks are the order in
  which commands run. The tables are append-only, so there is no operation that changes a row.
\<close>

section \<open>Tables\<close>

record fee_policy =
  np_id :: string
  np_quote_energy :: int
  np_reserve_energy :: int
  np_bandwidth_buffer :: int
  np_topup_bytes :: int
  np_topup_bps :: int
  np_price_bps :: int
  np_refund_sends :: int
  np_min_net :: int
  np_snapshot_age :: int
  np_rate_age :: int
  np_auto_send :: bool
  np_sweep :: bool
  np_sweep_min :: int
  np_reclaim_min :: int
  np_reason :: string
  np_set_by :: string
  np_set_at :: int

record fee_snapshot =
  fs_id :: string
  fs_energy_price :: int
  fs_bandwidth_price :: int
  fs_create_account :: int
  fs_create_new_account :: int
  fs_free_net :: int
  fs_providers :: string
  fs_observed_by :: string
  fs_observed_at :: int

record trx_rate =
  xr_id :: string
  xr_micro :: int
  xr_source :: string
  xr_published_by :: string
  xr_effective_at :: int

record quote_fee =
  qf_quote :: string
  qf_funder :: "string option"
  qf_snapshot :: string
  qf_rate :: string
  qf_micro :: int
  qf_energy_price :: int
  qf_sends_priced :: int
  qf_fee_sun :: int
  qf_fee_inr :: int
  qf_order :: "string option"
  qf_reward_bps :: "int option"
  qf_reward_inr :: int
  qf_net_inr :: int
  qf_reserve_sends :: int
  qf_reserve_sun :: int
  qf_min_net_inr :: int
  qf_fee_usdt :: "int option"
  qf_net_usdt :: "int option"
  qf_min_net_usdt :: "int option"

text \<open>The columns of a trader's order that its quote's fee is compared with.\<close>

record order_row =
  od_id :: string
  od_trader :: string
  od_route :: string
  od_request :: string
  od_inr :: int
  od_status :: string

record network_db = trade_db +
  network_fee_policy :: "fee_policy list"
  network_fee_snapshot :: "fee_snapshot list"
  network_trx_rate :: "trx_rate list"
  quote_network_fee :: "quote_fee list"
  trader_order :: "order_row list"

section \<open>What a transfer costs\<close>

definition withBps :: "int \<Rightarrow> int \<Rightarrow> int result" where
  "withBps sun bps = divRound (sun * (10000 + bps)) 10000 UP"

record send_cost =
  sc_topup_fee :: int
  sc_transfer :: int
  sc_total :: int

definition sendCost :: "fee_snapshot \<Rightarrow> fee_policy \<Rightarrow> int \<Rightarrow> bool \<Rightarrow> send_cost result" where
  "sendCost s p energy activation =
     (if energy < 0 then Inl (CoreError INVALID_ARGUMENT)
      else let topupFee = (if activation then fs_create_new_account s + fs_create_account s else 0) + np_topup_bytes p * fs_bandwidth_price s
        in bindR (withBps (energy * fs_energy_price s) (np_topup_bps p)) (\<lambda>e.
           let transfer = e + np_bandwidth_buffer p
           in Inr \<lparr>sc_topup_fee = topupFee, sc_transfer = transfer, sc_total = topupFee + transfer\<rparr>))"

definition quoteFeeSun :: "fee_snapshot \<Rightarrow> fee_policy \<Rightarrow> int result" where
  "quoteFeeSun s p = bindR (sendCost s p (np_quote_energy p) True) (\<lambda>c. withBps (sc_total c) (np_price_bps p))"

definition reservePerSendSun :: "fee_snapshot \<Rightarrow> fee_policy \<Rightarrow> int result" where
  "reservePerSendSun s p = bindR (sendCost s p (np_reserve_energy p) True) (\<lambda>c. Inr (sc_total c))"

definition reserveSends :: "direction \<Rightarrow> fee_policy \<Rightarrow> int" where
  "reserveSends d p = (if d = SELL_USDT then 1 + np_refund_sends p else 1)"

record topup =
  tu_need :: int
  tu_topup :: int
  tu_fee_limit :: int

definition topupFor :: "int \<Rightarrow> int \<Rightarrow> int \<Rightarrow> fee_policy \<Rightarrow> topup result" where
  "topupFor energy energyPrice balance p =
     bindR (withBps (energy * energyPrice) (np_topup_bps p)) (\<lambda>feeLimit.
     let need = feeLimit + np_bandwidth_buffer p; topup = (if need > balance then need - balance else 0)
     in Inr \<lparr>tu_need = need, tu_topup = topup, tu_fee_limit = (if feeLimit > 0 then feeLimit else 1)\<rparr>)"

section \<open>What the database refuses\<close>

definition between :: "int \<Rightarrow> int \<Rightarrow> int \<Rightarrow> bool" where
  "between x a b \<longleftrightarrow> a \<le> x \<and> x \<le> b"

definition policy_checks :: "fee_policy \<Rightarrow> bool" where
  "policy_checks p \<longleftrightarrow> between (np_quote_energy p) 10000 1000000 \<and> between (np_reserve_energy p) 10000 2000000 \<and>
     between (np_bandwidth_buffer p) 0 10000000 \<and> between (np_topup_bytes p) 100 2000 \<and> between (np_topup_bps p) 0 5000 \<and>
     between (np_price_bps p) 0 10000 \<and> between (np_refund_sends p) 0 3 \<and> between (np_min_net p) 0 9223372036854775807 \<and>
     between (np_snapshot_age p) 60 604800 \<and> between (np_rate_age p) 60 2592000 \<and>
     3 \<le> length (trim (np_reason p)) \<and> length (trim (np_reason p)) \<le> 500 \<and> np_reserve_energy p \<ge> np_quote_energy p \<and>
     between (np_sweep_min p) 1000000 100000000000 \<and> between (np_reclaim_min p) 100000 100000000"

definition insert_policy :: "fee_policy \<Rightarrow> ('x network_db_scheme, unit) cmd" where
  "insert_policy p = (\<lambda>s. if policy_checks p \<and> list_all (\<lambda>q. np_id q \<noteq> np_id p) (network_fee_policy s)
     then Inr ((), s\<lparr>network_fee_policy := network_fee_policy s @ [p]\<rparr>) else Inl DatabaseError)"

definition snapshot_legal :: "fee_snapshot \<Rightarrow> bool" where
  "snapshot_legal f \<longleftrightarrow> between (fs_energy_price f) 1 100000 \<and> between (fs_bandwidth_price f) 1 100000 \<and>
     between (fs_create_account f) 0 100000000 \<and> between (fs_create_new_account f) 0 100000000 \<and> between (fs_free_net f) 0 2147483647 \<and>
     1 \<le> length (fs_providers f) \<and> length (fs_providers f) \<le> 300"

definition insert_fee_snapshot :: "fee_snapshot \<Rightarrow> ('x network_db_scheme, unit) cmd" where
  "insert_fee_snapshot f = (\<lambda>s. if snapshot_legal f \<and> list_all (\<lambda>q. fs_id q \<noteq> fs_id f) (network_fee_snapshot s)
     then Inr ((), s\<lparr>network_fee_snapshot := network_fee_snapshot s @ [f]\<rparr>) else Inl DatabaseError)"

definition rate_legal :: "trx_rate \<Rightarrow> bool" where
  "rate_legal r \<longleftrightarrow> between (xr_micro r) 1 1000000000 \<and> 2 \<le> length (trim (xr_source r)) \<and> length (trim (xr_source r)) \<le> 200"

definition insert_trx_rate :: "trx_rate \<Rightarrow> ('x network_db_scheme, unit) cmd" where
  "insert_trx_rate r = (\<lambda>s. if rate_legal r \<and> list_all (\<lambda>q. xr_id q \<noteq> xr_id r) (network_trx_rate s)
     then Inr ((), s\<lparr>network_trx_rate := network_trx_rate s @ [r]\<rparr>) else Inl DatabaseError)"

definition fee_checks :: "quote_fee \<Rightarrow> bool" where
  "fee_checks f \<longleftrightarrow> 0 < qf_micro f \<and> 0 < qf_energy_price f \<and> between (qf_sends_priced f) 0 3 \<and> 0 \<le> qf_fee_sun f \<and> 0 \<le> qf_fee_inr f \<and>
     (case qf_reward_bps f of None \<Rightarrow> qf_reward_inr f = 0 | Some b \<Rightarrow> between b 0 500) \<and> 0 \<le> qf_reward_inr f \<and>
     (qf_order f = None \<longrightarrow> qf_reward_bps f = None) \<and> between (qf_reserve_sends f) 1 5 \<and> 0 < qf_reserve_sun f \<and>
     list_all (\<lambda>x. between x (- 9223372036854775808) 9223372036854775807)
       [qf_micro f, qf_energy_price f, qf_fee_sun f, qf_fee_inr f, qf_reward_inr f, qf_net_inr f, qf_reserve_sun f, qf_min_net_inr f] \<and>
     (qf_fee_usdt f = None \<longleftrightarrow> qf_net_usdt f = None) \<and> (qf_fee_usdt f = None \<longleftrightarrow> qf_min_net_usdt f = None) \<and>
     (case qf_fee_usdt f of None \<Rightarrow> True | Some x \<Rightarrow> 0 \<le> x) \<and> (case qf_min_net_usdt f of None \<Rightarrow> True | Some x \<Rightarrow> 0 \<le> x)"

text \<open>The trigger as migration 0040 leaves it. The net margin is derived, never input.\<close>

definition fee_margin_ok :: "quote_fee \<Rightarrow> quote_row \<Rightarrow> string option \<Rightarrow> bool" where
  "fee_margin_ok f q route_trader \<longleftrightarrow> (case qt_margin_base q of
     Some m \<Rightarrow> qf_fee_usdt f \<noteq> None \<and> qf_net_usdt f = Some m \<and> (case qf_reward_bps f of None \<Rightarrow> True | Some b \<Rightarrow> b = 0) \<and>
       qf_reward_inr f = 0 \<and> qf_funder f = route_trader
   | None \<Rightarrow> qf_fee_usdt f = None \<and> qf_net_inr f = qt_margin_inr q - qf_reward_inr f - qf_fee_inr f)"

definition fee_reward_ok :: "quote_fee \<Rightarrow> quote_row \<Rightarrow> string option \<Rightarrow> order_row list \<Rightarrow> bool" where
  "fee_reward_ok f q route_trader orders \<longleftrightarrow> (case qf_order f of
     Some i \<Rightarrow> (case List.find (\<lambda>r. od_id r = i) orders of None \<Rightarrow> False
       | Some r \<Rightarrow> od_route r = qt_route q \<and> od_request r = qt_request q \<and> od_status r = ''ACCEPTED'' \<and>
           qf_reward_inr f = (od_inr r * (case qf_reward_bps f of None \<Rightarrow> 0 | Some b \<Rightarrow> b)) div 10000)
   | None \<Rightarrow> route_trader = None)"

definition trader_of_route :: "string \<Rightarrow> 'x network_db_scheme \<Rightarrow> string option" where
  "trader_of_route i s = (case find_route i s of None \<Rightarrow> None | Some r \<Rightarrow> lr_trader r)"

definition find_quote :: "string \<Rightarrow> 'x network_db_scheme \<Rightarrow> quote_row option" where
  "find_quote i s = List.find (\<lambda>q. qt_id q = i) (quote s)"

definition insert_quote_fee :: "quote_fee \<Rightarrow> ('x network_db_scheme, unit) cmd" where
  "insert_quote_fee f = (\<lambda>s. case find_quote (qf_quote f) s of None \<Rightarrow> Inl DatabaseError
     | Some q \<Rightarrow> if fee_checks f \<and> qt_status q = QT_DRAFT \<and> fee_margin_ok f q (trader_of_route (qt_route q) s) \<and>
           fee_reward_ok f q (trader_of_route (qt_route q) s) (trader_order s) \<and>
           list_all (\<lambda>g. qf_quote g \<noteq> qf_quote f) (quote_network_fee s) \<and>
           list_ex (\<lambda>x. fs_id x = qf_snapshot f) (network_fee_snapshot s) \<and> list_ex (\<lambda>x. xr_id x = qf_rate f) (network_trx_rate s)
         then Inr ((), s\<lparr>quote_network_fee := quote_network_fee s @ [f]\<rparr>) else Inl DatabaseError)"

section \<open>The policy\<close>

definition newest :: "('r \<Rightarrow> int) \<Rightarrow> ('r \<Rightarrow> string) \<Rightarrow> 'r list \<Rightarrow> 'r option" where
  "newest at key rows = (case rev (sort_key at (sort_key key rows)) of [] \<Rightarrow> None | r # _ \<Rightarrow> Some r)"

definition networkFeePolicy :: "'x network_db_scheme \<Rightarrow> fee_policy result" where
  "networkFeePolicy s = (case newest np_set_at np_id (network_fee_policy s) of None \<Rightarrow> Inl NoResultError | Some p \<Rightarrow> Inr p)"

definition wholeIn :: "js \<Rightarrow> int \<Rightarrow> int \<Rightarrow> int result" where
  "wholeIn v least most = (case v of JNum n \<Rightarrow> if n < least \<or> n > most then Inl (CoreError INVALID_ARGUMENT) else Inr n
     | _ \<Rightarrow> Inl (CoreError INVALID_ARGUMENT))"

text \<open>A field of the payload, or what was in force where it is undefined.\<close>

definition or_before :: "js \<Rightarrow> 'a \<Rightarrow> (js \<Rightarrow> 'a result) \<Rightarrow> 'a result" where
  "or_before v was f = (if v = JUndefined then Inr was else f v)"

definition parse_minor :: "js \<Rightarrow> int \<Rightarrow> int result" where
  "parse_minor v e = (case v of JStr t \<Rightarrow> parseDecimalToMinor t e | _ \<Rightarrow> Inl (CoreError INVALID_AMOUNT))"

definition js_trx :: "int \<Rightarrow> js" where
  "js_trx sun = (case formatTrx sun of Inl e \<Rightarrow> JUndefined | Inr t \<Rightarrow> JStr t)"

definition js_policy :: "fee_policy \<Rightarrow> (string \<times> js) list" where
  "js_policy p = [(''quote_energy'', JNum (np_quote_energy p)), (''reserve_energy'', JNum (np_reserve_energy p)),
     (''bandwidth_buffer_sun'', js_trx (np_bandwidth_buffer p)), (''topup_bytes'', JNum (np_topup_bytes p)), (''topup_buffer_bps'', JNum (np_topup_bps p)),
     (''price_buffer_bps'', JNum (np_price_bps p)), (''refund_sends_sell'', JNum (np_refund_sends p)),
     (''min_net_margin_inr_minor'', js_money (ofMinor (np_min_net p) INR)), (''max_snapshot_age_seconds'', JNum (np_snapshot_age p)),
     (''max_trx_rate_age_seconds'', JNum (np_rate_age p)), (''auto_send_enabled'', JBool (np_auto_send p)), (''fee_sweep_enabled'', JBool (np_sweep p)),
     (''fee_sweep_min_usdt_minor'', js_money (ofMinor (np_sweep_min p) USDT)), (''trx_reclaim_min_sun'', js_trx (np_reclaim_min p)),
     (''reason'', JStr (np_reason p)), (''set_by'', JStr (np_set_by p))]"

text \<open>The row the command writes, from the payload and the policy before it; the checks in the order of the code.\<close>

definition changed_policy :: "js \<Rightarrow> fee_policy \<Rightarrow> string \<Rightarrow> string \<Rightarrow> string \<Rightarrow> int \<Rightarrow> fee_policy result" where
  "changed_policy p was reason by i now =
     bindR (or_before (js_field ''quoteEnergy'' p) (np_quote_energy was) (\<lambda>v. wholeIn v 10000 1000000)) (\<lambda>quoteEnergy.
     bindR (or_before (js_field ''reserveEnergy'' p) (np_reserve_energy was) (\<lambda>v. wholeIn v 10000 2000000)) (\<lambda>reserveEnergy.
     bindR (throwUnless (\<not> reserveEnergy < quoteEnergy) (CoreError INVALID_ARGUMENT)) (\<lambda>_.
     bindR (or_before (js_field ''bandwidthBuffer'' p) (np_bandwidth_buffer was) (\<lambda>v. parse_minor v 6)) (\<lambda>bandwidth.
     bindR (throwUnless (\<not> (bandwidth < 0 \<or> bandwidth > 10000000)) (CoreError INVALID_ARGUMENT)) (\<lambda>_.
     bindR (or_before (js_field ''minNetMargin'' p) (np_min_net was) (\<lambda>v. bindR (parse_money v INR) (\<lambda>m. Inr (minor m)))) (\<lambda>minNet.
     bindR (or_before (js_field ''feeSweepMin'' p) (np_sweep_min was) (\<lambda>v. bindR (parse_money v USDT) (\<lambda>m. Inr (minor m)))) (\<lambda>sweepMin.
     bindR (throwUnless (\<not> (sweepMin < 1000000 \<or> sweepMin > 100000000000)) (CoreError INVALID_AMOUNT)) (\<lambda>_.
     bindR (or_before (js_field ''trxReclaimMin'' p) (np_reclaim_min was) (\<lambda>v. parse_minor v 6)) (\<lambda>reclaimMin.
     bindR (throwUnless (\<not> (reclaimMin < 100000 \<or> reclaimMin > 100000000)) (CoreError INVALID_AMOUNT)) (\<lambda>_.
     bindR (throwUnless (\<not> minNet < 0) (CoreError INVALID_AMOUNT)) (\<lambda>_.
     bindR (or_before (js_field ''topupBufferBps'' p) (np_topup_bps was) (\<lambda>v. wholeIn v 0 5000)) (\<lambda>topupBps.
     bindR (or_before (js_field ''priceBufferBps'' p) (np_price_bps was) (\<lambda>v. wholeIn v 0 10000)) (\<lambda>priceBps.
     bindR (or_before (js_field ''refundSendsSell'' p) (np_refund_sends was) (\<lambda>v. wholeIn v 0 3)) (\<lambda>refundSends.
     bindR (or_before (js_field ''autoSendEnabled'' p) (np_auto_send was) (\<lambda>v. Inr (js_truthy v))) (\<lambda>autoSend.
     bindR (or_before (js_field ''feeSweepEnabled'' p) (np_sweep was) (\<lambda>v. Inr (js_truthy v))) (\<lambda>sweep.
     Inr \<lparr>np_id = i, np_quote_energy = quoteEnergy, np_reserve_energy = reserveEnergy, np_bandwidth_buffer = bandwidth, np_topup_bytes = np_topup_bytes was,
       np_topup_bps = topupBps, np_price_bps = priceBps, np_refund_sends = refundSends, np_min_net = minNet, np_snapshot_age = np_snapshot_age was,
       np_rate_age = np_rate_age was, np_auto_send = autoSend, np_sweep = sweep, np_sweep_min = sweepMin, np_reclaim_min = reclaimMin,
       np_reason = reason, np_set_by = by, np_set_at = now\<rparr>))))))))))))))))"

definition setNetworkFeePolicy :: "operator_actor \<Rightarrow> tx_ctx \<Rightarrow> js \<Rightarrow> ('x network_db_scheme, js) cmd" where
  "setNetworkFeePolicy a = operatorHandle a ''settings:network_fees'' (\<lambda>ctx p dec.
     bindC (liftC (requireText (js_field ''reason'' p) 500)) (\<lambda>reason.
     bindC (unlessC (\<not> length reason < 10) (CoreError INVALID_ARGUMENT)) (\<lambda>_.
     bindC (readC networkFeePolicy) (\<lambda>read.
     bindC (liftC read) (\<lambda>was.
     bindC freshId (\<lambda>i.
     bindC (readC clock) (\<lambda>now.
     bindC (liftC (changed_policy p was reason (actorLabel ctx) i now)) (\<lambda>row.
     bindC (insert_policy row) (\<lambda>_.
     bindC (appendAudit ctx ''settings.network_fees_changed'' ''network_fee_policy'' None
        (JObj [(''quote_energy'', JNum (np_quote_energy was)), (''reserve_energy'', JNum (np_reserve_energy was)),
               (''min_net_margin'', js_money (ofMinor (np_min_net was) INR)), (''auto_send'', JBool (np_auto_send was))])
        (JObj (js_policy row))) (\<lambda>_.
     bindC (readC networkFeePolicy) (\<lambda>read.
     bindC (liftC read) (\<lambda>policy.
     returnC (JObj ((''id'', JStr (np_id policy)) # js_policy policy))))))))))))))"

section \<open>Readings of the chain and of the market\<close>

definition latestFeeSnapshot :: "'x network_db_scheme \<Rightarrow> fee_snapshot option" where
  "latestFeeSnapshot s = newest fs_observed_at fs_id (network_fee_snapshot s)"

definition latestTrxRate :: "'x network_db_scheme \<Rightarrow> trx_rate option" where
  "latestTrxRate s = newest xr_effective_at xr_id (network_trx_rate s)"

definition ageSeconds :: "int \<Rightarrow> 'x network_db_scheme \<Rightarrow> int" where
  "ageSeconds at s = max (clock s - at) 0"

definition currentNetworkCosts :: "'x network_db_scheme \<Rightarrow> (fee_policy \<times> fee_snapshot \<times> trx_rate) result" where
  "currentNetworkCosts s =
     bindR (networkFeePolicy s) (\<lambda>policy.
     case latestFeeSnapshot s of None \<Rightarrow> Inl (RailsError NETWORK_FEES_UNKNOWN)
     | Some snapshot \<Rightarrow>
       if ageSeconds (fs_observed_at snapshot) s > np_snapshot_age policy then Inl (RailsError NETWORK_FEES_UNKNOWN)
       else case latestTrxRate s of None \<Rightarrow> Inl (RailsError NETWORK_FEES_UNKNOWN)
         | Some rate \<Rightarrow>
           if ageSeconds (xr_effective_at rate) s > np_rate_age policy then Inl (RailsError NETWORK_FEES_UNKNOWN)
           else Inr (policy, snapshot, rate))"

record chain_fees =
  cf_energy_price :: int
  cf_bandwidth_price :: int
  cf_create_account :: int
  cf_create_new_account :: int
  cf_free_net :: int

definition recordFeeSnapshot :: "tx_ctx \<Rightarrow> chain_fees \<Rightarrow> string list \<Rightarrow> ('x network_db_scheme, string) cmd" where
  "recordFeeSnapshot ctx params providers =
     bindC freshId (\<lambda>i.
     bindC (readC clock) (\<lambda>now.
     let joined = take 300 (join_with '','' providers)
     in bindC (insert_fee_snapshot \<lparr>fs_id = i, fs_energy_price = cf_energy_price params, fs_bandwidth_price = cf_bandwidth_price params,
          fs_create_account = cf_create_account params, fs_create_new_account = cf_create_new_account params, fs_free_net = cf_free_net params,
          fs_providers = (if joined = [] then ''unknown'' else joined), fs_observed_by = actor_or_command ctx, fs_observed_at = now\<rparr>) (\<lambda>_.
     bindC (appendAudit ctx ''network.fees_observed'' ''network_fee_snapshot'' (Some i) JUndefined
        (JObj [(''energy_price_sun'', JStr (int_to_string (cf_energy_price params))), (''bandwidth_price_sun'', JStr (int_to_string (cf_bandwidth_price params))),
               (''create_account_fee'', js_trx (cf_create_account params)), (''create_new_account_fee'', js_trx (cf_create_new_account params)),
               (''providers'', JArr (map JStr providers))])) (\<lambda>_.
     returnC i))))"

text \<open>The insert of a price and its audit event, the same for the market's and the desk's.\<close>

definition put_rate :: "tx_ctx \<Rightarrow> int \<Rightarrow> string \<Rightarrow> string \<Rightarrow> trx_rate option \<Rightarrow> ('x network_db_scheme, string) cmd" where
  "put_rate ctx price source by was =
     bindC freshId (\<lambda>i.
     bindC (readC clock) (\<lambda>now.
     bindC (insert_trx_rate \<lparr>xr_id = i, xr_micro = price, xr_source = source, xr_published_by = by, xr_effective_at = now\<rparr>) (\<lambda>_.
     bindC (appendAudit ctx ''network.trx_rate_published'' ''network_trx_rate'' (Some i)
        (case was of None \<Rightarrow> JNull | Some b \<Rightarrow> JObj [(''usdt_per_trx'', js_trx (xr_micro b))])
        (JObj [(''usdt_per_trx'', js_trx price), (''source'', JStr source)])) (\<lambda>_.
     returnC i))))"

definition moved_too_far :: "int \<Rightarrow> int \<Rightarrow> int \<Rightarrow> bool" where
  "moved_too_far price old maxJumpPercent \<longleftrightarrow>
     (let move = (if price > old then price - old else old - price) in move * 100 > old * maxJumpPercent)"

definition recordMarketTrxRate :: "tx_ctx \<Rightarrow> int \<Rightarrow> js \<Rightarrow> int \<Rightarrow> ('x network_db_scheme, string option) cmd" where
  "recordMarketTrxRate ctx price source maxJumpPercent =
     bindC (readC latestTrxRate) (\<lambda>before.
     bindC (unlessC (\<not> (price \<le> 0 \<or> price > 1000000000)) (CoreError INVALID_RATE)) (\<lambda>_.
     if (case before of None \<Rightarrow> False | Some b \<Rightarrow> moved_too_far price (xr_micro b) maxJumpPercent) then returnC None
     else bindC (liftC (requireText source 200)) (\<lambda>source.
       bindC (put_rate ctx price source ''SYSTEM'' before) (\<lambda>i. returnC (Some i)))))"

definition publishTrxRate :: "operator_actor \<Rightarrow> tx_ctx \<Rightarrow> js \<Rightarrow> ('x network_db_scheme, js) cmd" where
  "publishTrxRate a = operatorHandle a ''network:manage'' (\<lambda>ctx p dec.
     bindC (liftC (parse_minor (js_field ''usdtPerTrx'' p) 6)) (\<lambda>price.
     bindC (unlessC (\<not> (price \<le> 0 \<or> price > 1000000000)) (CoreError INVALID_RATE)) (\<lambda>_.
     bindC (liftC (requireText (js_field ''source'' p) 200)) (\<lambda>source.
     bindC (readC latestTrxRate) (\<lambda>before.
     bindC (unlessC (case before of None \<Rightarrow> True | Some b \<Rightarrow> js_truthy (js_field ''confirmLargeChange'' p) \<or>
          \<not> (price * 10 < xr_micro b \<or> price > xr_micro b * 10)) (CoreError INVALID_RATE)) (\<lambda>_.
     bindC (put_rate ctx price source (actorLabel ctx) before) (\<lambda>i.
     bindC (readC clock) (\<lambda>now.
     returnC (JObj [(''rateId'', JStr i), (''effectiveAt'', JNum now)])))))))))"

section \<open>What a quote is charged\<close>

record p2p_pricing =
  pp_gross :: int
  pp_fee :: int
  pp_net :: int
  pp_min_net :: int

record network_pricing =
  pn_funder :: "string option"
  pn_snapshot :: string
  pn_rate :: string
  pn_micro :: int
  pn_energy_price :: int
  pn_sends_priced :: int
  pn_fee_sun :: int
  pn_fee_inr :: int
  pn_reward_inr :: int
  pn_order :: "string option"
  pn_reward_bps :: "int option"
  pn_gross_inr :: int
  pn_net_inr :: int
  pn_min_net_inr :: int
  pn_reserve_sends :: int
  pn_per_send :: int
  pn_reserve_sun :: int
  pn_p2p :: "p2p_pricing option"

record quote_reward =
  qr_order :: string
  qr_bps :: "int option"
  qr_minor :: int

definition priceNetwork :: "direction \<Rightarrow> int \<Rightarrow> int \<Rightarrow> string option \<Rightarrow> quote_reward option \<Rightarrow> 'x network_db_scheme \<Rightarrow> network_pricing result" where
  "priceNetwork direction clientRate gross funder reward s =
     bindR (currentNetworkCosts s) (\<lambda>(policy, snapshot, rate).
     bindR (quoteFeeSun snapshot policy) (\<lambda>feeSun.
     bindR (trxToInrMinor feeSun (xr_micro rate) clientRate UP) (\<lambda>feeInr.
     let sends = reserveSends direction policy
     in bindR (reservePerSendSun snapshot policy) (\<lambda>perSend.
     let rewardInr = (case reward of None \<Rightarrow> 0 | Some r \<Rightarrow> qr_minor r)
     in Inr \<lparr>pn_funder = funder, pn_snapshot = fs_id snapshot, pn_rate = xr_id rate, pn_micro = xr_micro rate,
       pn_energy_price = fs_energy_price snapshot, pn_sends_priced = 1, pn_fee_sun = feeSun, pn_fee_inr = feeInr, pn_reward_inr = rewardInr,
       pn_order = map_option qr_order reward, pn_reward_bps = (case reward of None \<Rightarrow> None | Some r \<Rightarrow> qr_bps r), pn_gross_inr = gross,
       pn_net_inr = gross - rewardInr - feeInr, pn_min_net_inr = np_min_net policy, pn_reserve_sends = sends, pn_per_send = perSend,
       pn_reserve_sun = perSend * sends, pn_p2p = None\<rparr>))))"

definition as_inr :: "int \<Rightarrow> int \<Rightarrow> int result" where
  "as_inr clientRate amount =
     bindR (Rate_ofMicro clientRate CLIENT_RATE) (\<lambda>r.
     bindR (usdtToInr (ofMinor (if amount < 0 then - amount else amount) USDT) r DOWN) (\<lambda>v. Inr (if amount < 0 then - minor v else minor v)))"

definition priceNetworkP2p :: "int \<Rightarrow> int \<Rightarrow> string \<Rightarrow> 'x network_db_scheme \<Rightarrow> network_pricing result" where
  "priceNetworkP2p clientRate grossMarginBase traderOrderId s =
     (case List.find (\<lambda>r. od_id r = traderOrderId) (trader_order s) of None \<Rightarrow> Inl (CoreError NOT_FOUND)
      | Some order \<Rightarrow>
     bindR (currentNetworkCosts s) (\<lambda>(policy, snapshot, rate).
     bindR (quoteFeeSun snapshot policy) (\<lambda>feeSun.
     bindR (trxToUsdtMinor feeSun (xr_micro rate) UP) (\<lambda>feeUsdt.
     bindR (trxToInrMinor feeSun (xr_micro rate) clientRate UP) (\<lambda>feeInr.
     bindR (Rate_ofMicro clientRate CLIENT_RATE) (\<lambda>r.
     bindR (inrToUsdt (ofMinor (np_min_net policy) INR) r UP) (\<lambda>minNet.
     let net = grossMarginBase; sends = 1 + np_refund_sends policy
     in bindR (reservePerSendSun snapshot policy) (\<lambda>perSend.
     bindR (as_inr clientRate grossMarginBase) (\<lambda>grossInr.
     bindR (as_inr clientRate net) (\<lambda>netInr.
     Inr \<lparr>pn_funder = Some (od_trader order), pn_snapshot = fs_id snapshot, pn_rate = xr_id rate, pn_micro = xr_micro rate,
       pn_energy_price = fs_energy_price snapshot, pn_sends_priced = 1, pn_fee_sun = feeSun, pn_fee_inr = feeInr, pn_reward_inr = 0,
       pn_order = Some traderOrderId, pn_reward_bps = Some 0, pn_gross_inr = grossInr, pn_net_inr = netInr, pn_min_net_inr = np_min_net policy,
       pn_reserve_sends = sends, pn_per_send = perSend, pn_reserve_sun = perSend * sends,
       pn_p2p = Some \<lparr>pp_gross = grossMarginBase, pp_fee = feeUsdt, pp_net = net, pp_min_net = minor minNet\<rparr>\<rparr>))))))))))"

definition assertProfitable :: "network_pricing \<Rightarrow> unit result" where
  "assertProfitable p = (case pn_p2p p of
     Some q \<Rightarrow> if pp_net q \<ge> pp_min_net q then Inr () else Inl (RailsError QUOTE_UNPROFITABLE)
   | None \<Rightarrow> if pn_net_inr p \<ge> pn_min_net_inr p then Inr () else Inl (RailsError QUOTE_UNPROFITABLE))"

definition fee_of_pricing :: "string \<Rightarrow> network_pricing \<Rightarrow> quote_fee" where
  "fee_of_pricing quoteId p = \<lparr>qf_quote = quoteId, qf_funder = pn_funder p, qf_snapshot = pn_snapshot p, qf_rate = pn_rate p, qf_micro = pn_micro p,
     qf_energy_price = pn_energy_price p, qf_sends_priced = pn_sends_priced p, qf_fee_sun = pn_fee_sun p, qf_fee_inr = pn_fee_inr p,
     qf_order = pn_order p, qf_reward_bps = pn_reward_bps p, qf_reward_inr = pn_reward_inr p, qf_net_inr = pn_net_inr p,
     qf_reserve_sends = pn_reserve_sends p, qf_reserve_sun = pn_reserve_sun p, qf_min_net_inr = pn_min_net_inr p,
     qf_fee_usdt = map_option pp_fee (pn_p2p p), qf_net_usdt = map_option pp_net (pn_p2p p), qf_min_net_usdt = map_option pp_min_net (pn_p2p p)\<rparr>"

definition recordQuoteNetworkFee :: "string \<Rightarrow> network_pricing \<Rightarrow> ('x network_db_scheme, unit) cmd" where
  "recordQuoteNetworkFee quoteId p = insert_quote_fee (fee_of_pricing quoteId p)"

definition quoteNetworkFee :: "string \<Rightarrow> 'x network_db_scheme \<Rightarrow> quote_fee option" where
  "quoteNetworkFee quoteId s = List.find (\<lambda>f. qf_quote f = quoteId) (quote_network_fee s)"

text \<open>The fee a trade was accepted with, with the client's rate and the direction of its quote.\<close>

definition tradeNetworkFee :: "string \<Rightarrow> 'x network_db_scheme \<Rightarrow> (quote_fee \<times> int \<times> direction) option" where
  "tradeNetworkFee tradeId s = (case find_trade tradeId s of None \<Rightarrow> None
     | Some t \<Rightarrow> (case find_quote (td_quote t) s of None \<Rightarrow> None
       | Some q \<Rightarrow> (case quoteNetworkFee (qt_id q) s of None \<Rightarrow> None | Some f \<Rightarrow> Some (f, qt_client_rate q, qt_direction q))))"

section \<open>Sharing out what came back\<close>

type_synonym share = "string option \<times> int"

text \<open>\<^verbatim>\<open>shares.set(funder, (shares.get(funder) ?? 0n) + amount)\<close>: a \<^verbatim>\<open>Map\<close> keeps the order of its first keys.\<close>

fun add_share :: "string option \<Rightarrow> int \<Rightarrow> share list \<Rightarrow> share list" where
  "add_share f v [] = [(f, v)]"
| "add_share f v ((g, w) # rest) = (if g = f then (g, w + v) # rest else (g, w) # add_share f v rest)"

fun give_shares :: "int \<Rightarrow> int \<Rightarrow> share list \<Rightarrow> share list \<Rightarrow> share list" where
  "give_shares received whole [] shares = shares"
| "give_shares received whole ((f, w) # ws) shares =
     (let part = (if received \<ge> whole then w else (received * w) div whole)
      in give_shares received whole ws (if part > 0 then add_share f part shares else shares))"

definition splitReclaim :: "int \<Rightarrow> share list \<Rightarrow> share list" where
  "splitReclaim received weights =
     (if received \<le> 0 then []
      else let whole = sum_list (map snd weights);
               shares = (if whole > 0 then give_shares received whole weights [] else []);
               given = sum_list (map snd shares);
               shares = (if received > given then add_share None (received - given) shares else shares)
           in filter (\<lambda>(f, v). v > 0) shares)"

text \<open>The weights: what each send's funder left, and a trader already paid back for it is not counted again.\<close>

record left_row =
  lf_funder :: "string option"
  lf_bearer :: string
  lf_mode :: "string option"
  lf_left :: int

fun weights_of :: "left_row list \<Rightarrow> share list \<Rightarrow> share list" where
  "weights_of [] acc = acc"
| "weights_of (r # rs) acc =
     (if lf_left r \<le> 0 then weights_of rs acc
      else let reimbursed = (lf_funder r \<noteq> None \<and> lf_mode r \<noteq> Some ''P2P'' \<and> lf_bearer r \<noteq> ''TRADER'')
        in weights_of rs (add_share (if reimbursed then None else lf_funder r) (lf_left r) acc))"

section \<open>Estimates\<close>

lemma withBps_run: "0 \<le> sun \<Longrightarrow> 0 \<le> bps \<Longrightarrow> withBps sun bps = Inr ((sun * (10000 + bps) + 9999) div 10000)"
  by (simp add: withBps_def divRound_UP)

lemma withBps_covers:
  assumes "0 \<le> sun" "0 \<le> bps" "withBps sun bps = Inr x"
  shows "sun \<le> x" "0 \<le> x"
proof -
  have "x = (sun * (10000 + bps) + 9999) div 10000" using assms withBps_run by simp
  moreover have "sun * 10000 \<le> sun * (10000 + bps)" using assms(1,2) by (intro mult_left_mono) simp_all
  ultimately show "sun \<le> x" by linarith
  with assms(1) show "0 \<le> x" by simp
qed

lemma withBps_mono: "0 \<le> sun \<Longrightarrow> sun \<le> high \<Longrightarrow> 0 \<le> bps \<Longrightarrow> withBps sun bps = Inr x \<Longrightarrow> withBps high bps = Inr y \<Longrightarrow> x \<le> y"
  using withBps_run[of sun bps] withBps_run[of high bps] by (auto intro!: zdiv_mono1 mult_right_mono)

definition legal_costs :: "fee_snapshot \<Rightarrow> fee_policy \<Rightarrow> bool" where
  "legal_costs s p \<longleftrightarrow> snapshot_legal s \<and> policy_checks p"

lemma legal_numbers:
  assumes "legal_costs s p"
  shows "0 < fs_energy_price s" "0 < fs_bandwidth_price s" "0 \<le> fs_create_account s" "0 \<le> fs_create_new_account s" "0 < np_topup_bytes p"
    "0 \<le> np_topup_bps p" "0 \<le> np_price_bps p" "0 \<le> np_bandwidth_buffer p" "0 < np_quote_energy p" "np_quote_energy p \<le> np_reserve_energy p" "0 \<le> np_refund_sends p"
  using assms by (auto simp: legal_costs_def snapshot_legal_def policy_checks_def between_def)

lemma sendCost_run:
  assumes "legal_costs s p" "0 \<le> energy"
  shows "\<exists>c. sendCost s p energy a = Inr c \<and> 0 < sc_total c \<and> energy * fs_energy_price s \<le> sc_transfer c"
proof -
  note n = legal_numbers[OF assms(1)]
  have e: "0 \<le> energy * fs_energy_price s" using assms(2) n(1) by simp
  from withBps_run[OF e n(6)] obtain x where x: "withBps (energy * fs_energy_price s) (np_topup_bps p) = Inr x" by blast
  have "0 < np_topup_bytes p * fs_bandwidth_price s" using n(2,5) by simp
  then show ?thesis using withBps_covers[OF e n(6) x] n(3,4,8) assms(2) x by (simp add: sendCost_def Let_def)
qed

lemma sendCost_eq:
  assumes "legal_costs s p" "0 \<le> energy" "withBps (energy * fs_energy_price s) (np_topup_bps p) = Inr x" "sendCost s p energy a = Inr c"
  shows "sc_total c = (if a then fs_create_new_account s + fs_create_account s else 0) + np_topup_bytes p * fs_bandwidth_price s + x + np_bandwidth_buffer p"
  using assms(2-4) by (auto simp: sendCost_def Let_def)

lemma sendCost_mono:
  assumes "legal_costs s p" "0 \<le> energy" "energy \<le> high" "sendCost s p energy a = Inr c" "sendCost s p high a = Inr d"
  shows "sc_total c \<le> sc_total d"
proof -
  note n = legal_numbers[OF assms(1)]
  have e: "0 \<le> energy * fs_energy_price s" "energy * fs_energy_price s \<le> high * fs_energy_price s"
    using assms(2,3) n(1) by (simp_all add: mult_right_mono)
  then have h: "0 \<le> high * fs_energy_price s" by (rule order_trans)
  obtain x y where x: "withBps (energy * fs_energy_price s) (np_topup_bps p) = Inr x" and y: "withBps (high * fs_energy_price s) (np_topup_bps p) = Inr y"
    using withBps_run[OF e(1) n(6)] withBps_run[OF h n(6)] by blast
  have "x \<le> y" by (rule withBps_mono[OF e n(6) x y])
  moreover have "0 \<le> high" using assms(2,3) by (rule order_trans)
  ultimately show ?thesis using sendCost_eq[OF assms(1,2) x assms(4)] sendCost_eq[OF assms(1) _ y assms(5)] by simp
qed

definition covers :: "fee_snapshot \<Rightarrow> fee_policy \<Rightarrow> int \<Rightarrow> int \<Rightarrow> bool" where
  "covers s p sun most \<longleftrightarrow> (\<forall>energy. 0 \<le> energy \<and> energy \<le> most \<longrightarrow> (\<exists>c. sendCost s p energy True = Inr c \<and> sc_total c \<le> sun))"

lemma covers_upto:
  assumes "legal_costs s p" "sendCost s p most True = Inr c" "sc_total c \<le> sun"
  shows "covers s p sun most"
  unfolding covers_def
proof (intro allI impI)
  fix energy assume e: "0 \<le> energy \<and> energy \<le> most"
  then obtain d where d: "sendCost s p energy True = Inr d" using sendCost_run[OF assms(1), of energy True] by blast
  have "sc_total d \<le> sc_total c" using sendCost_mono[OF assms(1) _ _ d assms(2)] e by simp
  then show "\<exists>c. sendCost s p energy True = Inr c \<and> sc_total c \<le> sun" using d assms(3) by auto
qed

lemma fee_covers:
  assumes "legal_costs s p"
  shows "\<exists>x. quoteFeeSun s p = Inr x \<and> 0 < x \<and> covers s p x (np_quote_energy p)"
    "\<exists>y. reservePerSendSun s p = Inr y \<and> 0 < y \<and> covers s p y (np_reserve_energy p)"
proof -
  note n = legal_numbers[OF assms]
  from sendCost_run[OF assms, of "np_quote_energy p" True] n(9) obtain c where c: "sendCost s p (np_quote_energy p) True = Inr c" "0 < sc_total c" by auto
  from c(2) have c0: "0 \<le> sc_total c" by simp
  from withBps_run[OF c0 n(7)] obtain x where x: "withBps (sc_total c) (np_price_bps p) = Inr x" by blast
  have le: "sc_total c \<le> x" using withBps_covers(1)[OF c0 n(7) x] .
  have "covers s p x (np_quote_energy p)" using covers_upto[OF assms c(1) le] .
  then show "\<exists>x. quoteFeeSun s p = Inr x \<and> 0 < x \<and> covers s p x (np_quote_energy p)" using c x le by (simp add: quoteFeeSun_def)
  from sendCost_run[OF assms, of "np_reserve_energy p" True] n(9,10) obtain d where d: "sendCost s p (np_reserve_energy p) True = Inr d" "0 < sc_total d" by auto
  have "covers s p (sc_total d) (np_reserve_energy p)" using covers_upto[OF assms d(1)] by simp
  then show "\<exists>y. reservePerSendSun s p = Inr y \<and> 0 < y \<and> covers s p y (np_reserve_energy p)" using d by (simp add: reservePerSendSun_def)
qed

section \<open>The rows stay legal\<close>

definition network_ok :: "'x network_db_scheme \<Rightarrow> bool" where
  "network_ok s \<longleftrightarrow> network_fee_policy s \<noteq> [] \<and> list_all policy_checks (network_fee_policy s) \<and> list_all snapshot_legal (network_fee_snapshot s) \<and>
     list_all rate_legal (network_trx_rate s)"

lemma newest_mem: "newest at key rows = Some r \<Longrightarrow> r \<in> set rows"
proof -
  assume "newest at key rows = Some r"
  then have "r \<in> set (rev (sort_key at (sort_key key rows)))"
    unfolding newest_def by (cases "rev (sort_key at (sort_key key rows))") (simp_all del: set_rev set_sort)
  then show ?thesis by simp
qed

lemma newest_exists: "rows \<noteq> [] \<Longrightarrow> \<exists>r. newest at key rows = Some r"
proof -
  assume "rows \<noteq> []"
  then have "length (rev (sort_key at (sort_key key rows))) \<noteq> 0" by simp
  then show ?thesis unfolding newest_def by (cases "rev (sort_key at (sort_key key rows))") simp_all
qed

lemma costs_legal: "network_ok s \<Longrightarrow> currentNetworkCosts s = Inr (p, f, r) \<Longrightarrow> legal_costs f p \<and> rate_legal r \<and>
    ageSeconds (fs_observed_at f) s \<le> np_snapshot_age p \<and> ageSeconds (xr_effective_at r) s \<le> np_rate_age p"
  by (auto simp: currentNetworkCosts_def networkFeePolicy_def latestFeeSnapshot_def latestTrxRate_def legal_costs_def network_ok_def list_all_iff
    split: option.splits if_splits dest!: newest_mem)

lemma costs_rows: "currentNetworkCosts s = Inr (p, f, r) \<Longrightarrow>
    p \<in> set (network_fee_policy s) \<and> f \<in> set (network_fee_snapshot s) \<and> r \<in> set (network_trx_rate s)"
  by (auto simp: currentNetworkCosts_def networkFeePolicy_def latestFeeSnapshot_def latestTrxRate_def split: option.splits if_splits dest!: newest_mem)

lemma ceil_div:
  fixes n d :: int
  assumes "0 < d"
  shows "n \<le> (n + d - 1) div d * d" "(n + d - 1) div d * d < n + d"
  using div_mult_mod_eq[of "n + d - 1" d] pos_mod_sign[OF assms, of "n + d - 1"] pos_mod_bound[OF assms, of "n + d - 1"] by linarith+

lemma trx_inr_bounds:
  assumes "trxToInrMinor x price rate UP = Inr y"
  shows "x * price * rate \<le> y * 10 ^ 16" "y * 10 ^ 16 < x * price * rate + 10 ^ 16"
proof -
  have nonneg: "0 \<le> x" "0 < price" "0 < rate" using assms by (auto simp: trxToInrMinor_def split: if_splits)
  then have n: "0 \<le> x * price * rate" by simp
  have "y = (x * price * rate + 10 ^ 16 - 1) div 10 ^ 16"
    using assms nonneg divRound_UP[of "10 ^ 16" "x * price * rate"] n by (simp add: trxToInrMinor_def pow10_def)
  then show "x * price * rate \<le> y * 10 ^ 16" "y * 10 ^ 16 < x * price * rate + 10 ^ 16"
    using ceil_div[of "10 ^ 16" "x * price * rate"] by simp_all
qed

datatype network_call =
    SetPolicy operator_actor tx_ctx js
  | Observe tx_ctx chain_fees "string list"
  | MarketRate tx_ctx int js int
  | PublishTrxRate operator_actor tx_ctx js
  | ChargeQuote string network_pricing
  | WaitSeconds nat

definition made :: "(network_db, 'a) cmd \<Rightarrow> network_db \<Rightarrow> network_db" where
  "made m s = (case m s of Inl e \<Rightarrow> s | Inr (x, t) \<Rightarrow> t\<lparr>tx_rank := - 1\<rparr>)"

fun network_step :: "network_call \<Rightarrow> network_db \<Rightarrow> network_db" where
  "network_step (SetPolicy a ctx p) s = made (setNetworkFeePolicy a ctx p) s"
| "network_step (Observe ctx fees providers) s = made (recordFeeSnapshot ctx fees providers) s"
| "network_step (MarketRate ctx price source jump) s = made (recordMarketTrxRate ctx price source jump) s"
| "network_step (PublishTrxRate a ctx p) s = made (publishTrxRate a ctx p) s"
| "network_step (ChargeQuote i p) s = made (recordQuoteNetworkFee i p) s"
| "network_step (WaitSeconds n) s = s\<lparr>clock := clock s + int n\<rparr>"

definition run_network :: "network_call list \<Rightarrow> network_db \<Rightarrow> network_db" where
  "run_network cs s = fold network_step cs s"

text \<open>The tables only grow, by legal rows, and a recorded fee is the one its quote had room for.\<close>

definition fee_derived :: "'x network_db_scheme \<Rightarrow> quote_fee \<Rightarrow> bool" where
  "fee_derived s f \<longleftrightarrow> (\<exists>q. find_quote (qf_quote f) s = Some q \<and> qt_status q = QT_DRAFT \<and> fee_checks f \<and> fee_margin_ok f q (trader_of_route (qt_route q) s) \<and>
     fee_reward_ok f q (trader_of_route (qt_route q) s) (trader_order s))"

definition network_from :: "network_db \<Rightarrow> network_db \<Rightarrow> bool" where
  "network_from s t \<longleftrightarrow> network_ok t \<and> quote t = quote s \<and> liquidity_route t = liquidity_route s \<and> trader_order t = trader_order s \<and>
     (\<exists>ps. network_fee_policy t = network_fee_policy s @ ps) \<and> (\<exists>fs. network_fee_snapshot t = network_fee_snapshot s @ fs) \<and>
     (\<exists>rs. network_trx_rate t = network_trx_rate s @ rs) \<and>
     (\<exists>qs. quote_network_fee t = quote_network_fee s @ qs \<and> list_all (fee_derived s) qs \<and> distinct (map qf_quote qs))"

lemma derived_same: "quote t = quote s \<Longrightarrow> liquidity_route t = liquidity_route s \<Longrightarrow> trader_order t = trader_order s \<Longrightarrow> fee_derived t = fee_derived s"
  by (rule ext) (simp add: fee_derived_def find_quote_def trader_of_route_def find_route_def)

lemma network_from_insert:
  assumes "network_from s t"
  shows "policy_checks p \<Longrightarrow> network_from s (t\<lparr>network_fee_policy := network_fee_policy t @ [p]\<rparr>)"
    "snapshot_legal f \<Longrightarrow> network_from s (t\<lparr>network_fee_snapshot := network_fee_snapshot t @ [f]\<rparr>)"
    "rate_legal r \<Longrightarrow> network_from s (t\<lparr>network_trx_rate := network_trx_rate t @ [r]\<rparr>)"
  using assms by (auto simp: network_from_def network_ok_def)

lemma network_from_fee:
  assumes "network_from s t" "fee_derived s q" "list_all (\<lambda>g. qf_quote g \<noteq> qf_quote q) (quote_network_fee t)"
  shows "network_from s (t\<lparr>quote_network_fee := quote_network_fee t @ [q]\<rparr>)"
proof -
  from assms(1) obtain qs where qs: "quote_network_fee t = quote_network_fee s @ qs" "list_all (fee_derived s) qs" "distinct (map qf_quote qs)"
    unfolding network_from_def by blast
  have "distinct (map qf_quote (qs @ [q]))" using qs(1,3) assms(3) by (auto simp: list_all_iff)
  then have "\<exists>rs. quote_network_fee t @ [q] = quote_network_fee s @ rs \<and> list_all (fee_derived s) rs \<and> distinct (map qf_quote rs)"
    using qs(1,2) assms(2) by (intro exI[of _ "qs @ [q]"]) simp
  then show ?thesis using assms(1) unfolding network_from_def network_ok_def by simp
qed

lemma network_from_other:
  "network_from s t \<Longrightarrow> network_from s (t\<lparr>audit_event := x\<rparr>)" "network_from s t \<Longrightarrow> network_from s (t\<lparr>uuids := n\<rparr>)"
  "network_from s t \<Longrightarrow> network_from s (t\<lparr>tx_rank := k\<rparr>)" "network_from s t \<Longrightarrow> network_from s (t\<lparr>clock := c\<rparr>)"
  by (simp_all add: network_from_def network_ok_def)

lemma keeps_network [inv_intros]:
  "keeps (network_from s) (insert_policy p)" "keeps (network_from s) (insert_fee_snapshot f)" "keeps (network_from s) (insert_trx_rate r)"
  "keeps (network_from s) freshId" "keeps (network_from s) (appendAudit ctx action ty i b1 b2)"
  unfolding keeps_def insert_policy_def insert_fee_snapshot_def insert_trx_rate_def
  by (auto simp: network_from_insert network_from_other split: if_splits)

lemma keeps_fee [inv_intros]: "keeps (network_from s) (insert_quote_fee f)"
proof (rule keepsI)
  fix t x u assume from_s: "network_from s t" and run: "insert_quote_fee f t = Inr (x, u)"
  then have "fee_derived t f" "list_all (\<lambda>g. qf_quote g \<noteq> qf_quote f) (quote_network_fee t)" "u = t\<lparr>quote_network_fee := quote_network_fee t @ [f]\<rparr>"
    by (auto simp: insert_quote_fee_def fee_derived_def split: option.splits if_splits)
  moreover have "fee_derived t = fee_derived s" using from_s by (intro derived_same) (simp_all add: network_from_def)
  ultimately show "network_from s u" using network_from_fee[OF from_s] by simp
qed

lemma keeps_put_rate [inv_intros]: "keeps (network_from s) (put_rate ctx price source by was)"
  unfolding put_rate_def by (intro inv_intros)

lemma keeps_operator_network:
  assumes "\<And>ctx p d. keeps (network_from s) (h ctx p d)"
  shows "keeps (network_from s) (operatorHandle a perm h ctx p)"
  using assms unfolding keeps_def by (blast dest: operatorHandle_Inr)

lemma keeps_calls:
  "keeps (network_from s) (setNetworkFeePolicy a ctx p)" "keeps (network_from s) (recordFeeSnapshot ctx fees providers)"
  "keeps (network_from s) (recordMarketTrxRate ctx price source jump)" "keeps (network_from s) (publishTrxRate a ctx p)"
  "keeps (network_from s) (recordQuoteNetworkFee i q)"
  unfolding setNetworkFeePolicy_def recordFeeSnapshot_def recordMarketTrxRate_def publishTrxRate_def recordQuoteNetworkFee_def Let_def
  by (intro keeps_operator_network inv_intros)+

lemma made_keeps: "keeps (network_from s) m \<Longrightarrow> network_from s t \<Longrightarrow> network_from s (made m t)"
  unfolding made_def by (auto simp: network_from_other split: sum.split dest: keepsD)

lemma run_network_from: "network_from s t \<Longrightarrow> network_from s (run_network cs t)"
  unfolding run_network_def
proof (induction cs arbitrary: t)
  case (Cons c cs)
  then have "network_from s (network_step c t)" by (cases c) (simp_all add: made_keeps keeps_calls network_from_other)
  then show ?case using Cons.IH by simp
qed simp

section \<open>Shares\<close>

definition share_of :: "string option \<Rightarrow> share list \<Rightarrow> int" where
  "share_of f xs = sum_list (map snd (filter (\<lambda>x. fst x = f) xs))"

definition positive_shares :: "share list \<Rightarrow> bool" where
  "positive_shares xs \<longleftrightarrow> list_all (\<lambda>x. 0 < snd x) xs \<and> distinct (map fst xs)"

lemma add_share_sum: "sum_list (map snd (add_share f v xs)) = sum_list (map snd xs) + v"
  by (induction xs rule: add_share.induct[of _ f v]) simp_all

lemma add_share_of: "share_of g (add_share f v xs) = share_of g xs + (if g = f then v else 0)"
  by (induction f v xs rule: add_share.induct) (auto simp: share_of_def)

lemma add_share_set: "set (map fst (add_share f v xs)) = insert f (set (map fst xs))"
  by (induction f v xs rule: add_share.induct) auto

lemma add_share_positive: "positive_shares xs \<Longrightarrow> 0 < v \<Longrightarrow> positive_shares (add_share f v xs)"
proof (induction f v xs rule: add_share.induct)
  case (2 f v g w rest)
  then show ?case using add_share_set[of f v rest] by (cases "g = f") (simp_all add: positive_shares_def)
qed (simp add: positive_shares_def)

definition part_of :: "int \<Rightarrow> int \<Rightarrow> int \<Rightarrow> int" where
  "part_of received whole w = (if received \<ge> whole then w else (received * w) div whole)"

lemma part_bounds:
  assumes "0 < received" "0 < whole" "0 < w"
  shows "0 \<le> part_of received whole w" "part_of received whole w \<le> w" "part_of received whole w * whole \<le> max received whole * w"
    "part_of received whole w * whole \<le> received * w"
proof -
  show "0 \<le> part_of received whole w" using assms by (simp add: part_of_def pos_imp_zdiv_nonneg_iff)
  have less: "received * w div whole * whole \<le> received * w"
    using div_mult_mod_eq[of "received * w" whole] pos_mod_sign[OF assms(2), of "received * w"] by linarith
  have full: "w * whole \<le> received * w" if "whole \<le> received"
    using mult_right_mono[OF that, of w] assms(3) by (simp add: mult.commute)
  show le: "part_of received whole w * whole \<le> received * w" using less full by (simp add: part_of_def)
  show "part_of received whole w * whole \<le> max received whole * w"
    using le mult_right_mono[of received "max received whole" w] assms(3) by linarith
  show "part_of received whole w \<le> w"
  proof (cases "received \<ge> whole")
    case False
    then have "received * w \<le> whole * w" using assms(3) by (intro mult_right_mono) simp_all
    then have "received * w div whole \<le> whole * w div whole" using assms(2) by (rule zdiv_mono1)
    then show ?thesis using assms(2) False by (simp add: part_of_def)
  qed (simp add: part_of_def)
qed

lemma give_shares_step:
  "give_shares received whole ((f, w) # ws) shares =
     give_shares received whole ws (if part_of received whole w > 0 then add_share f (part_of received whole w) shares else shares)"
  by (simp add: part_of_def Let_def)

lemma give_shares_sum:
  assumes pos: "0 < received" "0 < whole"
  shows "list_all (\<lambda>x. 0 < snd x) ws \<Longrightarrow>
   sum_list (map snd (give_shares received whole ws acc)) = sum_list (map snd acc) + sum_list (map (\<lambda>x. part_of received whole (snd x)) ws)"
proof (induction ws arbitrary: acc)
  case (Cons x ws)
  obtain g w where x: "x = (g, w)" by (cases x)
  have "0 \<le> part_of received whole w" using part_bounds(1)[OF pos] Cons.prems x by simp
  then show ?case using Cons.IH Cons.prems by (simp add: x give_shares_step add_share_sum del: give_shares.simps(2))
qed simp

lemma give_shares_of:
  assumes pos: "0 < received" "0 < whole"
  shows "list_all (\<lambda>x. 0 < snd x) ws \<Longrightarrow> share_of f (give_shares received whole ws acc) =
   share_of f acc + sum_list (map (\<lambda>x. part_of received whole (snd x)) (filter (\<lambda>x. fst x = f) ws))"
proof (induction ws arbitrary: acc)
  case (Cons x ws)
  obtain g w where x: "x = (g, w)" by (cases x)
  have "0 \<le> part_of received whole w" using part_bounds(1)[OF pos] Cons.prems x by simp
  then show ?case using Cons.IH Cons.prems by (auto simp add: x give_shares_step add_share_of simp del: give_shares.simps(2))
qed simp

lemma give_shares_positive:
  "positive_shares acc \<Longrightarrow> positive_shares (give_shares received whole ws acc)"
proof (induction ws arbitrary: acc)
  case (Cons x ws)
  obtain g w where x: "x = (g, w)" by (cases x)
  show ?case using Cons by (simp add: x give_shares_step add_share_positive del: give_shares.simps(2))
qed simp

lemma parts_sum:
  assumes "0 < received" "0 < whole" "list_all (\<lambda>x. 0 < snd x) ws"
  shows "sum_list (map (\<lambda>x. part_of received whole (snd x)) ws) * whole \<le> received * sum_list (map snd ws)"
  using assms(3)
proof (induction ws)
  case (Cons x ws)
  then have "part_of received whole (snd x) * whole \<le> received * snd x" using part_bounds(4)[OF assms(1,2)] by simp
  with Cons show ?case by (simp add: distrib_left distrib_right)
qed simp

lemma split_shares:
  assumes "0 < received" "list_all (\<lambda>x. 0 < snd x) ws"
  defines "whole \<equiv> sum_list (map snd ws)" and "given \<equiv> sum_list (map (\<lambda>x. part_of received (sum_list (map snd ws)) (snd x)) ws)"
  shows "given \<le> received"
    "sum_list (map snd (splitReclaim received ws)) = received" "positive_shares (splitReclaim received ws)"
    "share_of f (splitReclaim received ws) = sum_list (map (\<lambda>x. part_of received whole (snd x)) (filter (\<lambda>x. fst x = f) ws)) + (if f = None then received - given else 0)"
proof -
  have all: "list_all (\<lambda>x. 0 < snd x) xs \<Longrightarrow> filter (\<lambda>(f, v). v > 0) xs = xs" for xs :: "share list"
    by (induction xs) auto
  have nonneg: "list_all (\<lambda>x. 0 < snd x) xs \<Longrightarrow> 0 \<le> sum_list (map snd xs)" for xs :: "share list"
    by (induction xs) auto
  consider "ws = []" | "0 < whole" using assms(2) nonneg[of "tl ws"] unfolding whole_def by (cases ws) auto
  then have "given \<le> received \<and> sum_list (map snd (splitReclaim received ws)) = received \<and> positive_shares (splitReclaim received ws) \<and>
    share_of f (splitReclaim received ws) = sum_list (map (\<lambda>x. part_of received whole (snd x)) (filter (\<lambda>x. fst x = f) ws)) + (if f = None then received - given else 0)"
  proof cases
    case 1
    then show ?thesis using assms(1) by (simp add: splitReclaim_def given_def positive_shares_def share_of_def)
  next
    case 2
    note g = give_shares_sum[OF assms(1) 2 assms(2)] give_shares_of[OF assms(1) 2 assms(2)]
    have "given * whole \<le> received * whole" using parts_sum[OF assms(1) 2 assms(2)] by (simp add: given_def whole_def)
    then have le: "given \<le> received" using 2 by simp
    let ?s = "give_shares received whole ws []"
    have pos: "positive_shares ?s" by (rule give_shares_positive) (simp add: positive_shares_def)
    have sum: "sum_list (map snd ?s) = given" using g(1)[of "[]"] by (simp add: given_def whole_def)
    let ?t = "if received > given then add_share None (received - given) ?s else ?s"
    have tpos: "positive_shares ?t" using pos add_share_positive by simp
    then have kept: "filter (\<lambda>(f, v). v > 0) ?t = ?t" by (intro all) (simp only: positive_shares_def)
    have "splitReclaim received ws = filter (\<lambda>(f, v). v > 0) ?t"
      using assms(1) 2 by (simp add: splitReclaim_def Let_def whole_def[symmetric] sum)
    then have result: "splitReclaim received ws = ?t" using kept by simp
    have total_sum: "sum_list (map snd ?t) = received" using sum le by (simp add: add_share_sum)
    have "share_of f ?s = sum_list (map (\<lambda>x. part_of received whole (snd x)) (filter (\<lambda>x. fst x = f) ws))"
      using g(2)[of f "[]"] by (simp add: share_of_def[of f "[]"])
    then have "share_of f ?t = sum_list (map (\<lambda>x. part_of received whole (snd x)) (filter (\<lambda>x. fst x = f) ws)) + (if f = None then received - given else 0)"
      using le by (cases "f = None") (auto simp: add_share_of)
    then show ?thesis using le total_sum tpos result by simp
  qed
  then show "given \<le> received" "sum_list (map snd (splitReclaim received ws)) = received" "positive_shares (splitReclaim received ws)"
    "share_of f (splitReclaim received ws) = sum_list (map (\<lambda>x. part_of received whole (snd x)) (filter (\<lambda>x. fst x = f) ws)) + (if f = None then received - given else 0)"
    by blast+
qed

lemma weights_sum_positive: "positive_shares acc \<Longrightarrow> positive_shares (weights_of rows acc)"
  by (induction rows acc rule: weights_of.induct) (simp_all add: Let_def add_share_positive)

text \<open>What a trader's own sends left: those whose network fee the trader bore, so that nobody paid it back for them.\<close>

definition left_by :: "string \<Rightarrow> left_row list \<Rightarrow> int" where
  "left_by t rows = sum_list (map lf_left (filter (\<lambda>r. lf_funder r = Some t \<and> 0 < lf_left r \<and> (lf_mode r = Some ''P2P'' \<or> lf_bearer r = ''TRADER'')) rows))"

lemma weights_left: "share_of (Some t) (weights_of rows acc) = share_of (Some t) acc + left_by t rows"
  by (induction rows acc rule: weights_of.induct) (auto simp: left_by_def Let_def add_share_of)

lemma share_of_unique: "distinct (map fst xs) \<Longrightarrow> sum_list (map (\<lambda>x. g (snd x)) (filter (\<lambda>x. fst x = f) xs)) =
    (if f \<in> set (map fst xs) then g (share_of f xs) else 0)"
proof (induction xs)
  case (Cons x xs)
  have none: "filter (\<lambda>x. fst x = fst y) xs = []" if "fst y \<notin> set (map fst xs)" for y
    using that by (force simp: filter_empty_conv)
  show ?case using Cons none[of x] by (auto simp: share_of_def)
qed simp

lemma share_of_absent: "f \<notin> set (map fst xs) \<Longrightarrow> share_of f xs = 0"
proof -
  assume "f \<notin> set (map fst xs)"
  then have "filter (\<lambda>x. fst x = f) xs = []" by (auto simp: filter_empty_conv)
  then show ?thesis by (simp add: share_of_def)
qed

lemma part_of_zero: "0 < received \<Longrightarrow> part_of received whole 0 = 0"
  by (simp add: part_of_def)

section \<open>A sample\<close>

text \<open>The sample: a policy, a reading and a price in force, and one quote still in draft.\<close>

definition sample_policy :: fee_policy where
  "sample_policy = \<lparr>np_id = ''p1'', np_quote_energy = 65000, np_reserve_energy = 131000, np_bandwidth_buffer = 400000, np_topup_bytes = 300, np_topup_bps = 1000,
     np_price_bps = 500, np_refund_sends = 1, np_min_net = 5000, np_snapshot_age = 86400, np_rate_age = 172800, np_auto_send = True, np_sweep = False,
     np_sweep_min = 10000000, np_reclaim_min = 1000000, np_reason = ''first policy'', np_set_by = ''SYSTEM'', np_set_at = 0\<rparr>"

definition sample_reading :: fee_snapshot where
  "sample_reading = \<lparr>fs_id = ''f1'', fs_energy_price = 100, fs_bandwidth_price = 1000, fs_create_account = 100000, fs_create_new_account = 1000000,
     fs_free_net = 600, fs_providers = ''a,b'', fs_observed_by = ''SYSTEM'', fs_observed_at = 900\<rparr>"

definition sample_trx_rate :: trx_rate where
  "sample_trx_rate = \<lparr>xr_id = ''x1'', xr_micro = 300000, xr_source = ''market'', xr_published_by = ''SYSTEM'', xr_effective_at = 950\<rparr>"

definition sample_network :: network_db where
  "sample_network = trade_db.extend sample_book (network_db.fields [sample_policy] [sample_reading] [sample_trx_rate] [] [])
     \<lparr>quote := [sample_quote\<lparr>qt_status := QT_DRAFT, qt_margin_inr := 40000\<rparr>], clock := 1000\<rparr>"

lemma sample_network_ok: "network_ok sample_network"
  by code_simp

lemma sample_priced: "case priceNetwork SELL_USDT 96000000 40000 None None sample_network of Inl e \<Rightarrow> False
    | Inr q \<Rightarrow> pn_fee_sun q = 9397500 \<and> pn_fee_inr q = 27065 \<and> pn_net_inr q = 40000 - 27065"
  by code_simp

section \<open>Properties\<close>

text \<open>C29: A quote is charged the network fee of the newest policy and readings, none of them too old: the fee in sun is at least
  what any transfer within the quoted energy costs, the reserve of one send at least what any transfer within the reserved energy costs, and the fee
  in rupees is that many sun at the TRX price and the client's rate, rounded up by less than one paisa.\<close>

theorem network_fee_covers:
  assumes "network_ok s" "priceNetwork d rate gross funder reward s = Inr q"
  shows "\<exists>p f r. currentNetworkCosts s = Inr (p, f, r) \<and> p \<in> set (network_fee_policy s) \<and> f \<in> set (network_fee_snapshot s) \<and> r \<in> set (network_trx_rate s) \<and>
    ageSeconds (fs_observed_at f) s \<le> np_snapshot_age p \<and> ageSeconds (xr_effective_at r) s \<le> np_rate_age p \<and>
    covers f p (pn_fee_sun q) (np_quote_energy p) \<and> covers f p (pn_per_send q) (np_reserve_energy p) \<and>
    pn_reserve_sun q = pn_per_send q * (if d = SELL_USDT then 1 + np_refund_sends p else 1) \<and> 0 < pn_reserve_sun q \<and>
    pn_fee_sun q * xr_micro r * rate \<le> pn_fee_inr q * 10 ^ 16 \<and> pn_fee_inr q * 10 ^ 16 < pn_fee_sun q * xr_micro r * rate + 10 ^ 16 \<and>
    pn_net_inr q = gross - pn_reward_inr q - pn_fee_inr q"
proof -
  from assms(2) obtain p f r x y z where run: "currentNetworkCosts s = Inr (p, f, r)" "quoteFeeSun f p = Inr x" "trxToInrMinor x (xr_micro r) rate UP = Inr y"
      "reservePerSendSun f p = Inr z"
    and q: "pn_fee_sun q = x" "pn_fee_inr q = y" "pn_per_send q = z" "pn_reserve_sun q = z * reserveSends d p" "pn_net_inr q = gross - pn_reward_inr q - pn_fee_inr q"
    by (auto simp: priceNetwork_def Let_def split: option.splits)
  have legal: "legal_costs f p" "ageSeconds (fs_observed_at f) s \<le> np_snapshot_age p" "ageSeconds (xr_effective_at r) s \<le> np_rate_age p"
    using costs_legal[OF assms(1) run(1)] by simp_all
  have fee: "0 < x" "covers f p x (np_quote_energy p)" and reserve: "0 < z" "covers f p z (np_reserve_energy p)"
    using fee_covers[OF legal(1)] run(2,4) by auto
  have sends: "reserveSends d p = (if d = SELL_USDT then 1 + np_refund_sends p else 1)" "0 < reserveSends d p"
    using legal_numbers(11)[OF legal(1)] by (simp_all add: reserveSends_def)
  have inr: "x * xr_micro r * rate \<le> y * 10 ^ 16" "y * 10 ^ 16 < x * xr_micro r * rate + 10 ^ 16"
    using trx_inr_bounds[OF run(3)] by simp_all
  have "0 < pn_reserve_sun q" using q(4) reserve(1) sends(2) by simp
  then show ?thesis using run(1) costs_rows[OF run(1)] legal fee reserve sends(1) inr q by auto
qed

theorem network_fee_covers_witness:
  "case priceNetwork SELL_USDT 96000000 40000 None None sample_network of Inl e \<Rightarrow> False
   | Inr q \<Rightarrow> covers sample_reading sample_policy (pn_fee_sun q) 65000 \<and> covers sample_reading sample_policy (pn_per_send q) 131000 \<and> pn_fee_inr q = 27065"
proof -
  obtain q where q: "priceNetwork SELL_USDT 96000000 40000 None None sample_network = Inr q" "pn_fee_inr q = 27065"
    using sample_priced by (auto split: sum.splits)
  have costs: "currentNetworkCosts sample_network = Inr (sample_policy, sample_reading, sample_trx_rate)" by code_simp
  show ?thesis using network_fee_covers[OF sample_network_ok q(1)] q costs by (auto simp: sample_policy_def)
qed



text \<open>Whatever the operators and the worker record, the tables only grow: every policy, reading and price in them passed the checks
  and every fee recorded for a quote was the first for a quote in draft, with the margin that quote leaves.\<close>

lemma network_tables_stay_legal:
  assumes "network_ok s"
  shows "network_from s (run_network cs s)"
  using assms by (intro run_network_from) (auto simp: network_from_def)

text \<open>C31: What comes back from an address is shared out whole: the shares are positive, one per funder, and sum to what was received. A trader
  gets what the sends whose fee he bore left there, or that in proportion, rounded down, when less came back than was left.\<close>

theorem reclaim_split_conserves:
  assumes "0 < received"
  shows "sum_list (map snd (splitReclaim received (weights_of rows []))) = received \<and> positive_shares (splitReclaim received (weights_of rows [])) \<and>
    share_of (Some t) (splitReclaim received (weights_of rows [])) =
      (let whole = sum_list (map snd (weights_of rows [])) in if received \<ge> whole then left_by t rows else (received * left_by t rows) div whole)"
proof -
  let ?ws = "weights_of rows []"
  have ws: "positive_shares ?ws" by (rule weights_sum_positive) (simp add: positive_shares_def)
  then have pos: "list_all (\<lambda>x. 0 < snd x) ?ws" and d: "distinct (map fst ?ws)" by (simp_all add: positive_shares_def)
  have left: "share_of (Some t) ?ws = left_by t rows" using weights_left[of t rows "[]"] by (simp add: share_of_def)
  have "sum_list (map (\<lambda>x. part_of received (sum_list (map snd ?ws)) (snd x)) (filter (\<lambda>x. fst x = Some t) ?ws)) = part_of received (sum_list (map snd ?ws)) (left_by t rows)"
    using share_of_unique[OF d, of "part_of received (sum_list (map snd ?ws))" "Some t"] share_of_absent[of "Some t" ?ws] part_of_zero[OF assms] left by (simp split: if_splits)
  then have "share_of (Some t) (splitReclaim received ?ws) = part_of received (sum_list (map snd ?ws)) (left_by t rows)"
    using split_shares(4)[OF assms pos, of "Some t"] by simp
  then show ?thesis using split_shares(2,3)[OF assms pos] by (simp add: Let_def part_of_def)
qed

definition sample_left :: "left_row list" where
  "sample_left = [\<lparr>lf_funder = Some ''t1'', lf_bearer = ''TRADER'', lf_mode = Some ''CLASSIC'', lf_left = 300\<rparr>, \<lparr>lf_funder = None, lf_bearer = ''PLATFORM'', lf_mode = None, lf_left = 200\<rparr>,
     \<lparr>lf_funder = Some ''t1'', lf_bearer = ''CLIENT'', lf_mode = Some ''CLASSIC'', lf_left = 500\<rparr>, \<lparr>lf_funder = Some ''t2'', lf_bearer = ''CLIENT'', lf_mode = Some ''P2P'', lf_left = 100\<rparr>]"

theorem reclaim_split_conserves_witness:
  "share_of (Some ''t1'') (splitReclaim 1000 (weights_of sample_left [])) = 272 \<and> sum_list (map snd (splitReclaim 1000 (weights_of sample_left []))) = 1000"
proof -
  have facts: "sum_list (map snd (weights_of sample_left [])) = 1100" "left_by ''t1'' sample_left = 300" by code_simp+
  show ?thesis using reclaim_split_conserves[of 1000 sample_left "''t1''"] facts by simp
qed

end
