(* ===== verification/Spec2Isabelle.thy ===== *)
theory Spec2Isabelle
  imports Kernel_Numbers Kernel_Economics Database Pipeline Outbox Ids Ledger LedgerRules Identity Capacity
    Reservations Tron Treasury Custody Routes InrPayments Pricing Trades Halt Obligations Progress
    Exceptions Adjustments Desk TronTx Network
begin

text \<open>
  INRP2P is an over-the-counter exchange between Indian rupees and USDT. Its core is a set of TypeScript packages that
  run as commands on one PostgreSQL database. This development models those packages and proves what makes them correct.

  How the program works. A person or a worker sends a command with a payload and an idempotency key. The pipeline
  (\<^verbatim>\<open>packages/commands\<close>) opens one transaction, claims the key, authorizes the caller, runs the handler, stores the
  result and commits; an error rolls everything back. A handler changes tables, posts balanced journals on the
  double-entry ledger (\<^verbatim>\<open>packages/ledger\<close>), appends to the audit log (\<^verbatim>\<open>packages/audit\<close>) and enqueues events for the worker
  (\<^verbatim>\<open>packages/outbox\<close>). Amounts are integers of minor units (\<^verbatim>\<open>packages/kernel\<close>).

  How the model follows it. The database is an extensible record; a table is a list of rows. A function that may throw
  returns \<open>js_error + 'a\<close>; a function inside a transaction is a \<open>cmd\<close>, a map from the state to an error or a value with
  the new state (\<open>Prelude\<close>). bigint is \<open>int\<close>. Strings are byte strings. Database time is the field \<open>clock\<close>, and the
  identifiers the database gives out are the function \<open>uuidv7\<close>. SHA-256, the hash of an audit range, outbox handlers and
  the session a signed cookie carries are parameters.

  The theories:
  \<^item> \<open>Errors\<close>, \<open>Prelude\<close>: the error codes (\<^verbatim>\<open>kernel/src/errors.ts\<close>), the command monad, tables, shared lemmas.
  \<^item> \<open>Kernel_Numbers\<close>: \<^verbatim>\<open>decimal.ts\<close>, \<^verbatim>\<open>money.ts\<close>, \<^verbatim>\<open>rate.ts\<close>, \<^verbatim>\<open>rounding.ts\<close>, \<^verbatim>\<open>conversion.ts\<close>, \<^verbatim>\<open>trx.ts\<close>; parsing is exact, formatting
    round-trips, rounding is right.
  \<^item> \<open>Kernel_Economics\<close>: \<^verbatim>\<open>economics.ts\<close>; who pays the rounding, margins, the platform's fee.
  \<^item> \<open>Ids\<close>: \<^verbatim>\<open>ids.ts\<close>, \<^verbatim>\<open>validation.ts\<close>, \<^verbatim>\<open>desk-handle.ts\<close>.
  \<^item> \<open>Database\<close>: \<^verbatim>\<open>db/src/context.ts\<close>, \<^verbatim>\<open>transaction.ts\<close> and \<^verbatim>\<open>audit/src\<close>; redaction, seals, lock order.
  \<^item> \<open>Pipeline\<close>: \<^verbatim>\<open>commands/src\<close>; replay, refusals, the rate limiter; the locale \<open>command_handler\<close> is the contract of a command.
  \<^item> \<open>Outbox\<close>: \<^verbatim>\<open>outbox/src\<close>; dispatch with savepoints refines delivering each event apart.
  \<^item> \<open>Identity\<close>: \<^verbatim>\<open>identity/src\<close>; the permission matrix, authorization, sessions, OWNER grants. It interprets \<open>command_handler\<close>.
  \<^item> \<open>Ledger\<close>, \<open>LedgerRules\<close>: \<^verbatim>\<open>ledger/src\<close>; the ledger invariant, posting, reversal, and the journal templates.
  \<^item> \<open>InrPayments\<close>: \<^verbatim>\<open>kernel/src/inr-payments.ts\<close>; payment references, UPI links, and whether a sender's name is the holder's.
  \<^item> \<open>Capacity\<close>: \<^verbatim>\<open>inr-accounts/src/capacity.ts\<close>; reservations of a day's rupee capacity, and that they never overcommit it.
  \<^item> \<open>Reservations\<close>: the locale \<open>reservation_book\<close>, the bookkeeping both kinds of reservation share.
  \<^item> \<open>Treasury\<close>: \<^verbatim>\<open>treasury/src/reservations.ts\<close>, \<^verbatim>\<open>wallets.ts\<close>; USDT promised to trades. It interprets \<open>reservation_book\<close>.
  \<^item> \<open>Tron\<close>: \<^verbatim>\<open>kernel/src/tron.ts\<close>; base58check addresses and their hexadecimal forms.
  \<^item> \<open>Custody\<close>: \<^verbatim>\<open>treasury/src/custody.ts\<close>; deposit addresses, never shared by two open assignments.
  \<^item> \<open>Routes\<close>: \<^verbatim>\<open>routes/src/routes.ts\<close>; liquidity routes, which of them are traders' own, and opening obligations.
  \<^item> \<open>Pricing\<close>: \<^verbatim>\<open>pricing/src/rates.ts\<close>; the append-only price history, a chain per series.
  \<^item> \<open>Trades\<close>: \<^verbatim>\<open>trades/src\<close>; opening a trade from an accepted quote, its life cycle and history, what it owes, the client's view.
  \<^item> \<open>Obligations\<close>: \<^verbatim>\<open>settlement/src/obligations.ts\<close>; what each side of a route obligation still owes, and allocating settlements to it.
  \<^item> \<open>Halt\<close>: \<^verbatim>\<open>trades/src/halt.ts\<close> and its commands in \<^verbatim>\<open>settlement/src/approvals.ts\<close>; the restore fence that holds outgoing payments.
  \<^item> \<open>Progress\<close>: \<^verbatim>\<open>settlement/src/progress.ts\<close>; when a trade advances, and what completing it does.
  \<^item> \<open>Exceptions\<close>: \<^verbatim>\<open>settlement/src/exceptions.ts\<close>; cases, the holds they put on trades, and the invariant of the desk.
  \<^item> \<open>Adjustments\<close>: \<^verbatim>\<open>settlement/src/adjustments.ts\<close>; corrections of what a trade owes, approved by a second person.
  \<^item> \<open>Desk\<close>: the calls of these theories in any order, over a trace of states that lets a call use an earlier reading.

  The loops of the code are recursive functions over the rows, bytes or digits they read, which Isabelle shows to end; the reader of \<open>TronTx\<close> is the loop of the code as an
  optional value, and \<open>reading_ends\<close> shows that it always has one. No other definition has fuel.

  Not modelled. The chain adapters, key management, mail and object storage (\<^verbatim>\<open>adapters\<close>, \<^verbatim>\<open>scanner\<close>, \<^verbatim>\<open>onchain\<close>) exchange messages with
  services whose behaviour is not in this repository; their clients carry little logic of their own beside the transactions of \<open>TronTx\<close>. The
  applications, the user interface and the scripts render or wire the commands. The read models (\<^verbatim>\<open>portal\<close>, \<^verbatim>\<open>reporting\<close>, the views of \<^verbatim>\<open>traders\<close>)
  are queries of the database's text. Legs, movements and route settlements of \<^verbatim>\<open>settlement\<close>, the requests and quotes before a trade, clients,
  traders, and the holds and entries of the network budget are left: \<open>Desk\<close> lets legs and settlements change in any way their tables allow.
\<close>

end
